(* ===== verification/Py_Prelude.thy ===== *)
theory Py_Prelude
  imports Complex_Main "HOL-Library.Char_ord" "HOL-Library.List_Lexorder"
    "HOL-Library.Product_Lexorder" "HOL-Library.Log_Nat"
begin

text \<open>
  Shared ground of the development: Python exceptions as values, the result type every
  fallible operation returns, SQL-style tables as lists of rows, the generic notion of a
  system of steps with an invariant, and the list and option lemmas the components use.

  The collections declared here carry the component proofs: \<open>result_simps\<close> opens the
  result combinators, \<open>table_simps\<close> opens updates and lookups of tables.
\<close>

named_theorems result_simps
named_theorems table_simps

section \<open>Exceptions and results\<close>

text \<open>
  The exceptions the modelled code raises or lets escape. Messages are kept where the source
  gives one, since several callers distinguish branches by them.
\<close>

datatype py_error =
    ValueError string
  | KeyError string
  | TypeError string
  | IndexError
  | OverflowError
  | ZeroDivisionError
  | AttributeError string
  | IntegrityError string
  | ChunkRejected string
  | ChunkBusy string
  | OSError string

type_synonym 'a result = "py_error + 'a"

definition bindr :: "'a result \<Rightarrow> ('a \<Rightarrow> 'b result) \<Rightarrow> 'b result" where
  "bindr m f = (case m of Inl e \<Rightarrow> Inl e | Inr x \<Rightarrow> f x)"

definition raise_if :: "bool \<Rightarrow> py_error \<Rightarrow> 'a result \<Rightarrow> 'a result" where
  "raise_if c e k = (if c then Inl e else k)"

fun mapr :: "('a \<Rightarrow> 'b result) \<Rightarrow> 'a list \<Rightarrow> 'b list result" where
  "mapr f [] = Inr []"
| "mapr f (x # xs) = bindr (f x) (\<lambda>y. bindr (mapr f xs) (\<lambda>ys. Inr (y # ys)))"

fun foldr_result :: "('a \<Rightarrow> 's \<Rightarrow> 's result) \<Rightarrow> 'a list \<Rightarrow> 's \<Rightarrow> 's result" where
  "foldr_result f [] s = Inr s"
| "foldr_result f (x # xs) s = bindr (f x s) (foldr_result f xs)"

lemma bindr_simps [simp, result_simps]:
  "bindr (Inl e) f = Inl e"
  "bindr (Inr x) f = f x"
  by (simp_all add: bindr_def)

lemma bindr_eq_Inr [simp, result_simps]:
  "bindr m f = Inr y \<longleftrightarrow> (\<exists>x. m = Inr x \<and> f x = Inr y)"
  by (auto simp: bindr_def split: sum.splits)

lemma bindr_eq_Inl [result_simps]:
  "bindr m f = Inl e \<longleftrightarrow> m = Inl e \<or> (\<exists>x. m = Inr x \<and> f x = Inl e)"
  by (auto simp: bindr_def split: sum.splits)

lemma bindr_cong [fundef_cong]:
  "m = m' \<Longrightarrow> (\<And>x. m' = Inr x \<Longrightarrow> f x = g x) \<Longrightarrow> bindr m f = bindr m' g"
  by (cases m') (simp_all add: bindr_def)

lemma bindr_assoc: "bindr (bindr m f) g = bindr m (\<lambda>x. bindr (f x) g)"
  by (cases m) simp_all

lemma raise_if_simps [simp, result_simps]:
  "raise_if c e k = Inr y \<longleftrightarrow> \<not> c \<and> k = Inr y"
  "raise_if True e k = Inl e"
  "raise_if False e k = k"
  by (auto simp: raise_if_def)

lemma raise_if_eq_Inl [result_simps]:
  "raise_if c e k = Inl e' \<longleftrightarrow> (c \<and> e' = e) \<or> (\<not> c \<and> k = Inl e')"
  by (auto simp: raise_if_def)

lemma mapr_Inr_length: "mapr f xs = Inr ys \<Longrightarrow> length ys = length xs"
  by (induction xs arbitrary: ys) auto

lemma mapr_Inr_iff: "mapr f xs = Inr ys \<longleftrightarrow> list_all2 (\<lambda>x y. f x = Inr y) xs ys"
proof (induction xs arbitrary: ys)
  case Nil
  then show ?case by auto
next
  case (Cons x xs)
  then show ?case by (auto simp: list_all2_Cons1)
qed

lemma list_all2_left: "list_all2 P xs ys \<Longrightarrow> x \<in> set xs \<Longrightarrow> \<exists>y \<in> set ys. P x y"
  by (induction rule: list_all2_induct) auto

lemma list_all2_right: "list_all2 P xs ys \<Longrightarrow> y \<in> set ys \<Longrightarrow> \<exists>x \<in> set xs. P x y"
  by (induction rule: list_all2_induct) auto

lemma mapr_cong [fundef_cong]:
  "xs = ys \<Longrightarrow> (\<And>x. x \<in> set ys \<Longrightarrow> f x = g x) \<Longrightarrow> mapr f xs = mapr g ys"
proof (induction ys arbitrary: xs)
  case (Cons y ys)
  have "mapr f ys = mapr g ys" by (rule Cons.IH) (use Cons.prems in auto)
  with Cons.prems show ?case by simp
qed simp

lemma foldr_result_invariant:
  assumes "foldr_result f xs s = Inr s'" and "P s"
    and "\<And>x s s'. x \<in> set xs \<Longrightarrow> f x s = Inr s' \<Longrightarrow> P s \<Longrightarrow> P s'"
  shows "P s'"
  using assms
proof (induction xs arbitrary: s)
  case (Cons x xs)
  then obtain s1 where s1: "f x s = Inr s1" and rest: "foldr_result f xs s1 = Inr s'" by auto
  from s1 Cons.prems(2,3) have "P s1" by auto
  with rest show ?case by (rule Cons.IH) (use Cons.prems(3) in auto)
qed simp

section \<open>Tables\<close>

text \<open>
  A table is the list of its rows in insertion order. \<open>upd_where\<close> is
  \<^verbatim>\<open>UPDATE t SET ... WHERE P\<close>, \<open>filter\<close> is \<^verbatim>\<open>SELECT * FROM t WHERE P\<close>, and
  \<open>row_by\<close> is the \<^verbatim>\<open>fetchone()\<close> of a query by primary key.
\<close>

definition upd_where :: "('r \<Rightarrow> bool) \<Rightarrow> ('r \<Rightarrow> 'r) \<Rightarrow> 'r list \<Rightarrow> 'r list" where
  "upd_where P f t = map (\<lambda>r. if P r then f r else r) t"

definition row_by :: "('r \<Rightarrow> 'k) \<Rightarrow> 'k \<Rightarrow> 'r list \<Rightarrow> 'r option" where
  "row_by key k t = List.find (\<lambda>r. key r = k) t"

lemma upd_where_Nil [simp, table_simps]: "upd_where P f [] = []"
  by (simp add: upd_where_def)

lemma upd_where_Cons [simp, table_simps]:
  "upd_where P f (r # t) = (if P r then f r else r) # upd_where P f t"
  by (simp add: upd_where_def)

lemma upd_where_append [simp, table_simps]:
  "upd_where P f (t @ u) = upd_where P f t @ upd_where P f u"
  by (simp add: upd_where_def)

lemma length_upd_where [simp, table_simps]: "length (upd_where P f t) = length t"
  by (simp add: upd_where_def)

lemma set_upd_where [table_simps]:
  "set (upd_where P f t) = (\<lambda>r. if P r then f r else r) ` set t"
  by (simp add: upd_where_def)

lemma ball_upd_where [table_simps]:
  "(\<forall>r \<in> set (upd_where P f t). Q r) \<longleftrightarrow> (\<forall>r \<in> set t. if P r then Q (f r) else Q r)"
  by (auto simp: set_upd_where)

lemma map_key_upd_where [simp, table_simps]:
  "(\<And>r. key (f r) = key r) \<Longrightarrow> map key (upd_where P f t) = map key t"
  by (simp add: upd_where_def)

lemma image_key_upd_where [simp, table_simps]:
  "(\<And>r. key (f r) = key r) \<Longrightarrow> key ` set (upd_where P f t) = key ` set t"
  by (simp flip: set_map)

lemma in_upd_whereE:
  assumes "r \<in> set (upd_where P f t)"
  obtains r0 where "r0 \<in> set t" and "P r0" and "r = f r0"
  | "r \<in> set t" and "\<not> P r"
  using assms by (auto simp: set_upd_where)

lemma in_upd_where_keep: "r \<in> set t \<Longrightarrow> \<not> P r \<Longrightarrow> r \<in> set (upd_where P f t)"
  by (force simp: set_upd_where)

lemma in_upd_where_change: "r \<in> set t \<Longrightarrow> P r \<Longrightarrow> f r \<in> set (upd_where P f t)"
  by (force simp: set_upd_where)

lemma row_by_Nil [simp, table_simps]: "row_by key k [] = None"
  by (simp add: row_by_def)

lemma row_by_Cons [simp, table_simps]:
  "row_by key k (r # t) = (if key r = k then Some r else row_by key k t)"
  by (simp add: row_by_def)

lemma row_by_append [simp, table_simps]:
  "row_by key k (t @ u) = (case row_by key k t of None \<Rightarrow> row_by key k u | Some r \<Rightarrow> Some r)"
  by (induction t) auto

lemma row_by_SomeD: "row_by key k t = Some r \<Longrightarrow> r \<in> set t \<and> key r = k"
  by (induction t) (auto split: if_splits)

lemma row_by_None_iff [table_simps]: "row_by key k t = None \<longleftrightarrow> k \<notin> key ` set t"
  by (induction t) auto

lemma row_by_in_set:
  "distinct (map key t) \<Longrightarrow> r \<in> set t \<Longrightarrow> row_by key (key r) t = Some r"
  by (induction t) force+

lemma row_by_unique:
  "distinct (map key t) \<Longrightarrow> r \<in> set t \<Longrightarrow> row_by key k t = Some r' \<Longrightarrow> key r = k \<Longrightarrow> r = r'"
  using row_by_in_set [of key t r] by simp

lemma row_by_upd_where [table_simps]:
  "(\<And>r. key (f r) = key r) \<Longrightarrow>
     row_by key k (upd_where P f t) = map_option (\<lambda>r. if P r then f r else r) (row_by key k t)"
  by (induction t) auto

lemma distinct_key_inj:
  "distinct (map key t) \<Longrightarrow> r \<in> set t \<Longrightarrow> r' \<in> set t \<Longrightarrow> key r = key r' \<Longrightarrow> r = r'"
  by (auto simp: distinct_map dest: inj_onD)

section \<open>Folds\<close>

lemma fold_invariant_set:
  assumes "P s" and "\<And>x s. x \<in> set xs \<Longrightarrow> P s \<Longrightarrow> P (f x s)"
  shows "P (fold f xs s)"
  using assms by (induction xs arbitrary: s) auto

lemma list_all2_ex_left: "list_all2 R xs ys \<Longrightarrow> y \<in> set ys \<Longrightarrow> \<exists>x \<in> set xs. R x y"
  by (induction rule: list_all2_induct) auto

lemma list_all2_ex_right: "list_all2 R xs ys \<Longrightarrow> x \<in> set xs \<Longrightarrow> \<exists>y \<in> set ys. R x y"
  by (induction rule: list_all2_induct) auto

section \<open>Dicts\<close>

text \<open>\<^verbatim>\<open>d[k] = v\<close> and \<^verbatim>\<open>d.update(...)\<close> on the items of a dict.\<close>

fun dict_set :: "'k \<Rightarrow> 'v \<Rightarrow> ('k \<times> 'v) list \<Rightarrow> ('k \<times> 'v) list" where
  "dict_set k v [] = [(k, v)]"
| "dict_set k v ((k', v') # d) = (if k = k' then (k, v) # d else (k', v') # dict_set k v d)"

definition dict_update :: "(string \<times> 'v) list \<Rightarrow> (string \<times> 'v) list \<Rightarrow> (string \<times> 'v) list" where
  "dict_update new d = fold (\<lambda>(k, v). dict_set k v) new d"

text \<open>The dict comprehension \<^verbatim>\<open>{k: v for k, v in d.items() if k in ks}\<close>.\<close>

definition dict_keep :: "string list \<Rightarrow> (string \<times> 'v) list \<Rightarrow> (string \<times> 'v) list" where
  "dict_keep ks d = filter (\<lambda>(k, v). k \<in> set ks) d"

definition keys_within :: "string list \<Rightarrow> (string \<times> 'v) list \<Rightarrow> bool" where
  "keys_within ks d \<longleftrightarrow> set (map fst d) \<subseteq> set ks"

lemma set_keys_dict_set: "set (map fst (dict_set k v d)) = insert k (set (map fst d))"
  by (induction k v d rule: dict_set.induct) (simp_all add: insert_commute)

lemma map_of_dict_set: "map_of (dict_set k v d) = (map_of d)(k \<mapsto> v)"
  by (induction d) (auto simp: fun_eq_iff)

lemma dict_update_simps:
  "dict_update [] d = d"
  "dict_update ((k, v) # new) d = dict_update new (dict_set k v d)"
  by (simp_all add: dict_update_def)

lemma map_of_dict_update: "map_of (dict_update new d) j = (case map_of (rev new) j of Some v \<Rightarrow> Some v | None \<Rightarrow> map_of d j)"
  unfolding dict_update_def
  by (induction new arbitrary: d) (auto simp: map_of_dict_set map_add_def split: option.splits)

lemma keys_within_dict_set:
  "k \<in> set ks \<Longrightarrow> keys_within ks d \<Longrightarrow> keys_within ks (dict_set k v d)"
  unfolding keys_within_def set_keys_dict_set by simp

lemma keys_within_dict_update:
  "set (map fst new) \<subseteq> set ks \<Longrightarrow> keys_within ks d \<Longrightarrow> keys_within ks (dict_update new d)"
  by (induction new arbitrary: d) (auto simp: dict_update_simps keys_within_dict_set)

lemma keys_within_dict_keep: "set ks \<subseteq> set ks' \<Longrightarrow> keys_within ks' (dict_keep ks d)"
  by (auto simp: keys_within_def dict_keep_def)

lemma dict_set_twice [simp]: "dict_set k v (dict_set k v' d) = dict_set k v d"
  by (induction d) auto

lemma dict_set_same: "map_of d k = Some v \<Longrightarrow> dict_set k v d = d"
  by (induction d) (auto split: if_splits)

lemma distinct_dict_set: "distinct (map fst d) \<Longrightarrow> distinct (map fst (dict_set k v d))"
  by (induction d) (auto simp: set_keys_dict_set [simplified])

lemma sum_dict_set:
  fixes g :: "'k \<times> 'v \<Rightarrow> int"
  shows "sum_list (map g (dict_set k v d))
    = sum_list (map g d) + g (k, v) - (case map_of d k of None \<Rightarrow> 0 | Some v0 \<Rightarrow> g (k, v0))"
  by (induction d) (auto split: option.splits)

lemma in_dict_set:
  "distinct (map fst d) \<Longrightarrow> x \<in> set (dict_set k v d) \<longleftrightarrow> x = (k, v) \<or> (x \<in> set d \<and> fst x \<noteq> k)"
  by (induction d) force+

lemma in_dict_setD: "x \<in> set (dict_set k v d) \<Longrightarrow> x = (k, v) \<or> x \<in> set d"
  by (induction d) (auto split: if_splits)

lemma map_of_filter_key:
  "map_of (filter (\<lambda>(k, _). P k) xs) k = (if P k then map_of xs k else None)"
  by (induction xs) auto

section \<open>Evaluation of characters\<close>

text \<open>Code equations that compare characters by their bits, so that string tests evaluate fast.\<close>

lemma bit_less: "of_bool x + 2 * X < of_bool y + 2 * (Y :: nat) \<longleftrightarrow> X < Y \<or> X = Y \<and> \<not> x \<and> y"
  by (cases x; cases y) auto

lemma bit_eq: "of_bool x + 2 * X = of_bool y + 2 * (Y :: nat) \<longleftrightarrow> X = Y \<and> x = y"
proof (cases "x = y")
  case False
  then show ?thesis by (cases x; simp; presburger)
qed auto

lemma nat_of_char:
  "(of_char (Char b0 b1 b2 b3 b4 b5 b6 b7) :: nat) = of_bool b0 + 2 * (of_bool b1 + 2 * (of_bool b2 + 2 * (of_bool b3
     + 2 * (of_bool b4 + 2 * (of_bool b5 + 2 * (of_bool b6 + 2 * (of_bool b7 + 2 * 0)))))))"
  by (simp add: of_char_Char)

fun lex_less :: "bool list \<Rightarrow> bool list \<Rightarrow> bool" where
  "lex_less (x # xs) (y # ys) = (if x = y then lex_less xs ys else y)"
| "lex_less _ _ = False"

lemma char_less_code [code]:
  "Char a0 a1 a2 a3 a4 a5 a6 a7 < Char b0 b1 b2 b3 b4 b5 b6 b7
     \<longleftrightarrow> lex_less [a7, a6, a5, a4, a3, a2, a1, a0] [b7, b6, b5, b4, b3, b2, b1, b0]"
  unfolding less_char_def nat_of_char bit_less bit_eq by auto

lemma char_le_code [code]:
  "Char a0 a1 a2 a3 a4 a5 a6 a7 \<le> Char b0 b1 b2 b3 b4 b5 b6 b7
     \<longleftrightarrow> \<not> lex_less [b7, b6, b5, b4, b3, b2, b1, b0] [a7, a6, a5, a4, a3, a2, a1, a0]"
  by (subst char_less_code [symmetric]) (rule linorder_not_less [symmetric])


section \<open>Systems of steps\<close>

text \<open>
  A component whose operations are called in any order is a set of initial states and a step
  relation. What every step keeps holds in every reachable state; the locale proves it once,
  and each component interprets it with its own step relation and invariant.
\<close>

inductive reachable_from :: "('s \<Rightarrow> bool) \<Rightarrow> ('s \<Rightarrow> 's \<Rightarrow> bool) \<Rightarrow> 's \<Rightarrow> bool"
  for init step where
  start: "init s \<Longrightarrow> reachable_from init step s"
| later: "reachable_from init step s \<Longrightarrow> step s t \<Longrightarrow> reachable_from init step t"

locale invariant_system =
  fixes init :: "'s \<Rightarrow> bool"
    and step :: "'s \<Rightarrow> 's \<Rightarrow> bool"
    and inv :: "'s \<Rightarrow> bool"
  assumes inv_init: "init s \<Longrightarrow> inv s"
    and inv_step: "inv s \<Longrightarrow> step s t \<Longrightarrow> inv t"
begin

lemma inv_reachable: "reachable_from init step s \<Longrightarrow> inv s"
  by (induction rule: reachable_from.induct) (auto intro: inv_init inv_step)

lemma inv_steps: "step\<^sup>*\<^sup>* s t \<Longrightarrow> inv s \<Longrightarrow> inv t"
  by (induction rule: rtranclp_induct) (auto intro: inv_step)

lemma inv_step_stable:
  assumes "step\<^sup>*\<^sup>* s t" and "inv s" and "P s"
    and "\<And>s t. inv s \<Longrightarrow> P s \<Longrightarrow> step s t \<Longrightarrow> P t"
  shows "P t"
  using assms
proof (induction rule: rtranclp_induct)
  case (step t u)
  then have "inv t" and "P t" by (auto intro: inv_steps)
  with step show ?case by blast
qed

end

end
