(* ===== verification/Py_Values.thy ===== *)
theory Py_Values
  imports Py_Prelude
begin

text \<open>
  Python values as the program handles them: IEEE binary64 numbers with their rounding, the
  dynamically typed values that come out of \<^verbatim>\<open>json.loads\<close>, the canonical JSON text of
  \<^verbatim>\<open>json.dumps(sort_keys=True, separators=(",", ":"), ensure_ascii=False, allow_nan=False)\<close>,
  and the regular expressions the validators use, as predicates on strings. A string is the
  list of its UTF-8 bytes.
\<close>

section \<open>Binary64 numbers\<close>

datatype pyfloat = Fin rat | PosInf | NegInf | NaN

definition round_half_even :: "rat \<Rightarrow> int" where
  "round_half_even x =
     (let f = \<lfloor>x\<rfloor>; d = x - of_int f
      in if d < 1 / 2 then f else if 1 / 2 < d then f + 1 else if even f then f else f + 1)"

text \<open>\<open>ilog2 x\<close> is the exponent \<open>e\<close> with \<open>2 ^ e \<le> x < 2 ^ (e + 1)\<close>, for positive \<open>x\<close>.\<close>

definition ilog2 :: "rat \<Rightarrow> int" where
  "ilog2 x =
     (let n = nat (fst (quotient_of x)); d = nat (snd (quotient_of x));
          g = int (floorlog 2 n) - int (floorlog 2 d)
      in if 2 powi g \<le> x then g else g - 1)"

definition ulp_exp :: "rat \<Rightarrow> int" where
  "ulp_exp x = max (ilog2 \<bar>x\<bar> - 52) (- 1074)"

definition round64 :: "rat \<Rightarrow> rat" where
  "round64 x = (if x = 0 then 0
     else of_int (round_half_even (x / 2 powi ulp_exp x)) * 2 powi ulp_exp x)"

definition to_float :: "rat \<Rightarrow> pyfloat" where
  "to_float x = (let y = round64 x
     in if 2 ^ 1024 \<le> y then PosInf else if y \<le> - (2 ^ 1024) then NegInf else Fin y)"

lemma round_half_even_le: "\<bar>of_int (round_half_even x) - x\<bar> \<le> 1 / 2"
proof -
  have "of_int \<lfloor>x\<rfloor> \<le> x" and "x < of_int \<lfloor>x\<rfloor> + 1" by linarith+
  then show ?thesis by (auto simp: round_half_even_def Let_def abs_le_iff)
qed

lemma round_half_even_of_int [simp]: "round_half_even (of_int n) = n"
  by (simp add: round_half_even_def)

lemma round_half_even_nonneg: "0 \<le> x \<Longrightarrow> 0 \<le> round_half_even x"
  by (auto simp: round_half_even_def Let_def)

lemma round_half_even_nonpos: "x \<le> 0 \<Longrightarrow> round_half_even x \<le> 0"
proof -
  assume "x \<le> 0"
  then have "\<lfloor>x\<rfloor> \<le> 0" by linarith
  moreover have "\<lfloor>x\<rfloor> = 0 \<Longrightarrow> x = 0" using \<open>x \<le> 0\<close> by linarith
  ultimately show ?thesis
    by (cases "\<lfloor>x\<rfloor> = 0") (auto simp: round_half_even_def Let_def)
qed

text \<open>Evaluation: the binary length on integers, and the bound \<open>2 ^ 1024\<close> as a numeral.\<close>

function blen :: "int \<Rightarrow> int" where
  "blen n = (if n \<le> 0 then 0 else 1 + blen (n div 2))"
  by pat_completeness auto
termination by (relation "measure nat") auto

declare blen.simps [simp del]

lemma blen_floorlog: "blen (int n) = int (floorlog 2 n)"
proof (induction n rule: less_induct)
  case (less n)
  show ?case
  proof (cases "n = 0")
    case False
    then have "blen (int n) = 1 + blen (int (n div 2))" by (subst blen.simps) (simp add: zdiv_int)
    with less [of "n div 2"] False show ?thesis by (simp add: compute_floorlog)
  qed (simp add: blen.simps floorlog_def)
qed

lemma powi_split: "(2 :: rat) powi e = of_int (2 ^ nat e) / of_int (2 ^ nat (- e))"
  by (cases "0 \<le> e") (auto simp: power_int_def power_inverse field_simps)

lemma powi_le_iff:
  assumes "quotient_of x = (n, d)"
  shows "2 powi g \<le> x \<longleftrightarrow> 2 ^ nat g * d \<le> n * 2 ^ nat (- g)"
proof -
  have d: "0 < d" using quotient_of_denom_pos [OF assms] .
  have "2 powi g \<le> x \<longleftrightarrow> (of_int (2 ^ nat g) :: rat) / of_int (2 ^ nat (- g)) \<le> of_int n / of_int d"
    using quotient_of_div [OF assms] by (simp add: powi_split)
  also have "\<dots> \<longleftrightarrow> (of_int (2 ^ nat g * d) :: rat) \<le> of_int (n * 2 ^ nat (- g))"
    using d by (simp add: field_simps)
  finally show ?thesis unfolding of_int_le_iff .
qed

lemma ilog2_code [code]:
  "ilog2 x = (let (n, d) = quotient_of x; g = blen n - blen d in if 2 ^ nat g * d \<le> n * 2 ^ nat (- g) then g else g - 1)"
proof -
  have "blen k = int (floorlog 2 (nat k))" for k
    using blen_floorlog [of "nat k"] by (cases "0 \<le> k") (auto simp: blen.simps floorlog_def)
  then show ?thesis by (simp add: ilog2_def Let_def powi_le_iff split: prod.split)
qed

definition half_even_div :: "int \<Rightarrow> int \<Rightarrow> int" where
  "half_even_div a b = (let f = a div b; r = 2 * (a mod b)
     in if r < b then f else if b < r then f + 1 else if even f then f else f + 1)"

lemma round_half_even_div:
  assumes "0 < b"
  shows "round_half_even (of_int a / of_int b) = half_even_div a b"
proof -
  have fl: "\<lfloor>(of_int a :: rat) / of_int b\<rfloor> = a div b" by (rule floor_divide_of_int_eq)
  have "(of_int a :: rat) = of_int (a mod b) + of_int b * of_int (a div b)" by (simp flip: of_int_mult of_int_add)
  then have d: "(of_int a :: rat) / of_int b - of_int (a div b) = of_int (a mod b) / of_int b"
    using assms by (simp add: field_simps)
  have "(of_int (a mod b) :: rat) / of_int b < 1 / 2 \<longleftrightarrow> (of_int (2 * (a mod b)) :: rat) < of_int b"
    "1 / 2 < (of_int (a mod b) :: rat) / of_int b \<longleftrightarrow> (of_int b :: rat) < of_int (2 * (a mod b))"
    using assms by (simp_all add: field_simps)
  then show ?thesis unfolding round_half_even_def half_even_div_def Let_def fl d of_int_less_iff by simp
qed

lemma round64_code [code]:
  "round64 x = (if x = 0 then 0 else let (n, d) = quotient_of x; e = ulp_exp x; p = 2 ^ nat (- e); q = 2 ^ nat e
     in of_int (half_even_div (n * p) (d * q) * q) / of_int p)"
proof -
  obtain n d where x: "quotient_of x = (n, d)" by fastforce
  have "0 < d" using quotient_of_denom_pos [OF x] .
  moreover have "x / 2 powi e = of_int (n * 2 ^ nat (- e)) / of_int (d * 2 ^ nat e)" for e
    using quotient_of_div [OF x] by (simp add: powi_split)
  ultimately have "round_half_even (x / 2 powi e) = half_even_div (n * 2 ^ nat (- e)) (d * 2 ^ nat e)" for e
    by (metis round_half_even_div mult_pos_pos zero_less_numeral zero_less_power)
  then show ?thesis by (simp add: round64_def x Let_def powi_split)
qed

lemma to_float_code [code]:
  "to_float x = (let y = round64 x; b = 179769313486231590772930519078902473361797697894230657273430081157732675805500963132708477322407536021120113879871393357658789768814416622492847430639474124377767893424865485276302219601246094119453082952085005768838150682342462881473913110540827237163350510684586298239947245938479716304835356329624224137216
     in if b \<le> y then PosInf else if y \<le> - b then NegInf else Fin y)"
  by (simp add: to_float_def Let_def)

lemma round64_nonneg: "0 \<le> x \<Longrightarrow> 0 \<le> round64 x"
  by (auto simp: round64_def intro!: mult_nonneg_nonneg round_half_even_nonneg divide_nonneg_nonneg)

lemma round64_nonpos: "x \<le> 0 \<Longrightarrow> round64 x \<le> 0"
  by (auto simp: round64_def intro!: mult_nonpos_nonneg round_half_even_nonpos divide_nonpos_nonneg)

lemma round64_0 [simp]: "round64 0 = 0"
  by (simp add: round64_def)

lemma ilog2_bounds:
  assumes "0 < x"
  shows "2 powi ilog2 x \<le> x" and "x < 2 powi (ilog2 x + 1)"
proof -
  obtain n d where q: "quotient_of x = (n, d)" by (cases "quotient_of x") auto
  have d: "0 < d" using quotient_of_denom_pos [OF q] .
  have x: "x = of_int n / of_int d" using quotient_of_div [OF q] .
  with assms d have n: "0 < n" by (simp add: zero_less_divide_iff)
  define a b where "a = nat n" and "b = nat d"
  have ab: "0 < a" "0 < b" and xab: "x = of_nat a / of_nat b"
    using n d x by (simp_all add: a_def b_def)
  define la lb where "la = floorlog 2 a" and "lb = floorlog 2 b"
  have lap: "0 < la" and lbp: "0 < lb"
    using ab by (simp_all add: la_def lb_def floorlog_def)
  have na: "2 ^ (la - 1) \<le> a \<and> a < 2 ^ la" and nb: "2 ^ (lb - 1) \<le> b \<and> b < 2 ^ lb"
    using floorlog_bounds [of a 2] floorlog_bounds [of b 2] ab unfolding la_def lb_def by auto
  have to_rat: "2 ^ i \<le> k \<Longrightarrow> (2 :: rat) ^ i \<le> of_nat k" "k < 2 ^ i \<Longrightarrow> (of_nat k :: rat) < 2 ^ i" for i k :: nat
    by (metis of_nat_le_iff of_nat_numeral of_nat_power) (metis of_nat_less_iff of_nat_numeral of_nat_power)
  have ua: "(of_nat a :: rat) < 2 ^ la" and ub: "(of_nat b :: rat) < 2 ^ lb"
    and lowa: "(2 :: rat) ^ (la - 1) \<le> of_nat a" and lowb: "(2 :: rat) ^ (lb - 1) \<le> of_nat b"
    using na nb to_rat by blast+
  let ?g = "int la - int lb"
  have pa: "(2 :: rat) ^ la = 2 * 2 ^ (la - 1)" and pb: "(2 :: rat) ^ lb = 2 * 2 ^ (lb - 1)"
    using lap lbp by (simp_all flip: power_Suc)
  have g: "(2 :: rat) powi ?g = 2 ^ la / 2 ^ lb"
    by (simp add: power_int_diff)
  have hi: "x < 2 powi (?g + 1)"
  proof -
    have "x * 2 ^ (lb - 1) \<le> of_nat a"
      using lowb ab by (simp add: xab field_simps)
    then have "x * 2 ^ (lb - 1) < 2 ^ la" using ua by linarith
    then have "x * 2 ^ lb < 2 * 2 ^ la" by (simp add: pb)
    then have "x < 2 * (2 ^ la / 2 ^ lb)" by (simp add: field_simps)
    then show ?thesis by (simp add: power_int_add g mult.commute)
  qed
  have lo: "2 powi (?g - 1) < x"
  proof -
    have "(2 :: rat) ^ (la - 1) * of_nat b < 2 ^ (la - 1) * 2 ^ lb"
      by (rule mult_strict_left_mono [OF ub]) simp
    also have "\<dots> \<le> of_nat a * 2 ^ lb" by (rule mult_right_mono [OF lowa]) simp
    finally have "2 ^ (la - 1) / 2 ^ lb < x"
      using ab by (simp add: xab field_simps)
    then show ?thesis by (simp add: power_int_diff g pa)
  qed
  have e: "ilog2 x = (if 2 powi ?g \<le> x then ?g else ?g - 1)"
    by (simp add: ilog2_def q Let_def la_def lb_def a_def b_def)
  show "2 powi ilog2 x \<le> x" using lo by (auto simp: e)
  show "x < 2 powi (ilog2 x + 1)" using hi by (auto simp: e)
qed

text \<open>
  The rounding error of a binary64 operation in the normal range: at most one part in
  \<open>2 ^ 53\<close> of the exact result.
\<close>

lemma round64_relative_error:
  assumes "2 powi (- 1022) \<le> \<bar>x\<bar>"
  shows "\<bar>round64 x - x\<bar> \<le> \<bar>x\<bar> / 2 ^ 53"
proof -
  have p: "0 < (2 :: rat) powi (- 1022)" by (rule zero_less_power_int) simp
  with assms have x: "0 < \<bar>x\<bar>" by linarith
  have "(2 :: rat) powi (- 1022) < 2 powi (ilog2 \<bar>x\<bar> + 1)"
    using assms ilog2_bounds(2) [OF x] by linarith
  then have "- 1022 < ilog2 \<bar>x\<bar> + 1"
    using power_int_increasing [of "ilog2 \<bar>x\<bar> + 1" "- 1022" "2 :: rat"] by force
  then have u: "ulp_exp x = ilog2 \<bar>x\<bar> - 52" by (simp add: ulp_exp_def)
  define p where "p = (2 :: rat) powi ulp_exp x"
  have p: "0 < p" by (simp add: p_def)
  have "p * 2 ^ 52 = 2 powi ilog2 \<bar>x\<bar>"
    by (simp add: p_def u power_int_diff)
  then have px: "p * 2 ^ 52 \<le> \<bar>x\<bar>" using ilog2_bounds(1) [OF x] by simp
  have "round64 x - x = (of_int (round_half_even (x / p)) - x / p) * p"
    using x p by (simp add: round64_def p_def left_diff_distrib)
  then have "\<bar>round64 x - x\<bar> = \<bar>of_int (round_half_even (x / p)) - x / p\<bar> * p"
    using p by (simp add: abs_mult)
  also have "\<dots> \<le> 1 / 2 * p"
    using round_half_even_le p by (intro mult_right_mono) auto
  also have "\<dots> \<le> \<bar>x\<bar> / 2 ^ 53" using px by (simp add: field_simps)
  finally show ?thesis .
qed


text \<open>Float operations: the exact result, rounded; NaN and the infinities as in IEEE 754.\<close>

fun pf_add :: "pyfloat \<Rightarrow> pyfloat \<Rightarrow> pyfloat" where
  "pf_add (Fin a) (Fin b) = to_float (a + b)"
| "pf_add NaN _ = NaN"
| "pf_add _ NaN = NaN"
| "pf_add PosInf NegInf = NaN"
| "pf_add NegInf PosInf = NaN"
| "pf_add PosInf _ = PosInf"
| "pf_add _ PosInf = PosInf"
| "pf_add NegInf _ = NegInf"
| "pf_add _ NegInf = NegInf"

fun pf_isfinite :: "pyfloat \<Rightarrow> bool" where
  "pf_isfinite (Fin _) = True"
| "pf_isfinite _ = False"

fun pf_less :: "pyfloat \<Rightarrow> pyfloat \<Rightarrow> bool" where
  "pf_less NaN _ = False"
| "pf_less _ NaN = False"
| "pf_less (Fin a) (Fin b) = (a < b)"
| "pf_less PosInf _ = False"
| "pf_less _ PosInf = True"
| "pf_less _ NegInf = False"
| "pf_less NegInf _ = True"

text \<open>\<^verbatim>\<open>float(n)\<close> of an integer too large for binary64 raises.\<close>

definition float_of_int :: "int \<Rightarrow> pyfloat result" where
  "float_of_int n = (case to_float (of_int n) of Fin r \<Rightarrow> Inr (Fin r) | _ \<Rightarrow> Inl OverflowError)"

section \<open>Dynamically typed values\<close>

datatype pyval =
    PNone
  | PBool bool
  | PInt int
  | PFloat pyfloat
  | PStr string
  | PList "pyval list"
  | PDict "(string \<times> pyval) list"

text \<open>
  \<^verbatim>\<open>d.get(k)\<close> of a dict, and of anything else: the sources only call it after an
  \<^verbatim>\<open>isinstance(d, dict)\<close> test, so the other cases are the missing key.
\<close>

fun pget :: "string \<Rightarrow> pyval \<Rightarrow> pyval" where
  "pget k (PDict d) = (case map_of d k of None \<Rightarrow> PNone | Some v \<Rightarrow> v)"
| "pget k _ = PNone"

fun phas :: "string \<Rightarrow> pyval \<Rightarrow> bool" where
  "phas k (PDict d) = (map_of d k \<noteq> None)"
| "phas k _ = False"

fun pkeys :: "pyval \<Rightarrow> string list" where
  "pkeys (PDict d) = map fst d"
| "pkeys _ = []"

text \<open>\<^verbatim>\<open>d[k]\<close>.\<close>

definition pindex :: "pyval \<Rightarrow> string \<Rightarrow> pyval result" where
  "pindex d k = (case d of PDict kv \<Rightarrow> (case map_of kv k of None \<Rightarrow> Inl (KeyError k) | Some v \<Rightarrow> Inr v)
     | _ \<Rightarrow> Inl (TypeError ''not subscriptable''))"

fun is_dict :: "pyval \<Rightarrow> bool" where
  "is_dict (PDict _) = True" | "is_dict _ = False"

fun is_list :: "pyval \<Rightarrow> bool" where
  "is_list (PList _) = True" | "is_list _ = False"

fun is_str :: "pyval \<Rightarrow> bool" where
  "is_str (PStr _) = True" | "is_str _ = False"

text \<open>\<^verbatim>\<open>type(x) is int\<close>: a bool is not one.\<close>

fun is_int_type :: "pyval \<Rightarrow> bool" where
  "is_int_type (PInt _) = True" | "is_int_type _ = False"

fun as_str :: "pyval \<Rightarrow> string option" where
  "as_str (PStr s) = Some s" | "as_str _ = None"

fun as_list :: "pyval \<Rightarrow> pyval list option" where
  "as_list (PList xs) = Some xs" | "as_list _ = None"

fun as_dict :: "pyval \<Rightarrow> (string \<times> pyval) list option" where
  "as_dict (PDict d) = Some d" | "as_dict _ = None"

text \<open>Truth of a value in \<^verbatim>\<open>if x\<close> and \<^verbatim>\<open>x or y\<close>.\<close>

fun truthy :: "pyval \<Rightarrow> bool" where
  "truthy PNone = False"
| "truthy (PBool b) = b"
| "truthy (PInt n) = (n \<noteq> 0)"
| "truthy (PFloat f) = (f \<noteq> Fin 0)"
| "truthy (PStr s) = (s \<noteq> [])"
| "truthy (PList xs) = (xs \<noteq> [])"
| "truthy (PDict d) = (d \<noteq> [])"

definition por :: "pyval \<Rightarrow> pyval \<Rightarrow> pyval" where
  "por x y = (if truthy x then x else y)"

section \<open>Strings\<close>

definition digit_char :: "nat \<Rightarrow> char" where
  "digit_char n = char_of (48 + n)"

fun show_nat :: "nat \<Rightarrow> string" where
  "show_nat n = (if n < 10 then [digit_char n] else show_nat (n div 10) @ [digit_char (n mod 10)])"

declare show_nat.simps [simp del]

definition show_int :: "int \<Rightarrow> string" where
  "show_int i = (if i < 0 then CHR ''-'' # show_nat (nat (- i)) else show_nat (nat i))"

definition is_digit :: "char \<Rightarrow> bool" where
  "is_digit c \<longleftrightarrow> CHR ''0'' \<le> c \<and> c \<le> CHR ''9''"

definition is_lower :: "char \<Rightarrow> bool" where
  "is_lower c \<longleftrightarrow> CHR ''a'' \<le> c \<and> c \<le> CHR ''z''"

definition is_upper :: "char \<Rightarrow> bool" where
  "is_upper c \<longleftrightarrow> CHR ''A'' \<le> c \<and> c \<le> CHR ''Z''"

definition is_hex_lower :: "char \<Rightarrow> bool" where
  "is_hex_lower c \<longleftrightarrow> is_digit c \<or> (CHR ''a'' \<le> c \<and> c \<le> CHR ''f'')"

definition is_hex :: "char \<Rightarrow> bool" where
  "is_hex c \<longleftrightarrow> is_hex_lower c \<or> (CHR ''A'' \<le> c \<and> c \<le> CHR ''F'')"

text \<open>\<^verbatim>\<open>re.fullmatch(r"[0-9a-f]{n}", s)\<close>.\<close>

definition hex_string :: "nat \<Rightarrow> string \<Rightarrow> bool" where
  "hex_string n s \<longleftrightarrow> length s = n \<and> list_all is_hex_lower s"

text \<open>\<^verbatim>\<open>re.fullmatch(r"[A-Za-z0-9_. -]{1,120}", s)\<close>.\<close>

definition reason_text :: "string \<Rightarrow> bool" where
  "reason_text s \<longleftrightarrow> 1 \<le> length s \<and> length s \<le> 120 \<and>
     list_all (\<lambda>c. is_lower c \<or> is_upper c \<or> is_digit c \<or> c \<in> {CHR ''_'', CHR ''.'', CHR '' '', CHR ''-''}) s"

definition lower_char :: "char \<Rightarrow> char" where
  "lower_char c = (if is_upper c then char_of (of_char c + (32 :: nat)) else c)"

definition lower :: "string \<Rightarrow> string" where
  "lower s = map lower_char s"

definition upper_char :: "char \<Rightarrow> char" where
  "upper_char c = (if is_lower c then char_of (of_char c - (32 :: nat)) else c)"

definition upper :: "string \<Rightarrow> string" where
  "upper s = map upper_char s"

definition starts_with :: "string \<Rightarrow> string \<Rightarrow> bool" where
  "starts_with p s \<longleftrightarrow> take (length p) s = p"

fun is_infix :: "string \<Rightarrow> string \<Rightarrow> bool" where
  "is_infix p [] = (p = [])"
| "is_infix p (c # s) = (starts_with p (c # s) \<or> is_infix p s)"

text \<open>\<^verbatim>\<open>s.strip()\<close> is empty: every character is ASCII white space.\<close>

definition is_space :: "char \<Rightarrow> bool" where
  "is_space c \<longleftrightarrow> c = CHR '' '' \<or> (CHR 0x09 \<le> c \<and> c \<le> CHR 0x0D) \<or> (CHR 0x1C \<le> c \<and> c \<le> CHR 0x1F)"

definition blank :: "string \<Rightarrow> bool" where
  "blank s \<longleftrightarrow> list_all is_space s"

lemma show_nat_nonempty [simp]: "show_nat n \<noteq> []" "[] \<noteq> show_nat n"
  by (subst show_nat.simps, simp)+

lemma digit_char_inj: "a < 10 \<Longrightarrow> b < 10 \<Longrightarrow> digit_char a = digit_char b \<Longrightarrow> a = b"
  by (simp add: digit_char_def char_of_eq_iff take_bit_eq_mod)

lemma show_nat_inject: "show_nat m = show_nat n \<Longrightarrow> m = n"
proof (induction m arbitrary: n rule: show_nat.induct)
  case (1 m)
  show ?case
  proof (cases "m < 10 \<or> n < 10")
    case True
    with "1.prems" show ?thesis
      by (auto simp: show_nat.simps [of m] show_nat.simps [of n] dest: digit_char_inj split: if_splits)
  next
    case False
    with "1.prems" have "show_nat (m div 10) = show_nat (n div 10)"
      and "digit_char (m mod 10) = digit_char (n mod 10)"
      by (simp_all add: show_nat.simps [of m] show_nat.simps [of n])
    with False "1.IH" have "m div 10 = n div 10" and "m mod 10 = n mod 10"
      by (auto dest: digit_char_inj [rotated 2])
    then show ?thesis by (metis div_mult_mod_eq)
  qed
qed


section \<open>Canonical JSON text\<close>

definition hex_digit :: "nat \<Rightarrow> char" where
  "hex_digit n = (if n < 10 then digit_char n else char_of (87 + n))"

definition json_escape_char :: "char \<Rightarrow> string" where
  "json_escape_char c =
     (let n = of_char c :: nat
      in if n = 0x22 then [CHR 0x5C, CHR 0x22]
         else if n = 0x5C then [CHR 0x5C, CHR 0x5C]
         else if n = 0x0A then [CHR 0x5C, CHR ''n'']
         else if n = 0x0D then [CHR 0x5C, CHR ''r'']
         else if n = 0x09 then [CHR 0x5C, CHR ''t'']
         else if n = 0x0C then [CHR 0x5C, CHR ''f'']
         else if n = 0x08 then [CHR 0x5C, CHR ''b'']
         else if n < 0x20 then [CHR 0x5C, CHR ''u'', CHR ''0'', CHR ''0'', hex_digit (n div 16), hex_digit (n mod 16)]
         else [c])"

lemma char_eq_code: "of_char d = (n :: nat) \<Longrightarrow> (of_char c = n) \<longleftrightarrow> c = d"
  by (auto dest: of_char_eq_iff [THEN iffD1])

lemma escaped_chars:
  "of_char c = (0x22 :: nat) \<longleftrightarrow> c = CHR 0x22" "of_char c = (0x5C :: nat) \<longleftrightarrow> c = CHR 0x5C" "of_char c = (0x0A :: nat) \<longleftrightarrow> c = CHR 0x0A"
  "of_char c = (0x0D :: nat) \<longleftrightarrow> c = CHR 0x0D" "of_char c = (0x09 :: nat) \<longleftrightarrow> c = CHR 0x09" "of_char c = (0x0C :: nat) \<longleftrightarrow> c = CHR 0x0C"
  "of_char c = (0x08 :: nat) \<longleftrightarrow> c = CHR 0x08" "of_char c < (0x20 :: nat) \<longleftrightarrow> c < CHR 0x20"
  by (rule char_eq_code, simp)+ (simp add: less_char_def)

lemma json_escape_char_code [code]:
  "json_escape_char c =
     (if c = CHR 0x22 then [CHR 0x5C, CHR 0x22]
      else if c = CHR 0x5C then [CHR 0x5C, CHR 0x5C]
      else if c = CHR 0x0A then [CHR 0x5C, CHR ''n'']
      else if c = CHR 0x0D then [CHR 0x5C, CHR ''r'']
      else if c = CHR 0x09 then [CHR 0x5C, CHR ''t'']
      else if c = CHR 0x0C then [CHR 0x5C, CHR ''f'']
      else if c = CHR 0x08 then [CHR 0x5C, CHR ''b'']
      else if c < CHR 0x20 then [CHR 0x5C, CHR ''u'', CHR ''0'', CHR ''0'', hex_digit (of_char c div 16), hex_digit (of_char c mod 16)]
      else [c])"
  unfolding json_escape_char_def Let_def escaped_chars by (rule refl)
definition json_string :: "string \<Rightarrow> string" where
  "json_string s = CHR 0x22 # concat (map json_escape_char s) @ [CHR 0x22]"

fun join :: "string \<Rightarrow> string list \<Rightarrow> string" where
  "join sep [] = []"
| "join sep [s] = s"
| "join sep (s # t # ts) = s @ sep @ join sep (t # ts)"

text \<open>
  What the sources take from outside: the shortest decimal text of a float (\<^verbatim>\<open>float.__repr__\<close>),
  SHA-256 in hexadecimal (\<^verbatim>\<open>hashlib.sha256(...).hexdigest()\<close>) and the parser
  \<^verbatim>\<open>datetime.fromisoformat\<close>. They are arguments of every definition that uses them.

  An aware timestamp is its instant in microseconds since 1970-01-01T00:00:00Z, a naive one its
  wall clock in the same unit.
\<close>

datatype dtime = Naive int | Aware int

record py_env =
  float_repr :: "pyfloat \<Rightarrow> string"
  sha256_hex :: "string \<Rightarrow> string"
  fromisoformat :: "string \<Rightarrow> dtime option"

text \<open>\<^verbatim>\<open>json.dumps\<close> with \<^verbatim>\<open>allow_nan=False\<close>: a NaN or an infinity raises.\<close>

fun json_dumps :: "py_env \<Rightarrow> pyval \<Rightarrow> string result"
and json_items :: "py_env \<Rightarrow> (string \<times> pyval) list \<Rightarrow> (string \<times> string) list result"
and json_list :: "py_env \<Rightarrow> pyval list \<Rightarrow> string list result" where
  "json_dumps E PNone = Inr ''null''"
| "json_dumps E (PBool b) = Inr (if b then ''true'' else ''false'')"
| "json_dumps E (PInt n) = Inr (show_int n)"
| "json_dumps E (PFloat f) =
     (if pf_isfinite f then Inr (float_repr E f) else Inl (ValueError ''Out of range float values are not JSON compliant''))"
| "json_dumps E (PStr s) = Inr (json_string s)"
| "json_dumps E (PList xs) = bindr (json_list E xs) (\<lambda>ts. Inr (''['' @ join '','' ts @ '']''))"
| "json_dumps E (PDict d) = bindr (json_items E d) (\<lambda>kts.
     Inr (''{'' @ join '','' (map (\<lambda>(k, t). json_string k @ '':'' @ t) (sort_key fst kts)) @ ''}''))"
| "json_items E [] = Inr []"
| "json_items E ((k, v) # d) = bindr (json_dumps E v) (\<lambda>t. bindr (json_items E d) (\<lambda>r. Inr ((k, t) # r)))"
| "json_list E [] = Inr []"
| "json_list E (v # vs) = bindr (json_dumps E v) (\<lambda>t. bindr (json_list E vs) (\<lambda>r. Inr (t # r)))"

text \<open>
  \<^verbatim>\<open>canonical\<close> and \<^verbatim>\<open>digest\<close> of \<^verbatim>\<open>app/workspace/shadow_bundle.py\<close>: the text
  is its own UTF-8 encoding here, and every failure of the encoder is one ValueError.
\<close>

definition canonical :: "py_env \<Rightarrow> pyval \<Rightarrow> string result" where
  "canonical E v = (case json_dumps E v of Inl _ \<Rightarrow> Inl (ValueError ''invalid JSON'') | Inr t \<Rightarrow> Inr t)"

definition digest :: "py_env \<Rightarrow> pyval \<Rightarrow> string result" where
  "digest E v = bindr (canonical E v) (\<lambda>t. Inr (sha256_hex E t))"

text \<open>\<^verbatim>\<open>timestamp\<close> of the same file.\<close>

definition timestamp :: "py_env \<Rightarrow> pyval \<Rightarrow> int result" where
  "timestamp E v = (case v of
       PStr s \<Rightarrow> (case fromisoformat E s of
           None \<Rightarrow> Inl (ValueError ''invalid timestamp'')
         | Some (Naive _) \<Rightarrow> Inl (ValueError ''timezone required'')
         | Some (Aware u) \<Rightarrow> Inr u)
     | _ \<Rightarrow> Inl (ValueError ''invalid timestamp''))"

text \<open>
  Key order does not reach the text: a dict and any rearrangement of it with the same keys
  have the same canonical form, so equal contents have equal digests.
\<close>

lemma json_items_mset:
  "json_items E d = Inr r \<Longrightarrow> map fst r = map fst d"
  by (induction d arbitrary: r) auto

lemma json_items_mapr:
  "json_items E d = mapr (\<lambda>(k, v). bindr (json_dumps E v) (\<lambda>t. Inr (k, t))) d"
  by (induction d) (auto simp: bindr_assoc)

end
