(* ===== verification/Market_Time.thy ===== *)
theory Market_Time
  imports Py_Values
begin

text \<open>
  Market time: the Shanghai wall clock, the trading calendar service, the settled session, the
  intraday refresh cadence and the local schedule slots
  (\<^verbatim>\<open>app/workspace/local_schedule.py\<close>, \<^verbatim>\<open>app/workspace/refresh_policy.py\<close>,
  \<^verbatim>\<open>app/workspace/shadow_schedule.py\<close>, \<^verbatim>\<open>app/services/trading_calendar_service.py\<close>,
  \<^verbatim>\<open>app/services/settlement.py\<close>).

  Instants are microseconds since the epoch, a local date is the number of days since
  1970-01-01, a time of day the microseconds since midnight. Asia/Shanghai is UTC+8 without
  daylight saving, as it has been since 1991. A slot identity, in the source the text
  \<^verbatim>\<open>YYYY-MM-DD HH:MM\<close>, is the pair of its session date and its slot text: the date part
  has a fixed width, so the pair determines the text and both have the same order.
\<close>

section \<open>Clock and calendar units\<close>

abbreviation second_us :: int where "second_us \<equiv> 1000000"
abbreviation minute_us :: int where "minute_us \<equiv> 60000000"
abbreviation day_us :: int where "day_us \<equiv> 86400000000"

type_synonym slot_id = "int \<times> string"

definition shanghai_offset :: int where
  "shanghai_offset = 28800000000"

definition local_date :: "int \<Rightarrow> int" where
  "local_date u = (u + shanghai_offset) div day_us"

definition local_time :: "int \<Rightarrow> int" where
  "local_time u = (u + shanghai_offset) mod day_us"

text \<open>\<^verbatim>\<open>datetime.combine(day, t, SHANGHAI)\<close> as an instant.\<close>

definition shanghai_instant :: "int \<Rightarrow> int \<Rightarrow> int" where
  "shanghai_instant day t = day * day_us + t - shanghai_offset"

text \<open>\<^verbatim>\<open>datetime.weekday()\<close>: Monday is 0; 1970-01-01 was a Thursday.\<close>

definition weekday :: "int \<Rightarrow> int" where
  "weekday day = (day + 3) mod 7"

abbreviation hhmm :: "int \<Rightarrow> int \<Rightarrow> int" where
  "hhmm h m \<equiv> (h * 60 + m) * minute_us"

definition digit_val :: "char \<Rightarrow> int" where
  "digit_val c = int (of_char c) - 48"

text \<open>
  \<^verbatim>\<open>time.fromisoformat\<close> on the form the slot lists use, \<^verbatim>\<open>HH:MM\<close>; the hour and
  minute ranges are checked as the constructor of \<^verbatim>\<open>time\<close> does.
\<close>

definition is_hhmm :: "string \<Rightarrow> bool" where
  "is_hhmm s \<longleftrightarrow> length s = 5 \<and> is_digit (s ! 0) \<and> is_digit (s ! 1) \<and> s ! 2 = CHR '':''
     \<and> is_digit (s ! 3) \<and> is_digit (s ! 4)"

definition parse_time :: "string \<Rightarrow> int result" where
  "parse_time s =
     (if \<not> is_hhmm s then Inl (ValueError ''Invalid isoformat string'')
      else let h = digit_val (s ! 0) * 10 + digit_val (s ! 1);
               m = digit_val (s ! 3) * 10 + digit_val (s ! 4)
           in if h < 24 \<and> m < 60 then Inr (hhmm h m) else Inl (ValueError ''Invalid isoformat string''))"

lemma local_split: "shanghai_instant (local_date u) (local_time u) = u"
  by (simp add: shanghai_instant_def local_date_def local_time_def)

lemma local_time_range [simp]: "0 \<le> local_time u" "local_time u < day_us"
  by (simp_all add: local_time_def)

lemma local_of_instant [simp]:
  "0 \<le> t \<Longrightarrow> t < day_us \<Longrightarrow> local_date (shanghai_instant d t) = d"
  "0 \<le> t \<Longrightarrow> t < day_us \<Longrightarrow> local_time (shanghai_instant d t) = t"
  by (simp_all add: shanghai_instant_def local_date_def local_time_def)

lemma local_date_mono: "u \<le> v \<Longrightarrow> local_date u \<le> local_date v"
  by (simp add: local_date_def zdiv_mono1)

lemma digit_val_range: "is_digit c \<Longrightarrow> 0 \<le> digit_val c \<and> digit_val c \<le> 9"
  by (auto simp: is_digit_def digit_val_def less_eq_char_def)

lemma parse_time_range: "parse_time s = Inr t \<Longrightarrow> 0 \<le> t \<and> t < day_us"
  using digit_val_range [of "s ! 0"] digit_val_range [of "s ! 1"]
    digit_val_range [of "s ! 3"] digit_val_range [of "s ! 4"]
  by (auto simp: parse_time_def is_hhmm_def Let_def split: if_splits)

section \<open>Trading calendar\<close>

record day_decision =
  d_day :: int
  d_trade_day :: bool
  d_verified :: bool
  d_source :: string
  d_reason :: "string option"

definition d_actionable :: "day_decision \<Rightarrow> bool" where
  "d_actionable d \<longleftrightarrow> d_verified d \<and> d_trade_day d"

text \<open>
  The exchange calendar (package \<^verbatim>\<open>exchange_calendars\<close>) and the optional market data
  provider are outside the repository's code: \<open>xshg\<close> answers or names the exception class it
  raised, and so does the provider's \<^verbatim>\<open>is_trade_day\<close>.
\<close>

record calendar_service =
  xshg :: "int \<Rightarrow> string + bool"
  cal_provider :: "(string \<times> (int \<Rightarrow> string + bool)) option"

definition decision :: "calendar_service \<Rightarrow> int \<Rightarrow> day_decision" where
  "decision S day = (case xshg S day of
       Inr b \<Rightarrow> \<lparr>d_day = day, d_trade_day = b, d_verified = True,
                 d_source = ''exchange_calendars:XSHG'', d_reason = None\<rparr>
     | Inl e \<Rightarrow>
        (let fallback = (\<lambda>reason. \<lparr>d_day = day, d_trade_day = weekday day < 5, d_verified = False,
                d_source = ''weekday-fallback-unverified'', d_reason = Some reason\<rparr>)
         in case cal_provider S of
              None \<Rightarrow> fallback (''XSHG unavailable: '' @ e)
            | Some (name, f) \<Rightarrow> (case f day of
                  Inr b \<Rightarrow> \<lparr>d_day = day, d_trade_day = b, d_verified = False,
                            d_source = ''provider-unverified:'' @ name,
                            d_reason = Some (''XSHG unavailable: '' @ e)\<rparr>
                | Inl e2 \<Rightarrow> fallback (''XSHG unavailable: '' @ e @ ''; provider unavailable: '' @ e2))))"

definition actionable_day :: "calendar_service \<Rightarrow> int \<Rightarrow> bool" where
  "actionable_day S day = d_actionable (decision S day)"

fun effective_search :: "calendar_service \<Rightarrow> nat \<Rightarrow> int \<Rightarrow> int option" where
  "effective_search S 0 current = None"
| "effective_search S (Suc n) current =
     (if d_trade_day (decision S current) then Some current else effective_search S n (current - 1))"

definition effective_trade_date :: "calendar_service \<Rightarrow> int \<Rightarrow> int" where
  "effective_trade_date S day = (case effective_search S 30 day of None \<Rightarrow> day | Some d \<Rightarrow> d)"

lemma decision_verified_iff: "d_verified (decision S day) \<longleftrightarrow> (\<exists>b. xshg S day = Inr b)"
  by (auto simp: decision_def Let_def split: sum.splits option.splits)

lemma effective_search_Some:
  "effective_search S n c = Some d \<Longrightarrow>
     d \<le> c \<and> c - int n < d \<and> d_trade_day (decision S d)
     \<and> (\<forall>x. d < x \<and> x \<le> c \<longrightarrow> \<not> d_trade_day (decision S x))"
proof (induction n arbitrary: c)
  case (Suc n)
  show ?case
  proof (cases "d_trade_day (decision S c)")
    case True
    with Suc.prems show ?thesis by auto
  next
    case False
    with Suc.prems have "effective_search S n (c - 1) = Some d" by simp
    from Suc.IH [OF this] have "d \<le> c - 1 \<and> c - 1 - int n < d \<and> d_trade_day (decision S d)
      \<and> (\<forall>x. d < x \<and> x \<le> c - 1 \<longrightarrow> \<not> d_trade_day (decision S x))" by simp
    moreover have "x \<le> c - 1 \<or> x = c" if "x \<le> c" for x using that by arith
    ultimately show ?thesis using False by auto
  qed
qed simp

lemma effective_search_None:
  "effective_search S n c = None \<Longrightarrow> c - int n < x \<Longrightarrow> x \<le> c \<Longrightarrow> \<not> d_trade_day (decision S x)"
proof (induction n arbitrary: c)
  case (Suc n)
  then show ?case by (cases "x = c") (auto split: if_splits)
qed simp

section \<open>Settled session\<close>

definition settlement_cutoff :: int where
  "settlement_cutoff = hhmm 15 15"

text \<open>\<^verbatim>\<open>market_time\<close>: the wall clock of a naive value is read as Shanghai time.\<close>

fun market_time :: "dtime \<Rightarrow> int" where
  "market_time (Naive w) = w - shanghai_offset"
| "market_time (Aware u) = u"

definition settled_session :: "calendar_service \<Rightarrow> dtime \<Rightarrow> int" where
  "settled_session S now =
     (let u = market_time now;
          day = (if local_time u < settlement_cutoff then local_date u - 1 else local_date u)
      in effective_trade_date S day)"

section \<open>Refresh cadence\<close>

definition lunch_close_quote_fresh :: "dtime \<Rightarrow> dtime \<Rightarrow> bool" where
  "lunch_close_quote_fresh observed reference =
     (let o1 = market_time observed; r = market_time reference
      in local_date o1 = local_date r
         \<and> hhmm 11 40 \<le> local_time r \<and> local_time r \<le> hhmm 12 15
         \<and> local_time o1 \<ge> hhmm 11 29
         \<and> o1 \<le> r)"

definition intraday_refresh_minutes :: "dtime \<Rightarrow> bool \<Rightarrow> int option" where
  "intraday_refresh_minutes now is_trade_day =
     (if \<not> is_trade_day then None
      else let clock = local_time (market_time now)
      in if hhmm 9 30 \<le> clock \<and> clock \<le> hhmm 11 30 then Some 60
         else if hhmm 13 0 \<le> clock \<and> clock < hhmm 14 30 then Some 30
         else if hhmm 14 30 \<le> clock \<and> clock < hhmm 14 50 then Some 10
         else if hhmm 14 50 \<le> clock \<and> clock \<le> hhmm 15 0 then Some 2
         else None)"

definition session_quote_window_open :: "dtime \<Rightarrow> bool \<Rightarrow> bool" where
  "session_quote_window_open now is_trade_day = (intraday_refresh_minutes now is_trade_day \<noteq> None)"

record refresh_plan =
  market_open :: bool
  after_close :: bool
  quote_minutes :: int
  signal_minutes :: int
  context_minutes :: int
  news_minutes :: int

definition balanced_plan :: "dtime \<Rightarrow> bool \<Rightarrow> refresh_plan" where
  "balanced_plan now is_trade_day =
     (let clock = local_time (market_time now)
      in \<lparr>market_open = is_trade_day \<and> ((hhmm 9 30 \<le> clock \<and> clock \<le> hhmm 11 30) \<or> (hhmm 13 0 \<le> clock \<and> clock \<le> hhmm 15 0)),
          after_close = is_trade_day \<and> hhmm 16 15 \<le> clock \<and> clock \<le> hhmm 22 0,
          quote_minutes = 30, signal_minutes = 30, context_minutes = 30,
          news_minutes = (if hhmm 8 0 \<le> clock \<and> clock < hhmm 22 0 then 30 else 120)\<rparr>)"

definition daily_due :: "dtime option \<Rightarrow> dtime option \<Rightarrow> dtime \<Rightarrow> int \<Rightarrow> bool" where
  "daily_due last_success last_attempt now retry_minutes =
     (let current = market_time now
      in if (case last_success of None \<Rightarrow> False | Some s \<Rightarrow> local_date current \<le> local_date (market_time s))
         then False
         else (case last_attempt of None \<Rightarrow> True
               | Some a \<Rightarrow> retry_minutes * minute_us \<le> current - market_time a))"

section \<open>Schedule slots\<close>

definition local_schedule_slots :: "string list" where
  "local_schedule_slots = [''11:40'', ''14:20'', ''14:30'', ''14:45'', ''14:50'', ''14:55'', ''15:00'',
     ''15:15'', ''16:10'', ''16:40'', ''17:40'']"

fun due_slot_scan :: "slot_id option \<Rightarrow> int \<Rightarrow> int \<Rightarrow> string list \<Rightarrow> slot_id option result" where
  "due_slot_scan last_slot u window [] = Inr None"
| "due_slot_scan last_slot u window (slot # slots) =
     bindr (parse_time slot) (\<lambda>t.
       let age = u - shanghai_instant (local_date u) t; sid = (local_date u, slot)
       in if 0 \<le> age \<and> age < window * second_us \<and> last_slot \<noteq> Some sid then Inr (Some sid)
          else due_slot_scan last_slot u window slots)"

definition due_slot_local ::
  "calendar_service \<Rightarrow> slot_id option \<Rightarrow> dtime \<Rightarrow> string list \<Rightarrow> int \<Rightarrow> slot_id option result" where
  "due_slot_local S last_slot now slots window =
     (let u = market_time now; d = decision S (local_date u)
      in if \<not> d_verified d \<or> \<not> d_trade_day d then Inr None
         else due_slot_scan last_slot u window slots)"

text \<open>\<^verbatim>\<open>due_slot\<close> of the shadow schedule: a slot outside 14:20-15:30 is an error.\<close>

fun shadow_slot_scan :: "int \<Rightarrow> int \<Rightarrow> string list \<Rightarrow> slot_id option result" where
  "shadow_slot_scan u window [] = Inr None"
| "shadow_slot_scan u window (slot # slots) =
     bindr (parse_time slot) (\<lambda>t.
       if \<not> (hhmm 14 20 \<le> t \<and> t \<le> hhmm 15 30) then Inl (ValueError ''slot outside research window'')
       else let age = u - shanghai_instant (local_date u) t
            in if 0 \<le> age \<and> age < window * second_us then Inr (Some (local_date u, slot))
               else shadow_slot_scan u window slots)"

definition due_slot :: "calendar_service \<Rightarrow> int \<Rightarrow> string list \<Rightarrow> int \<Rightarrow> slot_id option result" where
  "due_slot S now slots window =
     (if \<not> (1 \<le> window \<and> window \<le> 300) \<or> \<not> (1 \<le> length slots \<and> length slots \<le> 8)
      then Inl (ValueError ''bounded schedule required'')
      else let d = decision S (local_date now)
      in if \<not> d_verified d \<or> \<not> d_trade_day d then Inr None
         else shadow_slot_scan now window slots)"

lemma due_slot_scan_Some:
  "due_slot_scan ls u w slots = Inr (Some sid) \<Longrightarrow>
     \<exists>slot t. slot \<in> set slots \<and> sid = (local_date u, slot) \<and> parse_time slot = Inr t
       \<and> t \<le> local_time u \<and> local_time u < t + w * second_us \<and> ls \<noteq> Some sid"
proof (induction slots)
  case (Cons slot slots)
  have "u - shanghai_instant (local_date u) t = local_time u - t" for t
    using local_split [of u] by (simp add: shanghai_instant_def)
  with Cons show ?case by (auto simp: Let_def split: if_splits)
qed simp

lemma due_slot_scan_None:
  "due_slot_scan ls u w slots = Inr None \<Longrightarrow> slot \<in> set slots \<Longrightarrow>
     \<exists>t. parse_time slot = Inr t \<and> \<not> (t \<le> local_time u \<and> local_time u < t + w * second_us
       \<and> ls \<noteq> Some (local_date u, slot))"
proof (induction slots)
  case (Cons s slots)
  have "u - shanghai_instant (local_date u) t = local_time u - t" for t
    using local_split [of u] by (simp add: shanghai_instant_def)
  with Cons show ?case by (auto simp: Let_def split: if_splits)
qed simp

end
