(* ===== verification/Display_Contract.thy ===== *)
theory Display_Contract
  imports Market_Time
begin

text \<open>
  The display bundle a local run publishes: manifest and integrity checks of
  \<^verbatim>\<open>app/workspace/local_display_contract.py\<close>, the public chart projection and its
  validator of \<^verbatim>\<open>app/workspace/shadow_projection.py\<close>, and the receipt check of
  \<^verbatim>\<open>app/workspace/shadow_client.py\<close>. Everything runs on parsed JSON values; a rejected
  bundle is an error value, and \<open>verify_bundle_integrity\<close> turns it into \<open>False\<close> where the
  source catches it.
\<close>

section \<open>Helpers on dicts and lists\<close>

fun allr :: "('a \<Rightarrow> unit result) \<Rightarrow> 'a list \<Rightarrow> unit result" where
  "allr f [] = Inr ()"
| "allr f (x # xs) = bindr (f x) (\<lambda>_. allr f xs)"

lemma allr_Inr_iff [simp, result_simps]: "allr f xs = Inr () \<longleftrightarrow> (\<forall>x \<in> set xs. f x = Inr ())"
  by (induction xs) auto

section \<open>Field sets\<close>

definition indicator_fields :: "string list" where
  "indicator_fields = [''ma5'', ''ma10'', ''ma20'', ''ma30'', ''ma60'', ''macd_dif'', ''macd_dea'', ''macd_hist'',
     ''kdj_k'', ''kdj_d'', ''kdj_j'', ''rsi6'', ''rsi12'', ''rsi14'', ''td_buy_setup'', ''td_sell_setup'',
     ''atr'', ''atr_pct'', ''boll_upper'', ''boll_mid'', ''boll_lower'']"

definition bar_fields :: "string list" where
  "bar_fields = [''date'', ''open'', ''high'', ''low'', ''close'', ''volume'', ''amount'', ''source'', ''indicators'']"

definition level_fields :: "string list" where
  "level_fields = [''price'', ''lower'', ''upper'', ''kind'', ''type'', ''methods'', ''groups'', ''strength'',
     ''category'', ''confirmations'', ''distance_pct'', ''is_estimate'', ''touch_count'']"

definition trend_line_fields :: "string list" where
  "trend_line_fields = [''label'', ''method'', ''start_index'', ''end_index'', ''start_price'', ''end_price'',
     ''projected_price'', ''slope_per_bar'']"

definition chart_fields :: "string list" where
  "chart_fields = [''ts_code'', ''sr_overlay_allowed'', ''research_sr_overlay_allowed'', ''basis_transition'',
     ''adjust'', ''bars'', ''research_bars'', ''available'', ''source_as_of'', ''as_of'', ''computed_at'',
     ''actionable'', ''qualification'', ''research_only'', ''interval'', ''unsupported_intervals'',
     ''indicator_version'', ''indicator_basis'', ''input_hash'', ''series_id'', ''chart_contract_version'',
     ''display_price_basis'', ''research_price_basis'', ''research_price_basis_id'', ''raw_overlay_allowed'',
     ''raw_overlay_reason'', ''history_issue'', ''reason'', ''cost_overlay_allowed'',
     ''research_cost_overlay_allowed'', ''studies'', ''support_resistance'', ''research_support_resistance'']"

definition study_fields :: "string list" where
  "study_fields = [''levels'', ''nearest_support'', ''nearest_resistance'', ''current_price'', ''atr14'',
     ''atr_basis'', ''reason'', ''actionable'', ''qualified'', ''qualification'', ''trend_lines'']"

text \<open>\<^verbatim>\<open>CODE_RE.fullmatch\<close>: six digits with an exchange suffix, or a US ticker.\<close>

definition code_char :: "char \<Rightarrow> bool" where
  "code_char c \<longleftrightarrow> is_lower c \<or> is_upper c \<or> is_digit c \<or> c \<in> {CHR ''_'', CHR ''.'', CHR ''-''}"

definition code_re :: "string \<Rightarrow> bool" where
  "code_re s \<longleftrightarrow>
     (length s = 9 \<and> list_all is_digit (take 6 s) \<and> drop 6 s \<in> {''.SH'', ''.SZ'', ''.BJ''})
     \<or> (4 \<le> length s \<and> drop (length s - 3) s = ''.US'' \<and> list_all code_char (take (length s - 3) s))"

section \<open>Calendar dates\<close>

text \<open>
  \<^verbatim>\<open>date.fromisoformat\<close> restricted to the canonical text, which is what the callers'
  \<^verbatim>\<open>parsed.isoformat() != value\<close> test leaves; a date is its day number, by the proleptic
  Gregorian ordinal of the \<^verbatim>\<open>datetime\<close> module.
\<close>

definition is_leap :: "int \<Rightarrow> bool" where
  "is_leap y \<longleftrightarrow> y mod 4 = 0 \<and> (y mod 100 \<noteq> 0 \<or> y mod 400 = 0)"

definition days_before_year :: "int \<Rightarrow> int" where
  "days_before_year y = (y - 1) * 365 + (y - 1) div 4 - (y - 1) div 100 + (y - 1) div 400"

definition days_in_month :: "int \<Rightarrow> int \<Rightarrow> int" where
  "days_in_month y m =
     (if m = 2 then (if is_leap y then 29 else 28) else if m \<in> {4, 6, 9, 11} then 30 else 31)"

definition days_before_month :: "int \<Rightarrow> int \<Rightarrow> int" where
  "days_before_month y m = sum_list (map (days_in_month y) [1..m - 1])"

definition day_number :: "int \<Rightarrow> int \<Rightarrow> int \<Rightarrow> int" where
  "day_number y m d = days_before_year y + days_before_month y m + d - 719163"

definition digits_val :: "string \<Rightarrow> int" where
  "digits_val s = foldl (\<lambda>a c. a * 10 + digit_val c) 0 s"

definition parse_date :: "string \<Rightarrow> int option" where
  "parse_date s =
     (if length s = 10 \<and> list_all is_digit (take 4 s) \<and> s ! 4 = CHR ''-'' \<and> is_digit (s ! 5) \<and> is_digit (s ! 6)
         \<and> s ! 7 = CHR ''-'' \<and> is_digit (s ! 8) \<and> is_digit (s ! 9)
      then let y = digits_val (take 4 s); m = digits_val (take 2 (drop 5 s)); d = digits_val (drop 8 s)
           in if 1 \<le> y \<and> 1 \<le> m \<and> m \<le> 12 \<and> 1 \<le> d \<and> d \<le> days_in_month y m
              then Some (day_number y m d) else None
      else None)"

section \<open>Field validators\<close>

fun numeric :: "bool \<Rightarrow> pyval \<Rightarrow> unit result" where
  "numeric nullable PNone = (if nullable then Inr () else Inl (ValueError ''invalid public numeric field''))"
| "numeric nullable (PInt n) = (case float_of_int n of Inr _ \<Rightarrow> Inr () | Inl _ \<Rightarrow> Inl (ValueError ''invalid public numeric field''))"
| "numeric nullable (PFloat f) = (if pf_isfinite f then Inr () else Inl (ValueError ''invalid public numeric field''))"
| "numeric nullable _ = Inl (ValueError ''invalid public numeric field'')"

definition string_field :: "bool \<Rightarrow> pyval \<Rightarrow> unit result" where
  "string_field nullable v =
     (if v = PNone \<and> nullable then Inr ()
      else if is_str v then Inr () else Inl (ValueError ''invalid public string field''))"

fun daily_date :: "bool \<Rightarrow> pyval \<Rightarrow> int option result" where
  "daily_date nullable (PStr s) =
     (case parse_date s of Some d \<Rightarrow> Inr (Some d) | None \<Rightarrow> Inl (ValueError ''invalid daily bar date''))"
| "daily_date nullable PNone = (if nullable then Inr None else Inl (ValueError ''invalid daily bar date''))"
| "daily_date nullable _ = Inl (ValueError ''invalid daily bar date'')"

definition chart_time :: "py_env \<Rightarrow> pyval \<Rightarrow> int result" where
  "chart_time E v = (case v of
       PStr s \<Rightarrow> (case fromisoformat E s of
           None \<Rightarrow> Inl (ValueError ''invalid chart timestamp'')
         | Some (Naive _) \<Rightarrow> Inl (ValueError ''chart timezone required'')
         | Some (Aware u) \<Rightarrow> Inr u)
     | _ \<Rightarrow> Inl (ValueError ''invalid chart timestamp''))"

definition strings_field :: "pyval \<Rightarrow> unit result" where
  "strings_field v = (case v of
       PList xs \<Rightarrow> (if list_all is_str xs then Inr () else Inl (ValueError ''invalid public string list''))
     | _ \<Rightarrow> Inl (ValueError ''invalid public string list''))"

fun integer_field :: "pyval \<Rightarrow> unit result" where
  "integer_field (PInt n) = (if n < 0 then Inl (ValueError ''invalid public integer'') else Inr ())"
| "integer_field _ = Inl (ValueError ''invalid public integer'')"

text \<open>\<^verbatim>\<open>for key in keys: if key in value: check(value[key])\<close>.\<close>

definition check_present :: "string list \<Rightarrow> (string \<Rightarrow> pyval \<Rightarrow> unit result) \<Rightarrow> pyval \<Rightarrow> unit result" where
  "check_present ks check v = allr (\<lambda>k. if phas k v then check k (pget k v) else Inr ()) ks"

definition validate_level :: "pyval \<Rightarrow> unit result" where
  "validate_level v = (case v of
     PDict d \<Rightarrow>
       if \<not> keys_within level_fields d then Inl (ValueError ''nonpublic level fields'')
       else
       bindr (check_present [''price'', ''lower'', ''upper'', ''strength'', ''distance_pct'']
                (\<lambda>k. numeric (k \<noteq> ''price'')) v) (\<lambda>_.
       bindr (check_present [''kind'', ''type'', ''category''] (\<lambda>k. string_field False) v) (\<lambda>_.
       bindr (check_present [''methods'', ''groups''] (\<lambda>k. strings_field) v) (\<lambda>_.
       bindr (check_present [''confirmations'', ''touch_count''] (\<lambda>k. integer_field) v) (\<lambda>_.
       check_present [''is_estimate''] (\<lambda>k w. case w of PBool _ \<Rightarrow> Inr ()
          | _ \<Rightarrow> Inl (ValueError ''invalid public estimate flag'')) v))))
   | _ \<Rightarrow> Inl (ValueError ''nonpublic level fields''))"

definition validate_trend_line :: "pyval \<Rightarrow> unit result" where
  "validate_trend_line v = (case v of
     PDict d \<Rightarrow>
       if set (map fst d) \<noteq> set trend_line_fields then Inl (ValueError ''invalid public trend line'')
       else
       bindr (allr (\<lambda>k. string_field False (pget k v)) [''label'', ''method'']) (\<lambda>_.
       bindr (allr (\<lambda>k. integer_field (pget k v)) [''start_index'', ''end_index'']) (\<lambda>_.
       case (pget ''end_index'' v, pget ''start_index'' v) of
         (PInt e, PInt s) \<Rightarrow>
           if e \<le> s then Inl (ValueError ''invalid trend line indices'')
           else allr (\<lambda>k. numeric False (pget k v)) [''start_price'', ''end_price'', ''projected_price'', ''slope_per_bar'']
       | _ \<Rightarrow> Inl (TypeError ''index'')))
   | _ \<Rightarrow> Inl (ValueError ''invalid public trend line''))"

definition validate_study :: "pyval \<Rightarrow> unit result" where
  "validate_study v = (case v of
     PDict d \<Rightarrow>
       if \<not> keys_within study_fields d then Inl (ValueError ''nonpublic studies'')
       else
       bindr (check_present [''current_price'', ''atr14''] (\<lambda>k. numeric (k = ''atr14'')) v) (\<lambda>_.
       bindr (check_present [''atr_basis'', ''reason'', ''qualification'']
                (\<lambda>k. string_field (k \<noteq> ''qualification'')) v) (\<lambda>_.
       bindr (check_present [''actionable'', ''qualified'']
                (\<lambda>k w. if w = PBool False then Inr () else Inl (ValueError ''unsafe public study'')) v) (\<lambda>_.
       bindr (check_present [''qualification'']
                (\<lambda>k w. if w = PStr ''UNKNOWN'' then Inr () else Inl (ValueError ''unsafe public study qualification'')) v) (\<lambda>_.
       bindr (check_present [''levels''] (\<lambda>k w. case w of PList ls \<Rightarrow> allr validate_level ls
                | _ \<Rightarrow> Inl (ValueError ''invalid public levels'')) v) (\<lambda>_.
       bindr (check_present [''nearest_support'', ''nearest_resistance'']
                (\<lambda>k w. if w = PNone then Inr () else validate_level w) v) (\<lambda>_.
       check_present [''trend_lines''] (\<lambda>k w. case w of PList ls \<Rightarrow> allr validate_trend_line ls
                | _ \<Rightarrow> Inl (ValueError ''invalid public trend lines'')) v))))))
   | _ \<Rightarrow> Inl (ValueError ''nonpublic studies''))"


section \<open>Public charts\<close>

text \<open>One bar of a series; \<open>dates\<close> are the days accepted so far, the last one first.\<close>

definition validate_bar :: "int option \<Rightarrow> bool \<Rightarrow> pyval \<Rightarrow> int list \<Rightarrow> int list result" where
  "validate_bar cutoff partial bar dates = (case bar of
     PDict d \<Rightarrow>
       if \<not> keys_within bar_fields d then Inl (ValueError ''nonpublic bar fields'')
       else bindr (daily_date False (pget ''date'' bar)) (\<lambda>r. case r of
           None \<Rightarrow> Inl (ValueError ''invalid daily bar date'')
         | Some day \<Rightarrow>
           raise_if (case cutoff of None \<Rightarrow> False | Some c \<Rightarrow> c < day) (ValueError ''future chart bar'')
           (raise_if (dates \<noteq> [] \<and> day \<le> hd dates) (ValueError ''duplicate or out-of-order chart date'')
           (bindr (allr (\<lambda>f. if \<not> partial \<or> phas f bar then numeric False (pget f bar) else Inr ())
                     [''open'', ''high'', ''low'', ''close'']) (\<lambda>_.
            bindr (allr (\<lambda>f. numeric True (pget f bar)) [''volume'', ''amount'']) (\<lambda>_.
            bindr (check_present [''source''] (\<lambda>k. string_field True) bar) (\<lambda>_.
            (case (if phas ''indicators'' bar then pget ''indicators'' bar else PDict []) of
               PDict ind \<Rightarrow>
                 if \<not> keys_within indicator_fields ind then Inl (ValueError ''nonpublic indicator fields'')
                 else bindr (allr (\<lambda>(k, v). numeric True v) ind) (\<lambda>_. Inr (day # dates))
             | _ \<Rightarrow> Inl (ValueError ''nonpublic indicator fields''))))))))
   | _ \<Rightarrow> Inl (ValueError ''nonpublic bar fields''))"

text \<open>The days of a validated series, newest first.\<close>

definition validate_series :: "int option \<Rightarrow> bool \<Rightarrow> pyval \<Rightarrow> int list result" where
  "validate_series cutoff partial rows = (case rows of
       PList bars \<Rightarrow> foldr_result (validate_bar cutoff partial) bars []
     | _ \<Rightarrow> Inl (ValueError ''invalid public bars''))"

definition pget_default :: "string \<Rightarrow> pyval \<Rightarrow> pyval \<Rightarrow> pyval" where
  "pget_default k dflt v = (if phas k v then pget k v else dflt)"

text \<open>The two series and the studies of a chart, given its cutoff day and its declared source day.\<close>

definition validate_chart_series :: "pyval \<Rightarrow> int option \<Rightarrow> int option \<Rightarrow> bool \<Rightarrow> unit result" where
  "validate_chart_series chart cutoff source partial =
     bindr (validate_series cutoff partial (pget_default ''bars'' (PList []) chart)) (\<lambda>bars.
     bindr (validate_series cutoff partial (pget_default ''research_bars'' (PList []) chart)) (\<lambda>rbars.
     raise_if (bars \<noteq> [] \<and> rbars \<noteq> [] \<and> bars \<noteq> rbars) (ValueError ''chart series dates mismatch'')
     (let dates = (if bars \<noteq> [] then bars else rbars) in
     raise_if (dates \<noteq> [] \<and> phas ''source_as_of'' chart \<and> source \<noteq> Some (hd dates))
       (ValueError ''chart source_as_of does not match bars'')
     (allr (\<lambda>k. if pget k chart = PNone then Inr () else validate_study (pget k chart))
        [''studies'', ''support_resistance'', ''research_support_resistance'']))))"

text \<open>The instants of a chart: nothing lies after the bundle's generation.\<close>

definition validate_chart_times :: "py_env \<Rightarrow> pyval \<Rightarrow> int option \<Rightarrow> bool \<Rightarrow> unit result" where
  "validate_chart_times E chart generated_at partial =
     bindr (if phas ''as_of'' chart then bindr (chart_time E (pget ''as_of'' chart)) (\<lambda>u. Inr (Some u))
            else Inr generated_at) (\<lambda>as_of.
     raise_if (case generated_at of None \<Rightarrow> False | Some g \<Rightarrow> (case as_of of None \<Rightarrow> False | Some a \<Rightarrow> g < a))
       (ValueError ''chart as_of after bundle generated_at'')
     (bindr (if phas ''computed_at'' chart \<and> pget ''computed_at'' chart \<noteq> PNone
            then bindr (chart_time E (pget ''computed_at'' chart)) (\<lambda>_. Inr ()) else Inr ()) (\<lambda>_.
     let cutoff = map_option local_date as_of in
     bindr (if phas ''source_as_of'' chart then daily_date True (pget ''source_as_of'' chart) else Inr None) (\<lambda>source.
     raise_if (case source of None \<Rightarrow> False | Some s \<Rightarrow> (case cutoff of None \<Rightarrow> False | Some c \<Rightarrow> c < s))
       (ValueError ''future chart source date'')
     (validate_chart_series chart cutoff source partial)))))"

definition validate_public_chart ::
  "py_env \<Rightarrow> pyval \<Rightarrow> string option \<Rightarrow> int option \<Rightarrow> bool \<Rightarrow> string \<Rightarrow> unit result" where
  "validate_public_chart E chart code generated_at partial expected_interval = (case chart of
     PDict d \<Rightarrow>
       if \<not> keys_within chart_fields d then Inl (ValueError ''nonpublic chart fields'')
       else
       raise_if (case code of None \<Rightarrow> False | Some c \<Rightarrow> \<not> code_re c) (ValueError ''invalid chart universe code'')
       (bindr (check_present [''ts_code''] (\<lambda>k w. case w of
                 PStr c \<Rightarrow> if \<not> code_re c then Inl (ValueError ''invalid chart code'')
                           else if code \<noteq> None \<and> code \<noteq> Some c then Inl (ValueError ''chart code mismatch'')
                           else Inr ()
               | _ \<Rightarrow> Inl (ValueError ''invalid chart code'')) chart) (\<lambda>_.
       raise_if (expected_interval \<notin> {''1d'', ''1w'', ''1mo''}
                 \<or> pget_default ''interval'' (PStr ''1d'') chart \<noteq> PStr expected_interval)
         (ValueError ''chart scope violation'')
       (bindr (allr (\<lambda>(k, b). if phas k chart \<and> pget k chart \<noteq> PBool b
                 then Inl (ValueError ''unsafe public chart flag'') else Inr ())
               [(''actionable'', False), (''research_only'', True), (''cost_overlay_allowed'', False),
                (''research_cost_overlay_allowed'', False)]) (\<lambda>_.
       raise_if (phas ''qualification'' chart \<and> pget ''qualification'' chart \<noteq> PStr ''UNKNOWN'')
         (ValueError ''unsafe public chart qualification'')
       (bindr (check_present [''available'', ''sr_overlay_allowed'', ''research_sr_overlay_allowed'',
                 ''basis_transition'', ''raw_overlay_allowed'']
               (\<lambda>k w. case w of PBool _ \<Rightarrow> Inr () | _ \<Rightarrow> Inl (ValueError ''invalid public chart flag'')) chart) (\<lambda>_.
       bindr (check_present [''adjust'', ''indicator_version'', ''indicator_basis'', ''input_hash'', ''series_id'',
                 ''chart_contract_version'', ''display_price_basis'', ''research_price_basis'',
                 ''research_price_basis_id'', ''raw_overlay_reason'', ''history_issue'', ''reason'']
               (\<lambda>k. string_field True) chart) (\<lambda>_.
       bindr (check_present [''unsupported_intervals''] (\<lambda>k. strings_field) chart) (\<lambda>_.
       validate_chart_times E chart generated_at partial))))))))
   | _ \<Rightarrow> Inl (ValueError ''nonpublic chart fields''))"

text \<open>The producer's projection: only public fields leave, with the safety flags forced.\<close>

definition levels_public :: "pyval \<Rightarrow> pyval result" where
  "levels_public v = (case v of
       PNone \<Rightarrow> Inr PNone
     | PDict d \<Rightarrow> Inr (PDict (dict_keep level_fields d))
     | _ \<Rightarrow> Inl (ValueError ''invalid public level''))"

definition studies_public :: "pyval \<Rightarrow> pyval result" where
  "studies_public v = (case v of
       PNone \<Rightarrow> Inr PNone
     | PDict d \<Rightarrow>
        (let result = filter (\<lambda>(k, x). k \<in> set study_fields
               \<and> k \<notin> {''levels'', ''nearest_support'', ''nearest_resistance'', ''trend_lines''}) d
         in case pget_default ''levels'' (PList []) v of
              PList raw \<Rightarrow>
                bindr (mapr levels_public raw) (\<lambda>ls.
                bindr (levels_public (pget ''nearest_support'' v)) (\<lambda>ns.
                bindr (levels_public (pget ''nearest_resistance'' v)) (\<lambda>nr.
                (case pget_default ''trend_lines'' (PList []) v of
                   PList lines \<Rightarrow>
                     if \<not> list_all is_dict lines then Inl (ValueError ''invalid public trend lines'')
                     else Inr (PDict (dict_update
                       [(''levels'', PList ls), (''nearest_support'', ns), (''nearest_resistance'', nr),
                        (''trend_lines'', PList (map (\<lambda>l. PDict (dict_keep trend_line_fields (the (as_dict l)))) lines)),
                        (''actionable'', PBool False), (''qualified'', PBool False), (''qualification'', PStr ''UNKNOWN'')]
                       result))
                 | _ \<Rightarrow> Inl (ValueError ''invalid public trend lines'')))))
            | _ \<Rightarrow> Inl (ValueError ''invalid public levels''))
     | _ \<Rightarrow> Inl (ValueError ''invalid public study''))"

definition project_bar :: "pyval \<Rightarrow> pyval result" where
  "project_bar row = (case row of
       PDict d \<Rightarrow> (case por (pget ''indicators'' row) (PDict []) of
           PDict ind \<Rightarrow> Inr (PDict (dict_set ''indicators'' (PDict (dict_keep indicator_fields ind))
                          (filter (\<lambda>(k, v). k \<in> set bar_fields \<and> k \<noteq> ''indicators'') d)))
         | _ \<Rightarrow> Inl (ValueError ''invalid public indicators''))
     | _ \<Rightarrow> Inl (ValueError ''invalid public bars''))"

definition project_bars :: "pyval \<Rightarrow> pyval result" where
  "project_bars rows = (case rows of
       PList rs \<Rightarrow> if \<not> list_all is_dict rs then Inl (ValueError ''invalid public bars'')
                    else bindr (mapr project_bar rs) (\<lambda>bs. Inr (PList bs))
     | _ \<Rightarrow> Inl (ValueError ''invalid public bars''))"

definition project_chart :: "pyval \<Rightarrow> pyval result" where
  "project_chart source = (case source of
       PDict d \<Rightarrow>
         (let result = filter (\<lambda>(k, v). k \<in> set chart_fields
               \<and> k \<notin> {''bars'', ''research_bars'', ''studies'', ''support_resistance'', ''research_support_resistance''}) d
          in bindr (project_bars (pget_default ''bars'' (PList []) source)) (\<lambda>bars.
             bindr (project_bars (pget_default ''research_bars'' (PList []) source)) (\<lambda>rbars.
             bindr (studies_public (pget ''studies'' source)) (\<lambda>st.
             bindr (studies_public (pget ''support_resistance'' source)) (\<lambda>sr.
             bindr (studies_public (pget ''research_support_resistance'' source)) (\<lambda>rsr.
             Inr (PDict (dict_update
               [(''bars'', bars), (''research_bars'', rbars), (''studies'', st), (''support_resistance'', sr),
                (''research_support_resistance'', rsr), (''interval'', PStr ''1d''),
                (''unsupported_intervals'', PList [PStr ''1w'', PStr ''1mo'', PStr ''5m'', PStr ''15m'']),
                (''qualification'', PStr ''UNKNOWN''), (''research_only'', PBool True), (''actionable'', PBool False),
                (''cost_overlay_allowed'', PBool False), (''research_cost_overlay_allowed'', PBool False)]
               result))))))))
     | _ \<Rightarrow> Inl (ValueError ''invalid chart source''))"


section \<open>Manifest and bundle\<close>

definition required_parts :: "string list" where
  "required_parts = [''overview'', ''details'', ''charts'', ''sectors'']"

definition optional_parts :: "string list" where
  "optional_parts = [''market_context'', ''chart_periods'']"

definition context_availability :: "string list" where
  "context_availability = [''available'', ''partial'', ''carried_forward'', ''unavailable'', ''unpublished'']"

definition forbidden_private_fields :: "string list" where
  "forbidden_private_fields = [''avg_cost'', ''holdings'', ''cost'', ''trades'', ''account_id'', ''user_id'',
     ''accounts'', ''cookie'', ''cookies'', ''token'', ''password'', ''authorization'']"

record display_manifest =
  m_code_sha :: string
  m_config_hash :: string
  m_sequence :: int
  m_generated_at :: int
  m_expires_at :: int
  m_data_origin :: pyval
  m_universe :: "string list"
  m_parts_hashes :: "(string \<times> pyval) list"

definition parse_iso :: "py_env \<Rightarrow> pyval \<Rightarrow> int result" where
  "parse_iso E v = (case v of
       PStr s \<Rightarrow> if s = [] then Inl (ValueError ''invalid timestamp string'')
         else (case fromisoformat E s of
             None \<Rightarrow> Inl (ValueError ''Invalid isoformat string'')
           | Some (Naive _) \<Rightarrow> Inl (ValueError ''timestamp timezone required'')
           | Some (Aware u) \<Rightarrow> Inr u)
     | _ \<Rightarrow> Inl (ValueError ''invalid timestamp string''))"

text \<open>\<^verbatim>\<open>_scan_deep_privacy_and_actionable\<close>: recursion into dict values and list items.\<close>

fun scan_deep :: "pyval \<Rightarrow> bool"
and scan_items :: "(string \<times> pyval) list \<Rightarrow> bool"
and scan_list :: "pyval list \<Rightarrow> bool" where
  "scan_deep (PDict d) = scan_items d"
| "scan_deep (PList xs) = scan_list xs"
| "scan_deep _ = True"
| "scan_items [] = True"
| "scan_items ((k, v) # d) =
     (if lower k \<in> set forbidden_private_fields then False
      else if k = ''actionable'' \<and> v \<noteq> PBool False then False
      else if \<not> scan_deep v then False
      else scan_items d)"
| "scan_list [] = True"
| "scan_list (v # vs) = (if \<not> scan_deep v then False else scan_list vs)"

fun private_flags :: "pyval \<Rightarrow> bool"
and private_flags_items :: "(string \<times> pyval) list \<Rightarrow> bool"
and private_flags_list :: "pyval list \<Rightarrow> bool" where
  "private_flags (PDict d) =
     (if map_of d ''calibration_status'' \<notin> {None, Some (PStr ''not_calibrated'')} then False
      else if map_of d ''research_only'' \<notin> {None, Some (PBool True)} then False
      else private_flags_items d)"
| "private_flags (PList xs) = private_flags_list xs"
| "private_flags _ = True"
| "private_flags_items [] = True"
| "private_flags_items ((k, v) # d) = (private_flags v \<and> private_flags_items d)"
| "private_flags_list [] = True"
| "private_flags_list (v # vs) = (private_flags v \<and> private_flags_list vs)"

definition sha_re :: "string \<Rightarrow> bool" where
  "sha_re s \<longleftrightarrow> 7 \<le> length s \<and> length s \<le> 40 \<and> list_all is_hex s"

definition hex_hash_re :: "string \<Rightarrow> bool" where
  "hex_hash_re s \<longleftrightarrow> length s = 64 \<and> list_all is_hex s"

definition manifest_universe :: "pyval \<Rightarrow> string list result" where
  "manifest_universe v = (case v of
       PList us \<Rightarrow>
         if us = [] then Inl (ValueError ''universe must be a non-empty list of symbols'')
         else if \<not> list_all (\<lambda>u. case u of PStr s \<Rightarrow> code_re s | _ \<Rightarrow> False) us \<or> \<not> distinct us
         then Inl (ValueError ''all universe items must be non-empty strings'')
         else Inr (map (\<lambda>u. the (as_str u)) us)
     | _ \<Rightarrow> Inl (ValueError ''universe must be a non-empty list of symbols''))"

definition manifest_parts_hashes :: "pyval \<Rightarrow> (string \<times> pyval) list result" where
  "manifest_parts_hashes v = (case v of
       PDict h \<Rightarrow>
         if h = [] then Inl (ValueError ''parts_hashes must be a non-empty dictionary'')
         else if \<not> set required_parts \<subseteq> set (map fst h) then Inl (ValueError ''parts_hashes missing required parts'')
         else if \<not> list_all (\<lambda>(k, x). case x of PStr s \<Rightarrow> hex_hash_re s | _ \<Rightarrow> False) h
         then Inl (ValueError ''part has invalid sha256 hash'')
         else Inr h
     | _ \<Rightarrow> Inl (ValueError ''parts_hashes must be a non-empty dictionary''))"

definition validate_bundle_manifest :: "py_env \<Rightarrow> pyval \<Rightarrow> display_manifest result" where
  "validate_bundle_manifest E m =
     (if \<not> is_dict m then Inl (ValueError ''manifest must be a dictionary'')
      else if pget ''contract_version'' m \<noteq> PStr ''local-display-v2'' then Inl (ValueError ''contract_version must be local-display-v2'')
      else if pget ''actionable'' m \<noteq> PBool False then Inl (ValueError ''actionable must be false in local display contract'')
      else case pget ''code_sha'' m of PStr code_sha \<Rightarrow>
        if \<not> sha_re code_sha \<or> set code_sha = {CHR ''0''} then Inl (ValueError ''valid non-zero code_sha is required'')
        else (case pget ''config_hash'' m of PStr config_hash \<Rightarrow>
          if \<not> hex_hash_re config_hash then Inl (ValueError ''valid 64-char hex config_hash is required'')
          else (case pget ''sequence'' m of PInt sequence \<Rightarrow>
            if sequence \<le> 0 then Inl (ValueError ''positive sequence integer is required'')
            else if \<not> truthy (pget ''generated_at'' m) \<or> \<not> truthy (pget ''expires_at'' m)
            then Inl (ValueError ''generated_at and expires_at are required'')
            else
            bindr (parse_iso E (pget ''generated_at'' m)) (\<lambda>gen.
            bindr (parse_iso E (pget ''expires_at'' m)) (\<lambda>exp.
            raise_if (exp \<le> gen) (ValueError ''expires_at must be strictly greater than generated_at'')
            (bindr (manifest_universe (pget ''universe'' m)) (\<lambda>universe.
             bindr (manifest_parts_hashes (pget ''parts_hashes'' m)) (\<lambda>hashes.
             Inr \<lparr>m_code_sha = code_sha, m_config_hash = config_hash, m_sequence = sequence,
                  m_generated_at = gen, m_expires_at = exp,
                  m_data_origin = pget_default ''data_origin'' (PStr ''local_research'') m,
                  m_universe = universe, m_parts_hashes = hashes\<rparr>)))))
          | _ \<Rightarrow> Inl (ValueError ''positive sequence integer is required''))
        | _ \<Rightarrow> Inl (ValueError ''valid 64-char hex config_hash is required''))
      | _ \<Rightarrow> Inl (ValueError ''valid non-zero code_sha is required''))"

definition compute_parts_hashes :: "py_env \<Rightarrow> (string \<times> pyval) list \<Rightarrow> (string \<times> pyval) list result" where
  "compute_parts_hashes E parts = mapr (\<lambda>(k, v). bindr (digest E v) (\<lambda>h. Inr (k, PStr h))) parts"

definition dict_eq :: "(string \<times> pyval) list \<Rightarrow> (string \<times> pyval) list \<Rightarrow> bool" where
  "dict_eq a b \<longleftrightarrow> set (map fst a) = set (map fst b) \<and> list_all (\<lambda>k. map_of a k = map_of b k) (map fst a)"

definition owner_scope_ok :: "pyval \<Rightarrow> pyval \<Rightarrow> bool" where
  "owner_scope_ok m bundle \<longleftrightarrow>
     (pget ''usage_scope'' m = PStr ''owner_private_research'' \<longrightarrow>
       list_all (\<lambda>(k, v). pget k m = v)
         [(''source_qualification'', PStr ''UNKNOWN''), (''license_status'', PStr ''UNKNOWN''),
          (''research_only'', PBool True), (''calibration_status'', PStr ''not_calibrated'')]
       \<and> private_flags bundle)"

definition check_charts :: "py_env \<Rightarrow> string list \<Rightarrow> int \<Rightarrow> (string \<times> pyval) list \<Rightarrow> bool" where
  "check_charts E universe generated charts =
     list_all (\<lambda>(code, chart). code \<in> set universe
       \<and> validate_public_chart E chart (Some code) (Some generated) True ''1d'' = Inr ()) charts"

definition check_period_charts :: "py_env \<Rightarrow> string list \<Rightarrow> int \<Rightarrow> pyval \<Rightarrow> bool" where
  "check_period_charts E universe generated v = (case v of
       PDict pcs \<Rightarrow> list_all (\<lambda>(code, intervals). code \<in> set universe \<and>
          (case intervals of
             PDict ivs \<Rightarrow> keys_within [''1w'', ''1mo''] ivs \<and>
               list_all (\<lambda>(interval, chart). is_dict chart \<and> pget ''interval'' chart = PStr interval
                 \<and> validate_public_chart E chart (Some code) (Some generated) True interval = Inr ()) ivs
           | _ \<Rightarrow> False)) pcs
     | _ \<Rightarrow> False)"

definition check_market_context :: "pyval \<Rightarrow> bool" where
  "check_market_context ctx \<longleftrightarrow> is_dict ctx \<and> is_list (pget ''items'' ctx)
     \<and> (phas ''availability'' ctx \<longrightarrow>
          (case pget ''availability'' ctx of PStr a \<Rightarrow> a \<in> set context_availability | _ \<Rightarrow> False))"

definition check_details :: "string list \<Rightarrow> (string \<times> pyval) list \<Rightarrow> bool" where
  "check_details universe details =
     list_all (\<lambda>(code, detail). code \<in> set universe \<and> is_dict detail
       \<and> (pget ''instrument'' detail \<noteq> PNone \<longrightarrow> is_dict (pget ''instrument'' detail)
          \<and> (phas ''ts_code'' (pget ''instrument'' detail) \<longrightarrow>
               pget ''ts_code'' (pget ''instrument'' detail) = PStr code))) details"

definition parts_shape_ok :: "(string \<times> pyval) list \<Rightarrow> bool" where
  "parts_shape_ok parts \<longleftrightarrow> set required_parts \<subseteq> set (map fst parts)
     \<and> list_all (\<lambda>k. is_dict (pget k (PDict parts))) required_parts
     \<and> keys_within (required_parts @ optional_parts) parts"

text \<open>
  Every exception the checks can raise is caught, so the model conjoins the checks in the
  source's order.
\<close>

definition verify_bundle_integrity :: "py_env \<Rightarrow> pyval \<Rightarrow> int option \<Rightarrow> bool" where
  "verify_bundle_integrity E bundle now = (case (pget ''manifest'' bundle, pget ''parts'' bundle) of
     (PDict m, PDict parts) \<Rightarrow>
       (case validate_bundle_manifest E (PDict m) of
          Inl _ \<Rightarrow> False
        | Inr manifest \<Rightarrow>
            owner_scope_ok (PDict m) bundle
            \<and> (case now of None \<Rightarrow> True | Some t \<Rightarrow> m_generated_at manifest \<le> t \<and> t < m_expires_at manifest)
            \<and> parts_shape_ok parts
            \<and> (case compute_parts_hashes E parts of Inl _ \<Rightarrow> False | Inr h \<Rightarrow> dict_eq h (m_parts_hashes manifest))
            \<and> scan_deep bundle
            \<and> check_charts E (m_universe manifest) (m_generated_at manifest) (the (as_dict (pget ''charts'' (PDict parts))))
            \<and> check_period_charts E (m_universe manifest) (m_generated_at manifest)
                 (pget_default ''chart_periods'' (PDict []) (PDict parts))
            \<and> (phas ''market_context'' (PDict parts) \<longrightarrow> check_market_context (pget ''market_context'' (PDict parts)))
            \<and> check_details (m_universe manifest) (the (as_dict (pget ''details'' (PDict parts)))))
   | _ \<Rightarrow> False)"

section \<open>Receipts\<close>

text \<open>\<^verbatim>\<open>_validate_receipt(receipt, manifest, contract)\<close> for both contracts.\<close>

definition validate_receipt_v2 :: "py_env \<Rightarrow> pyval \<Rightarrow> pyval \<Rightarrow> string \<Rightarrow> unit result" where
  "validate_receipt_v2 E receipt manifest bid =
     raise_if (pget ''manifest_hash'' receipt \<noteq> PStr bid) (ValueError ''sync receipt manifest mismatch'')
     (case (pget ''sequence'' receipt, pget ''sequence'' manifest) of
        (PInt r, PInt m) \<Rightarrow>
          raise_if (r < 1 \<or> r \<noteq> m) (ValueError ''sync receipt sequence mismatch'')
          (raise_if (pget ''status'' receipt \<notin> {PStr ''accepted'', PStr ''already_accepted''})
             (ValueError ''invalid sync receipt outcome'')
          (case pget ''received_at'' receipt of
             PStr s \<Rightarrow> (case fromisoformat E s of
                 None \<Rightarrow> Inl (ValueError ''invalid sync receipt timestamp'')
               | Some (Naive _) \<Rightarrow> Inl (ValueError ''sync receipt timezone required'')
               | Some (Aware _) \<Rightarrow> Inr ())
           | _ \<Rightarrow> Inl (ValueError ''invalid sync receipt timestamp'')))
      | _ \<Rightarrow> Inl (ValueError ''sync receipt sequence mismatch''))"

definition validate_receipt :: "py_env \<Rightarrow> pyval \<Rightarrow> pyval \<Rightarrow> string \<Rightarrow> pyval result" where
  "validate_receipt E receipt manifest contract = (case receipt of
     PDict d \<Rightarrow>
       bindr (digest E manifest) (\<lambda>bid.
       raise_if (pget ''bundle_id'' receipt \<noteq> PStr bid) (ValueError ''sync receipt bundle mismatch'')
       (raise_if (set (map fst d) \<noteq> (if contract = ''shadow-display-v1'' then {''bundle_id''}
            else {''bundle_id'', ''manifest_hash'', ''status'', ''sequence'', ''received_at''}))
          (ValueError ''invalid sync receipt fields'')
       (if contract \<noteq> ''local-display-v2'' then Inr receipt
        else bindr (validate_receipt_v2 E receipt manifest bid) (\<lambda>_. Inr receipt))))
   | _ \<Rightarrow> Inl (ValueError ''sync receipt bundle mismatch''))"

lemma validate_receipt_returns: "validate_receipt E receipt m c = Inr r \<Longrightarrow> r = receipt"
  unfolding validate_receipt_def by (cases receipt) (simp_all only: pyval.case bindr_eq_Inr raise_if_simps sum.inject sum.simps split: if_splits, blast+)

text \<open>What an accepted version 2 receipt carries.\<close>

lemma validate_receipt_v2D:
  assumes "validate_receipt_v2 E receipt m bid = Inr ()"
  shows "pget ''manifest_hash'' receipt = PStr bid" and "pget ''status'' receipt \<in> {PStr ''accepted'', PStr ''already_accepted''}"
    and "\<exists>q. 1 \<le> q \<and> pget ''sequence'' receipt = PInt q \<and> pget ''sequence'' m = PInt q"
    and "\<exists>s u. pget ''received_at'' receipt = PStr s \<and> fromisoformat E s = Some (Aware u)"
proof -
  show "pget ''manifest_hash'' receipt = PStr bid" using assms by (simp add: validate_receipt_v2_def)
  obtain r q where seq: "pget ''sequence'' receipt = PInt r" "pget ''sequence'' m = PInt q"
    using assms by (cases "pget ''sequence'' receipt"; cases "pget ''sequence'' m") (auto simp: validate_receipt_v2_def)
  with assms show "\<exists>q. 1 \<le> q \<and> pget ''sequence'' receipt = PInt q \<and> pget ''sequence'' m = PInt q"
    "pget ''status'' receipt \<in> {PStr ''accepted'', PStr ''already_accepted''}"
    by (simp_all add: validate_receipt_v2_def)
  show "\<exists>s u. pget ''received_at'' receipt = PStr s \<and> fromisoformat E s = Some (Aware u)"
    using assms seq by (cases "pget ''received_at'' receipt") (auto simp: validate_receipt_v2_def split: option.splits dtime.splits)
qed

lemma validate_receiptD:
  assumes "validate_receipt E receipt m ''local-display-v2'' = Inr r"
  obtains bid where "digest E m = Inr bid" and "pget ''bundle_id'' receipt = PStr bid"
    and "validate_receipt_v2 E receipt m bid = Inr ()"
    and "set (pkeys receipt) = {''bundle_id'', ''manifest_hash'', ''status'', ''sequence'', ''received_at''}"
proof -
  obtain d where d: "receipt = PDict d"
    using assms unfolding validate_receipt_def by (cases receipt) simp_all
  obtain bid where "digest E m = Inr bid" "pget ''bundle_id'' receipt = PStr bid"
    "validate_receipt_v2 E receipt m bid = Inr ()"
    "set (map fst d) = {''bundle_id'', ''manifest_hash'', ''status'', ''sequence'', ''received_at''}"
    using assms unfolding validate_receipt_def d by (auto simp del: set_map)
  then show ?thesis using that by (simp add: d)
qed

end
