(* ===== verification/Job_Ledger.thy ===== *)
theory Job_Ledger
  imports Display_Contract
begin

text \<open>
  The local job ledger, \<^verbatim>\<open>app/workspace/local_job_ledger.py\<close>: the SQLite database
  \<^verbatim>\<open>state/schedule.sqlite3\<close> as a record of tables, and every method of
  \<^verbatim>\<open>LocalJobLedger\<close> as a function from the database to an error or to a result with the new
  database. A raised exception rolls the transaction back, so the error branches carry no
  database. Timestamps are stored as ISO texts by the source and read back by
  \<^verbatim>\<open>datetime.fromisoformat\<close>; here the columns hold the instants, since UTC texts of one
  format compare as the instants do. JSON columns hold the values, and are compared by their
  canonical text as the source compares them.

  Ages are compared in microseconds; the source divides them by one million first, which is
  exact for every age below \<open>2 ^ 53\<close> microseconds.
\<close>

section \<open>Tables\<close>

datatype lstatus =
    PENDING | RUNNING | EXPORTING | EXPORTED | DELIVERED | SUPERSEDED | MISSED
  | FAILED_DELIVERY | QUARANTINED | FAILED | INTERRUPTED | EXPIRED | INVALIDATED

datatype job_status = JRunning | JSucceeded | JPartial | JFailed | JUnavailable | JInterrupted

text \<open>The texts of the reason columns; \<open>NewerSlot s\<close> is \<^verbatim>\<open>f"newer_slot:{s}"\<close>.\<close>

datatype reason = Reason string | NewerSlot slot_id

record slot_row =
  s_id :: slot_id
  s_session :: int
  s_slot :: string
  s_status :: lstatus
  s_planned_at :: int
  s_updated_at :: int
  s_reason :: "reason option"

record attempt_row =
  a_id :: string
  a_slot :: slot_id
  a_no :: int
  a_status :: lstatus
  a_started_at :: int
  a_finished_at :: "int option"
  a_updated_at :: int
  a_code_sha :: string
  a_config_hash :: string
  a_scope_hash :: string
  a_bundle_file :: "string option"
  a_sequence :: "int option"
  a_bundle_id :: "string option"
  a_expires_at :: "int option"
  a_receipt :: "pyval option"
  a_reason :: "reason option"

record job_row =
  j_attempt :: string
  j_name :: string
  j_status :: job_status
  j_started_at :: int
  j_finished_at :: "int option"
  j_run_id :: "string option"
  j_required :: bool
  j_details :: pyval

record diag_row =
  g_attempt :: string
  g_phase :: string
  g_status :: string
  g_recorded_at :: int
  g_updated_at :: int
  g_duration :: pyval
  g_observations :: int
  g_error :: "(string \<times> string) option"

record ledger =
  slots :: "slot_row list"
  attempts :: "attempt_row list"
  jobs :: "job_row list"
  watermark :: "int option"
  manifests :: "(string \<times> pyval) list"
  diagnostics :: "diag_row list"

definition empty_ledger :: ledger where
  "empty_ledger = \<lparr>slots = [], attempts = [], jobs = [], watermark = None, manifests = [], diagnostics = []\<rparr>"

definition terminal_slots :: "lstatus set" where
  "terminal_slots = {DELIVERED, SUPERSEDED, MISSED, FAILED_DELIVERY, QUARANTINED}"

definition exporting :: "lstatus set" where
  "exporting = {EXPORTING, EXPORTED}"

abbreviation job_key :: "job_row \<Rightarrow> string \<times> string" where
  "job_key j \<equiv> (j_attempt j, j_name j)"

abbreviation diag_key :: "diag_row \<Rightarrow> string \<times> string" where
  "diag_key g \<equiv> (g_attempt g, g_phase g)"

section \<open>Argument checks\<close>

fun clock :: "dtime \<Rightarrow> int result" where
  "clock (Aware u) = Inr u"
| "clock (Naive _) = Inl (ValueError ''timezone-aware clock required'')"

record identity =
  code_sha :: string
  config_hash :: string
  scope_hash :: string

definition identity_of :: "pyval \<Rightarrow> identity result" where
  "identity_of v = (case v of
     PDict d \<Rightarrow>
       if set (map fst d) \<noteq> {''code_sha'', ''config_hash'', ''scope_hash''}
       then Inl (ValueError ''exact source/config/scope identity required'')
       else (case (pget ''code_sha'' v, pget ''config_hash'' v, pget ''scope_hash'' v) of
           (PStr code, PStr config, PStr scope) \<Rightarrow>
             if \<not> hex_string 40 code \<or> \<not> hex_string 64 config \<or> \<not> hex_string 64 scope
             then Inl (ValueError ''invalid scheduling identity'')
             else if set code = {CHR ''0''} then Inl (ValueError ''nonzero source identity required'')
             else Inr \<lparr>code_sha = code, config_hash = config, scope_hash = scope\<rparr>
         | _ \<Rightarrow> Inl (ValueError ''invalid scheduling identity''))
   | _ \<Rightarrow> Inl (ValueError ''exact source/config/scope identity required''))"

text \<open>\<^verbatim>\<open>any(attempt[key] != identity[key] for key in identity)\<close>, negated.\<close>

definition same_identity :: "attempt_row \<Rightarrow> identity \<Rightarrow> bool" where
  "same_identity a i \<longleftrightarrow> a_code_sha a = code_sha i \<and> a_config_hash a = config_hash i \<and> a_scope_hash a = scope_hash i"

text \<open>\<^verbatim>\<open>_forward\<close>: the row's last update must not lie after the current instant.\<close>

definition forward :: "int \<Rightarrow> int \<Rightarrow> unit result" where
  "forward updated current =
     (if current < updated then Inl (ValueError ''clock moved backwards during attempt'') else Inr ())"

definition observe_clock :: "int \<Rightarrow> ledger \<Rightarrow> ledger result" where
  "observe_clock current db =
     (if (case watermark db of None \<Rightarrow> False | Some w \<Rightarrow> current < w)
      then Inl (ValueError ''clock rollback blocked by durable ledger watermark'')
      else Inr (db\<lparr>watermark := Some current\<rparr>))"

text \<open>
  \<^verbatim>\<open>job_name = 'upload' OR job_name LIKE 'upload\_%' ESCAPE '\'\<close>; the names are lower
  case, so the case-insensitive \<^verbatim>\<open>LIKE\<close> is a prefix test.
\<close>

definition upload_job :: "string \<Rightarrow> bool" where
  "upload_job name \<longleftrightarrow> name = ''upload'' \<or> starts_with ''upload_'' name"

section \<open>Reading\<close>

definition slot_by_id :: "slot_id \<Rightarrow> ledger \<Rightarrow> slot_row option" where
  "slot_by_id sid db = row_by s_id sid (slots db)"

definition attempt_by_id :: "string \<Rightarrow> ledger \<Rightarrow> attempt_row option" where
  "attempt_by_id aid db = row_by a_id aid (attempts db)"

definition manifest_of :: "string \<Rightarrow> ledger \<Rightarrow> pyval option" where
  "manifest_of aid db = map_of (manifests db) aid"

text \<open>\<^verbatim>\<open>_attempt_row\<close>: the row together with its stored manifest.\<close>

definition attempt_view :: "ledger \<Rightarrow> attempt_row \<Rightarrow> attempt_row \<times> pyval option" where
  "attempt_view db a = (a, manifest_of (a_id a) db)"

definition get_slot :: "slot_id \<Rightarrow> ledger \<Rightarrow> slot_row option" where
  "get_slot sid db = slot_by_id sid db"

definition get_attempt :: "string \<Rightarrow> ledger \<Rightarrow> (attempt_row \<times> pyval option) option" where
  "get_attempt aid db = map_option (attempt_view db) (attempt_by_id aid db)"

text \<open>\<^verbatim>\<open>SELECT * FROM attempts WHERE slot_id=? ORDER BY attempt_no DESC LIMIT 1\<close>.\<close>

fun latest_attempt :: "attempt_row list \<Rightarrow> attempt_row option" where
  "latest_attempt [] = None"
| "latest_attempt (a # as) = (case latest_attempt as of
       None \<Rightarrow> Some a | Some b \<Rightarrow> if a_no a < a_no b then Some b else Some a)"

definition previous_attempt :: "slot_id \<Rightarrow> ledger \<Rightarrow> attempt_row option" where
  "previous_attempt sid db = latest_attempt (filter (\<lambda>a. a_slot a = sid) (attempts db))"

definition failed_uploads :: "string \<Rightarrow> ledger \<Rightarrow> job_row list" where
  "failed_uploads aid db =
     filter (\<lambda>j. j_attempt j = aid \<and> j_status j \<in> {JFailed, JInterrupted} \<and> upload_job (j_name j)) (jobs db)"

section \<open>Ending an export\<close>

definition finish_attempts :: "string \<Rightarrow> lstatus \<Rightarrow> reason \<Rightarrow> int \<Rightarrow> attempt_row list \<Rightarrow> attempt_row list" where
  "finish_attempts aid st rsn stamp =
     upd_where (\<lambda>a. a_id a = aid \<and> a_status a \<in> exporting)
       (\<lambda>a. a\<lparr>a_status := st, a_finished_at := Some stamp, a_updated_at := stamp, a_reason := Some rsn\<rparr>)"

definition interrupt_jobs :: "string \<Rightarrow> int \<Rightarrow> job_row list \<Rightarrow> job_row list" where
  "interrupt_jobs aid stamp =
     upd_where (\<lambda>j. j_attempt j = aid \<and> j_status j = JRunning)
       (\<lambda>j. j\<lparr>j_status := JInterrupted, j_finished_at := Some stamp\<rparr>)"

definition set_slot :: "lstatus \<Rightarrow> int \<Rightarrow> reason option \<Rightarrow> slot_row \<Rightarrow> slot_row" where
  "set_slot st stamp rsn s = s\<lparr>s_status := st, s_updated_at := stamp, s_reason := rsn\<rparr>"

text \<open>\<^verbatim>\<open>_finish_export\<close>: the three updates, each with its own guard.\<close>

definition finish_export ::
  "attempt_row \<Rightarrow> lstatus \<Rightarrow> lstatus \<Rightarrow> reason \<Rightarrow> int \<Rightarrow> ledger \<Rightarrow> ledger" where
  "finish_export row attempt_status slot_status rsn stamp db =
     db\<lparr>attempts := finish_attempts (a_id row) attempt_status rsn stamp (attempts db),
        slots := upd_where (\<lambda>s. s_id s = a_slot row \<and> s_status s \<in> exporting)
                   (set_slot slot_status stamp (Some rsn)) (slots db),
        jobs := interrupt_jobs (a_id row) stamp (jobs db)\<rparr>"

definition finish_exports ::
  "attempt_row list \<Rightarrow> lstatus \<Rightarrow> lstatus \<Rightarrow> reason \<Rightarrow> int \<Rightarrow> ledger \<Rightarrow> ledger" where
  "finish_exports rows attempt_status slot_status rsn stamp db =
     fold (\<lambda>row. finish_export row attempt_status slot_status rsn stamp) rows db"

section \<open>Planning the due slot\<close>

definition session_of :: "slot_id \<Rightarrow> ledger \<Rightarrow> int option" where
  "session_of sid db = map_option s_session (slot_by_id sid db)"

text \<open>Exports whose upload budget of one POST and two retries is spent.\<close>

definition close_exhausted :: "int \<Rightarrow> ledger \<Rightarrow> ledger" where
  "close_exhausted stamp db =
     finish_exports (filter (\<lambda>a. a_status a = EXPORTED \<and> 3 \<le> length (failed_uploads (a_id a) db)) (attempts db))
       FAILED_DELIVERY FAILED_DELIVERY (Reason ''upload_retry_budget_exhausted'') stamp db"

definition miss_previous_sessions :: "int \<Rightarrow> int \<Rightarrow> ledger \<Rightarrow> ledger" where
  "miss_previous_sessions session stamp db =
     db\<lparr>slots := upd_where (\<lambda>s. s_session s < session \<and> s_status s \<notin> terminal_slots)
                   (set_slot MISSED stamp (Some (Reason ''previous_session''))) (slots db)\<rparr>"

definition expire_previous_exports :: "int \<Rightarrow> int \<Rightarrow> ledger \<Rightarrow> ledger" where
  "expire_previous_exports session stamp db =
     finish_exports (filter (\<lambda>a. a_status a \<in> exporting
         \<and> (case session_of (a_slot a) db of None \<Rightarrow> False | Some ss \<Rightarrow> ss < session)) (attempts db))
       EXPIRED MISSED (Reason ''previous_session'') stamp db"

text \<open>\<^verbatim>\<open>INSERT OR IGNORE INTO slots\<close> for one slot of the session.\<close>

definition plan_slot :: "int \<Rightarrow> int \<Rightarrow> string \<times> int \<Rightarrow> ledger \<Rightarrow> ledger" where
  "plan_slot session stamp st db =
     (let sid = (session, fst st)
      in case slot_by_id sid db of
           Some _ \<Rightarrow> db
         | None \<Rightarrow> db\<lparr>slots := slots db @ [\<lparr>s_id = sid, s_session = session, s_slot = fst st, s_status = PENDING,
                     s_planned_at = shanghai_instant session (snd st), s_updated_at = stamp, s_reason = None\<rparr>]\<rparr>)"

definition slot_exports :: "slot_id \<Rightarrow> ledger \<Rightarrow> attempt_row list" where
  "slot_exports sid db = filter (\<lambda>a. a_slot a = sid \<and> a_status a \<in> exporting) (attempts db)"

text \<open>An older due slot yields to the newest one: its exports and the slot are superseded.\<close>

definition supersede_slot :: "slot_id \<Rightarrow> int \<Rightarrow> slot_id \<Rightarrow> ledger \<Rightarrow> ledger" where
  "supersede_slot latest stamp sid db =
     (let db1 = finish_exports (slot_exports sid db) SUPERSEDED SUPERSEDED (NewerSlot latest) stamp db
      in db1\<lparr>slots := upd_where (\<lambda>s. s_id s = sid \<and> s_status s \<notin> terminal_slots \<union> {RUNNING})
                        (set_slot SUPERSEDED stamp (Some (NewerSlot latest))) (slots db1)\<rparr>)"

definition miss_late_slot :: "slot_id \<Rightarrow> int \<Rightarrow> ledger \<Rightarrow> ledger" where
  "miss_late_slot latest stamp db =
     (let db1 = finish_exports (slot_exports latest db) EXPIRED MISSED (Reason ''catchup_window_expired'') stamp db
      in db1\<lparr>slots := upd_where (\<lambda>s. s_id s = latest \<and> s_status s \<notin> terminal_slots \<union> {RUNNING})
                        (set_slot MISSED stamp (Some (Reason ''catchup_window_expired''))) (slots db1)\<rparr>)"

text \<open>Exports of the due slot that carry another identity or have expired are withdrawn.\<close>

definition drop_stale_export :: "identity \<Rightarrow> int \<Rightarrow> attempt_row \<Rightarrow> ledger \<Rightarrow> ledger" where
  "drop_stale_export ident current a db =
     (let invalid = \<not> same_identity a ident;
          expired = (case a_expires_at a of None \<Rightarrow> False | Some x \<Rightarrow> x \<le> current)
      in if invalid then finish_export a INVALIDATED FAILED (Reason ''invalidated'') current db
         else if expired then finish_export a EXPIRED FAILED (Reason ''expired'') current db
         else db)"

definition retry_blocked :: "int \<Rightarrow> int \<Rightarrow> int \<Rightarrow> attempt_row option \<Rightarrow> bool" where
  "retry_blocked current max_attempts cooldown previous = (case previous of
       None \<Rightarrow> False
     | Some p \<Rightarrow> max_attempts \<le> a_no p
         \<or> (a_status p \<notin> {INVALIDATED, EXPIRED} \<and> current - a_updated_at p < cooldown * second_us))"

record plan_policy =
  max_lateness :: int
  max_attempts :: int
  cooldown_seconds :: int

definition default_policy :: plan_policy where
  "default_policy = \<lparr>max_lateness = 1200, max_attempts = 2, cooldown_seconds = 60\<rparr>"

definition parse_slots :: "string list \<Rightarrow> (string \<times> int) list result" where
  "parse_slots ss = mapr (\<lambda>s. if \<not> is_hhmm s then Inl (ValueError ''HH:MM slots required'')
      else bindr (parse_time s) (\<lambda>t. Inr (s, t))) ss"

definition due_slots :: "int \<Rightarrow> int \<Rightarrow> (string \<times> int) list \<Rightarrow> (slot_id \<times> int) list" where
  "due_slots session current parsed =
     filter (\<lambda>(sid, age). 0 \<le> age)
       (map (\<lambda>(s, t). ((session, s), current - shanghai_instant session t)) parsed)"

text \<open>The part of \<^verbatim>\<open>plan_due\<close> after the newest due slot is known.\<close>

definition plan_latest ::
  "plan_policy \<Rightarrow> identity \<Rightarrow> int \<Rightarrow> slot_id \<Rightarrow> int \<Rightarrow> ledger \<Rightarrow> slot_row option \<times> ledger" where
  "plan_latest P ident current latest age db =
     (if max_lateness P * second_us < age then (None, miss_late_slot latest current db)
      else let db1 = fold (drop_stale_export ident current) (slot_exports latest db) db
      in case slot_by_id latest db1 of
           None \<Rightarrow> (None, db1)
         | Some row \<Rightarrow>
             if s_status row \<in> terminal_slots \<union> {RUNNING, EXPORTING, EXPORTED} then (None, db1)
             else if retry_blocked current (max_attempts P) (cooldown_seconds P) (previous_attempt latest db1)
             then (None, db1)
             else (Some row, db1))"

definition plan_session ::
  "plan_policy \<Rightarrow> identity \<Rightarrow> int \<Rightarrow> (string \<times> int) list \<Rightarrow> ledger \<Rightarrow> slot_row option \<times> ledger" where
  "plan_session P ident current parsed db =
     (let session = local_date current;
          ordered = sort_key fst parsed;
          db1 = fold (plan_slot session current) ordered db;
          due = due_slots session current ordered
      in if due = [] then (None, db1)
         else let (latest, age) = last due;
                  db2 = fold (\<lambda>(sid, _). supersede_slot latest current sid) (butlast due) db1
              in plan_latest P ident current latest age db2)"

definition plan_due ::
  "plan_policy \<Rightarrow> dtime \<Rightarrow> bool \<Rightarrow> pyval \<Rightarrow> string list \<Rightarrow> ledger \<Rightarrow> (slot_row option \<times> ledger) result" where
  "plan_due P now verified_trading ident_val slot_texts db =
     bindr (clock now) (\<lambda>current.
     bindr (identity_of ident_val) (\<lambda>ident.
     raise_if (\<not> (1 \<le> max_lateness P \<and> max_lateness P \<le> 7200)) (ValueError ''bounded verified schedule required'')
     (raise_if (\<not> (1 \<le> max_attempts P \<and> max_attempts P \<le> 5) \<or> \<not> (0 \<le> cooldown_seconds P \<and> cooldown_seconds P \<le> 3600))
        (ValueError ''bounded retry policy required'')
     (raise_if (slot_texts = [] \<or> 32 < length slot_texts \<or> \<not> distinct slot_texts)
        (ValueError ''bounded unique slots required'')
     (bindr (parse_slots slot_texts) (\<lambda>parsed.
      bindr (observe_clock current db) (\<lambda>db0.
      let session = local_date current;
          db1 = expire_previous_exports session current
                  (miss_previous_sessions session current (close_exhausted current db0))
      in if \<not> verified_trading then Inr (None, db1)
         else Inr (plan_session P ident current parsed db1))))))))"


section \<open>Claiming and recovering\<close>

definition new_attempt :: "string \<Rightarrow> slot_id \<Rightarrow> int \<Rightarrow> int \<Rightarrow> identity \<Rightarrow> attempt_row" where
  "new_attempt aid sid no stamp i =
     \<lparr>a_id = aid, a_slot = sid, a_no = no, a_status = RUNNING, a_started_at = stamp, a_finished_at = None,
      a_updated_at = stamp, a_code_sha = code_sha i, a_config_hash = config_hash i, a_scope_hash = scope_hash i,
      a_bundle_file = None, a_sequence = None, a_bundle_id = None, a_expires_at = None, a_receipt = None, a_reason = None\<rparr>"

definition next_attempt_no :: "attempt_row option \<Rightarrow> int" where
  "next_attempt_no previous = (case previous of None \<Rightarrow> 1 | Some p \<Rightarrow> a_no p + 1)"

text \<open>
  \<^verbatim>\<open>claim\<close>; \<open>aid\<close> is the fresh \<^verbatim>\<open>uuid4().hex\<close>, whose collision with a stored
  attempt would violate the primary key.
\<close>

definition claim ::
  "plan_policy \<Rightarrow> string \<Rightarrow> slot_id \<Rightarrow> dtime \<Rightarrow> pyval \<Rightarrow> bool \<Rightarrow> ledger
     \<Rightarrow> ((attempt_row \<times> pyval option) \<times> ledger) result" where
  "claim P aid sid now ident_val lock_held db =
     raise_if (\<not> lock_held) (ValueError ''external run lock must be held'')
     (bindr (identity_of ident_val) (\<lambda>ident.
      bindr (clock now) (\<lambda>current.
      raise_if (\<not> (1 \<le> max_attempts P \<and> max_attempts P \<le> 5) \<or> \<not> (0 \<le> cooldown_seconds P \<and> cooldown_seconds P \<le> 3600))
        (ValueError ''bounded retry policy required'')
      (bindr (observe_clock current db) (\<lambda>db0.
       case slot_by_id sid db0 of
         None \<Rightarrow> Inl (ValueError ''slot is not claimable'')
       | Some slot \<Rightarrow>
         raise_if (s_status slot \<notin> {PENDING, FAILED, INTERRUPTED}) (ValueError ''slot is not claimable'')
         (bindr (forward (s_updated_at slot) current) (\<lambda>_.
          bindr (parse_time (s_slot slot)) (\<lambda>t.
          let age = current - shanghai_instant (s_session slot) t
          in raise_if (local_date current \<noteq> s_session slot \<or> \<not> (0 \<le> age \<and> age \<le> max_lateness P * second_us))
               (ValueError ''slot is outside bounded current-session window'')
             (raise_if (\<exists>a \<in> set (attempts db0). a_status a = RUNNING) (ValueError ''an attempt is already running'')
             (let previous = previous_attempt sid db0; no = next_attempt_no previous
              in raise_if (max_attempts P < no \<or> (case previous of None \<Rightarrow> False
                    | Some p \<Rightarrow> a_status p \<notin> {INVALIDATED, EXPIRED}
                        \<and> current - a_updated_at p < cooldown_seconds P * second_us))
                   (ValueError ''retry budget or cooldown'')
                 (raise_if (attempt_by_id aid db0 \<noteq> None) (IntegrityError ''attempts.attempt_id'')
                 (let db1 = db0\<lparr>attempts := attempts db0 @ [new_attempt aid sid no current ident],
                                 slots := upd_where (\<lambda>s. s_id s = sid) (set_slot RUNNING current None) (slots db0)\<rparr>
                  in Inr (attempt_view db1 (new_attempt aid sid no current ident), db1)))))))))))))"

definition interrupt_attempt :: "int \<Rightarrow> attempt_row \<Rightarrow> ledger \<Rightarrow> ledger result" where
  "interrupt_attempt stamp row db =
     bindr (forward (a_updated_at row) stamp) (\<lambda>_.
     Inr (db\<lparr>attempts := upd_where (\<lambda>a. a_id a = a_id row)
                 (\<lambda>a. a\<lparr>a_status := INTERRUPTED, a_finished_at := Some stamp, a_updated_at := stamp,
                         a_reason := Some (Reason ''owner_process_ended'')\<rparr>) (attempts db),
              slots := upd_where (\<lambda>s. s_id s = a_slot row \<and> s_status s = RUNNING)
                 (set_slot INTERRUPTED stamp (Some (Reason ''owner_process_ended''))) (slots db),
              jobs := interrupt_jobs (a_id row) stamp (jobs db)\<rparr>))"

definition interrupt_exported_jobs :: "int \<Rightarrow> ledger \<Rightarrow> ledger" where
  "interrupt_exported_jobs stamp db =
     db\<lparr>jobs := upd_where (\<lambda>j. j_status j = JRunning \<and> (\<exists>a \<in> set (attempts db). a_id a = j_attempt j \<and> a_status a = EXPORTED))
                  (\<lambda>j. j\<lparr>j_status := JInterrupted, j_finished_at := Some stamp\<rparr>) (jobs db)\<rparr>"

definition recover_interrupted :: "dtime \<Rightarrow> bool \<Rightarrow> ledger \<Rightarrow> (nat \<times> ledger) result" where
  "recover_interrupted now lock_held db =
     raise_if (\<not> lock_held) (ValueError ''external run lock must be held'')
     (bindr (clock now) (\<lambda>current.
      bindr (observe_clock current db) (\<lambda>db0.
      let rows = filter (\<lambda>a. a_status a = RUNNING) (attempts db0)
      in bindr (foldr_result (interrupt_attempt current) rows db0) (\<lambda>db1.
         Inr (length rows, interrupt_exported_jobs current db1)))))"

section \<open>Recording jobs\<close>

definition execution_hash_fields :: "string list" where
  "execution_hash_fields = [''execution_hash'', ''base_input_hash'', ''quote_batch_hash'', ''config_file_hash'']"

definition detail_fields :: "string list" where
  "detail_fields = [''coverage_complete'', ''requested'', ''completed'', ''missing'', ''failed_count'',
     ''degraded_count'', ''accepted_closed_session'', ''accepted_settled_daily'', ''input_basis'',
     ''settled_daily_input_hash'', ''settled_daily_quote_hash'', ''source_task_status'', ''execution_mode'',
     ''duration_seconds'', ''latency_seconds'', ''reason'', ''error_type'', ''run_id'',
     ''target_trade_date'', ''scope_hash'', ''failure_stage''] @ execution_hash_fields"

text \<open>\<^verbatim>\<open>[a-z][a-z0-9_]{0,79}\<close> and \<^verbatim>\<open>[A-Za-z0-9_-]{1,100}\<close>.\<close>

definition job_name_re :: "string \<Rightarrow> bool" where
  "job_name_re s \<longleftrightarrow> s \<noteq> [] \<and> length s \<le> 80 \<and> is_lower (hd s)
     \<and> list_all (\<lambda>c. is_lower c \<or> is_digit c \<or> c = CHR ''_'') (tl s)"

definition run_id_re :: "string \<Rightarrow> bool" where
  "run_id_re s \<longleftrightarrow> 1 \<le> length s \<and> length s \<le> 100
     \<and> list_all (\<lambda>c. is_lower c \<or> is_upper c \<or> is_digit c \<or> c \<in> {CHR ''_'', CHR ''-''}) s"

definition parse_job_status :: "string \<Rightarrow> job_status option" where
  "parse_job_status s =
     (if s = ''running'' then Some JRunning
      else if s = ''succeeded'' then Some JSucceeded
      else if s = ''partial'' then Some JPartial
      else if s = ''failed'' then Some JFailed
      else if s = ''unavailable'' then Some JUnavailable
      else if s = ''interrupted'' then Some JInterrupted
      else None)"

definition valid_hash_detail :: "pyval \<Rightarrow> bool" where
  "valid_hash_detail v = (case v of PNone \<Rightarrow> True | PStr s \<Rightarrow> hex_string 64 s | _ \<Rightarrow> False)"

definition check_details_arg :: "py_env \<Rightarrow> pyval \<Rightarrow> string result" where
  "check_details_arg E details = (case details of
     PDict d \<Rightarrow>
       if \<not> keys_within detail_fields d then Inl (ValueError ''non-public job detail field'')
       else if \<not> list_all (\<lambda>k. phas k details \<longrightarrow> valid_hash_detail (pget k details)) execution_hash_fields
       then Inl (ValueError ''execution detail requires a 64-char hash or null'')
       else bindr (json_dumps E details) (\<lambda>encoded.
         if 4096 < int (length encoded) \<or> list_ex (\<lambda>(k, v). is_dict v \<or> is_list v) d
         then Inl (ValueError ''bounded scalar job details required'') else Inr encoded)
   | _ \<Rightarrow> Inl (ValueError ''non-public job detail field''))"

text \<open>The attempt states in which a job may be recorded.\<close>

definition job_allowed :: "attempt_row option \<Rightarrow> string \<Rightarrow> job_row option \<Rightarrow> job_status \<Rightarrow> bool" where
  "job_allowed attempt name old status = (case attempt of
     None \<Rightarrow> False
   | Some a \<Rightarrow> a_status a = RUNNING
       \<or> (upload_job name \<and> a_status a = EXPORTED)
       \<or> (upload_job name \<and> a_status a = DELIVERED \<and> status = JSucceeded
          \<and> (case old of None \<Rightarrow> False | Some j \<Rightarrow> j_status j \<in> {JRunning, JSucceeded})))"

definition record_job ::
  "py_env \<Rightarrow> string \<Rightarrow> string \<Rightarrow> string \<Rightarrow> dtime \<Rightarrow> string option \<Rightarrow> bool \<Rightarrow> pyval \<Rightarrow> ledger \<Rightarrow> ledger result" where
  "record_job E aid name status_text now run_id required details_arg db =
     bindr (clock now) (\<lambda>current.
     raise_if (\<not> job_name_re name) (ValueError ''invalid job name'')
     (case parse_job_status status_text of
       None \<Rightarrow> Inl (ValueError ''invalid job status'')
     | Some status \<Rightarrow>
       let details = por details_arg (PDict []) in
       bindr (check_details_arg E details) (\<lambda>encoded.
       raise_if (case run_id of None \<Rightarrow> False | Some r \<Rightarrow> \<not> run_id_re r) (ValueError ''invalid task run identity'')
       (bindr (observe_clock current db) (\<lambda>db0.
        let attempt = attempt_by_id aid db0; old = row_by job_key (aid, name) (jobs db0) in
        bindr (case attempt of None \<Rightarrow> Inr () | Some a \<Rightarrow> forward (a_updated_at a) current) (\<lambda>_.
        raise_if (\<not> job_allowed attempt name old status) (ValueError ''job requires an active attempt'')
        (let fin = (if status = JRunning then None else Some current) in
         case old of
           Some j \<Rightarrow>
             raise_if (j_run_id j \<noteq> run_id \<or> j_required j \<noteq> required) (ValueError ''job identity is immutable'')
             (if j_status j \<noteq> JRunning then
                (if j_status j = status \<and> json_dumps E (j_details j) = Inr encoded then Inr db0
                 else Inl (ValueError ''terminal job cannot regress''))
              else Inr (db0\<lparr>jobs := upd_where (\<lambda>j. job_key j = (aid, name))
                      (\<lambda>j. j\<lparr>j_status := status, j_finished_at := fin, j_details := details\<rparr>) (jobs db0)\<rparr>))
         | None \<Rightarrow> Inr (db0\<lparr>jobs := jobs db0 @ [\<lparr>j_attempt = aid, j_name = name, j_status = status,
                      j_started_at = current, j_finished_at = fin, j_run_id = run_id, j_required = required,
                      j_details = details\<rparr>]\<rparr>))))))))"

section \<open>Diagnostics\<close>

definition diagnostic_phases :: "string list" where
  "diagnostic_phases = [''base_validation'', ''projection_export'', ''bundle_write'', ''upload_auth'',
     ''pre_upload_validation'', ''transport_receipt'']"

definition public_error_types :: "string list" where
  "public_error_types = [''Exception'', ''RuntimeError'', ''ValueError'', ''TypeError'', ''KeyError'', ''OSError'',
     ''FileNotFoundError'', ''PermissionError'', ''TimeoutError'', ''ConnectionError'', ''JSONDecodeError'',
     ''HTTPError'', ''URLError'', ''RequestError'', ''HTTPStatusError'', ''TransportError'', ''NetworkError'',
     ''ConnectError'', ''ReadError'', ''WriteError'', ''CloseError'', ''ProtocolError'', ''RemoteProtocolError'',
     ''LocalProtocolError'', ''TimeoutException'', ''ConnectTimeout'', ''ReadTimeout'', ''WriteTimeout'',
     ''PoolTimeout'', ''ProxyError'', ''UnsupportedProtocol'', ''SSLError'', ''SSLCertVerificationError'',
     ''IntegrityError'', ''OperationalError'', ''UnicodeDecodeError'', ''OverflowError'']"

text \<open>\<^verbatim>\<open>public_error_type\<close>: the first approved name on the class's resolution order.\<close>

definition public_error_type :: "string list \<Rightarrow> string" where
  "public_error_type mro = (case List.find (\<lambda>n. n \<in> set public_error_types) mro of Some n \<Rightarrow> n | None \<Rightarrow> ''Exception'')"

definition check_duration :: "pyval \<Rightarrow> unit result" where
  "check_duration v = (case v of
       PInt n \<Rightarrow> bindr (float_of_int n) (\<lambda>_. raise_if (n < 0) (ValueError ''finite nonnegative diagnostic duration required'') (Inr ()))
     | PFloat f \<Rightarrow> raise_if (\<not> pf_isfinite f \<or> pf_less f (Fin 0)) (ValueError ''finite nonnegative diagnostic duration required'') (Inr ())
     | _ \<Rightarrow> Inl (ValueError ''finite nonnegative diagnostic duration required''))"

text \<open>\<^verbatim>\<open>+\<close> on int and float operands.\<close>

fun num_add :: "pyval \<Rightarrow> pyval \<Rightarrow> pyval result" where
  "num_add (PInt a) (PInt b) = Inr (PInt (a + b))"
| "num_add (PFloat a) (PFloat b) = Inr (PFloat (pf_add a b))"
| "num_add (PInt a) (PFloat b) = bindr (float_of_int a) (\<lambda>f. Inr (PFloat (pf_add f b)))"
| "num_add (PFloat a) (PInt b) = bindr (float_of_int b) (\<lambda>f. Inr (PFloat (pf_add a f)))"
| "num_add _ _ = Inl (TypeError ''unsupported operand'')"

definition check_cumulative :: "pyval \<Rightarrow> unit result" where
  "check_cumulative v = (case v of
       PInt n \<Rightarrow> bindr (float_of_int n) (\<lambda>_. Inr ())
     | PFloat f \<Rightarrow> raise_if (\<not> pf_isfinite f) (ValueError ''finite cumulative diagnostic duration required'') (Inr ())
     | _ \<Rightarrow> Inl (TypeError ''must be real number''))"

text \<open>The insertion or accumulation of one phase; a failed phase stays failed with its first error.\<close>

definition put_diagnostic ::
  "string \<Rightarrow> string \<Rightarrow> string \<Rightarrow> int \<Rightarrow> pyval \<Rightarrow> (string \<times> string) option \<Rightarrow> ledger \<Rightarrow> ledger result" where
  "put_diagnostic aid phase status current duration new_error db =
     (let old = row_by diag_key (aid, phase) (diagnostics db) in
      bindr (num_add (case old of None \<Rightarrow> PInt 0 | Some g \<Rightarrow> g_duration g) duration) (\<lambda>total.
      bindr (check_cumulative total) (\<lambda>_.
      (case old of
         None \<Rightarrow> Inr (db\<lparr>diagnostics := diagnostics db @ [\<lparr>g_attempt = aid, g_phase = phase, g_status = status,
            g_recorded_at = current, g_updated_at = current, g_duration = total, g_observations = 1, g_error = new_error\<rparr>]\<rparr>)
       | Some g \<Rightarrow>
           bindr (forward (g_updated_at g) current) (\<lambda>_.
           Inr (db\<lparr>diagnostics := upd_where (\<lambda>g. diag_key g = (aid, phase))
             (\<lambda>g. g\<lparr>g_status := (if g_status g = ''failed'' then ''failed'' else status), g_updated_at := current,
                    g_duration := total, g_observations := g_observations g + 1,
                    g_error := (case g_error g of Some e \<Rightarrow> Some e | None \<Rightarrow> new_error)\<rparr>) (diagnostics db)\<rparr>))))))"

definition record_diagnostic ::
  "string \<Rightarrow> string \<Rightarrow> string \<Rightarrow> dtime \<Rightarrow> pyval \<Rightarrow> string option \<Rightarrow> string option \<Rightarrow> ledger \<Rightarrow> ledger result" where
  "record_diagnostic aid phase status now duration error_type rsn db =
     raise_if (phase \<notin> set diagnostic_phases \<or> status \<notin> {''succeeded'', ''failed''})
       (ValueError ''fixed diagnostic phase and status required'')
     (bindr (check_duration duration) (\<lambda>_.
      raise_if ((status = ''failed'' \<and> ((case error_type of None \<Rightarrow> True | Some e \<Rightarrow> e \<notin> set public_error_types)
                    \<or> rsn \<noteq> Some (phase @ ''_failed'')))
                \<or> (status = ''succeeded'' \<and> (error_type \<noteq> None \<or> rsn \<noteq> None)))
        (ValueError ''fixed public diagnostic failure required'')
      (bindr (clock now) (\<lambda>current.
       bindr (observe_clock current db) (\<lambda>db0.
       case attempt_by_id aid db0 of
         None \<Rightarrow> Inl (ValueError ''diagnostic requires a current attempt'')
       | Some a \<Rightarrow>
         raise_if (a_status a \<notin> {RUNNING, EXPORTING, EXPORTED, DELIVERED}) (ValueError ''diagnostic requires a current attempt'')
         (bindr (forward (a_updated_at a) current) (\<lambda>_.
          put_diagnostic aid phase status current duration
            (if status = ''failed'' then Some (the error_type, the rsn) else None) db0)))))))"


section \<open>Exports\<close>

definition bundle_name :: "int \<Rightarrow> string" where
  "bundle_name seq = ''bundle_'' @ show_int seq @ ''.json''"

record export_facts =
  x_sequence :: int
  x_expiry :: int
  x_bundle_id :: string
  x_encoded :: string

text \<open>The checks of \<^verbatim>\<open>_record_export\<close> that need no database.\<close>

definition export_facts_of :: "py_env \<Rightarrow> pyval \<Rightarrow> string \<Rightarrow> int \<Rightarrow> export_facts result" where
  "export_facts_of E manifest bundle_file current =
     raise_if (\<not> is_dict manifest \<or> pget ''contract_version'' manifest \<noteq> PStr ''local-display-v2'')
       (ValueError ''display v2 manifest required'')
     (bindr (json_dumps E manifest) (\<lambda>encoded.
      raise_if (65536 < int (length encoded) \<or> \<not> scan_deep manifest) (ValueError ''bounded public manifest required'')
      (case pget ''sequence'' manifest of
         PInt seq \<Rightarrow>
           raise_if (seq < 1 \<or> bundle_file \<noteq> bundle_name seq) (ValueError ''immutable local bundle basename required'')
           (bindr (pindex manifest ''expires_at'') (\<lambda>x. case x of
              PStr s \<Rightarrow> (case fromisoformat E s of
                  None \<Rightarrow> Inl (ValueError ''Invalid isoformat string'')
                | Some stamp \<Rightarrow>
                    bindr (clock stamp) (\<lambda>expiry.
                    raise_if (expiry \<le> current) (ValueError ''cannot export expired bundle'')
                    (bindr (digest E manifest) (\<lambda>bid.
                     Inr \<lparr>x_sequence = seq, x_expiry = expiry, x_bundle_id = bid, x_encoded = encoded\<rparr>))))
            | _ \<Rightarrow> Inl (TypeError ''fromisoformat: argument must be str'')))
       | _ \<Rightarrow> Inl (ValueError ''immutable local bundle basename required''))))"

definition scope_matches :: "py_env \<Rightarrow> pyval \<Rightarrow> string \<Rightarrow> bool result" where
  "scope_matches E universe scope = (case universe of
     PList us \<Rightarrow>
       if us = [] \<or> \<not> list_all is_str us \<or> \<not> distinct us then Inr False
       else bindr (digest E (PList (map PStr (sort (map (\<lambda>u. the (as_str u)) us))))) (\<lambda>h. Inr (h = scope))
   | _ \<Rightarrow> Inr False)"

text \<open>The manifest's execution lineage against the recorded execution contract job.\<close>

definition lineage_matches :: "job_row \<Rightarrow> pyval \<Rightarrow> bool" where
  "lineage_matches context manifest =
     (let lineage = pget ''execution_lineage'' manifest; details = j_details context
      in j_status context = JSucceeded \<and> \<not> j_required context \<and> is_dict lineage
         \<and> set (pkeys lineage) = {''contract_version'', ''mode''} \<union> set execution_hash_fields
         \<and> pget ''contract_version'' lineage = PStr ''local-execution-lineage-v1''
         \<and> pget ''mode'' lineage \<in> {PStr ''full'', PStr ''fast''}
         \<and> pget ''execution_mode'' details = pget ''mode'' lineage
         \<and> set execution_hash_fields \<subseteq> set (pkeys details)
         \<and> list_all (\<lambda>k. pget k details = pget k lineage) execution_hash_fields)"

text \<open>The exception of a refused lineage: asking a set for an unhashable mode raises before the refusal.\<close>

definition lineage_error :: "job_row \<Rightarrow> pyval \<Rightarrow> py_error" where
  "lineage_error context manifest =
     (let lineage = pget ''execution_lineage'' manifest; mode = pget ''mode'' lineage
      in if j_status context = JSucceeded \<and> \<not> j_required context \<and> is_dict lineage
            \<and> set (pkeys lineage) = {''contract_version'', ''mode''} \<union> set execution_hash_fields
            \<and> pget ''contract_version'' lineage = PStr ''local-execution-lineage-v1'' \<and> (is_list mode \<or> is_dict mode)
         then TypeError ''unhashable type'' else ValueError ''manifest execution lineage does not match recorded job'')"

definition store_manifest :: "string \<Rightarrow> pyval \<Rightarrow> ledger \<Rightarrow> ledger" where
  "store_manifest aid manifest db = (case manifest_of aid db of
     Some _ \<Rightarrow> db | None \<Rightarrow> db\<lparr>manifests := manifests db @ [(aid, manifest)]\<rparr>)"

definition set_exported :: "lstatus \<Rightarrow> int \<Rightarrow> string \<Rightarrow> export_facts \<Rightarrow> attempt_row \<Rightarrow> attempt_row" where
  "set_exported status stamp file x a =
     a\<lparr>a_status := status, a_updated_at := stamp, a_bundle_file := Some file, a_sequence := Some (x_sequence x),
       a_bundle_id := Some (x_bundle_id x), a_expires_at := Some (x_expiry x)\<rparr>"

text \<open>Once the checks have passed: the artifact is bound once, and a repetition changes nothing.\<close>

definition put_export ::
  "string \<Rightarrow> pyval \<Rightarrow> string \<Rightarrow> int \<Rightarrow> lstatus \<Rightarrow> export_facts \<Rightarrow> attempt_row \<Rightarrow> ledger \<Rightarrow> ledger result" where
  "put_export aid manifest bundle_file current status x row db =
     (if a_status row \<in> exporting \<and> (a_bundle_id row \<noteq> Some (x_bundle_id x) \<or> a_bundle_file row \<noteq> Some bundle_file)
      then Inl (ValueError ''export artifact identity is immutable'')
      else if a_status row \<in> exporting \<and> (a_status row = status \<or> a_status row = EXPORTED)
      then Inr (store_manifest aid manifest db)
      else let db1 = store_manifest aid manifest db
           in Inr (db1\<lparr>attempts := upd_where (\<lambda>a. a_id a = aid) (set_exported status current bundle_file x) (attempts db1),
                       slots := upd_where (\<lambda>s. s_id s = a_slot row)
                         (\<lambda>s. s\<lparr>s_status := status, s_updated_at := current\<rparr>) (slots db1)\<rparr>))"

definition record_export ::
  "py_env \<Rightarrow> string \<Rightarrow> pyval \<Rightarrow> string \<Rightarrow> dtime \<Rightarrow> lstatus \<Rightarrow> ledger \<Rightarrow> ledger result" where
  "record_export E aid manifest bundle_file now status db =
     bindr (clock now) (\<lambda>current.
     bindr (export_facts_of E manifest bundle_file current) (\<lambda>x.
     bindr (observe_clock current db) (\<lambda>db0.
     case attempt_by_id aid db0 of
       None \<Rightarrow> Inl (ValueError ''attempt is not exportable'')
     | Some row \<Rightarrow>
       raise_if (a_status row \<notin> {RUNNING, EXPORTING, EXPORTED}) (ValueError ''attempt is not exportable'')
       (bindr (forward (a_updated_at row) current) (\<lambda>_.
        raise_if (pget ''code_sha'' manifest \<noteq> PStr (a_code_sha row) \<or> pget ''config_hash'' manifest \<noteq> PStr (a_config_hash row))
          (ValueError ''export source/config identity mismatch'')
        (bindr (scope_matches E (pget ''universe'' manifest) (a_scope_hash row)) (\<lambda>ok.
         raise_if (\<not> ok) (ValueError ''export scope identity mismatch'')
         (raise_if (case row_by job_key (aid, ''execution_contract'') (jobs db0) of
                      None \<Rightarrow> False | Some context \<Rightarrow> \<not> lineage_matches context manifest)
            (lineage_error (the (row_by job_key (aid, ''execution_contract'') (jobs db0))) manifest)
         (raise_if (case manifest_of aid db0 of None \<Rightarrow> False | Some stored \<Rightarrow> json_dumps E stored \<noteq> Inr (x_encoded x))
            (ValueError ''stored export manifest is immutable'')
         (put_export aid manifest bundle_file current status x row db0))))))))))"

definition mark_export_intent :: "py_env \<Rightarrow> string \<Rightarrow> pyval \<Rightarrow> string \<Rightarrow> dtime \<Rightarrow> ledger \<Rightarrow> ledger result" where
  "mark_export_intent E aid manifest bundle_file now db = record_export E aid manifest bundle_file now EXPORTING db"

definition mark_export :: "py_env \<Rightarrow> string \<Rightarrow> pyval \<Rightarrow> string \<Rightarrow> dtime \<Rightarrow> ledger \<Rightarrow> ledger result" where
  "mark_export E aid manifest bundle_file now db = record_export E aid manifest bundle_file now EXPORTED db"

definition export_intents :: "int \<Rightarrow> ledger \<Rightarrow> (attempt_row \<times> pyval option) list result" where
  "export_intents limit db =
     (if \<not> (1 \<le> limit \<and> limit \<le> 32) then Inl (ValueError ''bounded export-intent query required'')
      else Inr (map (attempt_view db) (take (nat limit) (sort_key a_started_at
        (filter (\<lambda>a. a_status a = EXPORTING
           \<and> (case slot_by_id (a_slot a) db of None \<Rightarrow> False | Some s \<Rightarrow> s_status s = EXPORTING)) (attempts db))))))"

definition quarantine_export :: "string \<Rightarrow> string \<Rightarrow> dtime \<Rightarrow> ledger \<Rightarrow> ledger result" where
  "quarantine_export aid rsn now db =
     bindr (clock now) (\<lambda>current.
     raise_if (\<not> reason_text rsn) (ValueError ''bounded public quarantine reason required'')
     (bindr (observe_clock current db) (\<lambda>db0.
      case attempt_by_id aid db0 of
        None \<Rightarrow> Inl (ValueError ''quarantine requires an unresolved export'')
      | Some row \<Rightarrow>
          raise_if (a_status row \<notin> exporting) (ValueError ''quarantine requires an unresolved export'')
          (Inr (finish_export row QUARANTINED QUARANTINED (Reason rsn) current db0)))))"

section \<open>Delivery, failure, replay\<close>

definition mark_delivered :: "py_env \<Rightarrow> string \<Rightarrow> pyval \<Rightarrow> pyval \<Rightarrow> dtime \<Rightarrow> ledger \<Rightarrow> ledger result" where
  "mark_delivered E aid manifest receipt now db =
     bindr (clock now) (\<lambda>current.
     bindr (validate_receipt E receipt manifest ''local-display-v2'') (\<lambda>_.
     bindr (digest E manifest) (\<lambda>bid.
     bindr (observe_clock current db) (\<lambda>db0.
     case attempt_by_id aid db0 of
       None \<Rightarrow> Inl (ValueError ''receipt does not bind exported attempt'')
     | Some row \<Rightarrow>
       raise_if (a_status row \<notin> {EXPORTED, DELIVERED} \<or> a_bundle_id row \<noteq> Some bid)
         (ValueError ''receipt does not bind exported attempt'')
       (bindr (forward (a_updated_at row) current) (\<lambda>_.
        if a_status row = DELIVERED then Inr db0
        else Inr (db0\<lparr>attempts := upd_where (\<lambda>a. a_id a = aid)
                  (\<lambda>a. a\<lparr>a_status := DELIVERED, a_finished_at := Some current, a_updated_at := current,
                          a_receipt := Some receipt\<rparr>) (attempts db0),
                jobs := upd_where (\<lambda>j. j_attempt j = aid \<and> j_status j = JRunning \<and> upload_job (j_name j))
                  (\<lambda>j. j\<lparr>j_status := JSucceeded, j_finished_at := Some current\<rparr>) (jobs db0),
                slots := upd_where (\<lambda>s. s_id s = a_slot row \<and> s_status s = EXPORTED)
                  (set_slot DELIVERED current None) (slots db0)\<rparr>)))))))"

text \<open>\<^verbatim>\<open>fail\<close>: an export survives a transport failure; a running attempt fails.\<close>

definition fail_attempt :: "string \<Rightarrow> string \<Rightarrow> dtime \<Rightarrow> ledger \<Rightarrow> ledger result" where
  "fail_attempt aid rsn now db =
     bindr (clock now) (\<lambda>current.
     raise_if (\<not> reason_text rsn) (ValueError ''bounded public failure reason required'')
     (bindr (observe_clock current db) (\<lambda>db0.
      case attempt_by_id aid db0 of
        None \<Rightarrow> Inl (ValueError ''terminal attempt cannot fail'')
      | Some row \<Rightarrow>
        raise_if (a_status row \<notin> {RUNNING, EXPORTING, EXPORTED}) (ValueError ''terminal attempt cannot fail'')
        (bindr (forward (a_updated_at row) current) (\<lambda>_.
         let status = (if a_status row \<in> exporting then a_status row else FAILED);
             fin = (if status \<in> exporting then None else Some current)
         in Inr (db0\<lparr>attempts := upd_where (\<lambda>a. a_id a = aid)
                  (\<lambda>a. a\<lparr>a_status := status, a_finished_at := fin, a_updated_at := current, a_reason := Some (Reason rsn)\<rparr>)
                  (attempts db0),
                jobs := upd_where (\<lambda>j. j_attempt j = aid \<and> j_status j = JRunning)
                  (\<lambda>j. j\<lparr>j_status := JFailed, j_finished_at := Some current\<rparr>) (jobs db0),
                slots := upd_where (\<lambda>s. s_id s = a_slot row \<and> s_status s \<notin> terminal_slots)
                  (set_slot status current (Some (Reason rsn))) (slots db0)\<rparr>))))))"

record replay_policy =
  max_retries :: int
  r_cooldown :: int
  r_lateness :: int

definition default_replay :: replay_policy where
  "default_replay = \<lparr>max_retries = 2, r_cooldown = 60, r_lateness = 1200\<rparr>"

text \<open>\<^verbatim>\<open>max((job["finished_at"] for job in failed), default=None)\<close>.\<close>

fun last_failure :: "job_row list \<Rightarrow> int option" where
  "last_failure [] = None"
| "last_failure (j # js) = (case (j_finished_at j, last_failure js) of
       (None, r) \<Rightarrow> r | (Some t, None) \<Rightarrow> Some t | (Some t, Some u) \<Rightarrow> Some (max t u))"

definition replay_ready :: "replay_policy \<Rightarrow> identity \<Rightarrow> int \<Rightarrow> attempt_row \<Rightarrow> int \<Rightarrow> ledger \<Rightarrow> bool" where
  "replay_ready R ident current row age db \<longleftrightarrow>
     same_identity row ident \<and> 0 \<le> age
     \<and> (case last_failure (failed_uploads (a_id row) db) of None \<Rightarrow> True | Some t \<Rightarrow> r_cooldown R * second_us \<le> current - t)
     \<and> \<not> (\<exists>j \<in> set (jobs db). j_attempt j = a_id row \<and> upload_job (j_name j) \<and> j_status j = JRunning)"

fun replay_loop ::
  "replay_policy \<Rightarrow> identity \<Rightarrow> int \<Rightarrow> attempt_row list \<Rightarrow> ledger \<Rightarrow> (attempt_row \<times> pyval option) option \<times> ledger" where
  "replay_loop R ident current [] db = (None, db)"
| "replay_loop R ident current (row # rows) db =
     (case slot_by_id (a_slot row) db of
        None \<Rightarrow> replay_loop R ident current rows db
      | Some slot \<Rightarrow>
        let age = current - s_planned_at slot in
        if s_session slot \<noteq> local_date current \<or> r_lateness R * second_us < age
           \<or> (case a_expires_at row of None \<Rightarrow> True | Some x \<Rightarrow> x \<le> current)
        then replay_loop R ident current rows
               (finish_export row EXPIRED MISSED (Reason ''delivery_window_expired'') current db)
        else if max_retries R + 1 \<le> int (length (failed_uploads (a_id row) db))
        then replay_loop R ident current rows
               (finish_export row FAILED_DELIVERY FAILED_DELIVERY (Reason ''upload_retry_budget_exhausted'') current db)
        else if replay_ready R ident current row age db then (Some (attempt_view db row), db)
        else replay_loop R ident current rows db)"

definition replay_rows :: "ledger \<Rightarrow> attempt_row list" where
  "replay_rows db = sort_key (\<lambda>a. - (case a_sequence a of None \<Rightarrow> 0 | Some q \<Rightarrow> q))
     (filter (\<lambda>a. a_status a = EXPORTED
        \<and> (case slot_by_id (a_slot a) db of None \<Rightarrow> False | Some s \<Rightarrow> s_status s = EXPORTED)) (attempts db))"

definition pending_replay ::
  "replay_policy \<Rightarrow> dtime \<Rightarrow> pyval \<Rightarrow> ledger \<Rightarrow> ((attempt_row \<times> pyval option) option \<times> ledger) result" where
  "pending_replay R now ident_val db =
     bindr (clock now) (\<lambda>current.
     bindr (identity_of ident_val) (\<lambda>ident.
     raise_if (\<not> (0 \<le> max_retries R \<and> max_retries R \<le> 4) \<or> \<not> (0 \<le> r_cooldown R \<and> r_cooldown R \<le> 3600)
               \<or> \<not> (1 \<le> r_lateness R \<and> r_lateness R \<le> 7200)) (ValueError ''bounded upload retry policy required'')
     (bindr (observe_clock current db) (\<lambda>db0.
      Inr (replay_loop R ident current (replay_rows db0) db0)))))"

section \<open>Summary\<close>

record ledger_summary =
  sum_slots :: "slot_row list"
  sum_attempts :: "(attempt_row \<times> pyval option) list"
  sum_jobs :: "job_row list"
  sum_diagnostics :: "diag_row list"
  sum_counts :: "(lstatus \<times> nat) list"

definition in_session :: "int option \<Rightarrow> slot_id \<Rightarrow> ledger \<Rightarrow> bool" where
  "in_session session sid db = (case slot_by_id sid db of None \<Rightarrow> False
     | Some s \<Rightarrow> (case session of None \<Rightarrow> True | Some d \<Rightarrow> s_session s = d))"

definition attempt_in_session :: "int option \<Rightarrow> string \<Rightarrow> ledger \<Rightarrow> bool" where
  "attempt_in_session session aid db = (case attempt_by_id aid db of None \<Rightarrow> False
     | Some a \<Rightarrow> in_session session (a_slot a) db)"

fun count_statuses :: "slot_row list \<Rightarrow> (lstatus \<times> nat) list \<Rightarrow> (lstatus \<times> nat) list" where
  "count_statuses [] acc = acc"
| "count_statuses (s # ss) acc = count_statuses ss
     (if s_status s \<in> set (map fst acc)
      then map (\<lambda>(k, n). if k = s_status s then (k, n + 1) else (k, n)) acc
      else acc @ [(s_status s, 1)])"

definition summary :: "int option \<Rightarrow> ledger \<Rightarrow> ledger_summary" where
  "summary session db =
     (let ss = sort_key s_id (filter (\<lambda>s. case session of None \<Rightarrow> True | Some d \<Rightarrow> s_session s = d) (slots db))
      in \<lparr>sum_slots = ss,
          sum_attempts = map (attempt_view db) (sort_key (\<lambda>a. (a_started_at a, a_no a))
             (filter (\<lambda>a. in_session session (a_slot a) db) (attempts db))),
          sum_jobs = sort_key (\<lambda>j. (j_started_at j, j_name j))
             (filter (\<lambda>j. attempt_in_session session (j_attempt j) db) (jobs db)),
          sum_diagnostics = sort_key (\<lambda>g. (g_recorded_at g, g_phase g))
             (filter (\<lambda>g. attempt_in_session session (g_attempt g) db) (diagnostics db)),
          sum_counts = count_statuses ss []\<rparr>)"

end
