(* ===== verification/Ledger_Inv.thy ===== *)
theory Ledger_Inv
  imports Job_Ledger
begin

text \<open>
  What every operation of the job ledger keeps true: the table keys, the agreement between an
  active attempt and its slot, the uniqueness of the active attempt of a slot and of the running
  attempt, the watermark above every stored stamp, and the identity of every exported package.
  The operations become the steps of a relation, and the invariant holds in every ledger that any
  sequence of calls can reach.
\<close>

section \<open>The invariant\<close>

definition active :: "lstatus set" where
  "active = {RUNNING, EXPORTING, EXPORTED}"

definition keys_ok :: "ledger \<Rightarrow> bool" where
  "keys_ok db \<longleftrightarrow> distinct (map s_id (slots db)) \<and> distinct (map a_id (attempts db))
     \<and> distinct (map job_key (jobs db)) \<and> distinct (map fst (manifests db))
     \<and> distinct (map diag_key (diagnostics db))"

text \<open>Foreign keys, and the slot identity of a row is its session and slot text.\<close>

definition slot_named :: "slot_row \<Rightarrow> bool" where
  "slot_named s \<longleftrightarrow> s_id s = (s_session s, s_slot s)"

definition refs_ok :: "ledger \<Rightarrow> bool" where
  "refs_ok db \<longleftrightarrow> (\<forall>s \<in> set (slots db). slot_named s)
     \<and> (\<forall>a \<in> set (attempts db). a_slot a \<in> s_id ` set (slots db))
     \<and> (\<forall>j \<in> set (jobs db). j_attempt j \<in> a_id ` set (attempts db))
     \<and> (\<forall>m \<in> set (manifests db). fst m \<in> a_id ` set (attempts db))"

text \<open>
  An active attempt and its slot carry the same status. The one exception is a running attempt
  whose session has passed: the planner marks its slot MISSED without touching the attempt. The
  predicate \<open>excuse\<close> allows the same for exports inside the planner's transaction.
\<close>

definition linked :: "(slot_row \<Rightarrow> bool) \<Rightarrow> ledger \<Rightarrow> bool" where
  "linked excuse db \<longleftrightarrow> (\<forall>a \<in> set (attempts db). a_status a \<in> active \<longrightarrow>
     (\<exists>s \<in> set (slots db). s_id s = a_slot a \<and>
        (s_status s = a_status a \<or> (s_status s = MISSED \<and> (a_status a = RUNNING \<or> excuse s)))))"

definition one_active :: "ledger \<Rightarrow> bool" where
  "one_active db \<longleftrightarrow> (\<forall>a \<in> set (attempts db). \<forall>b \<in> set (attempts db).
     a_status a \<in> active \<longrightarrow> a_status b \<in> active \<longrightarrow> a_slot a = a_slot b \<longrightarrow> a = b)"

definition one_running :: "ledger \<Rightarrow> bool" where
  "one_running db \<longleftrightarrow> (\<forall>a \<in> set (attempts db). \<forall>b \<in> set (attempts db).
     a_status a = RUNNING \<longrightarrow> a_status b = RUNNING \<longrightarrow> a = b)"

definition core_ok :: "(slot_row \<Rightarrow> bool) \<Rightarrow> ledger \<Rightarrow> bool" where
  "core_ok excuse db \<longleftrightarrow> keys_ok db \<and> refs_ok db \<and> linked excuse db \<and> one_active db \<and> one_running db"

abbreviation core :: "ledger \<Rightarrow> bool" where
  "core \<equiv> core_ok (\<lambda>_. False)"

lemmas core_defs = core_ok_def keys_ok_def refs_ok_def linked_def one_active_def one_running_def

section \<open>Ending exports in bulk\<close>

text \<open>Ending a list of exports is one guarded update of each table.\<close>

definition end_attempt :: "lstatus \<Rightarrow> reason \<Rightarrow> int \<Rightarrow> attempt_row \<Rightarrow> attempt_row" where
  "end_attempt st rsn stamp a =
     a\<lparr>a_status := st, a_finished_at := Some stamp, a_updated_at := stamp, a_reason := Some rsn\<rparr>"

definition end_job :: "int \<Rightarrow> job_row \<Rightarrow> job_row" where
  "end_job stamp j = j\<lparr>j_status := JInterrupted, j_finished_at := Some stamp\<rparr>"

lemma end_attempt_simps [simp]:
  "a_id (end_attempt st rsn stamp a) = a_id a" "a_slot (end_attempt st rsn stamp a) = a_slot a"
  "a_status (end_attempt st rsn stamp a) = st" "a_no (end_attempt st rsn stamp a) = a_no a"
  "a_updated_at (end_attempt st rsn stamp a) = stamp"
  by (simp_all add: end_attempt_def)

lemma end_job_simps [simp]:
  "j_attempt (end_job stamp j) = j_attempt j" "j_name (end_job stamp j) = j_name j"
  "j_status (end_job stamp j) = JInterrupted"
  by (simp_all add: end_job_def)

lemma set_slot_simps [simp]:
  "s_id (set_slot st stamp rsn s) = s_id s" "s_session (set_slot st stamp rsn s) = s_session s"
  "s_slot (set_slot st stamp rsn s) = s_slot s" "s_status (set_slot st stamp rsn s) = st"
  "s_updated_at (set_slot st stamp rsn s) = stamp" "s_planned_at (set_slot st stamp rsn s) = s_planned_at s"
  by (simp_all add: set_slot_def)

lemma upd_where_twice:
  assumes "\<And>r. Q (f r) = (Q r \<and> False)" and "\<And>r. P (f r) \<longleftrightarrow> P r"
  shows "upd_where (\<lambda>r. P2 r \<and> Q r) f (upd_where (\<lambda>r. P1 r \<and> Q r) f t) = upd_where (\<lambda>r. (P1 r \<or> P2 r) \<and> Q r) f t"
  using assms by (induction t) auto

definition end_exports ::
  "string set \<Rightarrow> slot_id set \<Rightarrow> lstatus \<Rightarrow> lstatus \<Rightarrow> reason \<Rightarrow> int \<Rightarrow> ledger \<Rightarrow> ledger" where
  "end_exports ids sids ast sst rsn stamp db =
     db\<lparr>attempts := upd_where (\<lambda>a. a_id a \<in> ids \<and> a_status a \<in> exporting) (end_attempt ast rsn stamp) (attempts db),
        slots := upd_where (\<lambda>s. s_id s \<in> sids \<and> s_status s \<in> exporting) (set_slot sst stamp (Some rsn)) (slots db),
        jobs := upd_where (\<lambda>j. j_attempt j \<in> ids \<and> j_status j = JRunning) (end_job stamp) (jobs db)\<rparr>"

lemma finish_export_bulk:
  "finish_export row ast sst rsn stamp db = end_exports {a_id row} {a_slot row} ast sst rsn stamp db"
  by (simp add: finish_export_def end_exports_def finish_attempts_def interrupt_jobs_def
      end_attempt_def [abs_def] end_job_def [abs_def])

lemma end_exports_compose:
  assumes "ast \<notin> exporting" and "sst \<notin> exporting"
  shows "end_exports ids' sids' ast sst rsn stamp (end_exports ids sids ast sst rsn stamp db)
       = end_exports (ids \<union> ids') (sids \<union> sids') ast sst rsn stamp db"
  using assms by (simp add: end_exports_def upd_where_twice Un_iff)

lemma finish_exports_bulk:
  assumes "ast \<notin> exporting" and "sst \<notin> exporting"
  shows "finish_exports rows ast sst rsn stamp db
       = end_exports (a_id ` set rows) (a_slot ` set rows) ast sst rsn stamp db"
proof (induction rows arbitrary: db)
  case Nil
  show ?case by (simp add: finish_exports_def end_exports_def upd_where_def)
next
  case (Cons row rows)
  have "finish_exports (row # rows) ast sst rsn stamp db
      = finish_exports rows ast sst rsn stamp (finish_export row ast sst rsn stamp db)"
    by (simp add: finish_exports_def)
  then show ?case using assms by (simp add: Cons finish_export_bulk end_exports_compose)
qed


lemma exporting_active: "exporting \<subseteq> active" "RUNNING \<in> active" "RUNNING \<notin> exporting" "MISSED \<notin> exporting"
  by (auto simp: exporting_def active_def)

lemma active_cases: "st \<in> active \<longleftrightarrow> st = RUNNING \<or> st \<in> exporting"
  by (auto simp: exporting_def active_def)

lemma refs_okD:
  assumes "refs_ok db"
  shows "s \<in> set (slots db) \<Longrightarrow> s_id s = (s_session s, s_slot s)"
    and "a \<in> set (attempts db) \<Longrightarrow> a_slot a \<in> s_id ` set (slots db)"
    and "j \<in> set (jobs db) \<Longrightarrow> j_attempt j \<in> a_id ` set (attempts db)"
    and "m \<in> set (manifests db) \<Longrightarrow> fst m \<in> a_id ` set (attempts db)"
  using assms unfolding refs_ok_def slot_named_def by blast+

lemma refs_ok_keys:
  assumes refs: "refs_ok db"
    and S: "map (\<lambda>s. (s_id s, s_session s, s_slot s)) (slots db') = map (\<lambda>s. (s_id s, s_session s, s_slot s)) (slots db)"
    and A: "map (\<lambda>a. (a_id a, a_slot a)) (attempts db') = map (\<lambda>a. (a_id a, a_slot a)) (attempts db)"
    and J: "j_attempt ` set (jobs db') = j_attempt ` set (jobs db)"
    and M: "manifests db' = manifests db"
  shows "refs_ok db'"
proof -
  have sids: "s_id ` set (slots db') = s_id ` set (slots db)"
    using arg_cong [OF S, of "\<lambda>l. fst ` set l"] by (simp add: image_image)
  have aids: "a_id ` set (attempts db') = a_id ` set (attempts db)"
    using arg_cong [OF A, of "\<lambda>l. fst ` set l"] by (simp add: image_image)
  have "s_id s = (s_session s, s_slot s)" if "s \<in> set (slots db')" for s
  proof -
    have "(s_id s, s_session s, s_slot s) \<in> set (map (\<lambda>s. (s_id s, s_session s, s_slot s)) (slots db))"
      unfolding S [symmetric] using that by auto
    then obtain r where "r \<in> set (slots db)" "s_id r = s_id s" "s_session r = s_session s" "s_slot r = s_slot s"
      by auto
    with refs_okD(1) [OF refs, of r] show ?thesis by simp
  qed
  moreover have "a_slot a \<in> s_id ` set (slots db')" if "a \<in> set (attempts db')" for a
  proof -
    have "(a_id a, a_slot a) \<in> set (map (\<lambda>a. (a_id a, a_slot a)) (attempts db))"
      unfolding A [symmetric] using that by auto
    then obtain b where "b \<in> set (attempts db)" "a_slot b = a_slot a" by auto
    with refs_okD(2) [OF refs, of b] show ?thesis unfolding sids by simp
  qed
  moreover have "j_attempt j \<in> a_id ` set (attempts db')" if "j \<in> set (jobs db')" for j
  proof -
    have "j_attempt j \<in> j_attempt ` set (jobs db)" unfolding J [symmetric] using that by (rule imageI)
    then show ?thesis unfolding aids using refs_okD(3) [OF refs] by auto
  qed
  moreover have "fst m \<in> a_id ` set (attempts db')" if "m \<in> set (manifests db')" for m
    using that refs_okD(4) [OF refs] unfolding aids M by blast
  ultimately show ?thesis unfolding refs_ok_def slot_named_def by blast
qed

text \<open>
  The exports that are ended must be the listed ones with their slots: then no other active
  attempt loses its slot.
\<close>

lemma core_end_exports:
  assumes c: "core_ok ex db" and rows: "R \<subseteq> set (attempts db)" and ex: "\<And>r. r \<in> R \<Longrightarrow> a_status r \<in> exporting"
    and st: "ast \<notin> active" "sst \<notin> exporting"
  shows "core_ok ex (end_exports (a_id ` R) (a_slot ` R) ast sst rsn stamp db)" (is "core_ok ex ?db'")
proof -
  have keys: "keys_ok ?db'" using c by (simp add: core_ok_def keys_ok_def end_exports_def)
  have refs: "refs_ok ?db'"
    by (rule refs_ok_keys [of db]) (use c in \<open>simp_all add: core_ok_def end_exports_def\<close>)
  have old: "a \<in> set (attempts db) \<and> \<not> (a_id a \<in> a_id ` R \<and> a_status a \<in> exporting)"
    if "a \<in> set (attempts ?db')" and "a_status a \<in> active" for a
    using that st(1) by (auto simp: end_exports_def elim!: in_upd_whereE)
  have "\<exists>s \<in> set (slots ?db'). s_id s = a_slot a \<and>
      (s_status s = a_status a \<or> (s_status s = MISSED \<and> (a_status a = RUNNING \<or> ex s)))"
    if a: "a \<in> set (attempts ?db')" "a_status a \<in> active" for a
  proof -
    from old [OF a] c a(2) obtain s where s: "s \<in> set (slots db)" "s_id s = a_slot a"
      "s_status s = a_status a \<or> (s_status s = MISSED \<and> (a_status a = RUNNING \<or> ex s))"
      by (auto simp: core_ok_def linked_def)
    have "\<not> (s_id s \<in> a_slot ` R \<and> s_status s \<in> exporting)"
    proof
      assume "s_id s \<in> a_slot ` R \<and> s_status s \<in> exporting"
      then obtain r where r: "r \<in> R" "a_slot r = a_slot a" and e: "s_status s \<in> exporting"
        using s(2) by auto
      from e s(3) have "a_status a \<in> exporting" by (auto simp: exporting_def)
      moreover have "a = r" using c r ex [OF r(1)] rows old [OF a] a(2) exporting_active(1)
        unfolding core_ok_def one_active_def by (metis subsetD)
      ultimately show False using old [OF a] r(1) by auto
    qed
    then have "s \<in> set (slots ?db')"
      using s(1) by (auto simp: end_exports_def intro: in_upd_where_keep)
    with s show ?thesis by blast
  qed
  then have "linked ex ?db'" by (simp add: linked_def)
  moreover have "one_active ?db'" using old c by (auto simp: one_active_def core_ok_def)
  moreover have "one_running ?db'"
    using old c exporting_active(2) unfolding one_running_def core_ok_def by metis
  ultimately show ?thesis using keys refs by (simp add: core_ok_def)
qed

lemma core_finish_exports:
  assumes "core_ok ex db" and "set rows \<subseteq> set (attempts db)" and "\<And>r. r \<in> set rows \<Longrightarrow> a_status r \<in> exporting"
    and "ast \<notin> active" and "sst \<notin> exporting"
  shows "core_ok ex (finish_exports rows ast sst rsn stamp db)"
proof -
  have "ast \<notin> exporting" using assms(4) exporting_active(1) by auto
  then show ?thesis
    using core_end_exports [of ex db "set rows" ast sst rsn stamp] assms by (simp add: finish_exports_bulk)
qed

lemma core_finish_export:
  assumes "core_ok ex db" and "row \<in> set (attempts db)" and "a_status row \<in> exporting"
    and "ast \<notin> active" and "sst \<notin> exporting"
  shows "core_ok ex (finish_export row ast sst rsn stamp db)"
  using core_end_exports [of ex db "{row}" ast sst rsn stamp] assms by (simp add: finish_export_bulk)

text \<open>A guarded update of slots is harmless where no active attempt hangs on the changed slots.\<close>

lemma core_slots_update:
  assumes c: "core_ok ex db"
    and f: "\<And>s. s_id (f s) = s_id s" "\<And>s. s_session (f s) = s_session s" "\<And>s. s_slot (f s) = s_slot s"
    and ok: "\<And>a s. a \<in> set (attempts db) \<Longrightarrow> a_status a \<in> active \<Longrightarrow> s \<in> set (slots db) \<Longrightarrow> s_id s = a_slot a \<Longrightarrow>
       s_status s = a_status a \<or> (s_status s = MISSED \<and> (a_status a = RUNNING \<or> ex s)) \<Longrightarrow> P s \<Longrightarrow>
       s_status (f s) = a_status a \<or> (s_status (f s) = MISSED \<and> (a_status a = RUNNING \<or> ex' (f s)))"
    and ex: "\<And>s. ex s \<Longrightarrow> ex' s"
  shows "core_ok ex' (db\<lparr>slots := upd_where P f (slots db)\<rparr>)"
proof -
  have "keys_ok (db\<lparr>slots := upd_where P f (slots db)\<rparr>)"
    using c f by (simp add: core_ok_def keys_ok_def)
  moreover have "refs_ok (db\<lparr>slots := upd_where P f (slots db)\<rparr>)"
    by (rule refs_ok_keys [of db]) (use c f in \<open>simp_all add: core_ok_def\<close>)
  moreover have "linked ex' (db\<lparr>slots := upd_where P f (slots db)\<rparr>)"
  proof (unfold linked_def, intro ballI impI)
    fix a assume "a \<in> set (attempts (db\<lparr>slots := upd_where P f (slots db)\<rparr>))" and act: "a_status a \<in> active"
    then have a: "a \<in> set (attempts db)" by simp
    with c act obtain s where s: "s \<in> set (slots db)" "s_id s = a_slot a"
      "s_status s = a_status a \<or> (s_status s = MISSED \<and> (a_status a = RUNNING \<or> ex s))"
      by (auto simp: core_ok_def linked_def)
    show "\<exists>s \<in> set (slots (db\<lparr>slots := upd_where P f (slots db)\<rparr>)). s_id s = a_slot a \<and>
        (s_status s = a_status a \<or> (s_status s = MISSED \<and> (a_status a = RUNNING \<or> ex' s)))"
    proof (cases "P s")
      case True
      with s have "f s \<in> set (upd_where P f (slots db))" by (auto intro: in_upd_where_change)
      with ok [OF a act s True] s(2) f(1) show ?thesis by (intro bexI [of _ "f s"]) simp_all
    next
      case False
      with s have "s \<in> set (upd_where P f (slots db))" by (auto intro: in_upd_where_keep)
      with s(2,3) ex show ?thesis by (intro bexI [of _ s]) auto
    qed
  qed
  ultimately show ?thesis using c by (simp add: core_ok_def one_active_def one_running_def)
qed


lemma core_frame [simp]:
  "core_ok ex (db\<lparr>watermark := w\<rparr>) = core_ok ex db"
  by (simp add: core_defs)

lemma core_mono: "core_ok ex db \<Longrightarrow> (\<And>s. ex s \<Longrightarrow> ex' s) \<Longrightarrow> core_ok ex' db"
  unfolding core_ok_def linked_def by blast

lemma one_activeD:
  "core_ok ex db \<Longrightarrow> a \<in> set (attempts db) \<Longrightarrow> b \<in> set (attempts db) \<Longrightarrow> a_status a \<in> active \<Longrightarrow>
     a_status b \<in> active \<Longrightarrow> a_slot a = a_slot b \<Longrightarrow> a = b"
  by (simp add: core_ok_def one_active_def)

lemma one_runningD:
  "core_ok ex db \<Longrightarrow> a \<in> set (attempts db) \<Longrightarrow> b \<in> set (attempts db) \<Longrightarrow> a_status a = RUNNING \<Longrightarrow>
     a_status b = RUNNING \<Longrightarrow> a = b"
  by (simp add: core_ok_def one_running_def)

lemma linkedD:
  "core_ok ex db \<Longrightarrow> a \<in> set (attempts db) \<Longrightarrow> a_status a \<in> active \<Longrightarrow>
     \<exists>s \<in> set (slots db). s_id s = a_slot a \<and>
        (s_status s = a_status a \<or> (s_status s = MISSED \<and> (a_status a = RUNNING \<or> ex s)))"
  by (simp add: core_ok_def linked_def)

lemma observe_clockD:
  "observe_clock current db = Inr db0 \<Longrightarrow>
     db0 = db\<lparr>watermark := Some current\<rparr> \<and> (\<forall>w. watermark db = Some w \<longrightarrow> w \<le> current)"
  by (auto simp: observe_clock_def split: if_splits option.splits)

lemma status_sets [simp]:
  "FAILED_DELIVERY \<notin> active" "EXPIRED \<notin> active" "SUPERSEDED \<notin> active" "INVALIDATED \<notin> active"
  "QUARANTINED \<notin> active" "MISSED \<notin> active" "FAILED \<notin> active" "INTERRUPTED \<notin> active" "DELIVERED \<notin> active"
  "FAILED_DELIVERY \<notin> exporting" "EXPIRED \<notin> exporting" "SUPERSEDED \<notin> exporting" "INVALIDATED \<notin> exporting"
  "QUARANTINED \<notin> exporting" "MISSED \<notin> exporting" "FAILED \<notin> exporting" "INTERRUPTED \<notin> exporting"
  "DELIVERED \<notin> exporting" "RUNNING \<notin> exporting" "PENDING \<notin> exporting"
  by (simp_all add: active_def exporting_def)

section \<open>Planning keeps the core invariant\<close>

lemma core_close_exhausted: "core_ok ex db \<Longrightarrow> core_ok ex (close_exhausted stamp db)"
  unfolding close_exhausted_def by (rule core_finish_exports) (auto simp: exporting_def)

lemma core_miss_previous_sessions:
  assumes "core db"
  shows "core_ok (\<lambda>s. s_session s < session) (miss_previous_sessions session stamp db)"
  unfolding miss_previous_sessions_def
  by (rule core_slots_update [OF assms]) (auto simp: terminal_slots_def)

lemma attempts_end_exports:
  "attempts (end_exports ids sids ast sst rsn stamp db)
     = upd_where (\<lambda>a. a_id a \<in> ids \<and> a_status a \<in> exporting) (end_attempt ast rsn stamp) (attempts db)"
  by (simp add: end_exports_def)

lemma finish_exports_left:
  assumes "a \<in> set (attempts (finish_exports rows ast sst rsn stamp db))" and "a_status a \<in> active"
    and "ast \<notin> active" and "sst \<notin> exporting"
  shows "a \<in> set (attempts db)" and "a_status a \<in> exporting \<Longrightarrow> a \<notin> set rows"
proof -
  have "ast \<notin> exporting" using assms(3) exporting_active(1) by auto
  then have "a \<in> set (upd_where (\<lambda>a. a_id a \<in> a_id ` set rows \<and> a_status a \<in> exporting) (end_attempt ast rsn stamp) (attempts db))"
    using assms by (simp add: finish_exports_bulk attempts_end_exports)
  then show "a \<in> set (attempts db)" and "a_status a \<in> exporting \<Longrightarrow> a \<notin> set rows"
    using assms(2,3) by (auto elim!: in_upd_whereE)
qed

lemma slot_row_ids_finish_exports:
  "map (\<lambda>s. (s_id s, s_session s)) (slots (finish_exports rows ast sst rsn stamp db))
     = map (\<lambda>s. (s_id s, s_session s)) (slots db)"
proof (induction rows arbitrary: db)
  case (Cons r rows)
  then show ?case by (simp add: finish_exports_def finish_export_def)
qed (simp add: finish_exports_def)

lemma core_expire_previous_exports:
  assumes c: "core_ok (\<lambda>s. s_session s < session) db"
  shows "core (expire_previous_exports session stamp db)"
proof -
  let ?rows = "filter (\<lambda>a. a_status a \<in> exporting
         \<and> (case session_of (a_slot a) db of None \<Rightarrow> False | Some ss \<Rightarrow> ss < session)) (attempts db)"
  let ?db = "expire_previous_exports session stamp db"
  have c': "core_ok (\<lambda>s. s_session s < session) ?db"
    unfolding expire_previous_exports_def by (rule core_finish_exports [OF c]) auto
  have "linked (\<lambda>_. False) ?db"
  proof (unfold linked_def, intro ballI impI)
    fix a assume a: "a \<in> set (attempts ?db)" and act: "a_status a \<in> active"
    from c' a act obtain s where s: "s \<in> set (slots ?db)" "s_id s = a_slot a"
      "s_status s = a_status a \<or> (s_status s = MISSED \<and> (a_status a = RUNNING \<or> s_session s < session))"
      by (auto simp: core_ok_def linked_def)
    have "\<not> (a_status a \<in> exporting \<and> s_session s < session)"
    proof
      assume e: "a_status a \<in> exporting \<and> s_session s < session"
      note left = finish_exports_left [OF a [unfolded expire_previous_exports_def] act]
      have a0: "a \<in> set (attempts db)" by (rule left(1)) simp_all
      have notin: "a \<notin> set ?rows" by (rule left(2)) (use e in simp_all)
      have "(s_id s, s_session s) \<in> set (map (\<lambda>s. (s_id s, s_session s)) (slots ?db))"
        using s(1) by auto
      then have "(s_id s, s_session s) \<in> set (map (\<lambda>s. (s_id s, s_session s)) (slots db))"
        unfolding expire_previous_exports_def slot_row_ids_finish_exports .
      then obtain s0 where s0: "s0 \<in> set (slots db)" "s_id s0 = a_slot a" "s_session s0 = s_session s"
        using s(2) by auto
      have "slot_by_id (a_slot a) db = Some s0"
        using row_by_in_set [of s_id "slots db" s0] s0 c
        by (simp add: slot_by_id_def core_ok_def keys_ok_def)
      then show False using a0 notin e s0 by (simp add: session_of_def)
    qed
    then show "\<exists>s \<in> set (slots ?db). s_id s = a_slot a \<and>
        (s_status s = a_status a \<or> (s_status s = MISSED \<and> (a_status a = RUNNING \<or> False)))"
      using s act by (auto simp: active_cases)
  qed
  then show ?thesis using c' by (simp add: core_ok_def)
qed

lemma core_plan_slot: "core_ok ex db \<Longrightarrow> core_ok ex (plan_slot session stamp st db)"
proof (cases "slot_by_id (session, fst st) db")
  case None
  assume c: "core_ok ex db"
  let ?s = "\<lparr>s_id = (session, fst st), s_session = session, s_slot = fst st, s_status = PENDING,
     s_planned_at = shanghai_instant session (snd st), s_updated_at = stamp, s_reason = None\<rparr>"
  have eq: "plan_slot session stamp st db = db\<lparr>slots := slots db @ [?s]\<rparr>"
    using None by (simp add: plan_slot_def)
  have "(session, fst st) \<notin> s_id ` set (slots db)"
    using None by (simp add: slot_by_id_def row_by_None_iff)
  then have "keys_ok (db\<lparr>slots := slots db @ [?s]\<rparr>)" using c by (auto simp: core_ok_def keys_ok_def)
  moreover have "refs_ok (db\<lparr>slots := slots db @ [?s]\<rparr>)"
    using c unfolding core_ok_def refs_ok_def by (auto simp: slot_named_def)
  moreover have "linked ex (db\<lparr>slots := slots db @ [?s]\<rparr>)"
    using c unfolding core_ok_def linked_def by auto
  ultimately show ?thesis using c by (simp add: eq core_ok_def one_active_def one_running_def)
qed (simp add: plan_slot_def)

lemma core_fold:
  assumes "core_ok ex db" and "\<And>x db. x \<in> set xs \<Longrightarrow> core_ok ex db \<Longrightarrow> core_ok ex (f x db)"
  shows "core_ok ex (fold f xs db)"
  using assms by (rule fold_invariant_set)

text \<open>After the exports of a slot are ended, a guarded update of that slot concerns no active attempt.\<close>

lemma core_close_slot:
  assumes c: "core db" and st: "ast \<notin> active" "sst \<notin> exporting"
    and db1_def: "db1 = finish_exports (slot_exports sid db) ast sst rsn stamp db"
  shows "core (db1\<lparr>slots := upd_where (\<lambda>s. s_id s = sid \<and> s_status s \<notin> terminal_slots \<union> {RUNNING})
                     (set_slot sst2 stamp2 rsn2) (slots db1)\<rparr>)"
proof (rule core_slots_update)
  show "core db1" unfolding db1_def
    by (rule core_finish_exports [OF c]) (use st in \<open>auto simp: slot_exports_def\<close>)
next
  fix a and s :: slot_row
  assume a: "a \<in> set (attempts db1)" "a_status a \<in> active" and s: "s_id s = a_slot a"
    and l: "s_status s = a_status a \<or> (s_status s = MISSED \<and> (a_status a = RUNNING \<or> False))"
    and P: "s_id s = sid \<and> s_status s \<notin> terminal_slots \<union> {RUNNING}"
  have "a_status a \<in> exporting"
    using l P a(2) by (auto simp: terminal_slots_def active_cases)
  moreover have "a \<in> set (attempts db)" "a \<notin> set (slot_exports sid db)"
    using finish_exports_left [of a "slot_exports sid db" ast sst rsn stamp db] a st calculation
    by (auto simp: db1_def)
  ultimately show "s_status (set_slot sst2 stamp2 rsn2 s) = a_status a
      \<or> (s_status (set_slot sst2 stamp2 rsn2 s) = MISSED \<and> (a_status a = RUNNING \<or> False))"
    using P s by (simp add: slot_exports_def)
qed simp_all

lemma core_supersede_slot: "core db \<Longrightarrow> core (supersede_slot latest stamp sid db)"
  unfolding supersede_slot_def Let_def by (rule core_close_slot [OF _ _ _ refl]) simp_all

lemma core_miss_late_slot: "core db \<Longrightarrow> core (miss_late_slot latest stamp db)"
  unfolding miss_late_slot_def Let_def by (rule core_close_slot [OF _ _ _ refl]) simp_all

lemma slot_exports_single:
  assumes "core_ok ex db"
  shows "slot_exports sid db = [] \<or> (\<exists>a. slot_exports sid db = [a])"
proof (cases "slot_exports sid db")
  case (Cons a as)
  have "as = []"
  proof (rule ccontr)
    assume "as \<noteq> []"
    then obtain b bs where as: "as = b # bs" by (cases as) auto
    have "a \<in> set (slot_exports sid db)" "b \<in> set (slot_exports sid db)" using Cons as by auto
    then have "a = b"
      by (intro one_activeD [OF assms]) (auto simp: slot_exports_def active_cases)
    moreover have "distinct (map a_id (slot_exports sid db))"
      using assms by (simp add: core_ok_def keys_ok_def slot_exports_def distinct_map_filter)
    ultimately show False using Cons as by simp
  qed
  with Cons show ?thesis by simp
qed simp

lemma core_drop_stale:
  assumes c: "core db"
  shows "core (fold (drop_stale_export ident current) (slot_exports latest db) db)"
proof -
  have "core (drop_stale_export ident current a db)" if "a \<in> set (slot_exports latest db)" for a
    using that c by (auto simp: drop_stale_export_def Let_def slot_exports_def intro!: core_finish_export)
  then show ?thesis using slot_exports_single [OF c, of latest] c by auto
qed

lemma core_plan_latest: "core db \<Longrightarrow> core (snd (plan_latest P ident current latest age db))"
  by (auto simp: plan_latest_def Let_def core_miss_late_slot core_drop_stale split: option.splits)

lemma core_plan_session: "core db \<Longrightarrow> core (snd (plan_session P ident current parsed db))"
proof -
  assume c: "core db"
  have "core (fold (plan_slot session current) xs db)" for session xs
    using c core_plan_slot by (rule core_fold)
  then have "core (fold (\<lambda>(sid, _). supersede_slot latest current sid) ys (fold (plan_slot session current) xs db))"
    for latest session xs and ys :: "(slot_id \<times> int) list"
    by (rule core_fold) (auto simp: core_supersede_slot)
  then show ?thesis
    using c by (auto simp: plan_session_def Let_def split_beta
        intro!: core_plan_latest core_fold core_supersede_slot core_plan_slot)
qed

definition settle_previous :: "int \<Rightarrow> ledger \<Rightarrow> ledger" where
  "settle_previous current db =
     expire_previous_exports (local_date current) current
       (miss_previous_sessions (local_date current) current (close_exhausted current db))"

lemma core_settle_previous: "core db \<Longrightarrow> core (settle_previous current db)"
  unfolding settle_previous_def
  by (intro core_expire_previous_exports core_miss_previous_sessions core_close_exhausted)

text \<open>What a successful \<open>plan_due\<close> has done.\<close>

lemma plan_due_cases:
  assumes "plan_due P now v i ss db = Inr (r, db')"
  obtains current ident parsed where "now = Aware current" and "identity_of i = Inr ident" and "parse_slots ss = Inr parsed"
    and "distinct ss" and "\<forall>w. watermark db = Some w \<longrightarrow> w \<le> current"
    and "1 \<le> max_lateness P" and "1 \<le> max_attempts P" and "max_attempts P \<le> 5" and "0 \<le> cooldown_seconds P" and "cooldown_seconds P \<le> 3600"
    and "\<not> v \<Longrightarrow> r = None \<and> db' = settle_previous current (db\<lparr>watermark := Some current\<rparr>)"
    and "v \<Longrightarrow> (r, db') = plan_session P ident current parsed (settle_previous current (db\<lparr>watermark := Some current\<rparr>))"
proof (cases now)
  case (Aware current)
  with assms that show ?thesis
    unfolding plan_due_def settle_previous_def Let_def
    by (auto dest!: observe_clockD split: if_splits)
next
  case (Naive w)
  with assms show ?thesis by (simp add: plan_due_def)
qed

lemma core_plan_due:
  assumes "core db" and "plan_due P now v i ss db = Inr (r, db')"
  shows "core db'"
  using assms(2)
proof (rule plan_due_cases)
  fix current ident parsed
  assume u: "\<not> v \<Longrightarrow> r = None \<and> db' = settle_previous current (db\<lparr>watermark := Some current\<rparr>)"
    and v: "v \<Longrightarrow> (r, db') = plan_session P ident current parsed (settle_previous current (db\<lparr>watermark := Some current\<rparr>))"
  have "core (settle_previous current (db\<lparr>watermark := Some current\<rparr>))"
    using assms(1) by (simp add: core_settle_previous)
  then show ?thesis using u v core_plan_session by (cases v) (auto, metis snd_conv)
qed


section \<open>The other operations keep the core invariant\<close>

lemma attempt_by_idD: "attempt_by_id aid db = Some a \<Longrightarrow> a \<in> set (attempts db) \<and> a_id a = aid"
  by (auto simp: attempt_by_id_def dest: row_by_SomeD)

lemma slot_by_idD: "slot_by_id sid db = Some s \<Longrightarrow> s \<in> set (slots db) \<and> s_id s = sid"
  by (auto simp: slot_by_id_def dest: row_by_SomeD)

lemma attempt_id_inj:
  "core_ok ex db \<Longrightarrow> a \<in> set (attempts db) \<Longrightarrow> b \<in> set (attempts db) \<Longrightarrow> a_id a = a_id b \<Longrightarrow> a = b"
  unfolding core_ok_def keys_ok_def by (auto intro: distinct_key_inj)

lemma slot_id_inj:
  "core_ok ex db \<Longrightarrow> s \<in> set (slots db) \<Longrightarrow> t \<in> set (slots db) \<Longrightarrow> s_id s = s_id t \<Longrightarrow> s = t"
  unfolding core_ok_def keys_ok_def by (auto intro: distinct_key_inj)

lemma claim_cases:
  assumes "claim P aid sid now i lock db = Inr (r, db')"
  obtains current ident slot t where "lock" and "now = Aware current" and "identity_of i = Inr ident"
    and "\<forall>w. watermark db = Some w \<longrightarrow> w \<le> current"
    and "slot_by_id sid db = Some slot" and "s_status slot \<in> {PENDING, FAILED, INTERRUPTED}"
    and "parse_time (s_slot slot) = Inr t" and "local_date current = s_session slot"
    and "0 \<le> current - shanghai_instant (s_session slot) t"
    and "current - shanghai_instant (s_session slot) t \<le> max_lateness P * second_us"
    and "\<forall>a \<in> set (attempts db). a_status a \<noteq> RUNNING"
    and "next_attempt_no (previous_attempt sid db) \<le> max_attempts P" and "max_attempts P \<le> 5"
    and "attempt_by_id aid db = None"
    and "db' = db\<lparr>watermark := Some current,
           attempts := attempts db @ [new_attempt aid sid (next_attempt_no (previous_attempt sid db)) current ident],
           slots := upd_where (\<lambda>s. s_id s = sid) (set_slot RUNNING current None) (slots db)\<rparr>"
proof -
  have frame: "slot_by_id sid (db\<lparr>watermark := w\<rparr>) = slot_by_id sid db"
    "attempt_by_id aid (db\<lparr>watermark := w\<rparr>) = attempt_by_id aid db"
    "previous_attempt sid (db\<lparr>watermark := w\<rparr>) = previous_attempt sid db" for w
    by (simp_all add: slot_by_id_def attempt_by_id_def previous_attempt_def)
  obtain current where now: "now = Aware current"
    using assms by (cases now) (auto simp: claim_def)
  show ?thesis
    using assms now that
    by (auto simp: claim_def Let_def frame dest!: observe_clockD split: option.splits)
qed

lemma new_attempt_simps [simp]:
  "a_id (new_attempt aid sid no stamp i) = aid" "a_slot (new_attempt aid sid no stamp i) = sid"
  "a_status (new_attempt aid sid no stamp i) = RUNNING" "a_no (new_attempt aid sid no stamp i) = no"
  "a_updated_at (new_attempt aid sid no stamp i) = stamp"
  by (simp_all add: new_attempt_def)

lemma core_claim:
  assumes c: "core db" and cl: "claim P aid sid now i lock db = Inr (r, db')"
  shows "core db'"
  using cl
proof (rule claim_cases)
  fix current ident slot t
  assume sl: "slot_by_id sid db = Some slot" and st: "s_status slot \<in> {PENDING, FAILED, INTERRUPTED}"
    and nr: "\<forall>a \<in> set (attempts db). a_status a \<noteq> RUNNING" and new: "attempt_by_id aid db = None"
    and db': "db' = db\<lparr>watermark := Some current,
           attempts := attempts db @ [new_attempt aid sid (next_attempt_no (previous_attempt sid db)) current ident],
           slots := upd_where (\<lambda>s. s_id s = sid) (set_slot RUNNING current None) (slots db)\<rparr>"
  have slot: "slot \<in> set (slots db)" "s_id slot = sid" using slot_by_idD [OF sl] by auto
  have quiet: "a_slot a \<noteq> sid" if "a \<in> set (attempts db)" "a_status a \<in> active" for a
  proof
    assume "a_slot a = sid"
    with linkedD [OF c that] obtain s where "s \<in> set (slots db)" "s_id s = sid"
      "s_status s = a_status a \<or> s_status s = MISSED" by auto
    moreover from this have "s = slot" using slot_id_inj [OF c] slot by auto
    ultimately show False using st that(2) by (auto simp: active_def)
  qed
  have new': "aid \<notin> a_id ` set (attempts db)"
    using new by (simp add: attempt_by_id_def row_by_None_iff)
  have "keys_ok db'" using c new' by (auto simp: db' core_ok_def keys_ok_def)
  moreover have "refs_ok db'"
  proof -
    have "refs_ok (db\<lparr>slots := upd_where (\<lambda>s. s_id s = sid) (set_slot RUNNING current None) (slots db)\<rparr>)"
      by (rule refs_ok_keys [of db]) (use c in \<open>simp_all add: core_ok_def\<close>)
    moreover have "sid \<in> s_id ` set (slots db)" using slot by auto
    ultimately show ?thesis unfolding refs_ok_def db' by auto
  qed
  moreover have "linked (\<lambda>_. False) db'"
  proof (unfold linked_def, intro ballI impI)
    fix a assume a: "a \<in> set (attempts db')" and act: "a_status a \<in> active"
    show "\<exists>s \<in> set (slots db'). s_id s = a_slot a \<and>
        (s_status s = a_status a \<or> (s_status s = MISSED \<and> (a_status a = RUNNING \<or> False)))"
    proof (cases "a \<in> set (attempts db)")
      case True
      from linkedD [OF c True act] obtain s where s: "s \<in> set (slots db)" "s_id s = a_slot a"
        "s_status s = a_status a \<or> (s_status s = MISSED \<and> (a_status a = RUNNING \<or> False))" by auto
      have "s \<in> set (slots db')"
        using s quiet [OF True act] by (auto simp: db' intro!: in_upd_where_keep)
      with s show ?thesis by auto
    next
      case False
      then have "a_slot a = sid" "a_status a = RUNNING" using a by (auto simp: db')
      moreover have "set_slot RUNNING current None slot \<in> set (slots db')"
        using slot by (simp add: db' in_upd_where_change)
      ultimately show ?thesis using slot by (intro bexI [of _ "set_slot RUNNING current None slot"]) auto
    qed
  qed
  moreover have "one_active db'"
    using one_activeD [OF c] quiet unfolding one_active_def by (auto simp: db')
  moreover have "one_running db'" using nr unfolding one_running_def by (auto simp: db')
  ultimately show ?thesis by (simp add: core_ok_def)
qed

text \<open>A change of one attempt that leaves the active states.\<close>

lemma core_attempt_ends:
  assumes c: "core db" and a: "row \<in> set (attempts db)"
    and f: "\<And>a. a_id (f a) = a_id a" "\<And>a. a_slot (f a) = a_slot a" "a_status (f row) \<notin> active"
  shows "core (db\<lparr>attempts := upd_where (\<lambda>a. a_id a = a_id row) f (attempts db)\<rparr>)" (is "core ?db'")
proof -
  have old: "b \<in> set (attempts db) \<and> b \<noteq> row" if "b \<in> set (attempts ?db')" "a_status b \<in> active" for b
    using that(1)
  proof (simp, elim in_upd_whereE)
    fix r0 assume "r0 \<in> set (attempts db)" "a_id r0 = a_id row" "b = f r0"
    moreover from this have "r0 = row" by (intro attempt_id_inj [OF c _ a])
    ultimately show "b \<in> set (attempts db) \<and> b \<noteq> row" using f(3) that(2) by simp
  qed auto
  have "keys_ok ?db'" using c f by (simp add: core_ok_def keys_ok_def)
  moreover have "refs_ok ?db'" by (rule refs_ok_keys [of db]) (use c f in \<open>simp_all add: core_ok_def\<close>)
  moreover have "linked (\<lambda>_. False) ?db'"
    using old linkedD [OF c] unfolding linked_def by simp
  moreover have "one_active ?db'" using old one_activeD [OF c] unfolding one_active_def by blast
  moreover have "one_running ?db'"
    using old one_runningD [OF c] exporting_active(2) unfolding one_running_def by metis
  ultimately show ?thesis by (simp add: core_ok_def)
qed

text \<open>Rewriting jobs or diagnostics in place does not concern the core invariant.\<close>

lemma core_jobs_update:
  assumes "core_ok ex db" and "\<And>j. job_key (f j) = job_key j"
  shows "core_ok ex (db\<lparr>jobs := upd_where P f (jobs db)\<rparr>)"
proof -
  have a: "j_attempt (f j) = j_attempt j" for j using assms(2) [of j] by simp
  have "keys_ok (db\<lparr>jobs := upd_where P f (jobs db)\<rparr>)"
    using assms by (simp add: core_ok_def keys_ok_def)
  moreover have "refs_ok (db\<lparr>jobs := upd_where P f (jobs db)\<rparr>)"
    by (rule refs_ok_keys [of db]) (use assms(1) a in \<open>simp_all add: core_ok_def\<close>)
  ultimately show ?thesis using assms(1) by (simp add: core_ok_def linked_def one_active_def one_running_def)
qed

lemma core_jobs_append:
  assumes c: "core_ok ex db" and "job_key j \<notin> job_key ` set (jobs db)" and "j_attempt j \<in> a_id ` set (attempts db)"
  shows "core_ok ex (db\<lparr>jobs := jobs db @ [j]\<rparr>)"
proof -
  have "keys_ok (db\<lparr>jobs := jobs db @ [j]\<rparr>)" using assms by (auto simp: core_ok_def keys_ok_def)
  moreover have "refs_ok (db\<lparr>jobs := jobs db @ [j]\<rparr>)"
    using assms unfolding core_ok_def refs_ok_def by auto
  ultimately show ?thesis using c by (simp add: core_ok_def linked_def one_active_def one_running_def)
qed

lemma core_diagnostics:
  assumes "core_ok ex db" and "distinct (map diag_key ds)"
  shows "core_ok ex (db\<lparr>diagnostics := ds\<rparr>)"
  using assms by (simp add: core_ok_def keys_ok_def refs_ok_def linked_def one_active_def one_running_def)


lemma core_interrupt_attempt:
  assumes c: "core db" and row: "row \<in> set (attempts db)" "a_status row = RUNNING"
    and i: "interrupt_attempt stamp row db = Inr db'"
  shows "core db'"
proof -
  let ?f = "\<lambda>a. a\<lparr>a_status := INTERRUPTED, a_finished_at := Some stamp, a_updated_at := stamp,
                   a_reason := Some (Reason ''owner_process_ended'')\<rparr>"
  let ?db1 = "db\<lparr>attempts := upd_where (\<lambda>a. a_id a = a_id row) ?f (attempts db)\<rparr>"
  let ?db2 = "?db1\<lparr>slots := upd_where (\<lambda>s. s_id s = a_slot row \<and> s_status s = RUNNING)
                 (set_slot INTERRUPTED stamp (Some (Reason ''owner_process_ended''))) (slots ?db1)\<rparr>"
  have c1: "core ?db1" by (rule core_attempt_ends [OF c row(1)]) simp_all
  have norun: "a_status a \<noteq> RUNNING" if "a \<in> set (attempts ?db1)" for a
    using that one_runningD [OF c _ row(1) _ row(2)] row(1) by (auto elim!: in_upd_whereE)
  have "core ?db2"
    by (rule core_slots_update [OF c1]) (use norun in \<open>simp_all\<close>, metis)
  then have "core (?db2\<lparr>jobs := interrupt_jobs (a_id row) stamp (jobs ?db2)\<rparr>)"
    unfolding interrupt_jobs_def by (rule core_jobs_update) simp
  then show ?thesis using i by (auto simp: interrupt_attempt_def)
qed

lemma running_rows:
  assumes "core db"
  shows "filter (\<lambda>a. a_status a = RUNNING) (attempts db) = []
    \<or> (\<exists>a. filter (\<lambda>a. a_status a = RUNNING) (attempts db) = [a])"
proof (cases "filter (\<lambda>a. a_status a = RUNNING) (attempts db)")
  case (Cons a as)
  have "as = []"
  proof (rule ccontr)
    assume "as \<noteq> []"
    then obtain b bs where as: "as = b # bs" by (cases as) auto
    have "a \<in> set (filter (\<lambda>a. a_status a = RUNNING) (attempts db))"
      "b \<in> set (filter (\<lambda>a. a_status a = RUNNING) (attempts db))" using Cons as by auto
    then have "a = b" by (intro one_runningD [OF assms]) auto
    moreover have "distinct (map a_id (filter (\<lambda>a. a_status a = RUNNING) (attempts db)))"
      using assms by (simp add: core_ok_def keys_ok_def distinct_map_filter)
    ultimately show False using Cons as by simp
  qed
  with Cons show ?thesis by simp
qed simp

lemma recover_cases:
  assumes "recover_interrupted now lock db = Inr (n, db')"
  obtains current db1 where "lock" and "now = Aware current" and "\<forall>w. watermark db = Some w \<longrightarrow> w \<le> current"
    and "foldr_result (interrupt_attempt current) (filter (\<lambda>a. a_status a = RUNNING) (attempts db))
           (db\<lparr>watermark := Some current\<rparr>) = Inr db1"
    and "db' = interrupt_exported_jobs current db1"
    and "n = length (filter (\<lambda>a. a_status a = RUNNING) (attempts db))"
  using assms that by (cases now) (auto simp: recover_interrupted_def Let_def dest!: observe_clockD)

lemma core_recover:
  assumes c: "core db" and r: "recover_interrupted now lock db = Inr (n, db')"
  shows "core db'"
  using r
proof (rule recover_cases)
  fix current db1
  assume f: "foldr_result (interrupt_attempt current) (filter (\<lambda>a. a_status a = RUNNING) (attempts db))
           (db\<lparr>watermark := Some current\<rparr>) = Inr db1" and db': "db' = interrupt_exported_jobs current db1"
  have c0: "core (db\<lparr>watermark := Some current\<rparr>)" using c by simp
  have "core db1"
    using running_rows [OF c]
  proof
    assume "filter (\<lambda>a. a_status a = RUNNING) (attempts db) = []"
    with f c0 show ?thesis by simp
  next
    assume "\<exists>a. filter (\<lambda>a. a_status a = RUNNING) (attempts db) = [a]"
    then obtain a where eq: "filter (\<lambda>a. a_status a = RUNNING) (attempts db) = [a]" by blast
    then have "a \<in> set (attempts db)" "a_status a = RUNNING" by (auto dest: filter_eq_ConsD)
    with f eq show ?thesis
      using core_interrupt_attempt [OF c0, of a current db1] by simp
  qed
  then show ?thesis
    unfolding db' interrupt_exported_jobs_def by (rule core_jobs_update) simp
qed

lemma record_job_cases:
  assumes "record_job E aid name st now run req details db = Inr db'"
  obtains (same) current where "now = Aware current" and "\<forall>w. watermark db = Some w \<longrightarrow> w \<le> current"
      and "db' = db\<lparr>watermark := Some current\<rparr>"
  | (update) current j status fin d where "now = Aware current" and "\<forall>w. watermark db = Some w \<longrightarrow> w \<le> current"
      and "row_by job_key (aid, name) (jobs db) = Some j" and "j_status j = JRunning"
      and "parse_job_status st = Some status"
      and "db' = db\<lparr>watermark := Some current, jobs := upd_where (\<lambda>j. job_key j = (aid, name))
                 (\<lambda>j. j\<lparr>j_status := status, j_finished_at := fin, j_details := d\<rparr>) (jobs db)\<rparr>"
  | (insert) current a status fin d where "now = Aware current" and "\<forall>w. watermark db = Some w \<longrightarrow> w \<le> current"
      and "row_by job_key (aid, name) (jobs db) = None" and "attempt_by_id aid db = Some a"
      and "parse_job_status st = Some status"
      and "db' = db\<lparr>watermark := Some current, jobs := jobs db @ [\<lparr>j_attempt = aid, j_name = name, j_status = status,
                 j_started_at = current, j_finished_at = fin, j_run_id = run, j_required = req, j_details = d\<rparr>]\<rparr>"
proof -
  obtain current where now: "now = Aware current" using assms by (cases now) (auto simp: record_job_def)
  obtain status where st: "parse_job_status st = Some status"
    using assms now by (auto simp: record_job_def split: option.splits)
  let ?d = "por details (PDict [])"
  let ?fin = "if status = JRunning then None else Some current"
  have w: "\<forall>w. watermark db = Some w \<longrightarrow> w \<le> current"
    and allowed: "job_allowed (attempt_by_id aid db) name (row_by job_key (aid, name) (jobs db)) status"
    and res: "(case row_by job_key (aid, name) (jobs db) of
       Some j \<Rightarrow> db' = (if j_status j \<noteq> JRunning then db\<lparr>watermark := Some current\<rparr>
         else db\<lparr>watermark := Some current, jobs := upd_where (\<lambda>j. job_key j = (aid, name))
                 (\<lambda>j. j\<lparr>j_status := status, j_finished_at := ?fin, j_details := ?d\<rparr>) (jobs db)\<rparr>)
     | None \<Rightarrow> db' = db\<lparr>watermark := Some current, jobs := jobs db @ [\<lparr>j_attempt = aid, j_name = name, j_status = status,
                 j_started_at = current, j_finished_at = ?fin, j_run_id = run, j_required = req, j_details = ?d\<rparr>]\<rparr>)"
    using assms
    by (auto simp: record_job_def now st Let_def attempt_by_id_def dest!: observe_clockD split: option.splits if_splits)
  show ?thesis
  proof (cases "row_by job_key (aid, name) (jobs db)")
    case None
    from allowed obtain a where "attempt_by_id aid db = Some a" by (auto simp: job_allowed_def split: option.splits)
    with insert None now w st res show ?thesis by simp
  next
    case (Some j)
    with same update now w st res show ?thesis by (auto split: if_splits)
  qed
qed

lemma core_record_job:
  assumes c: "core db" and r: "record_job E aid name st now run req details db = Inr db'"
  shows "core db'"
  using r
proof (cases rule: record_job_cases)
  case (same current)
  with c show ?thesis by simp
next
  case (update current j status fin d)
  have "core (db\<lparr>watermark := Some current\<rparr>)" using c by simp
  from core_jobs_update [OF this, of "\<lambda>j. j\<lparr>j_status := status, j_finished_at := fin, j_details := d\<rparr>"]
  show ?thesis using update by simp
next
  case (insert current a status fin d)
  have "core (db\<lparr>watermark := Some current\<rparr>)" using c by simp
  moreover have "(aid, name) \<notin> job_key ` set (jobs db)" using insert(3) unfolding row_by_None_iff .
  moreover have "aid \<in> a_id ` set (attempts db)" using attempt_by_idD [OF insert(4)] by auto
  ultimately show ?thesis
    using core_jobs_append [of "\<lambda>_. False" "db\<lparr>watermark := Some current\<rparr>"] insert by simp
qed


lemma put_diagnostic_cases:
  assumes "put_diagnostic aid ph st current dur err db = Inr db'"
  obtains ds where "db' = db\<lparr>diagnostics := ds\<rparr>"
    and "distinct (map diag_key (diagnostics db)) \<Longrightarrow> distinct (map diag_key ds)"
    and "\<And>g. g \<in> set ds \<Longrightarrow> g_updated_at g = current \<or> g \<in> set (diagnostics db)"
proof (cases "row_by diag_key (aid, ph) (diagnostics db)")
  case None
  with assms that show ?thesis
    by (fastforce simp: put_diagnostic_def row_by_None_iff)
next
  case (Some g)
  with assms that show ?thesis
    by (fastforce simp: put_diagnostic_def elim!: in_upd_whereE)
qed

lemma record_diagnostic_cases:
  assumes "record_diagnostic aid ph st now dur et rsn db = Inr db'"
  obtains current err where "now = Aware current" and "\<forall>w. watermark db = Some w \<longrightarrow> w \<le> current"
    and "put_diagnostic aid ph st current dur err (db\<lparr>watermark := Some current\<rparr>) = Inr db'"
proof -
  obtain current where now: "now = Aware current" using assms by (cases now) (auto simp: record_diagnostic_def)
  obtain db0 a where "observe_clock current db = Inr db0" "attempt_by_id aid db0 = Some a"
    "put_diagnostic aid ph st current dur (if st = ''failed'' then Some (the et, the rsn) else None) db0 = Inr db'"
    using assms unfolding record_diagnostic_def now
    by (simp only: bindr_simps bindr_eq_Inr raise_if_simps clock.simps) (auto split: option.splits)
  then show ?thesis using that now observe_clockD by blast
qed

lemma core_record_diagnostic:
  assumes c: "core db" and r: "record_diagnostic aid ph st now dur et rsn db = Inr db'"
  shows "core db'"
  using r
proof (rule record_diagnostic_cases)
  fix current err
  assume "put_diagnostic aid ph st current dur err (db\<lparr>watermark := Some current\<rparr>) = Inr db'"
  then obtain ds where "db' = db\<lparr>watermark := Some current, diagnostics := ds\<rparr>"
    and "distinct (map diag_key (diagnostics db)) \<Longrightarrow> distinct (map diag_key ds)"
    by (rule put_diagnostic_cases) simp
  moreover from c have "distinct (map diag_key (diagnostics db))" by (simp add: core_ok_def keys_ok_def)
  ultimately show ?thesis using c core_diagnostics [of "\<lambda>_. False" "db\<lparr>watermark := Some current\<rparr>" ds]
    by simp
qed

text \<open>An active attempt that stays active, with its slot following it.\<close>

lemma core_attempt_moves:
  assumes c: "core db" and row: "row \<in> set (attempts db)" "a_status row \<in> active"
    and f: "\<And>a. a_id (f a) = a_id a" "\<And>a. a_slot (f a) = a_slot a" "a_status (f row) \<in> exporting"
    and g: "\<And>s. s_id (g s) = s_id s" "\<And>s. s_session (g s) = s_session s" "\<And>s. s_slot (g s) = s_slot s"
    and P: "\<And>s. P s \<Longrightarrow> s_id s = a_slot row"
    and st: "\<And>s. s \<in> set (slots db) \<Longrightarrow> s_id s = a_slot row \<Longrightarrow>
               s_status s = a_status row \<or> (s_status s = MISSED \<and> a_status row = RUNNING) \<Longrightarrow>
               P s \<and> s_status (g s) = a_status (f row)"
  shows "core (db\<lparr>attempts := upd_where (\<lambda>a. a_id a = a_id row) f (attempts db), slots := upd_where P g (slots db)\<rparr>)"
    (is "core ?db'")
proof -
  have old: "b = f row \<or> (b \<in> set (attempts db) \<and> b \<noteq> row)" if "b \<in> set (attempts ?db')" for b
    using that
  proof (simp, elim in_upd_whereE)
    fix r0 assume "r0 \<in> set (attempts db)" "a_id r0 = a_id row" "b = f r0"
    moreover from this have "r0 = row" by (intro attempt_id_inj [OF c _ row(1)])
    ultimately show "b = f row \<or> (b \<in> set (attempts db) \<and> b \<noteq> row)" by simp
  qed auto
  have keys: "keys_ok ?db'" using c f g by (simp add: core_ok_def keys_ok_def)
  have refs: "refs_ok ?db'" by (rule refs_ok_keys [of db]) (use c f g in \<open>simp_all add: core_ok_def\<close>)
  have linked: "linked (\<lambda>_. False) ?db'"
  proof (unfold linked_def, intro ballI impI)
    fix b assume b: "b \<in> set (attempts ?db')" and act: "a_status b \<in> active"
    show "\<exists>s \<in> set (slots ?db'). s_id s = a_slot b \<and>
        (s_status s = a_status b \<or> (s_status s = MISSED \<and> (a_status b = RUNNING \<or> False)))"
    proof (cases "b = f row")
      case True
      from linkedD [OF c row] obtain s where s: "s \<in> set (slots db)" "s_id s = a_slot row"
        "s_status s = a_status row \<or> (s_status s = MISSED \<and> a_status row = RUNNING)" by auto
      with st [OF s] have "g s \<in> set (slots ?db')" by (simp add: in_upd_where_change)
      with True s st [OF s] show ?thesis by (intro bexI [of _ "g s"]) (simp_all add: f g)
    next
      case False
      with old [OF b] have b0: "b \<in> set (attempts db)" "b \<noteq> row" by auto
      from linkedD [OF c b0(1) act] obtain s where s: "s \<in> set (slots db)" "s_id s = a_slot b"
        "s_status s = a_status b \<or> (s_status s = MISSED \<and> a_status b = RUNNING)" by auto
      have "a_slot b \<noteq> a_slot row" using one_activeD [OF c b0(1) row(1) act row(2)] b0(2) by auto
      then have "\<not> P s" using P s(2) by force
      with s have "s \<in> set (slots ?db')" by (simp add: in_upd_where_keep)
      with s show ?thesis by auto
    qed
  qed
  have "one_active ?db'"
  proof (unfold one_active_def, intro ballI impI)
    fix b d assume bd: "b \<in> set (attempts ?db')" "d \<in> set (attempts ?db')"
      and act: "a_status b \<in> active" "a_status d \<in> active" and eq: "a_slot b = a_slot d"
    show "b = d"
      using old [OF bd(1)] old [OF bd(2)] one_activeD [OF c _ row(1) _ row(2)] one_activeD [OF c] act eq row f(2)
      by metis
  qed
  moreover have "one_running ?db'"
    using old one_runningD [OF c] f(3) unfolding one_running_def by (metis status_sets(19))
  ultimately show ?thesis using keys refs linked by (simp add: core_ok_def)
qed

lemma attempt_by_id_frame [simp]:
  "attempt_by_id aid (db\<lparr>watermark := w\<rparr>) = attempt_by_id aid db"
  "slot_by_id sid (db\<lparr>watermark := w\<rparr>) = slot_by_id sid db"
  "manifest_of aid (db\<lparr>watermark := w\<rparr>) = manifest_of aid db"
  "failed_uploads aid (db\<lparr>watermark := w\<rparr>) = failed_uploads aid db"
  "previous_attempt sid (db\<lparr>watermark := w\<rparr>) = previous_attempt sid db"
  by (simp_all add: attempt_by_id_def slot_by_id_def manifest_of_def failed_uploads_def previous_attempt_def)

lemma record_export_cases:
  assumes "record_export E aid m file now st db = Inr db'"
  obtains current x row where "now = Aware current" and "\<forall>w. watermark db = Some w \<longrightarrow> w \<le> current"
    and "export_facts_of E m file current = Inr x" and "attempt_by_id aid db = Some row" and "a_status row \<in> active"
    and "pget ''code_sha'' m = PStr (a_code_sha row)" and "pget ''config_hash'' m = PStr (a_config_hash row)"
    and "scope_matches E (pget ''universe'' m) (a_scope_hash row) = Inr True"
    and "\<And>stored. manifest_of aid db = Some stored \<Longrightarrow> json_dumps E stored = Inr (x_encoded x)"
    and "\<And>context. row_by job_key (aid, ''execution_contract'') (jobs db) = Some context \<Longrightarrow> lineage_matches context m"
    and "put_export aid m file current st x row (db\<lparr>watermark := Some current\<rparr>) = Inr db'"
proof -
  obtain current where now: "now = Aware current" using assms by (cases now) (auto simp: record_export_def)
  obtain x db0 row where x: "export_facts_of E m file current = Inr x" and db0: "observe_clock current db = Inr db0"
    and row: "attempt_by_id aid db0 = Some row" "a_status row \<in> active"
    and ids: "pget ''code_sha'' m = PStr (a_code_sha row)" "pget ''config_hash'' m = PStr (a_config_hash row)"
    and sc: "scope_matches E (pget ''universe'' m) (a_scope_hash row) = Inr True"
    and mf: "\<forall>stored. manifest_of aid db0 = Some stored \<longrightarrow> json_dumps E stored = Inr (x_encoded x)"
    and ln: "\<forall>context. row_by job_key (aid, ''execution_contract'') (jobs db0) = Some context \<longrightarrow> lineage_matches context m"
    and p: "put_export aid m file current st x row db0 = Inr db'"
    using assms unfolding record_export_def now
    by (simp only: bindr_simps bindr_eq_Inr raise_if_simps clock.simps) (auto simp: active_def split: option.splits)
  from observe_clockD [OF db0] have w: "\<forall>w. watermark db = Some w \<longrightarrow> w \<le> current"
    and eq: "db0 = db\<lparr>watermark := Some current\<rparr>" by auto
  show ?thesis by (rule that [OF now w x]) (use row ids sc mf ln p in \<open>auto simp: eq\<close>)
qed

lemma put_export_cases:
  assumes "put_export aid m file current st x row db = Inr db'"
  obtains (same) "a_status row \<in> exporting" and "a_status row = st \<or> a_status row = EXPORTED"
      and "a_bundle_id row = Some (x_bundle_id x)" and "a_bundle_file row = Some file"
      and "db' = store_manifest aid m db"
  | (export) db1 where "a_status row \<in> exporting \<Longrightarrow> a_bundle_id row = Some (x_bundle_id x) \<and> a_bundle_file row = Some file
        \<and> a_status row \<noteq> EXPORTED \<and> a_status row \<noteq> st"
      and "db1 = store_manifest aid m db"
      and "db' = db1\<lparr>attempts := upd_where (\<lambda>a. a_id a = aid) (set_exported st current file x) (attempts db1),
                     slots := upd_where (\<lambda>s. s_id s = a_slot row)
                         (\<lambda>s. s\<lparr>s_status := st, s_updated_at := current\<rparr>) (slots db1)\<rparr>"
proof -
  have ids: "a_status row \<in> exporting \<Longrightarrow> a_bundle_id row = Some (x_bundle_id x) \<and> a_bundle_file row = Some file"
    using assms by (simp add: put_export_def split: if_splits)
  show ?thesis
  proof (cases "a_status row \<in> exporting \<and> (a_status row = st \<or> a_status row = EXPORTED)")
    case True
    then show ?thesis using assms ids by (intro same) (simp_all add: put_export_def)
  next
    case False
    show ?thesis
    proof (rule export [OF _ refl])
      show "a_status row \<in> exporting \<Longrightarrow> a_bundle_id row = Some (x_bundle_id x) \<and> a_bundle_file row = Some file
          \<and> a_status row \<noteq> EXPORTED \<and> a_status row \<noteq> st" using False ids by simp
    qed (use assms False ids in \<open>simp add: put_export_def Let_def split: if_splits\<close>)
  qed
qed

lemma store_manifest_frame [simp]:
  "slots (store_manifest aid m db) = slots db" "attempts (store_manifest aid m db) = attempts db"
  "jobs (store_manifest aid m db) = jobs db" "watermark (store_manifest aid m db) = watermark db"
  "diagnostics (store_manifest aid m db) = diagnostics db"
  by (simp_all add: store_manifest_def split: option.splits)

lemma core_store_manifest:
  assumes c: "core db" and a: "aid \<in> a_id ` set (attempts db)"
  shows "core (store_manifest aid m db)"
proof (cases "manifest_of aid db")
  case None
  then have new: "aid \<notin> fst ` set (manifests db)" by (simp add: manifest_of_def map_of_eq_None_iff)
  have "keys_ok (store_manifest aid m db)"
    using c new None by (auto simp: core_ok_def keys_ok_def store_manifest_def)
  moreover have "refs_ok (store_manifest aid m db)"
    using c a None unfolding core_ok_def refs_ok_def by (auto simp: store_manifest_def)
  ultimately show ?thesis using c by (simp add: core_ok_def linked_def one_active_def one_running_def)
qed (use c in \<open>simp add: store_manifest_def\<close>)

lemma core_put_export:
  assumes c: "core db" and row: "row \<in> set (attempts db)" "a_id row = aid" "a_status row \<in> active" and st: "st \<in> exporting"
    and p: "put_export aid m file current st x row db = Inr db'"
  shows "core db'"
  using p
proof (cases rule: put_export_cases)
  case same
  then show ?thesis using core_store_manifest [OF c] row by auto
next
  case (export db1)
  have "core db1" unfolding export(2) using core_store_manifest [OF c] row by auto
  from core_attempt_moves [OF this, of row "set_exported st current file x"
      "\<lambda>s. s\<lparr>s_status := st, s_updated_at := current\<rparr>" "\<lambda>s. s_id s = a_slot row"]
  show ?thesis using row st export by (auto simp: set_exported_def)
qed

lemma core_record_export:
  assumes c: "core db" and st: "st \<in> exporting" and r: "record_export E aid m file now st db = Inr db'"
  shows "core db'"
  using r
proof (rule record_export_cases)
  fix current x row
  assume "attempt_by_id aid db = Some row" "a_status row \<in> active"
    "put_export aid m file current st x row (db\<lparr>watermark := Some current\<rparr>) = Inr db'"
  then show ?thesis using core_put_export [of "db\<lparr>watermark := Some current\<rparr>" row] c st by (auto dest: attempt_by_idD)
qed

lemma quarantine_cases:
  assumes "quarantine_export aid rsn now db = Inr db'"
  obtains current row where "now = Aware current" and "\<forall>w. watermark db = Some w \<longrightarrow> w \<le> current"
    and "attempt_by_id aid db = Some row" and "a_status row \<in> exporting"
    and "db' = finish_export row QUARANTINED QUARANTINED (Reason rsn) current (db\<lparr>watermark := Some current\<rparr>)"
  using assms that by (cases now) (auto simp: quarantine_export_def dest!: observe_clockD split: option.splits)

lemma core_quarantine:
  assumes "core db" and "quarantine_export aid rsn now db = Inr db'"
  shows "core db'"
  using assms(2)
proof (rule quarantine_cases)
  fix current row
  assume "attempt_by_id aid db = Some row" "a_status row \<in> exporting"
    and db': "db' = finish_export row QUARANTINED QUARANTINED (Reason rsn) current (db\<lparr>watermark := Some current\<rparr>)"
  then show ?thesis unfolding db' using assms(1) by (intro core_finish_export) (auto dest: attempt_by_idD)
qed

lemma mark_delivered_cases:
  assumes "mark_delivered E aid m receipt now db = Inr db'"
  obtains (again) current row where "now = Aware current" and "\<forall>w. watermark db = Some w \<longrightarrow> w \<le> current"
      and "attempt_by_id aid db = Some row" and "a_status row = DELIVERED" and "db' = db\<lparr>watermark := Some current\<rparr>"
  | (deliver) current bid row where "now = Aware current" and "\<forall>w. watermark db = Some w \<longrightarrow> w \<le> current"
      and "validate_receipt E receipt m ''local-display-v2'' = Inr receipt" and "digest E m = Inr bid"
      and "attempt_by_id aid db = Some row" and "a_status row = EXPORTED" and "a_bundle_id row = Some bid"
      and "db' = db\<lparr>watermark := Some current, attempts := upd_where (\<lambda>a. a_id a = aid)
                  (\<lambda>a. a\<lparr>a_status := DELIVERED, a_finished_at := Some current, a_updated_at := current,
                          a_receipt := Some receipt\<rparr>) (attempts db),
                jobs := upd_where (\<lambda>j. j_attempt j = aid \<and> j_status j = JRunning \<and> upload_job (j_name j))
                  (\<lambda>j. j\<lparr>j_status := JSucceeded, j_finished_at := Some current\<rparr>) (jobs db),
                slots := upd_where (\<lambda>s. s_id s = a_slot row \<and> s_status s = EXPORTED)
                  (set_slot DELIVERED current None) (slots db)\<rparr>"
proof -
  obtain current where now: "now = Aware current" using assms by (cases now) (auto simp: mark_delivered_def)
  obtain bid db0 row where v: "validate_receipt E receipt m ''local-display-v2'' = Inr receipt" and bid: "digest E m = Inr bid"
    and db0: "observe_clock current db = Inr db0" and row: "attempt_by_id aid db0 = Some row"
    and st: "a_status row = EXPORTED \<or> a_status row = DELIVERED" and b: "a_bundle_id row = Some bid"
    and res: "(if a_status row = DELIVERED then Inr db0 else Inr (db0\<lparr>attempts := upd_where (\<lambda>a. a_id a = aid)
                  (\<lambda>a. a\<lparr>a_status := DELIVERED, a_finished_at := Some current, a_updated_at := current,
                          a_receipt := Some receipt\<rparr>) (attempts db0),
                jobs := upd_where (\<lambda>j. j_attempt j = aid \<and> j_status j = JRunning \<and> upload_job (j_name j))
                  (\<lambda>j. j\<lparr>j_status := JSucceeded, j_finished_at := Some current\<rparr>) (jobs db0),
                slots := upd_where (\<lambda>s. s_id s = a_slot row \<and> s_status s = EXPORTED)
                  (set_slot DELIVERED current None) (slots db0)\<rparr>)) = (Inr db' :: ledger result)"
    using assms validate_receipt_returns [of E receipt m "''local-display-v2''"] unfolding mark_delivered_def now
    by (simp only: bindr_simps bindr_eq_Inr raise_if_simps clock.simps) (elim exE conjE; simp split: option.splits)
  from observe_clockD [OF db0] have w: "\<forall>w. watermark db = Some w \<longrightarrow> w \<le> current"
    and eq: "db0 = db\<lparr>watermark := Some current\<rparr>" by auto
  show ?thesis
  proof (cases "a_status row = DELIVERED")
    case True
    then show ?thesis using again [OF now w] row res by (simp add: eq)
  next
    case False
    then show ?thesis using deliver [OF now w v bid _ _ b] row res st by (simp add: eq)
  qed
qed

text \<open>A guarded update of the attempt's own slot after the attempt has left the active states.\<close>

lemma core_attempt_leaves:
  assumes c: "core db" and row: "row \<in> set (attempts db)" "a_status row \<in> active"
    and f: "\<And>a. a_id (f a) = a_id a" "\<And>a. a_slot (f a) = a_slot a" "a_status (f row) \<notin> active"
    and g: "\<And>s. s_id (g s) = s_id s" "\<And>s. s_session (g s) = s_session s" "\<And>s. s_slot (g s) = s_slot s"
    and P: "\<And>s. P s \<Longrightarrow> s_id s = a_slot row"
  shows "core (db\<lparr>attempts := upd_where (\<lambda>a. a_id a = a_id row) f (attempts db), slots := upd_where P g (slots db)\<rparr>)"
proof -
  let ?db1 = "db\<lparr>attempts := upd_where (\<lambda>a. a_id a = a_id row) f (attempts db)\<rparr>"
  have c1: "core ?db1" by (rule core_attempt_ends [OF c row(1)]) (use f in simp_all)
  have quiet: "a_slot a \<noteq> a_slot row" if "a \<in> set (attempts ?db1)" "a_status a \<in> active" for a
    using that(1)
  proof (simp, elim in_upd_whereE)
    fix r0 assume "r0 \<in> set (attempts db)" "a_id r0 = a_id row" "a = f r0"
    moreover from this have "r0 = row" by (intro attempt_id_inj [OF c _ row(1)])
    ultimately show ?thesis using f(3) that(2) by simp
  next
    assume "a \<in> set (attempts db)" "a_id a \<noteq> a_id row"
    then show ?thesis using one_activeD [OF c _ row(1) that(2) row(2)] by auto
  qed
  have "core (?db1\<lparr>slots := upd_where P g (slots ?db1)\<rparr>)"
    by (rule core_slots_update [OF c1]) (use g P quiet in \<open>simp_all\<close>, metis)
  then show ?thesis by simp
qed

lemma core_with_jobs:
  assumes "core (db\<lparr>attempts := A, slots := S\<rparr>)" and "\<And>j. job_key (f j) = job_key j"
  shows "core (db\<lparr>attempts := A, slots := S, jobs := upd_where P f (jobs db)\<rparr>)"
  using core_jobs_update [OF assms] by simp

lemma jobs_last: "db\<lparr>attempts := A, jobs := J, slots := S\<rparr> = db\<lparr>attempts := A, slots := S, jobs := J\<rparr>"
  by simp

lemma core_mark_delivered:
  assumes c: "core db" and r: "mark_delivered E aid m receipt now db = Inr db'"
  shows "core db'"
  using r
proof (cases rule: mark_delivered_cases)
  case again
  with c show ?thesis by simp
next
  case (deliver current bid row)
  have row: "row \<in> set (attempts (db\<lparr>watermark := Some current\<rparr>))" "a_status row \<in> active" "a_id row = aid"
    using attempt_by_idD [OF deliver(5)] deliver(6) by (auto simp: active_def)
  have "core (db\<lparr>watermark := Some current\<rparr>)" using c by simp
  note core_attempt_leaves [OF this row(1,2), of
    "\<lambda>a. a\<lparr>a_status := DELIVERED, a_finished_at := Some current, a_updated_at := current, a_receipt := Some receipt\<rparr>"
    "set_slot DELIVERED current None" "\<lambda>s. s_id s = a_slot row \<and> s_status s = EXPORTED"]
  then show ?thesis unfolding deliver(8) jobs_last row(3) [symmetric]
    using core_with_jobs [where db = "db\<lparr>watermark := Some current\<rparr>"] by simp
qed

lemma fail_attempt_cases:
  assumes "fail_attempt aid rsn now db = Inr db'"
  obtains current row st fin where "now = Aware current" and "\<forall>w. watermark db = Some w \<longrightarrow> w \<le> current"
      and "attempt_by_id aid db = Some row" and "a_status row \<in> active"
      and "st = (if a_status row \<in> exporting then a_status row else FAILED)"
      and "db' = db\<lparr>watermark := Some current, attempts := upd_where (\<lambda>a. a_id a = aid)
                  (\<lambda>a. a\<lparr>a_status := st, a_finished_at := fin, a_updated_at := current, a_reason := Some (Reason rsn)\<rparr>)
                  (attempts db),
                jobs := upd_where (\<lambda>j. j_attempt j = aid \<and> j_status j = JRunning)
                  (\<lambda>j. j\<lparr>j_status := JFailed, j_finished_at := Some current\<rparr>) (jobs db),
                slots := upd_where (\<lambda>s. s_id s = a_slot row \<and> s_status s \<notin> terminal_slots)
                  (set_slot st current (Some (Reason rsn))) (slots db)\<rparr>"
proof -
  obtain current where now: "now = Aware current" using assms by (cases now) (auto simp: fail_attempt_def)
  obtain db0 row where db0: "observe_clock current db = Inr db0" and row: "attempt_by_id aid db0 = Some row" "a_status row \<in> active"
    using assms unfolding fail_attempt_def now by (auto simp: active_def split: option.splits)
  from observe_clockD [OF db0] have w: "\<forall>w. watermark db = Some w \<longrightarrow> w \<le> current"
    and eq: "db0 = db\<lparr>watermark := Some current\<rparr>" by auto
  show ?thesis
    by (rule that [OF now w _ row(2) refl,
          where fin = "if (if a_status row \<in> exporting then a_status row else FAILED) \<in> exporting then None else Some current"])
      (use assms row db0 in \<open>simp_all add: fail_attempt_def now Let_def eq del: status_sets\<close>)
qed

lemma core_fail_attempt:
  assumes c: "core db" and r: "fail_attempt aid rsn now db = Inr db'"
  shows "core db'"
  using r
proof (rule fail_attempt_cases)
  fix current row st fin
  assume a: "attempt_by_id aid db = Some row" and act: "a_status row \<in> active"
    and st: "st = (if a_status row \<in> exporting then a_status row else FAILED)"
    and db': "db' = db\<lparr>watermark := Some current, attempts := upd_where (\<lambda>a. a_id a = aid)
                  (\<lambda>a. a\<lparr>a_status := st, a_finished_at := fin, a_updated_at := current, a_reason := Some (Reason rsn)\<rparr>)
                  (attempts db),
                jobs := upd_where (\<lambda>j. j_attempt j = aid \<and> j_status j = JRunning)
                  (\<lambda>j. j\<lparr>j_status := JFailed, j_finished_at := Some current\<rparr>) (jobs db),
                slots := upd_where (\<lambda>s. s_id s = a_slot row \<and> s_status s \<notin> terminal_slots)
                  (set_slot st current (Some (Reason rsn))) (slots db)\<rparr>"
  let ?f = "\<lambda>a. a\<lparr>a_status := st, a_finished_at := fin, a_updated_at := current, a_reason := Some (Reason rsn)\<rparr>"
  let ?P = "\<lambda>s. s_id s = a_slot row \<and> s_status s \<notin> terminal_slots"
  have row: "row \<in> set (attempts (db\<lparr>watermark := Some current\<rparr>))" "a_id row = aid" using attempt_by_idD [OF a] by auto
  have c0: "core (db\<lparr>watermark := Some current\<rparr>)" using c by simp
  have "core (db\<lparr>watermark := Some current, attempts := upd_where (\<lambda>a. a_id a = a_id row) ?f (attempts db),
          slots := upd_where ?P (set_slot st current (Some (Reason rsn))) (slots db)\<rparr>)"
  proof (cases "a_status row \<in> exporting")
    case True
    then show ?thesis using core_attempt_moves [OF c0 row(1) act, of ?f "set_slot st current (Some (Reason rsn))" ?P] st
      by (auto simp: exporting_def terminal_slots_def)
  next
    case False
    then show ?thesis using core_attempt_leaves [OF c0 row(1) act, of ?f "set_slot st current (Some (Reason rsn))" ?P] st
      by auto
  qed
  then show ?thesis unfolding db' jobs_last row(2) [symmetric]
    using core_with_jobs [where db = "db\<lparr>watermark := Some current\<rparr>"] by simp
qed

lemma core_keys: "core_ok ex db \<Longrightarrow> distinct (map a_id (attempts db))"
  by (simp add: core_ok_def keys_ok_def)

text \<open>
  The replay loop ends exports row by row. Its rows stay the stored rows until their turn comes,
  so whatever ending one export keeps, the loop keeps.
\<close>

lemma finish_export_other:
  "b \<in> set (attempts db) \<Longrightarrow> a_id b \<noteq> a_id row \<Longrightarrow> b \<in> set (attempts (finish_export row ast sst rsn stamp db))"
  by (simp add: finish_export_bulk end_exports_def in_upd_where_keep)

lemma replay_loop_keeps:
  assumes "Q db" and "set rows \<subseteq> set (attempts db)" and "\<forall>r \<in> set rows. a_status r = EXPORTED" and "distinct (map a_id rows)"
    and step: "\<And>row db st sst rsn. Q db \<Longrightarrow> row \<in> set (attempts db) \<Longrightarrow> a_status row = EXPORTED \<Longrightarrow>
       (st, sst) \<in> {(EXPIRED, MISSED), (FAILED_DELIVERY, FAILED_DELIVERY)} \<Longrightarrow> Q (finish_export row st sst rsn current db)"
  shows "Q (snd (replay_loop R ident current rows db))"
  using assms(1-4)
proof (induction rows arbitrary: db)
  case (Cons row rows)
  have later: "Q (snd (replay_loop R ident current rows (finish_export row st sst rsn current db)))"
    if "(st, sst) \<in> {(EXPIRED, MISSED), (FAILED_DELIVERY, FAILED_DELIVERY)}" for st sst rsn
  proof (rule Cons.IH)
    show "Q (finish_export row st sst rsn current db)"
      by (rule step) (use that Cons.prems in auto)
    show "set rows \<subseteq> set (attempts (finish_export row st sst rsn current db))"
    proof
      fix b assume "b \<in> set rows"
      then show "b \<in> set (attempts (finish_export row st sst rsn current db))"
        using Cons.prems by (intro finish_export_other) (auto simp: image_iff)
    qed
  qed (use Cons.prems in simp_all)
  have skip: "Q (snd (replay_loop R ident current rows db))"
    by (rule Cons.IH) (use Cons.prems in simp_all)
  show ?case using later skip Cons.prems(1) by (simp add: Let_def split: option.splits)
qed simp

lemma replay_rows_facts:
  shows "set (replay_rows db) \<subseteq> set (attempts db)"
    and "\<forall>r \<in> set (replay_rows db). a_status r = EXPORTED"
    and "distinct (map a_id (attempts db)) \<Longrightarrow> distinct (map a_id (replay_rows db))"
proof -
  show "set (replay_rows db) \<subseteq> set (attempts db)" "\<forall>r \<in> set (replay_rows db). a_status r = EXPORTED"
    by (auto simp: replay_rows_def)
  assume "distinct (map a_id (attempts db))"
  then show "distinct (map a_id (replay_rows db))"
    unfolding replay_rows_def by (simp add: distinct_map inj_on_def)
qed

lemma pending_replay_cases:
  assumes "pending_replay R now i db = Inr (r, db')"
  obtains current ident where "now = Aware current" and "\<forall>w. watermark db = Some w \<longrightarrow> w \<le> current"
    and "identity_of i = Inr ident" and "0 \<le> max_retries R" and "max_retries R \<le> 4"
    and "(r, db') = replay_loop R ident current (replay_rows (db\<lparr>watermark := Some current\<rparr>)) (db\<lparr>watermark := Some current\<rparr>)"
  using assms that by (cases now) (auto simp: pending_replay_def dest!: observe_clockD)

lemma replay_keeps:
  assumes r: "pending_replay R now i db = Inr (r, db')"
    and start: "\<And>current. now = Aware current \<Longrightarrow> \<forall>w. watermark db = Some w \<longrightarrow> w \<le> current \<Longrightarrow> Q current (db\<lparr>watermark := Some current\<rparr>)"
    and keys: "distinct (map a_id (attempts db))"
    and step: "\<And>row db st sst rsn current. Q current db \<Longrightarrow> row \<in> set (attempts db) \<Longrightarrow> a_status row = EXPORTED \<Longrightarrow>
       (st, sst) \<in> {(EXPIRED, MISSED), (FAILED_DELIVERY, FAILED_DELIVERY)} \<Longrightarrow> Q current (finish_export row st sst rsn current db)"
  shows "\<exists>current. now = Aware current \<and> Q current db'"
  using r
proof (rule pending_replay_cases)
  fix current ident
  assume now: "now = Aware current" and w: "\<forall>w. watermark db = Some w \<longrightarrow> w \<le> current"
    and eq: "(r, db') = replay_loop R ident current (replay_rows (db\<lparr>watermark := Some current\<rparr>)) (db\<lparr>watermark := Some current\<rparr>)"
  have "Q current (snd (replay_loop R ident current (replay_rows (db\<lparr>watermark := Some current\<rparr>)) (db\<lparr>watermark := Some current\<rparr>)))"
    by (rule replay_loop_keeps [where Q = "Q current", OF start [OF now w]])
      (use replay_rows_facts [of "db\<lparr>watermark := Some current\<rparr>"] keys step in auto)
  then show ?thesis using now by (simp flip: eq)
qed

lemma core_pending_replay:
  assumes c: "core db" and r: "pending_replay R now i db = Inr (r, db')"
  shows "core db'"
proof -
  have "\<exists>current. now = Aware current \<and> core db'"
    by (rule replay_keeps [OF r])
      (use c core_keys [OF c] in \<open>auto simp: exporting_def intro!: core_finish_export\<close>)
  then show ?thesis by blast
qed

end
