(* ===== verification/Ledger_Steps.thy ===== *)
theory Ledger_Steps
  imports Ledger_Inv
begin

text \<open>
  The life of an attempt as a state machine, and the proof that every ledger operation moves each
  stored attempt along it. The operations are then the steps of a relation whose reachable ledgers
  satisfy the whole invariant: keys and links (from \<open>Ledger_Inv\<close>), stamps below the watermark,
  numbered attempts, and packages bound to their manifests and receipts.
\<close>

section \<open>The life of an attempt\<close>

inductive attempt_move :: "lstatus \<Rightarrow> lstatus \<Rightarrow> bool" where
  export: "st \<in> {EXPORTING, EXPORTED} \<Longrightarrow> attempt_move RUNNING st"
| stop: "st \<in> {FAILED, INTERRUPTED} \<Longrightarrow> attempt_move RUNNING st"
| written: "attempt_move EXPORTING EXPORTED"
| withdraw: "src \<in> {EXPORTING, EXPORTED} \<Longrightarrow> st \<in> {SUPERSEDED, EXPIRED, INVALIDATED, QUARANTINED} \<Longrightarrow> attempt_move src st"
| undelivered: "attempt_move EXPORTED FAILED_DELIVERY"
| deliver: "attempt_move EXPORTED DELIVERED"

inductive_cases attempt_moveE: "attempt_move st st'"
inductive_simps attempt_move_simps:
  "attempt_move DELIVERED st" "attempt_move FAILED st" "attempt_move INTERRUPTED st" "attempt_move EXPIRED st"
  "attempt_move SUPERSEDED st" "attempt_move INVALIDATED st" "attempt_move QUARANTINED st" "attempt_move FAILED_DELIVERY st"
  "attempt_move PENDING st" "attempt_move MISSED st"

lemma attempt_move_active: "attempt_move st st' \<Longrightarrow> st \<in> active"
  by (auto simp: active_def elim: attempt_moveE)

lemma moves_final: "attempt_move\<^sup>*\<^sup>* st st' \<Longrightarrow> st \<notin> active \<Longrightarrow> st' = st"
  by (induction rule: converse_rtranclp_induct) (auto dest: attempt_move_active)

lemma moves_to_running: "attempt_move\<^sup>*\<^sup>* st RUNNING \<Longrightarrow> st = RUNNING"
  by (induction rule: converse_rtranclp_induct) (auto elim: attempt_moveE)

text \<open>
  What a later version of an attempt row may differ in: the identity of the run never changes, the
  package is bound once, and a final row is frozen.
\<close>

definition evolves :: "attempt_row \<Rightarrow> attempt_row \<Rightarrow> bool" where
  "evolves a b \<longleftrightarrow>
     a_id b = a_id a \<and> a_slot b = a_slot a \<and> a_no b = a_no a \<and> a_started_at b = a_started_at a
     \<and> a_code_sha b = a_code_sha a \<and> a_config_hash b = a_config_hash a \<and> a_scope_hash b = a_scope_hash a
     \<and> attempt_move\<^sup>*\<^sup>* (a_status a) (a_status b)
     \<and> (a_status a \<noteq> RUNNING \<longrightarrow> a_bundle_id b = a_bundle_id a \<and> a_bundle_file b = a_bundle_file a)
     \<and> (a_status a \<notin> active \<longrightarrow> b = a)"

lemma evolves_refl [simp]: "evolves a a"
  by (simp add: evolves_def)

lemma evolves_trans: "evolves a b \<Longrightarrow> evolves b c \<Longrightarrow> evolves a c"
  unfolding evolves_def by (auto intro: rtranclp_trans dest: moves_to_running)

text \<open>
  Most operations only let rows fade: a row that is still live afterwards is what it was, up to its
  stamps and reason. Only claiming, exporting and delivering do more.
\<close>

definition live :: "lstatus set" where
  "live = {RUNNING, EXPORTING, EXPORTED, DELIVERED}"

definition package :: "attempt_row \<Rightarrow> string option \<times> string option \<times> int option \<times> int option \<times> pyval option" where
  "package a = (a_bundle_id a, a_bundle_file a, a_sequence a, a_expires_at a, a_receipt a)"

definition fades :: "attempt_row \<Rightarrow> attempt_row \<Rightarrow> bool" where
  "fades a b \<longleftrightarrow> evolves a b \<and> (a_status b \<in> live \<longrightarrow> a_status b = a_status a \<and> package b = package a)"

lemma fades_refl [simp]: "fades a a"
  by (simp add: fades_def)

lemma fades_trans: "fades a b \<Longrightarrow> fades b c \<Longrightarrow> fades a c"
  unfolding fades_def using evolves_trans by metis

definition attempts_fade :: "ledger \<Rightarrow> ledger \<Rightarrow> bool" where
  "attempts_fade db db' \<longleftrightarrow> list_all2 fades (attempts db) (attempts db') \<and> manifests db' = manifests db"

lemma attempts_fade_refl: "attempts db' = attempts db \<Longrightarrow> manifests db' = manifests db \<Longrightarrow> attempts_fade db db'"
  by (simp add: attempts_fade_def list.rel_refl)

lemma attempts_fade_trans: "attempts_fade db1 db2 \<Longrightarrow> attempts_fade db2 db3 \<Longrightarrow> attempts_fade db1 db3"
  unfolding attempts_fade_def using list_all2_trans [of fades fades fades] fades_trans by metis

lemma attempts_fade_update:
  assumes "attempts db' = upd_where P f (attempts db)" and "manifests db' = manifests db"
    and "\<And>a. a \<in> set (attempts db) \<Longrightarrow> P a \<Longrightarrow> fades a (f a)"
  shows "attempts_fade db db'"
  using assms by (simp add: attempts_fade_def upd_where_def list.rel_map list.rel_refl_strong)

lemma attempts_fade_fold:
  assumes "\<And>x db. x \<in> set xs \<Longrightarrow> attempts_fade db (f x db)"
  shows "attempts_fade db (fold f xs db)"
proof (rule fold_invariant_set [where P = "attempts_fade db"])
  fix x s assume "x \<in> set xs" "attempts_fade db s"
  then show "attempts_fade db (f x s)" using assms attempts_fade_trans by blast
qed (simp add: attempts_fade_refl)

lemma fades_end_attempt:
  assumes "attempt_move (a_status a) st" and "st \<notin> live"
  shows "fades a (end_attempt st rsn stamp a)"
  using assms attempt_move_active [OF assms(1)]
  by (auto simp: fades_def evolves_def end_attempt_def)

definition withdrawn :: "lstatus set" where
  "withdrawn = {SUPERSEDED, EXPIRED, INVALIDATED, QUARANTINED}"

lemma fade_finish_exports:
  assumes "st \<in> withdrawn" and "sst \<notin> exporting"
  shows "attempts_fade db (finish_exports rows st sst rsn stamp db)"
proof -
  have "st \<notin> exporting" using assms(1) by (auto simp: withdrawn_def)
  then show ?thesis
    using assms fades_end_attempt attempt_move.withdraw
    by (intro attempts_fade_update [where f = "end_attempt st rsn stamp" and P = "\<lambda>a. a_id a \<in> a_id ` set rows \<and> a_status a \<in> exporting"])
      (auto simp: finish_exports_bulk end_exports_def withdrawn_def live_def exporting_def)
qed

lemma fade_finish_exported:
  assumes "distinct (map a_id (attempts db))" and "set rows \<subseteq> set (attempts db)" and "\<forall>r \<in> set rows. a_status r = EXPORTED"
    and "sst \<notin> exporting"
  shows "attempts_fade db (finish_exports rows FAILED_DELIVERY sst rsn stamp db)"
proof (rule attempts_fade_update [where f = "end_attempt FAILED_DELIVERY rsn stamp"
      and P = "\<lambda>a. a_id a \<in> a_id ` set rows \<and> a_status a \<in> exporting"])
  fix a assume a: "a \<in> set (attempts db)" "a_id a \<in> a_id ` set rows \<and> a_status a \<in> exporting"
  then obtain r where "r \<in> set rows" "a_id a = a_id r" by auto
  moreover from this have "a = r" using distinct_key_inj [OF assms(1) a(1)] assms(2) by auto
  ultimately have "a_status a = EXPORTED" using assms(3) by simp
  then show "fades a (end_attempt FAILED_DELIVERY rsn stamp a)"
    by (intro fades_end_attempt) (auto simp: live_def intro: attempt_move.intros)
qed (use assms(4) in \<open>simp_all add: finish_exports_bulk end_exports_def\<close>)

lemma finish_export_single: "finish_export row st sst rsn stamp db = finish_exports [row] st sst rsn stamp db"
  by (simp add: finish_exports_def)

section \<open>Operations under which attempts only fade\<close>

lemma fade_slots_update: "attempts_fade db (db\<lparr>slots := S\<rparr>)"
  by (rule attempts_fade_refl) simp_all

lemma fade_watermark: "attempts_fade db (db\<lparr>watermark := w\<rparr>)"
  by (rule attempts_fade_refl) simp_all

lemma fade_settle_previous:
  assumes "distinct (map a_id (attempts db))"
  shows "attempts_fade db (settle_previous current db)"
proof -
  have "attempts_fade db (close_exhausted current db)"
    unfolding close_exhausted_def by (rule fade_finish_exported [OF assms]) auto
  moreover have "attempts_fade db1 (miss_previous_sessions session current db1)" for db1 session
    unfolding miss_previous_sessions_def by (rule fade_slots_update)
  moreover have "attempts_fade db1 (expire_previous_exports session current db1)" for db1 session
    unfolding expire_previous_exports_def by (rule fade_finish_exports) (auto simp: withdrawn_def)
  ultimately show ?thesis unfolding settle_previous_def by (blast intro: attempts_fade_trans)
qed

lemma fade_close_slot:
  assumes "st \<in> withdrawn" and "sst \<notin> exporting"
  shows "attempts_fade db ((finish_exports rows st sst rsn stamp db)\<lparr>slots := S\<rparr>)"
  using fade_finish_exports [OF assms] fade_slots_update by (rule attempts_fade_trans)

lemma fade_supersede_slot: "attempts_fade db (supersede_slot latest stamp sid db)"
  unfolding supersede_slot_def Let_def by (rule fade_close_slot) (auto simp: withdrawn_def)

lemma fade_miss_late_slot: "attempts_fade db (miss_late_slot latest stamp db)"
  unfolding miss_late_slot_def Let_def by (rule fade_close_slot) (auto simp: withdrawn_def)

lemma fade_plan_slot: "attempts_fade db (plan_slot session stamp st db)"
  by (simp add: plan_slot_def Let_def attempts_fade_refl split: option.splits)

lemma fade_drop_stale: "attempts_fade db (drop_stale_export ident current a db)"
  by (auto simp: drop_stale_export_def Let_def finish_export_single withdrawn_def
      intro: fade_finish_exports attempts_fade_refl)

lemma fade_plan_latest: "attempts_fade db (snd (plan_latest P ident current latest age db))"
  by (auto simp: plan_latest_def Let_def fade_miss_late_slot fade_drop_stale
      intro: attempts_fade_fold split: option.splits)

lemma fade_plan_session: "attempts_fade db (snd (plan_session P ident current parsed db))"
proof -
  have 1: "attempts_fade db (fold (plan_slot session current) xs db)" for session xs
    by (rule attempts_fade_fold) (rule fade_plan_slot)
  have 2: "attempts_fade db1 (fold (\<lambda>(sid, _). supersede_slot latest current sid) ys db1)"
    for latest db1 and ys :: "(slot_id \<times> int) list"
    by (rule attempts_fade_fold) (auto simp: fade_supersede_slot)
  have "attempts_fade db (snd (plan_latest P ident current latest age
      (fold (\<lambda>(sid, _). supersede_slot latest current sid) ys (fold (plan_slot session current) xs db))))"
    for latest age session xs and ys :: "(slot_id \<times> int) list"
    by (rule attempts_fade_trans [OF 1 attempts_fade_trans [OF 2 fade_plan_latest]])
  with 1 show ?thesis by (simp add: plan_session_def Let_def split_beta)
qed

lemma fade_plan_due:
  assumes "core db" and "plan_due P now v i ss db = Inr (r, db')"
  shows "attempts_fade db db'"
  using assms(2)
proof (rule plan_due_cases)
  fix current ident parsed
  assume u: "\<not> v \<Longrightarrow> r = None \<and> db' = settle_previous current (db\<lparr>watermark := Some current\<rparr>)"
    and v: "v \<Longrightarrow> (r, db') = plan_session P ident current parsed (settle_previous current (db\<lparr>watermark := Some current\<rparr>))"
  have "attempts_fade db (settle_previous current (db\<lparr>watermark := Some current\<rparr>))" (is "attempts_fade db ?db1")
    using attempts_fade_trans [OF fade_watermark fade_settle_previous] core_keys [OF assms(1)] by simp
  moreover have "db' = ?db1 \<or> db' = snd (plan_session P ident current parsed ?db1)"
    using u v by (cases v) (auto dest: arg_cong [of _ _ snd])
  ultimately show ?thesis using fade_plan_session attempts_fade_trans by blast
qed

lemma fade_interrupt_attempt:
  assumes "distinct (map a_id (attempts db))" and "row \<in> set (attempts db)" and "a_status row = RUNNING"
    and "interrupt_attempt stamp row db = Inr db'"
  shows "attempts_fade db db'"
proof (rule attempts_fade_update [where f = "end_attempt INTERRUPTED (Reason ''owner_process_ended'') stamp" and P = "\<lambda>a. a_id a = a_id row"])
  fix a assume "a \<in> set (attempts db)" "a_id a = a_id row"
  then have "a = row" using assms(1,2) by (auto intro: distinct_key_inj)
  then show "fades a (end_attempt INTERRUPTED (Reason ''owner_process_ended'') stamp a)"
    using assms(3) by (intro fades_end_attempt) (auto simp: live_def intro: attempt_move.intros)
qed (use assms(4) in \<open>auto simp: interrupt_attempt_def end_attempt_def [abs_def]\<close>)

lemma fade_recover:
  assumes c: "core db" and r: "recover_interrupted now lock db = Inr (n, db')"
  shows "attempts_fade db db'"
  using r
proof (rule recover_cases)
  fix current db1
  assume f: "foldr_result (interrupt_attempt current) (filter (\<lambda>a. a_status a = RUNNING) (attempts db))
           (db\<lparr>watermark := Some current\<rparr>) = Inr db1" and db': "db' = interrupt_exported_jobs current db1"
  have "attempts_fade (db\<lparr>watermark := Some current\<rparr>) db1"
    using running_rows [OF c]
  proof
    assume "filter (\<lambda>a. a_status a = RUNNING) (attempts db) = []"
    with f show ?thesis by (simp add: attempts_fade_refl)
  next
    assume "\<exists>a. filter (\<lambda>a. a_status a = RUNNING) (attempts db) = [a]"
    then obtain a where eq: "filter (\<lambda>a. a_status a = RUNNING) (attempts db) = [a]" by blast
    then have "a \<in> set (attempts db)" "a_status a = RUNNING" by (auto dest: filter_eq_ConsD)
    with f eq core_keys [OF c] show ?thesis
      using fade_interrupt_attempt [of "db\<lparr>watermark := Some current\<rparr>" a current db1] by simp
  qed
  moreover have "attempts_fade db1 db'" by (rule attempts_fade_refl) (simp_all add: db' interrupt_exported_jobs_def)
  ultimately show ?thesis using attempts_fade_trans [OF fade_watermark] attempts_fade_trans by blast
qed

lemma fade_fail_attempt:
  assumes c: "core db" and r: "fail_attempt aid rsn now db = Inr db'"
  shows "attempts_fade db db'"
  using r
proof (rule fail_attempt_cases)
  fix current row st fin
  let ?f = "\<lambda>a. a\<lparr>a_status := st, a_finished_at := fin, a_updated_at := current, a_reason := Some (Reason rsn)\<rparr>"
  assume a: "attempt_by_id aid db = Some row" and act: "a_status row \<in> active"
    and st: "st = (if a_status row \<in> exporting then a_status row else FAILED)"
    and db': "db' = db\<lparr>watermark := Some current, attempts := upd_where (\<lambda>a. a_id a = aid) ?f (attempts db),
                jobs := upd_where (\<lambda>j. j_attempt j = aid \<and> j_status j = JRunning)
                  (\<lambda>j. j\<lparr>j_status := JFailed, j_finished_at := Some current\<rparr>) (jobs db),
                slots := upd_where (\<lambda>s. s_id s = a_slot row \<and> s_status s \<notin> terminal_slots)
                  (set_slot st current (Some (Reason rsn))) (slots db)\<rparr>"
  show ?thesis
  proof (rule attempts_fade_update [where f = ?f and P = "\<lambda>a. a_id a = aid"])
    fix b assume "b \<in> set (attempts db)" "a_id b = aid"
    then have "b = row" using attempt_id_inj [OF c] attempt_by_idD [OF a] by simp
    moreover have "attempt_move RUNNING FAILED" by (rule attempt_move.intros) simp
    ultimately show "fades b (?f b)"
      using st act by (auto simp: fades_def evolves_def package_def active_cases live_def exporting_def)
  qed (simp_all add: db')
qed

lemma fade_quarantine:
  assumes "quarantine_export aid rsn now db = Inr db'"
  shows "attempts_fade db db'"
  using assms
proof (rule quarantine_cases)
  fix current row
  assume "db' = finish_export row QUARANTINED QUARANTINED (Reason rsn) current (db\<lparr>watermark := Some current\<rparr>)"
  then show ?thesis
    using attempts_fade_trans [OF fade_watermark fade_finish_exports] by (simp add: finish_export_single withdrawn_def)
qed

lemma fade_record_job:
  assumes "record_job E aid name st now run req details db = Inr db'"
  shows "attempts_fade db db'"
  using assms by (cases rule: record_job_cases) (auto intro: attempts_fade_refl)

lemma fade_record_diagnostic:
  assumes "record_diagnostic aid ph st now dur et rsn db = Inr db'"
  shows "attempts_fade db db'"
  using assms
proof (rule record_diagnostic_cases)
  fix current err
  assume "put_diagnostic aid ph st current dur err (db\<lparr>watermark := Some current\<rparr>) = Inr db'"
  then show ?thesis by (rule put_diagnostic_cases) (simp add: attempts_fade_refl)
qed

lemma fade_pending_replay:
  assumes c: "core db" and r: "pending_replay R now i db = Inr (r, db')"
  shows "attempts_fade db db'"
proof -
  let ?Q = "\<lambda>current s. attempts_fade db s \<and> distinct (map a_id (attempts s))"
  have step: "?Q current (finish_export row st sst rsn current s)"
    if "?Q current s" "row \<in> set (attempts s)" "a_status row = EXPORTED"
      "(st, sst) \<in> {(EXPIRED, MISSED), (FAILED_DELIVERY, FAILED_DELIVERY)}" for row s st sst rsn current
  proof -
    have "attempts_fade s (finish_export row st sst rsn current s)"
      using that by (auto simp: finish_export_single withdrawn_def intro: fade_finish_exports fade_finish_exported)
    moreover have "map a_id (attempts (finish_export row st sst rsn current s)) = map a_id (attempts s)"
      by (simp add: finish_export_bulk end_exports_def)
    ultimately show ?thesis using that(1) attempts_fade_trans by auto
  qed
  have "\<exists>current. now = Aware current \<and> ?Q current db'"
    by (rule replay_keeps [OF r]) (use core_keys [OF c] step in \<open>auto simp: fade_watermark\<close>)
  then show ?thesis by blast
qed

section \<open>Stamps below the watermark\<close>

definition stamped :: "int \<Rightarrow> ledger \<Rightarrow> bool" where
  "stamped w db \<longleftrightarrow> (\<forall>s \<in> set (slots db). s_updated_at s \<le> w) \<and> (\<forall>a \<in> set (attempts db). a_updated_at a \<le> w)
     \<and> (\<forall>g \<in> set (diagnostics db). g_updated_at g \<le> w)"

definition stamps_ok :: "ledger \<Rightarrow> bool" where
  "stamps_ok db = (case watermark db of
     None \<Rightarrow> slots db = [] \<and> attempts db = [] \<and> diagnostics db = [] | Some w \<Rightarrow> stamped w db)"

text \<open>\<open>fresh current db\<close>: the watermark is the current instant and no stamp lies after it.\<close>

definition fresh :: "int \<Rightarrow> ledger \<Rightarrow> bool" where
  "fresh current db \<longleftrightarrow> watermark db = Some current \<and> stamped current db"

lemma fresh_stamps_ok: "fresh current db \<Longrightarrow> stamps_ok db"
  by (simp add: fresh_def stamps_ok_def)

lemma fresh_observed:
  assumes "stamps_ok db" and "\<forall>w. watermark db = Some w \<longrightarrow> w \<le> current"
  shows "fresh current (db\<lparr>watermark := Some current\<rparr>)"
  using assms by (force simp: fresh_def stamps_ok_def stamped_def split: option.splits)

lemma fresh_tables:
  assumes "fresh current db" and "watermark db' = Some current"
    and "\<And>s. s \<in> set (slots db') \<Longrightarrow> s \<in> set (slots db) \<or> s_updated_at s = current"
    and "\<And>a. a \<in> set (attempts db') \<Longrightarrow> a \<in> set (attempts db) \<or> a_updated_at a = current"
    and "\<And>g. g \<in> set (diagnostics db') \<Longrightarrow> g \<in> set (diagnostics db) \<or> g_updated_at g = current"
  shows "fresh current db'"
  using assms unfolding fresh_def stamped_def by (metis order_refl)

lemma fresh_finish_export: "fresh current db \<Longrightarrow> fresh current (finish_export row ast sst rsn current db)"
  by (rule fresh_tables, assumption)
    (auto simp: finish_export_bulk end_exports_def fresh_def elim!: in_upd_whereE)

lemma fresh_finish_exports: "fresh current db \<Longrightarrow> fresh current (finish_exports rows ast sst rsn current db)"
  unfolding finish_exports_def by (rule fold_invariant_set) (auto intro: fresh_finish_export)

lemma fresh_set_slot:
  "fresh current db \<Longrightarrow> fresh current (db\<lparr>slots := upd_where Q (set_slot st current rsn) (slots db)\<rparr>)"
  by (rule fresh_tables, assumption) (auto simp: fresh_def elim!: in_upd_whereE)

lemma fresh_plan_slot: "fresh current db \<Longrightarrow> fresh current (plan_slot session current st db)"
  by (rule fresh_tables, assumption) (auto simp: plan_slot_def Let_def fresh_def split: option.splits)

lemma fresh_settle_previous: "fresh current db \<Longrightarrow> fresh current (settle_previous current db)"
  unfolding settle_previous_def expire_previous_exports_def miss_previous_sessions_def close_exhausted_def
  by (intro fresh_finish_exports fresh_set_slot)

lemma fresh_plan_latest: "fresh current db \<Longrightarrow> fresh current (snd (plan_latest P ident current latest age db))"
  by (auto simp: plan_latest_def miss_late_slot_def drop_stale_export_def Let_def
      intro!: fresh_set_slot fresh_finish_exports fresh_finish_export fold_invariant_set [where P = "fresh current"] split: option.splits)

lemma fresh_plan_session:
  assumes "fresh current db"
  shows "fresh current (snd (plan_session P ident current parsed db))"
proof -
  have 1: "fresh current (fold (plan_slot session current) xs db)" for session xs
    by (rule fold_invariant_set [where P = "fresh current", OF assms]) (rule fresh_plan_slot)
  have 2: "fresh current (fold (\<lambda>(sid, _). supersede_slot latest current sid) ys db1)"
    if "fresh current db1" for latest db1 and ys :: "(slot_id \<times> int) list"
    by (rule fold_invariant_set [where P = "fresh current", OF that])
      (auto simp: supersede_slot_def Let_def intro!: fresh_set_slot fresh_finish_exports)
  show ?thesis using 1 fresh_plan_latest [OF 2 [OF 1]] by (simp add: plan_session_def Let_def split_beta)
qed

lemma fresh_plan_due:
  assumes "stamps_ok db" and "plan_due P now v i ss db = Inr (r, db')"
  shows "\<exists>current. now = Aware current \<and> fresh current db'"
  using assms(2)
proof (rule plan_due_cases)
  fix current ident parsed
  assume now: "now = Aware current" and w: "\<forall>w. watermark db = Some w \<longrightarrow> w \<le> current"
    and u: "\<not> v \<Longrightarrow> r = None \<and> db' = settle_previous current (db\<lparr>watermark := Some current\<rparr>)"
    and v: "v \<Longrightarrow> (r, db') = plan_session P ident current parsed (settle_previous current (db\<lparr>watermark := Some current\<rparr>))"
  let ?db1 = "settle_previous current (db\<lparr>watermark := Some current\<rparr>)"
  have "fresh current ?db1" by (rule fresh_settle_previous [OF fresh_observed [OF assms(1) w]])
  moreover have "db' = ?db1 \<or> db' = snd (plan_session P ident current parsed ?db1)"
    using u v by (cases v) (auto dest: arg_cong [of _ _ snd])
  ultimately show ?thesis using now fresh_plan_session by auto
qed

lemma fresh_claim:
  assumes "stamps_ok db" and "claim P aid sid now i lock db = Inr (r, db')"
  shows "\<exists>current. now = Aware current \<and> fresh current db'"
  using assms(2)
proof (rule claim_cases)
  fix current ident slot t
  assume now: "now = Aware current" and w: "\<forall>w. watermark db = Some w \<longrightarrow> w \<le> current"
    and db': "db' = db\<lparr>watermark := Some current,
           attempts := attempts db @ [new_attempt aid sid (next_attempt_no (previous_attempt sid db)) current ident],
           slots := upd_where (\<lambda>s. s_id s = sid) (set_slot RUNNING current None) (slots db)\<rparr>"
  have "fresh current db'"
    by (rule fresh_tables [OF fresh_observed [OF assms(1) w]]) (auto simp: db' elim!: in_upd_whereE)
  with now show ?thesis by simp
qed

lemma fresh_recover:
  assumes c: "core db" and st: "stamps_ok db" and r: "recover_interrupted now lock db = Inr (n, db')"
  shows "\<exists>current. now = Aware current \<and> fresh current db'"
  using r
proof (rule recover_cases)
  fix current db1
  assume now: "now = Aware current" and w: "\<forall>w. watermark db = Some w \<longrightarrow> w \<le> current"
    and f: "foldr_result (interrupt_attempt current) (filter (\<lambda>a. a_status a = RUNNING) (attempts db))
           (db\<lparr>watermark := Some current\<rparr>) = Inr db1" and db': "db' = interrupt_exported_jobs current db1"
  have "fresh current db1"
    using f fresh_observed [OF st w]
  proof (rule foldr_result_invariant)
    fix a s s' assume "interrupt_attempt current a s = Inr s'" and fr: "fresh current s"
    then show "fresh current s'"
      by (intro fresh_tables [OF fr]) (auto simp: interrupt_attempt_def fresh_def elim!: in_upd_whereE)
  qed
  then have "fresh current db'"
    by (rule fresh_tables) (auto simp: db' interrupt_exported_jobs_def fresh_def \<open>fresh current db1\<close> [unfolded fresh_def])
  with now show ?thesis by simp
qed

lemma fresh_record_job:
  assumes st: "stamps_ok db" and r: "record_job E aid name status now run req details db = Inr db'"
  shows "\<exists>current. now = Aware current \<and> fresh current db'"
  using r
proof (cases rule: record_job_cases)
  case (same current)
  then show ?thesis using fresh_observed [OF st] by auto
next
  case (update current j js fin d)
  have "fresh current db'" by (rule fresh_tables [OF fresh_observed [OF st update(2)]]) (simp_all add: update(6))
  with update(1) show ?thesis by simp
next
  case (insert current a js fin d)
  have "fresh current db'" by (rule fresh_tables [OF fresh_observed [OF st insert(2)]]) (simp_all add: insert(6))
  with insert(1) show ?thesis by simp
qed

lemma fresh_record_diagnostic:
  assumes st: "stamps_ok db" and r: "record_diagnostic aid ph status now dur et rsn db = Inr db'"
  shows "\<exists>current. now = Aware current \<and> fresh current db'"
  using r
proof (rule record_diagnostic_cases)
  fix current err
  assume now: "now = Aware current" and w: "\<forall>w. watermark db = Some w \<longrightarrow> w \<le> current"
    and "put_diagnostic aid ph status current dur err (db\<lparr>watermark := Some current\<rparr>) = Inr db'"
  then have "fresh current db'"
    by (elim put_diagnostic_cases) (rule fresh_tables [OF fresh_observed [OF st w]], auto)
  with now show ?thesis by simp
qed

lemma fresh_record_export:
  assumes st: "stamps_ok db" and r: "record_export E aid m file now status db = Inr db'"
  shows "\<exists>current. now = Aware current \<and> fresh current db'"
  using r
proof (rule record_export_cases)
  fix current x row
  assume now: "now = Aware current" and w: "\<forall>w. watermark db = Some w \<longrightarrow> w \<le> current"
    and p: "put_export aid m file current status x row (db\<lparr>watermark := Some current\<rparr>) = Inr db'"
  have "fresh current db'"
    using p
    by (cases rule: put_export_cases)
      (rule fresh_tables [OF fresh_observed [OF st w]], auto simp: set_exported_def elim!: in_upd_whereE)+
  with now show ?thesis by simp
qed

lemma fresh_quarantine:
  assumes st: "stamps_ok db" and r: "quarantine_export aid rsn now db = Inr db'"
  shows "\<exists>current. now = Aware current \<and> fresh current db'"
  using r by (rule quarantine_cases) (auto intro!: fresh_finish_export fresh_observed [OF st])

lemma fresh_mark_delivered:
  assumes st: "stamps_ok db" and r: "mark_delivered E aid m receipt now db = Inr db'"
  shows "\<exists>current. now = Aware current \<and> fresh current db'"
  using r
proof (cases rule: mark_delivered_cases)
  case (again current row)
  then show ?thesis using fresh_observed [OF st] by auto
next
  case (deliver current bid row)
  have "fresh current db'"
    by (rule fresh_tables [OF fresh_observed [OF st deliver(2)]]) (auto simp: deliver(8) elim!: in_upd_whereE)
  with deliver(1) show ?thesis by simp
qed

lemma fresh_fail_attempt:
  assumes st: "stamps_ok db" and r: "fail_attempt aid rsn now db = Inr db'"
  shows "\<exists>current. now = Aware current \<and> fresh current db'"
  using r
proof (rule fail_attempt_cases)
  fix current row status fin
  assume now: "now = Aware current" and w: "\<forall>w. watermark db = Some w \<longrightarrow> w \<le> current"
    and db': "db' = db\<lparr>watermark := Some current, attempts := upd_where (\<lambda>a. a_id a = aid)
                  (\<lambda>a. a\<lparr>a_status := status, a_finished_at := fin, a_updated_at := current, a_reason := Some (Reason rsn)\<rparr>)
                  (attempts db),
                jobs := upd_where (\<lambda>j. j_attempt j = aid \<and> j_status j = JRunning)
                  (\<lambda>j. j\<lparr>j_status := JFailed, j_finished_at := Some current\<rparr>) (jobs db),
                slots := upd_where (\<lambda>s. s_id s = a_slot row \<and> s_status s \<notin> terminal_slots)
                  (set_slot status current (Some (Reason rsn))) (slots db)\<rparr>"
  have "fresh current db'"
    by (rule fresh_tables [OF fresh_observed [OF st w]]) (auto simp: db' elim!: in_upd_whereE)
  with now show ?thesis by simp
qed

lemma fresh_pending_replay:
  assumes "core db" and st: "stamps_ok db" and r: "pending_replay R now i db = Inr (r, db')"
  shows "\<exists>current. now = Aware current \<and> fresh current db'"
  by (rule replay_keeps [OF r])
    (use core_keys [OF assms(1)] in \<open>auto intro: fresh_observed [OF st] fresh_finish_export\<close>)

section \<open>Attempt numbers\<close>

abbreviation attempt_key :: "attempt_row \<Rightarrow> slot_id \<times> int" where
  "attempt_key a \<equiv> (a_slot a, a_no a)"

definition numbered :: "ledger \<Rightarrow> bool" where
  "numbered db \<longleftrightarrow> distinct (map attempt_key (attempts db)) \<and> (\<forall>a \<in> set (attempts db). 1 \<le> a_no a \<and> a_no a \<le> 5)"

lemma latest_attempt_None: "latest_attempt as = None \<longleftrightarrow> as = []"
  by (cases as) (auto split: option.splits if_splits)

lemma latest_attempt_max: "latest_attempt as = Some p \<Longrightarrow> p \<in> set as \<and> (\<forall>a \<in> set as. a_no a \<le> a_no p)"
proof (induction as arbitrary: p)
  case (Cons a as)
  show ?case
  proof (cases "latest_attempt as")
    case None
    then show ?thesis using Cons.prems by (simp add: latest_attempt_None)
  next
    case (Some b)
    with Cons.IH [OF Some] Cons.prems show ?thesis by (auto split: if_splits)
  qed
qed simp

lemma previous_attempt_max:
  assumes "previous_attempt sid db = Some p"
  shows "p \<in> set (attempts db)" and "a_slot p = sid"
    and "a \<in> set (attempts db) \<Longrightarrow> a_slot a = sid \<Longrightarrow> a_no a \<le> a_no p"
  using latest_attempt_max [OF assms [unfolded previous_attempt_def]] by auto

lemma previous_attempt_None:
  "previous_attempt sid db = None \<longleftrightarrow> (\<forall>a \<in> set (attempts db). a_slot a \<noteq> sid)"
  by (simp add: previous_attempt_def latest_attempt_None filter_empty_conv)

lemma next_attempt_no_fresh:
  assumes "numbered db"
  shows "1 \<le> next_attempt_no (previous_attempt sid db)"
    and "\<And>a. a \<in> set (attempts db) \<Longrightarrow> a_slot a = sid \<Longrightarrow> a_no a < next_attempt_no (previous_attempt sid db)"
proof -
  show "1 \<le> next_attempt_no (previous_attempt sid db)"
    using assms previous_attempt_max(1) [of sid db]
    by (fastforce simp: numbered_def next_attempt_no_def split: option.splits)
  fix a assume "a \<in> set (attempts db)" "a_slot a = sid"
  then show "a_no a < next_attempt_no (previous_attempt sid db)"
    using previous_attempt_max(3) [of sid db _ a] previous_attempt_None [of sid db]
    by (fastforce simp: next_attempt_no_def split: option.splits)
qed

lemma fades_key: "fades a b \<Longrightarrow> a_id b = a_id a \<and> a_slot b = a_slot a \<and> a_no b = a_no a"
  by (simp add: fades_def evolves_def)

lemma fades_key_map: "list_all2 fades as bs \<Longrightarrow> map attempt_key bs = map attempt_key as"
  by (induction rule: list_all2_induct) (auto dest: fades_key)

lemma fadesE:
  assumes "attempts_fade db db'" and "b \<in> set (attempts db')"
  obtains a where "a \<in> set (attempts db)" and "fades a b"
  using assms that unfolding attempts_fade_def list_all2_conv_all_nth in_set_conv_nth by metis

lemma numbered_fade:
  assumes "numbered db" and "attempts_fade db db'"
  shows "numbered db'"
proof -
  have "map attempt_key (attempts db') = map attempt_key (attempts db)"
    using assms(2) by (auto simp: attempts_fade_def intro: fades_key_map)
  moreover have "1 \<le> a_no b \<and> a_no b \<le> 5" if "b \<in> set (attempts db')" for b
    using assms(2) that by (rule fadesE) (use assms(1) in \<open>auto simp: numbered_def dest: fades_key\<close>)
  ultimately show ?thesis using assms(1) by (simp add: numbered_def)
qed

lemma numbered_claim:
  assumes "numbered db" and "claim P aid sid now i lock db = Inr (r, db')"
  shows "numbered db'"
  using assms(2)
proof (rule claim_cases)
  fix current ident slot t
  assume "next_attempt_no (previous_attempt sid db) \<le> max_attempts P" "max_attempts P \<le> 5"
    and "db' = db\<lparr>watermark := Some current,
           attempts := attempts db @ [new_attempt aid sid (next_attempt_no (previous_attempt sid db)) current ident],
           slots := upd_where (\<lambda>s. s_id s = sid) (set_slot RUNNING current None) (slots db)\<rparr>"
  then show ?thesis using assms(1) next_attempt_no_fresh(1) [OF assms(1), of sid] next_attempt_no_fresh(2) [OF assms(1)]
    by (fastforce simp: numbered_def)
qed

section \<open>Packages bound to manifests and receipts\<close>

lemma bundle_name_inject: "bundle_name p = bundle_name q \<Longrightarrow> 1 \<le> p \<Longrightarrow> 1 \<le> q \<Longrightarrow> p = q"
  by (auto simp: bundle_name_def show_int_def dest!: show_nat_inject)

lemma export_facts_ofD:
  assumes "export_facts_of E m file current = Inr x"
  shows "digest E m = Inr (x_bundle_id x)" and "json_dumps E m = Inr (x_encoded x)" and "1 \<le> x_sequence x"
    and "file = bundle_name (x_sequence x)" and "pget ''sequence'' m = PInt (x_sequence x)" and "current < x_expiry x"
    and "scan_deep m" and "pget ''contract_version'' m = PStr ''local-display-v2''"
proof -
  obtain seq where seq: "pget ''sequence'' m = PInt seq"
    using assms by (cases "pget ''sequence'' m") (auto simp: export_facts_of_def)
  obtain enc where e: "pget ''contract_version'' m = PStr ''local-display-v2''" "json_dumps E m = Inr enc"
    "scan_deep m" "1 \<le> seq" "file = bundle_name seq" "pget ''sequence'' m = PInt seq"
    using assms by (auto simp: export_facts_of_def seq)
  obtain iso where iso: "pindex m ''expires_at'' = Inr (PStr iso)"
    using assms e by (cases "pindex m ''expires_at''"; cases "projr (pindex m ''expires_at'')") (auto simp: export_facts_of_def)
  obtain bid expiry where "digest E m = Inr bid" "current < expiry"
    "x = \<lparr>x_sequence = seq, x_expiry = expiry, x_bundle_id = bid, x_encoded = enc\<rparr>"
    using assms by (cases "fromisoformat E iso") (auto simp: export_facts_of_def seq iso e(2))
  with e show "digest E m = Inr (x_bundle_id x)" and "json_dumps E m = Inr (x_encoded x)" and "1 \<le> x_sequence x"
    and "file = bundle_name (x_sequence x)" and "pget ''sequence'' m = PInt (x_sequence x)" and "current < x_expiry x"
    and "scan_deep m" and "pget ''contract_version'' m = PStr ''local-display-v2''"
    by simp_all
qed

definition package_bound :: "py_env \<Rightarrow> pyval \<Rightarrow> attempt_row \<Rightarrow> bool" where
  "package_bound E m a \<longleftrightarrow> (case (a_sequence a, a_bundle_id a) of
       (Some q, Some b) \<Rightarrow> 1 \<le> q \<and> a_bundle_file a = Some (bundle_name q) \<and> a_expires_at a \<noteq> None
         \<and> digest E m = Inr b \<and> pget ''sequence'' m = PInt q
         \<and> pget ''contract_version'' m = PStr ''local-display-v2'' \<and> scan_deep m
     | _ \<Rightarrow> False)"

definition receipt_bound :: "attempt_row \<Rightarrow> bool" where
  "receipt_bound a \<longleftrightarrow> (case (a_receipt a, a_bundle_id a) of
       (Some r, Some b) \<Rightarrow> pget ''bundle_id'' r = PStr b \<and> pget ''manifest_hash'' r = PStr b
         \<and> pget ''status'' r \<in> {PStr ''accepted'', PStr ''already_accepted''}
     | _ \<Rightarrow> False)"

definition row_bound :: "py_env \<Rightarrow> pyval option \<Rightarrow> attempt_row \<Rightarrow> bool" where
  "row_bound E m a \<longleftrightarrow> (a_status a = RUNNING \<longrightarrow> m = None)
     \<and> (a_status a \<in> {EXPORTING, EXPORTED, DELIVERED} \<longrightarrow> (case m of None \<Rightarrow> False | Some v \<Rightarrow> package_bound E v a))
     \<and> (a_status a = DELIVERED \<longrightarrow> receipt_bound a)"

definition packages_ok :: "py_env \<Rightarrow> ledger \<Rightarrow> bool" where
  "packages_ok E db \<longleftrightarrow> (\<forall>a \<in> set (attempts db). row_bound E (manifest_of (a_id a) db) a)"

lemma bound_package:
  "package b = package a \<Longrightarrow> package_bound E m b = package_bound E m a"
  "package b = package a \<Longrightarrow> receipt_bound b = receipt_bound a"
  unfolding package_def package_bound_def receipt_bound_def by (auto cong: option.case_cong)

lemma row_bound_fades: "row_bound E m a \<Longrightarrow> fades a b \<Longrightarrow> row_bound E m b"
proof (cases "a_status b \<in> live")
  case True
  assume r: "row_bound E m a" and "fades a b"
  with True have st: "a_status b = a_status a" and p: "package b = package a" by (auto simp: fades_def)
  show ?thesis using r unfolding row_bound_def st bound_package(1) [OF p] bound_package(2) [OF p] .
qed (auto simp: row_bound_def live_def)

lemma packages_fade:
  assumes "packages_ok E db" and "attempts_fade db db'"
  shows "packages_ok E db'"
  unfolding packages_ok_def
proof
  fix b assume "b \<in> set (attempts db')"
  with assms(2) obtain a where a: "a \<in> set (attempts db)" "fades a b" by (rule fadesE)
  moreover have "manifest_of (a_id b) db' = manifest_of (a_id a) db"
    using assms(2) fades_key [OF a(2)] by (simp add: attempts_fade_def manifest_of_def)
  ultimately show "row_bound E (manifest_of (a_id b) db') b"
    using assms(1) row_bound_fades by (auto simp: packages_ok_def)
qed

lemma packages_claim:
  assumes c: "core db" and p: "packages_ok E db" and "claim P aid sid now i lock db = Inr (r, db')"
  shows "packages_ok E db'"
  using assms(3)
proof (rule claim_cases)
  fix current ident slot t
  assume new: "attempt_by_id aid db = None"
    and db': "db' = db\<lparr>watermark := Some current,
           attempts := attempts db @ [new_attempt aid sid (next_attempt_no (previous_attempt sid db)) current ident],
           slots := upd_where (\<lambda>s. s_id s = sid) (set_slot RUNNING current None) (slots db)\<rparr>"
  have "aid \<notin> a_id ` set (attempts db)" using new by (simp add: attempt_by_id_def row_by_None_iff)
  then have "manifest_of aid db = None"
    using c by (force simp: manifest_of_def map_of_eq_None_iff core_ok_def refs_ok_def)
  then show ?thesis
    using p by (auto simp: packages_ok_def db' row_bound_def manifest_of_def)
qed

lemma manifest_store:
  "manifest_of b (store_manifest aid m db) =
     (if b = aid \<and> manifest_of aid db = None then Some m else manifest_of b db)"
  by (auto simp: store_manifest_def manifest_of_def map_add_def split: option.splits)

lemma row_bound_exported:
  assumes x: "export_facts_of E m file current = Inr x" and st: "st \<in> exporting"
    and old: "row_bound E stored row" and act: "a_status row \<in> active"
    and same: "a_status row \<in> exporting \<Longrightarrow> a_bundle_id row = Some (x_bundle_id x) \<and> a_bundle_file row = Some file"
  shows "row_bound E (case stored of None \<Rightarrow> Some m | Some v \<Rightarrow> Some v) (set_exported st current file x row)"
proof (cases stored)
  case None
  then show ?thesis using export_facts_ofD [OF x] st
    by (auto simp: row_bound_def package_bound_def set_exported_def exporting_def)
next
  case (Some v)
  with old act have e: "a_status row \<in> exporting" by (auto simp: row_bound_def active_cases)
  with old Some obtain q b where q: "a_sequence row = Some q" "a_bundle_id row = Some b" "1 \<le> q"
    "a_bundle_file row = Some (bundle_name q)" "digest E v = Inr b" "pget ''sequence'' v = PInt q"
    "pget ''contract_version'' v = PStr ''local-display-v2''" "scan_deep v"
    by (auto simp: row_bound_def package_bound_def exporting_def split: option.splits)
  moreover have "x_sequence x = q"
    using same [OF e] q(3,4) export_facts_ofD(3,4) [OF x] by (auto intro: bundle_name_inject)
  ultimately show ?thesis using same [OF e] st Some export_facts_ofD(4) [OF x]
    by (auto simp: row_bound_def package_bound_def set_exported_def exporting_def)
qed

lemma packages_record_export:
  assumes c: "core db" and p: "packages_ok E db" and st: "st \<in> exporting" and r: "record_export E aid m file now st db = Inr db'"
  shows "packages_ok E db'"
  using r
proof (rule record_export_cases)
  fix current x row
  assume x: "export_facts_of E m file current = Inr x" and row: "attempt_by_id aid db = Some row" and act: "a_status row \<in> active"
    and put: "put_export aid m file current st x row (db\<lparr>watermark := Some current\<rparr>) = Inr db'"
  have rowin: "row \<in> set (attempts db)" "a_id row = aid" using attempt_by_idD [OF row] by auto
  then have bound: "row_bound E (manifest_of aid db) row" using p by (auto simp: packages_ok_def)
  from put show ?thesis
  proof (cases rule: put_export_cases)
    case same
    then obtain v where "manifest_of aid db = Some v"
      using bound by (auto simp: row_bound_def exporting_def split: option.splits)
    then show ?thesis using same(5) p by (simp add: store_manifest_def packages_ok_def)
  next
    case (export db1)
    have new: "row_bound E (manifest_of aid db1) (set_exported st current file x row)"
      using row_bound_exported [OF x st bound act] export(1,2)
      by (cases "manifest_of aid db") (simp_all add: manifest_store)
    have "row_bound E (manifest_of (a_id b) db1) b" if "b \<in> set (attempts db)" "a_id b \<noteq> aid" for b
      using p that by (simp add: packages_ok_def export(2) manifest_store)
    moreover have "b = row" if "b \<in> set (attempts db)" "a_id b = aid" for b
      using attempt_id_inj [OF c that(1) rowin(1)] that(2) rowin(2) by simp
    ultimately show ?thesis
      unfolding packages_ok_def export(3)
      using new by (auto simp: export(2) manifest_of_def set_exported_def elim!: in_upd_whereE)
  qed
qed

lemma packages_mark_delivered:
  assumes c: "core db" and p: "packages_ok E db" and r: "mark_delivered E aid m receipt now db = Inr db'"
  shows "packages_ok E db'"
  using r
proof (cases rule: mark_delivered_cases)
  case again
  with p show ?thesis by (simp add: packages_ok_def)
next
  case (deliver current bid row)
  let ?f = "\<lambda>a. a\<lparr>a_status := DELIVERED, a_finished_at := Some current, a_updated_at := current, a_receipt := Some receipt\<rparr>"
  have row: "row \<in> set (attempts db)" "a_id row = aid" using attempt_by_idD [OF deliver(5)] by auto
  obtain b2 where b2: "digest E m = Inr b2" "pget ''bundle_id'' receipt = PStr b2" "validate_receipt_v2 E receipt m b2 = Inr ()"
    using validate_receiptD [OF deliver(3)] by metis
  with deliver(4) have "b2 = bid" by simp
  then have "receipt_bound (?f row)"
    using b2 validate_receipt_v2D(1,2) [OF b2(3)] deliver(7) by (auto simp: receipt_bound_def)
  moreover have "row_bound E (manifest_of aid db) row" using p row by (auto simp: packages_ok_def)
  ultimately have new: "row_bound E (manifest_of aid db) (?f row)"
    using deliver(6) by (auto simp: row_bound_def package_bound_def split: option.splits)
  have "b = row" if "b \<in> set (attempts db)" "a_id b = aid" for b
    using attempt_id_inj [OF c that(1) row(1)] that(2) row(2) by simp
  then show ?thesis
    unfolding packages_ok_def deliver(8)
    using new p by (auto simp: manifest_of_def packages_ok_def elim!: in_upd_whereE)
qed

section \<open>The ledger as a step system\<close>

text \<open>
  One rule per operation of the class that changes the database; a failing call changes nothing.
  \<open>E\<close> is the environment of library functions.
\<close>

inductive ledger_step :: "py_env \<Rightarrow> ledger \<Rightarrow> ledger \<Rightarrow> bool" for E where
  plan: "plan_due P now v i ss db = Inr (r, db') \<Longrightarrow> ledger_step E db db'"
| claim: "claim P aid sid now i lock db = Inr (row, db') \<Longrightarrow> ledger_step E db db'"
| recover: "recover_interrupted now lock db = Inr (n, db') \<Longrightarrow> ledger_step E db db'"
| job: "record_job E aid name st now run req details db = Inr db' \<Longrightarrow> ledger_step E db db'"
| diagnostic: "record_diagnostic aid ph st now dur et rsn db = Inr db' \<Longrightarrow> ledger_step E db db'"
| export_intent: "mark_export_intent E aid m file now db = Inr db' \<Longrightarrow> ledger_step E db db'"
| export: "mark_export E aid m file now db = Inr db' \<Longrightarrow> ledger_step E db db'"
| quarantine: "quarantine_export aid rsn now db = Inr db' \<Longrightarrow> ledger_step E db db'"
| delivered: "mark_delivered E aid m receipt now db = Inr db' \<Longrightarrow> ledger_step E db db'"
| failed: "fail_attempt aid rsn now db = Inr db' \<Longrightarrow> ledger_step E db db'"
| replay: "pending_replay R now i db = Inr (v, db') \<Longrightarrow> ledger_step E db db'"

definition ledger_ok :: "py_env \<Rightarrow> ledger \<Rightarrow> bool" where
  "ledger_ok E db \<longleftrightarrow> core db \<and> stamps_ok db \<and> numbered db \<and> packages_ok E db"

lemma ledger_okD:
  "ledger_ok E db \<Longrightarrow> core db" "ledger_ok E db \<Longrightarrow> stamps_ok db" "ledger_ok E db \<Longrightarrow> numbered db"
  "ledger_ok E db \<Longrightarrow> packages_ok E db"
  by (simp_all add: ledger_ok_def)

text \<open>What a step does to the attempts: it lets them fade, or it claims, exports or delivers one.\<close>

lemma core_export_intent: "core db \<Longrightarrow> mark_export_intent E aid m file now db = Inr db' \<Longrightarrow> core db'"
  and core_export: "core db \<Longrightarrow> mark_export E aid m file now db = Inr db' \<Longrightarrow> core db'"
  unfolding mark_export_intent_def mark_export_def by (erule core_record_export [rotated 2]; simp add: exporting_def)+

lemmas core_intros = core_plan_due core_claim core_recover core_record_job core_record_diagnostic core_export_intent core_export
  core_quarantine core_mark_delivered core_fail_attempt core_pending_replay

lemma core_step: "ledger_step E db db' \<Longrightarrow> core db \<Longrightarrow> core db'"
  by (induction rule: ledger_step.induct) (erule (1) core_intros [rotated])+

lemma watermark_step:
  assumes "ledger_step E db db'" and "core db" and "stamps_ok db"
  shows "\<exists>current. fresh current db'"
  using assms
proof (induction rule: ledger_step.induct)
  case (export_intent aid m fl now db db')
  then show ?case using fresh_record_export unfolding mark_export_intent_def by blast
next
  case (export aid m fl now db db')
  then show ?case using fresh_record_export unfolding mark_export_def by blast
qed (blast dest: fresh_plan_due fresh_claim fresh_recover fresh_record_job fresh_record_diagnostic fresh_quarantine
    fresh_mark_delivered fresh_fail_attempt fresh_pending_replay)+

text \<open>
  What a step does to the attempts: it lets them fade, or it claims, exports or delivers one.
\<close>

lemma step_attempts_cases:
  assumes "ledger_step E db db'" and "core db"
  obtains (fade) "attempts_fade db db'"
  | (claim) P aid sid now i lock row where "claim P aid sid now i lock db = Inr (row, db')"
  | (export) aid m fl now st where "st \<in> exporting" and "record_export E aid m fl now st db = Inr db'"
  | (deliver) aid m receipt now where "mark_delivered E aid m receipt now db = Inr db'"
  using assms
proof (induction rule: ledger_step.induct)
  case (export_intent aid m fl now db db')
  from export_intent.prems(3) [of EXPORTING] export_intent.hyps show ?case
    unfolding mark_export_intent_def by (simp add: exporting_def)
next
  case (export aid m fl now db db')
  from export.prems(3) [of EXPORTED] export.hyps show ?case
    unfolding mark_export_def by (simp add: exporting_def)
qed (blast dest: fade_plan_due fade_recover fade_record_job fade_record_diagnostic fade_quarantine
    fade_fail_attempt fade_pending_replay)+

definition attempts_evolve :: "ledger \<Rightarrow> ledger \<Rightarrow> bool" where
  "attempts_evolve db db' \<longleftrightarrow> list_all2 evolves (attempts db) (take (length (attempts db)) (attempts db'))"

lemma attempts_evolve_upd:
  assumes "attempts db' = upd_where P f (attempts db)" and "\<And>a. a \<in> set (attempts db) \<Longrightarrow> P a \<Longrightarrow> evolves a (f a)"
  shows "attempts_evolve db db'"
  using assms by (simp add: attempts_evolve_def upd_where_def list.rel_map list.rel_refl_strong)

lemma attempts_evolve_fade: "attempts_fade db db' \<Longrightarrow> attempts_evolve db db'"
  unfolding attempts_fade_def attempts_evolve_def
  by (metis (mono_tags, lifting) fades_def list.rel_mono_strong list_all2_lengthD order_refl take_all)

lemma evolve_record_export:
  assumes c: "core db" and st: "st \<in> exporting" and r: "record_export E aid m fl now st db = Inr db'"
  shows "attempts_evolve db db'"
  using r
proof (rule record_export_cases)
  fix current x row
  assume row: "attempt_by_id aid db = Some row" and act: "a_status row \<in> active"
    and put: "put_export aid m fl current st x row (db\<lparr>watermark := Some current\<rparr>) = Inr db'"
  from put show ?thesis
  proof (cases rule: put_export_cases)
    case same
    then show ?thesis by (simp add: attempts_evolve_def list.rel_refl)
  next
    case (export db1)
    show ?thesis
    proof (rule attempts_evolve_upd [where f = "set_exported st current fl x" and P = "\<lambda>a. a_id a = aid"])
      fix b assume "b \<in> set (attempts db)" "a_id b = aid"
      then have b: "b = row" using attempt_id_inj [OF c] attempt_by_idD [OF row] by simp
      have "attempt_move (a_status row) st"
        using act st export(1) by (auto simp: active_cases exporting_def intro: attempt_move.intros)
      then show "evolves b (set_exported st current fl x b)"
        using b export(1) act by (auto simp: evolves_def set_exported_def active_cases)
    qed (simp add: export(2,3))
  qed
qed

lemma evolve_mark_delivered:
  assumes c: "core db" and r: "mark_delivered E aid m receipt now db = Inr db'"
  shows "attempts_evolve db db'"
  using r
proof (cases rule: mark_delivered_cases)
  case again
  then show ?thesis by (simp add: attempts_evolve_def list.rel_refl)
next
  case (deliver current bid row)
  show ?thesis
  proof (rule attempts_evolve_upd)
    fix b assume "b \<in> set (attempts db)" "a_id b = aid"
    then have "b = row" using attempt_id_inj [OF c] attempt_by_idD [OF deliver(5)] by simp
    moreover have "attempt_move EXPORTED DELIVERED" by (rule attempt_move.intros)
    ultimately show "evolves b (b\<lparr>a_status := DELIVERED, a_finished_at := Some current, a_updated_at := current, a_receipt := Some receipt\<rparr>)"
      using deliver(6) by (auto simp: evolves_def active_def)
  qed (simp add: deliver(8))
qed

lemma evolve_step:
  assumes "ledger_step E db db'" and "core db"
  shows "attempts_evolve db db'"
  using assms
proof (cases rule: step_attempts_cases)
  case fade
  then show ?thesis by (rule attempts_evolve_fade)
next
  case (claim P aid sid now i lock row)
  then show ?thesis by (rule claim_cases) (simp add: attempts_evolve_def list.rel_refl)
next
  case (export aid m fl now st)
  with assms(2) show ?thesis by (auto intro: evolve_record_export)
next
  case (deliver aid m receipt now)
  with assms(2) show ?thesis by (auto intro: evolve_mark_delivered)
qed

lemma evolve_key_map: "list_all2 evolves as bs \<Longrightarrow> map attempt_key bs = map attempt_key as"
  by (induction rule: list_all2_induct) (auto simp: evolves_def)

lemma numbered_same_keys:
  assumes "numbered db" and "map attempt_key (attempts db') = map attempt_key (attempts db)"
  shows "numbered db'"
proof -
  have "attempt_key ` set (attempts db') = attempt_key ` set (attempts db)"
    using arg_cong [OF assms(2), of set] by simp
  then have "\<exists>a \<in> set (attempts db). a_no a = a_no b" if "b \<in> set (attempts db')" for b
    using imageI [OF that, of attempt_key] by auto
  then show ?thesis using assms by (force simp: numbered_def)
qed

lemma length_record_export:
  assumes "record_export E aid m fl now st db = Inr db'"
  shows "length (attempts db') = length (attempts db)"
  using assms
proof (rule record_export_cases)
  fix current x row
  assume "put_export aid m fl current st x row (db\<lparr>watermark := Some current\<rparr>) = Inr db'"
  then show ?thesis by (cases rule: put_export_cases) simp_all
qed

lemma numbered_step:
  assumes s: "ledger_step E db db'" and c: "core db" and n: "numbered db"
  shows "numbered db'"
  using s c
proof (cases rule: step_attempts_cases)
  case fade
  with n show ?thesis by (rule numbered_fade)
next
  case (claim P aid sid now i lock row)
  with n show ?thesis by (rule numbered_claim)
next
  case (export aid m fl now st)
  then show ?thesis using evolve_step [OF s c] length_record_export
    by (intro numbered_same_keys [OF n]) (auto simp: attempts_evolve_def dest!: evolve_key_map)
next
  case (deliver aid m receipt now)
  then have "length (attempts db') = length (attempts db)" by (cases rule: mark_delivered_cases) simp_all
  then show ?thesis using evolve_step [OF s c]
    by (intro numbered_same_keys [OF n]) (auto simp: attempts_evolve_def dest!: evolve_key_map)
qed

lemma packages_step:
  assumes s: "ledger_step E db db'" and c: "core db" and p: "packages_ok E db"
  shows "packages_ok E db'"
  using s c
proof (cases rule: step_attempts_cases)
  case fade
  with p show ?thesis by (rule packages_fade)
next
  case (claim P aid sid now i lock row)
  with c p show ?thesis by (rule packages_claim)
next
  case (export aid m fl now st)
  with c p show ?thesis by (auto intro: packages_record_export)
next
  case (deliver aid m receipt now)
  with c p show ?thesis by (rule packages_mark_delivered)
qed

lemma ledger_ok_step: "ledger_ok E db \<Longrightarrow> ledger_step E db db' \<Longrightarrow> ledger_ok E db'"
  using core_step numbered_step packages_step watermark_step fresh_stamps_ok unfolding ledger_ok_def by blast

lemma ledger_ok_empty: "ledger_ok E empty_ledger"
  by (simp add: ledger_ok_def empty_ledger_def core_defs stamps_ok_def numbered_def packages_ok_def)

abbreviation ledger_reachable :: "py_env \<Rightarrow> ledger \<Rightarrow> bool" where
  "ledger_reachable E \<equiv> reachable_from (\<lambda>db. db = empty_ledger) (ledger_step E)"

interpretation ledger_system: invariant_system "\<lambda>db. db = empty_ledger" "ledger_step E" "ledger_ok E" for E
  by unfold_locales (auto simp: ledger_ok_empty intro: ledger_ok_step)

end
