(* ===== verification/Ledger_Slots.thy ===== *)
theory Ledger_Slots
  imports Ledger_Steps
begin

text \<open>
  The slots under the ledger's steps: which statuses a slot may have, that a closed slot stays
  closed, and that a job that has ended keeps its outcome.
\<close>

section \<open>Slots under a step\<close>

definition slot_states :: "lstatus set" where
  "slot_states = {PENDING, RUNNING, EXPORTING, EXPORTED, FAILED, INTERRUPTED} \<union> terminal_slots"

definition slot_timed :: "slot_row \<Rightarrow> bool" where
  "slot_timed s = (case parse_time (s_slot s) of Inl _ \<Rightarrow> False
     | Inr t \<Rightarrow> s_planned_at s = shanghai_instant (s_session s) t)"

definition slot_keeps :: "slot_row \<Rightarrow> slot_row \<Rightarrow> bool" where
  "slot_keeps s s' \<longleftrightarrow> s_id s' = s_id s \<and> s_session s' = s_session s \<and> s_slot s' = s_slot s \<and> s_planned_at s' = s_planned_at s
     \<and> (s_status s \<in> terminal_slots \<longrightarrow> s' = s) \<and> (s' = s \<or> s_status s' \<in> slot_states)"

lemma slot_keeps_refl [simp]: "slot_keeps s s"
  by (simp add: slot_keeps_def)

lemma slot_keeps_trans: "slot_keeps s t \<Longrightarrow> slot_keeps t u \<Longrightarrow> slot_keeps s u"
  by (auto simp: slot_keeps_def)

definition slots_keep :: "ledger \<Rightarrow> ledger \<Rightarrow> bool" where
  "slots_keep db db' \<longleftrightarrow> (\<exists>old new. slots db' = old @ new \<and> list_all2 slot_keeps (slots db) old
     \<and> (\<forall>s \<in> set new. s_status s \<in> slot_states \<and> slot_timed s))"

lemma slot_timed_keeps: "slot_keeps s s' \<Longrightarrow> slot_timed s' = slot_timed s"
  by (simp add: slot_keeps_def slot_timed_def split: sum.splits)

lemma slots_keep_refl: "slots db' = slots db \<Longrightarrow> slots_keep db db'"
  unfolding slots_keep_def by (intro exI [of _ "slots db"] exI [of _ "[]"]) (simp add: list.rel_refl)

lemma slots_keep_trans:
  assumes "slots_keep db1 db2" and "slots_keep db2 db3"
  shows "slots_keep db1 db3"
proof -
  from assms(1) obtain o1 n1 where 1: "slots db2 = o1 @ n1" "list_all2 slot_keeps (slots db1) o1"
    "\<forall>s \<in> set n1. s_status s \<in> slot_states \<and> slot_timed s" unfolding slots_keep_def by blast
  from assms(2) obtain o2 n2 where 2: "slots db3 = o2 @ n2" "list_all2 slot_keeps (o1 @ n1) o2"
    "\<forall>s \<in> set n2. s_status s \<in> slot_states \<and> slot_timed s" unfolding slots_keep_def 1(1) by blast
  from 2(2) obtain p q where pq: "o2 = p @ q" "list_all2 slot_keeps o1 p" "list_all2 slot_keeps n1 q"
    by (auto simp: list_all2_append1)
  have "list_all2 slot_keeps (slots db1) p"
    by (rule list_all2_trans [OF _ 1(2) pq(2)]) (rule slot_keeps_trans)
  moreover have "s_status s \<in> slot_states \<and> slot_timed s" if s: "s \<in> set q" for s
  proof -
    from list_all2_ex_left [OF pq(3) s] obtain r where r: "r \<in> set n1" "slot_keeps r s" by blast
    with 1(3) slot_timed_keeps [OF r(2)] show ?thesis by (auto simp: slot_keeps_def)
  qed
  ultimately show ?thesis
    unfolding slots_keep_def 2(1) pq(1) using 2(3) by (intro exI [of _ p] exI [of _ "q @ n2"]) auto
qed

lemma slots_keep_update:
  assumes "slots db' = upd_where P f (slots db)" and "\<And>s. s \<in> set (slots db) \<Longrightarrow> P s \<Longrightarrow> slot_keeps s (f s)"
  shows "slots_keep db db'"
  unfolding slots_keep_def using assms
  by (intro exI [of _ "upd_where P f (slots db)"] exI [of _ "[]"])
    (simp add: upd_where_def list.rel_map list.rel_refl_strong)

lemma slots_keep_set_slot:
  assumes "slots db' = upd_where P (set_slot st stamp rsn) (slots db)" and "st \<in> slot_states"
    and "\<And>s. s \<in> set (slots db) \<Longrightarrow> P s \<Longrightarrow> s_status s \<notin> terminal_slots"
  shows "slots_keep db db'"
  using assms(1) by (rule slots_keep_update) (use assms(2,3) in \<open>simp add: slot_keeps_def\<close>)

lemma slots_keep_fold:
  assumes "\<And>x db. x \<in> set xs \<Longrightarrow> slots_keep db (f x db)"
  shows "slots_keep db (fold f xs db)"
proof (rule fold_invariant_set [where P = "slots_keep db"])
  fix x s assume "x \<in> set xs" "slots_keep db s"
  then show "slots_keep db (f x s)" using assms slots_keep_trans by blast
qed (simp add: slots_keep_refl)

lemma exporting_open [simp]: "st \<in> exporting \<Longrightarrow> st \<notin> terminal_slots"
  by (auto simp: exporting_def terminal_slots_def)

lemma terminal_states [simp]: "st \<in> terminal_slots \<Longrightarrow> st \<in> slot_states"
  by (simp add: slot_states_def)

lemma keep_finish_export: "sst \<in> slot_states \<Longrightarrow> slots_keep db (finish_export row ast sst rsn stamp db)"
  by (rule slots_keep_set_slot [of _ "\<lambda>s. s_id s = a_slot row \<and> s_status s \<in> exporting" sst stamp "Some rsn"])
    (auto simp: finish_export_def)

lemma keep_finish_exports: "sst \<in> slot_states \<Longrightarrow> slots_keep db (finish_exports rows ast sst rsn stamp db)"
  unfolding finish_exports_def by (rule slots_keep_fold) (rule keep_finish_export)

lemma slot_states_members [simp]:
  "MISSED \<in> slot_states" "FAILED_DELIVERY \<in> slot_states" "SUPERSEDED \<in> slot_states" "QUARANTINED \<in> slot_states"
  "DELIVERED \<in> slot_states" "FAILED \<in> slot_states" "PENDING \<in> slot_states" "RUNNING \<in> slot_states"
  "INTERRUPTED \<in> slot_states" "EXPORTING \<in> slot_states" "EXPORTED \<in> slot_states"
  by (simp_all add: slot_states_def terminal_slots_def)

lemma keep_close_slot:
  assumes "sst \<in> slot_states" and "sst2 \<in> slot_states"
  shows "slots_keep db ((finish_exports rows ast sst rsn stamp db)\<lparr>slots :=
     upd_where (\<lambda>s. s_id s = sid \<and> s_status s \<notin> terminal_slots \<union> {RUNNING}) (set_slot sst2 stamp2 rsn2)
       (slots (finish_exports rows ast sst rsn stamp db))\<rparr>)"
  using keep_finish_exports [OF assms(1)]
  by (rule slots_keep_trans) (rule slots_keep_set_slot, simp, rule assms(2), simp)

lemma keep_plan_slot:
  assumes "parse_time (fst st) = Inr (snd st)"
  shows "slots_keep db (plan_slot session stamp st db)"
proof (cases "slot_by_id (session, fst st) db")
  case None
  then show ?thesis unfolding slots_keep_def
    by (intro exI [of _ "slots db"] exI) (auto simp: plan_slot_def Let_def slot_timed_def assms list.rel_refl)
qed (simp add: plan_slot_def slots_keep_refl)

lemma keep_supersede_slot: "slots_keep db (supersede_slot latest stamp sid db)"
  unfolding supersede_slot_def Let_def by (rule keep_close_slot) simp_all

lemma keep_miss_late_slot: "slots_keep db (miss_late_slot latest stamp db)"
  unfolding miss_late_slot_def Let_def by (rule keep_close_slot) simp_all

lemma parse_slots_timed: "parse_slots ss = Inr parsed \<Longrightarrow> st \<in> set parsed \<Longrightarrow> parse_time (fst st) = Inr (snd st) \<and> fst st \<in> set ss"
  unfolding parse_slots_def mapr_Inr_iff
proof (induction rule: list_all2_induct)
  case (Cons x xs y ys)
  then show ?case by (auto split: if_splits)
qed simp

lemma keep_settle_previous: "slots_keep db (settle_previous current db)"
proof -
  have "slots_keep db1 (miss_previous_sessions session current db1)" for db1 session
    unfolding miss_previous_sessions_def
    by (rule slots_keep_set_slot [of _ "\<lambda>s. s_session s < session \<and> s_status s \<notin> terminal_slots"]) auto
  note miss = this
  show ?thesis
    unfolding settle_previous_def close_exhausted_def expire_previous_exports_def
    by (rule slots_keep_trans [OF keep_finish_exports slots_keep_trans [OF miss keep_finish_exports]]) simp_all
qed

lemma keep_plan_latest: "slots_keep db (snd (plan_latest P ident current latest age db))"
proof -
  have "slots_keep db (fold (drop_stale_export ident current) xs db)" for xs
    by (rule slots_keep_fold) (auto simp: drop_stale_export_def Let_def keep_finish_export slots_keep_refl)
  then show ?thesis
    by (auto simp: plan_latest_def keep_miss_late_slot Let_def split: option.splits)
qed

lemma keep_plan_session:
  assumes "parse_slots ss = Inr parsed"
  shows "slots_keep db (snd (plan_session P ident current parsed db))"
proof -
  have 1: "slots_keep db (fold (plan_slot session current) (sort_key fst parsed) db)" for session
    by (rule slots_keep_fold) (use parse_slots_timed [OF assms] in \<open>auto intro: keep_plan_slot\<close>)
  have 2: "slots_keep db1 (fold (\<lambda>(sid, _). supersede_slot latest current sid) ys db1)"
    for latest db1 and ys :: "(slot_id \<times> int) list"
    by (rule slots_keep_fold) (auto simp: keep_supersede_slot)
  show ?thesis
    using 1 slots_keep_trans [OF 1 slots_keep_trans [OF 2 keep_plan_latest]]
    by (simp add: plan_session_def Let_def split_beta)
qed

lemma keep_plan_due:
  assumes "plan_due P now v i ss db = Inr (r, db')"
  shows "slots_keep db db'"
  using assms
proof (rule plan_due_cases)
  fix current ident parsed
  assume parsed: "parse_slots ss = Inr parsed"
    and u: "\<not> v \<Longrightarrow> r = None \<and> db' = settle_previous current (db\<lparr>watermark := Some current\<rparr>)"
    and v: "v \<Longrightarrow> (r, db') = plan_session P ident current parsed (settle_previous current (db\<lparr>watermark := Some current\<rparr>))"
  let ?db1 = "settle_previous current (db\<lparr>watermark := Some current\<rparr>)"
  have 1: "slots_keep db ?db1"
    by (rule slots_keep_trans [OF slots_keep_refl keep_settle_previous]) simp
  moreover have "db' = ?db1 \<or> db' = snd (plan_session P ident current parsed ?db1)"
    using u v by (cases v) (auto dest: arg_cong [of _ _ snd])
  ultimately show ?thesis using slots_keep_trans [OF 1 keep_plan_session [OF parsed]] by auto
qed

lemma keep_claim:
  assumes c: "core db" and "claim P aid sid now i lock db = Inr (r, db')"
  shows "slots_keep db db'"
  using assms(2)
proof (rule claim_cases)
  fix current ident slot t
  assume sl: "slot_by_id sid db = Some slot" and st: "s_status slot \<in> {PENDING, FAILED, INTERRUPTED}"
    and db': "db' = db\<lparr>watermark := Some current,
           attempts := attempts db @ [new_attempt aid sid (next_attempt_no (previous_attempt sid db)) current ident],
           slots := upd_where (\<lambda>s. s_id s = sid) (set_slot RUNNING current None) (slots db)\<rparr>"
  have "s = slot" if "s \<in> set (slots db)" "s_id s = sid" for s
    using slot_id_inj [OF c that(1)] slot_by_idD [OF sl] that(2) by simp
  then show ?thesis
    using st by (intro slots_keep_set_slot [of _ "\<lambda>s. s_id s = sid" RUNNING current None]) (auto simp: db' terminal_slots_def)
qed

lemma keep_interrupt_attempt:
  assumes "interrupt_attempt stamp row db = Inr db'"
  shows "slots_keep db db'"
  using assms
  by (intro slots_keep_set_slot [of _ "\<lambda>s. s_id s = a_slot row \<and> s_status s = RUNNING" INTERRUPTED stamp "Some (Reason ''owner_process_ended'')"])
    (auto simp: interrupt_attempt_def terminal_slots_def)

lemma keep_recover:
  assumes "recover_interrupted now lock db = Inr (n, db')"
  shows "slots_keep db db'"
  using assms
proof (rule recover_cases)
  fix current db1
  assume f: "foldr_result (interrupt_attempt current) (filter (\<lambda>a. a_status a = RUNNING) (attempts db))
           (db\<lparr>watermark := Some current\<rparr>) = Inr db1" and db': "db' = interrupt_exported_jobs current db1"
  have "slots_keep db db1"
    by (rule foldr_result_invariant [where P = "slots_keep db", OF f])
      (auto intro: slots_keep_refl slots_keep_trans keep_interrupt_attempt)
  then show ?thesis by (rule slots_keep_trans) (simp add: slots_keep_refl db' interrupt_exported_jobs_def)
qed

lemma keep_mark_delivered:
  assumes "mark_delivered E aid m receipt now db = Inr db'"
  shows "slots_keep db db'"
  using assms
proof (cases rule: mark_delivered_cases)
  case (deliver current bid row)
  show ?thesis
    by (rule slots_keep_set_slot [of _ "\<lambda>s. s_id s = a_slot row \<and> s_status s = EXPORTED" DELIVERED current None])
      (auto simp: deliver(8) terminal_slots_def)
qed (simp add: slots_keep_refl)

lemma keep_fail_attempt:
  assumes "fail_attempt aid rsn now db = Inr db'"
  shows "slots_keep db db'"
  using assms
proof (rule fail_attempt_cases)
  fix current row st fin
  assume st: "st = (if a_status row \<in> exporting then a_status row else FAILED)"
    and db': "db' = db\<lparr>watermark := Some current, attempts := upd_where (\<lambda>a. a_id a = aid)
                  (\<lambda>a. a\<lparr>a_status := st, a_finished_at := fin, a_updated_at := current, a_reason := Some (Reason rsn)\<rparr>)
                  (attempts db),
                jobs := upd_where (\<lambda>j. j_attempt j = aid \<and> j_status j = JRunning)
                  (\<lambda>j. j\<lparr>j_status := JFailed, j_finished_at := Some current\<rparr>) (jobs db),
                slots := upd_where (\<lambda>s. s_id s = a_slot row \<and> s_status s \<notin> terminal_slots)
                  (set_slot st current (Some (Reason rsn))) (slots db)\<rparr>"
  have "st \<in> slot_states" using st by (auto simp: exporting_def)
  then show ?thesis
    by (intro slots_keep_set_slot [of _ "\<lambda>s. s_id s = a_slot row \<and> s_status s \<notin> terminal_slots" st current "Some (Reason rsn)"])
      (auto simp: db')
qed

lemma keep_quarantine:
  assumes "quarantine_export aid rsn now db = Inr db'"
  shows "slots_keep db db'"
  using assms
  by (rule quarantine_cases) (auto intro: slots_keep_trans [OF slots_keep_refl keep_finish_export])

lemma keep_pending_replay:
  assumes c: "core db" and r: "pending_replay R now i db = Inr (v, db')"
  shows "slots_keep db db'"
proof -
  have "\<exists>current. now = Aware current \<and> slots_keep db db'"
    by (rule replay_keeps [OF r])
      (use core_keys [OF c] in \<open>auto intro: slots_keep_refl slots_keep_trans [OF _ keep_finish_export]\<close>)
  then show ?thesis by blast
qed

lemma slots_record_job: "record_job E aid name st now run req details db = Inr db' \<Longrightarrow> slots db' = slots db"
  by (erule record_job_cases) simp_all

lemma slots_record_diagnostic:
  assumes "record_diagnostic aid ph st now dur et rsn db = Inr db'"
  shows "slots db' = slots db"
  using assms
proof (rule record_diagnostic_cases)
  fix current err
  assume "put_diagnostic aid ph st current dur err (db\<lparr>watermark := Some current\<rparr>) = Inr db'"
  then show ?thesis by (rule put_diagnostic_cases) simp
qed

text \<open>Only an export may touch a closed slot, and only a missed one whose attempt still runs.\<close>

lemma record_export_slots:
  assumes c: "core db" and st: "st \<in> exporting" and r: "record_export E aid m fl now st db = Inr db'"
  obtains (same) "slots db' = slots db"
  | (one) row stamp where "row \<in> set (attempts db)" and "a_status row \<in> active"
      and "slots db' = upd_where (\<lambda>s. s_id s = a_slot row) (\<lambda>s. s\<lparr>s_status := st, s_updated_at := stamp\<rparr>) (slots db)"
  using r
proof (rule record_export_cases)
  fix current x row
  assume row: "attempt_by_id aid db = Some row" and act: "a_status row \<in> active"
    and put: "put_export aid m fl current st x row (db\<lparr>watermark := Some current\<rparr>) = Inr db'"
  from put show ?thesis
  proof (cases rule: put_export_cases)
    case same
    then show ?thesis using that(1) by simp
  next
    case (export db1)
    show ?thesis
      by (rule that(2) [of row current]) (use attempt_by_idD [OF row] act export in simp_all)
  qed
qed

lemma step_slots_cases:
  assumes "ledger_step E db db'" and "core db"
  obtains (keep) "slots_keep db db'"
  | (export) aid m fl now st where "st \<in> exporting" and "record_export E aid m fl now st db = Inr db'"
  using assms
proof (induction rule: ledger_step.induct)
  case (export_intent aid m fl now db db')
  from export_intent.prems(2) [of EXPORTING] export_intent.hyps show ?case
    unfolding mark_export_intent_def by (simp add: exporting_def)
next
  case (export aid m fl now db db')
  from export.prems(2) [of EXPORTED] export.hyps show ?case
    unfolding mark_export_def by (simp add: exporting_def)
qed (blast dest: keep_plan_due keep_claim keep_recover slots_record_job slots_record_diagnostic keep_quarantine
    keep_mark_delivered keep_fail_attempt keep_pending_replay intro: slots_keep_refl)+

definition slots_ok :: "ledger \<Rightarrow> bool" where
  "slots_ok db \<longleftrightarrow> (\<forall>s \<in> set (slots db). s_status s \<in> slot_states \<and> slot_timed s)"

lemma slots_ok_keep:
  assumes ok: "slots_ok db" and "slots_keep db db'"
  shows "slots_ok db'"
proof -
  from assms(2) obtain old new where on: "slots db' = old @ new" "list_all2 slot_keeps (slots db) old"
    "\<forall>s \<in> set new. s_status s \<in> slot_states \<and> slot_timed s" unfolding slots_keep_def by blast
  have "s_status s \<in> slot_states \<and> slot_timed s" if s: "s \<in> set old" for s
  proof -
    from list_all2_ex_left [OF on(2) s] obtain r where r: "r \<in> set (slots db)" "slot_keeps r s" by blast
    with ok slot_timed_keeps [OF r(2)] show ?thesis by (auto simp: slot_keeps_def slots_ok_def)
  qed
  with on show ?thesis by (auto simp: slots_ok_def)
qed

lemma slots_ok_step:
  assumes s: "ledger_step E db db'" and c: "core db" and ok: "slots_ok db"
  shows "slots_ok db'"
  using s c
proof (cases rule: step_slots_cases)
  case keep
  with ok show ?thesis by (rule slots_ok_keep)
next
  case (export aid m fl now st)
  have "st \<in> slot_states" using export(1) by (auto simp: exporting_def)
  from c export show ?thesis
  proof (cases rule: record_export_slots)
    case same
    with ok show ?thesis by (simp add: slots_ok_def)
  next
    case (one row stamp)
    have "slot_timed (s\<lparr>s_status := st, s_updated_at := stamp\<rparr>) = slot_timed s" for s
      by (simp add: slot_timed_def split: sum.splits)
    with one show ?thesis using ok \<open>st \<in> slot_states\<close>
      by (auto simp: slots_ok_def elim!: in_upd_whereE)
  qed
qed

text \<open>A slot is closed when no later call may reopen it.\<close>

definition closed_slot :: "ledger \<Rightarrow> slot_row \<Rightarrow> bool" where
  "closed_slot db s \<longleftrightarrow> s \<in> set (slots db) \<and> s_status s \<in> terminal_slots
     \<and> \<not> (\<exists>a \<in> set (attempts db). a_slot a = s_id s \<and> a_status a = RUNNING)"

lemma slots_keep_terminal:
  assumes "slots_keep db db'" and "s \<in> set (slots db)" and "s_status s \<in> terminal_slots"
  shows "s \<in> set (slots db')"
proof -
  from assms(1) obtain old new where on: "slots db' = old @ new" "list_all2 slot_keeps (slots db) old"
    unfolding slots_keep_def by blast
  from list_all2_ex_right [OF on(2) assms(2)] obtain t where "t \<in> set old" "slot_keeps s t" by blast
  with assms(3) on(1) show ?thesis by (auto simp: slot_keeps_def)
qed

lemma evolved_running:
  assumes "list_all2 evolves as bs" and "b \<in> set bs" and "a_status b = RUNNING"
  shows "\<exists>a \<in> set as. a_slot a = a_slot b \<and> a_status a = RUNNING"
  using list_all2_ex_left [OF assms(1,2)] assms(3) by (auto simp: evolves_def dest: moves_to_running)

lemma running_stays:
  assumes s: "ledger_step E db db'" and c: "core db" and b: "b \<in> set (attempts db')" "a_status b = RUNNING"
  shows "(\<exists>a \<in> set (attempts db). a_slot a = a_slot b \<and> a_status a = RUNNING)
     \<or> (\<exists>t \<in> set (slots db). s_id t = a_slot b \<and> s_status t \<notin> terminal_slots)"
  using s c
proof (cases rule: step_attempts_cases)
  case fade
  then obtain a where a: "a \<in> set (attempts db)" "fades a b" using b(1) by (rule fadesE)
  then have "a_status a = RUNNING" using b(2) by (simp add: fades_def live_def)
  then show ?thesis using a fades_key [OF a(2)] by auto
next
  case (claim P aid sid now i lock row)
  then show ?thesis
  proof (rule claim_cases)
    fix current ident slot t
    assume "slot_by_id sid db = Some slot" "s_status slot \<in> {PENDING, FAILED, INTERRUPTED}"
      and "db' = db\<lparr>watermark := Some current,
           attempts := attempts db @ [new_attempt aid sid (next_attempt_no (previous_attempt sid db)) current ident],
           slots := upd_where (\<lambda>s. s_id s = sid) (set_slot RUNNING current None) (slots db)\<rparr>"
    then show ?thesis using b slot_by_idD [of sid db slot] by (auto simp: terminal_slots_def)
  qed
next
  case (export aid m fl now st)
  then have "list_all2 evolves (attempts db) (attempts db')"
    using evolve_step [OF s c] length_record_export by (simp add: attempts_evolve_def)
  then show ?thesis using evolved_running b by blast
next
  case (deliver aid m receipt now)
  then have "length (attempts db') = length (attempts db)" by (cases rule: mark_delivered_cases) simp_all
  then have "list_all2 evolves (attempts db) (attempts db')"
    using evolve_step [OF s c] by (simp add: attempts_evolve_def)
  then show ?thesis using evolved_running b by blast
qed

lemma closed_slot_step:
  assumes s: "ledger_step E db db'" and c: "core db" and cl: "closed_slot db t"
  shows "closed_slot db' t"
proof -
  have quiet: "\<not> (\<exists>b \<in> set (attempts db'). a_slot b = s_id t \<and> a_status b = RUNNING)"
    using running_stays [OF s c] cl slot_id_inj [OF c] unfolding closed_slot_def by metis
  have "t \<in> set (slots db')"
    using s c
  proof (cases rule: step_slots_cases)
    case keep
    then show ?thesis using cl slots_keep_terminal by (auto simp: closed_slot_def)
  next
    case (export aid m fl now st)
    from c export show ?thesis
    proof (cases rule: record_export_slots)
      case same
      with cl show ?thesis by (simp add: closed_slot_def)
    next
      case (one row stamp)
      have "s_id t \<noteq> a_slot row"
      proof
        assume eq: "s_id t = a_slot row"
        from linkedD [OF c one(1,2)] obtain u where "u \<in> set (slots db)" "s_id u = a_slot row"
          "s_status u = a_status row \<or> (s_status u = MISSED \<and> a_status row = RUNNING)" by auto
        moreover from this have "u = t" using eq cl slot_id_inj [OF c] by (auto simp: closed_slot_def)
        ultimately show False using cl one eq by (auto simp: closed_slot_def active_def terminal_slots_def)
      qed
      then show ?thesis using cl one(3) by (simp add: closed_slot_def in_upd_where_keep)
    qed
  qed
  with quiet cl show ?thesis by (simp add: closed_slot_def)
qed

section \<open>Jobs under a step\<close>

text \<open>Every update of the job table is guarded by the running state.\<close>

definition jobs_keep :: "ledger \<Rightarrow> ledger \<Rightarrow> bool" where
  "jobs_keep db db' \<longleftrightarrow> (\<forall>j \<in> set (jobs db). j_status j \<noteq> JRunning \<longrightarrow> j \<in> set (jobs db'))"

lemma jobs_keep_refl: "jobs db' = jobs db \<Longrightarrow> jobs_keep db db'"
  by (simp add: jobs_keep_def)

lemma jobs_keep_trans: "jobs_keep db1 db2 \<Longrightarrow> jobs_keep db2 db3 \<Longrightarrow> jobs_keep db1 db3"
  by (simp add: jobs_keep_def)

lemma jobs_keep_update:
  assumes "jobs db' = upd_where P f (jobs db)" and "\<And>j. j \<in> set (jobs db) \<Longrightarrow> P j \<Longrightarrow> j_status j = JRunning"
  shows "jobs_keep db db'"
  using assms by (auto simp: jobs_keep_def intro: in_upd_where_keep)

lemma jobs_keep_fold:
  assumes "\<And>x db. x \<in> set xs \<Longrightarrow> jobs_keep db (f x db)"
  shows "jobs_keep db (fold f xs db)"
proof (rule fold_invariant_set [where P = "jobs_keep db"])
  fix x s assume "x \<in> set xs" "jobs_keep db s"
  then show "jobs_keep db (f x s)" using assms jobs_keep_trans by blast
qed (simp add: jobs_keep_refl)

lemma jobs_finish_export: "jobs_keep db (finish_export row ast sst rsn stamp db)"
  by (rule jobs_keep_update [of _ "\<lambda>j. j_attempt j = a_id row \<and> j_status j = JRunning"])
    (auto simp: finish_export_def interrupt_jobs_def)

lemma jobs_finish_exports: "jobs_keep db (finish_exports rows ast sst rsn stamp db)"
  unfolding finish_exports_def by (rule jobs_keep_fold) (rule jobs_finish_export)

lemma jobs_slots_update: "jobs_keep db db1 \<Longrightarrow> jobs_keep db (db1\<lparr>slots := S\<rparr>)"
  by (simp add: jobs_keep_def)

lemma jobs_plan_session: "jobs_keep db (snd (plan_session P ident current parsed db))"
proof -
  have 1: "jobs_keep db (fold (plan_slot session current) xs db)" for session xs
    by (rule jobs_keep_fold) (simp add: plan_slot_def Let_def jobs_keep_refl split: option.splits)
  have 2: "jobs_keep db1 (fold (\<lambda>(sid, _). supersede_slot latest current sid) ys db1)"
    for latest db1 and ys :: "(slot_id \<times> int) list"
    by (rule jobs_keep_fold) (simp add: supersede_slot_def Let_def split_beta jobs_slots_update jobs_finish_exports)
  have 3: "jobs_keep db1 (snd (plan_latest P ident current latest age db1))" for latest age db1
  proof -
    have "jobs_keep db1 (fold (drop_stale_export ident current) xs db1)" for xs
      by (rule jobs_keep_fold) (auto simp: drop_stale_export_def Let_def jobs_finish_export jobs_keep_refl)
    then show ?thesis
      by (auto simp: plan_latest_def miss_late_slot_def Let_def
          jobs_slots_update jobs_finish_exports split: option.splits)
  qed
  show ?thesis
    using 1 jobs_keep_trans [OF 1 jobs_keep_trans [OF 2 3]]
    by (simp add: plan_session_def Let_def split_beta)
qed

lemma jobs_plan_due:
  assumes "plan_due P now v i ss db = Inr (r, db')"
  shows "jobs_keep db db'"
  using assms
proof (rule plan_due_cases)
  fix current ident parsed
  assume u: "\<not> v \<Longrightarrow> r = None \<and> db' = settle_previous current (db\<lparr>watermark := Some current\<rparr>)"
    and v: "v \<Longrightarrow> (r, db') = plan_session P ident current parsed (settle_previous current (db\<lparr>watermark := Some current\<rparr>))"
  let ?db1 = "settle_previous current (db\<lparr>watermark := Some current\<rparr>)"
  have "jobs_keep db1 (settle_previous current db1)" for db1
    unfolding settle_previous_def close_exhausted_def expire_previous_exports_def miss_previous_sessions_def
    by (rule jobs_keep_trans [OF jobs_finish_exports jobs_keep_trans [OF jobs_slots_update [OF jobs_keep_refl] jobs_finish_exports]]) simp
  then have 1: "jobs_keep db ?db1" by (rule jobs_keep_trans [rotated]) (simp add: jobs_keep_refl)
  moreover have "db' = ?db1 \<or> db' = snd (plan_session P ident current parsed ?db1)"
    using u v by (cases v) (auto dest: arg_cong [of _ _ snd])
  ultimately show ?thesis using jobs_keep_trans [OF 1 jobs_plan_session] by auto
qed

lemma jobs_recover:
  assumes "recover_interrupted now lock db = Inr (n, db')"
  shows "jobs_keep db db'"
  using assms
proof (rule recover_cases)
  fix current db1
  assume f: "foldr_result (interrupt_attempt current) (filter (\<lambda>a. a_status a = RUNNING) (attempts db))
           (db\<lparr>watermark := Some current\<rparr>) = Inr db1" and db': "db' = interrupt_exported_jobs current db1"
  have step: "jobs_keep s s'" if "interrupt_attempt current a s = Inr s'" for a s s'
    by (rule jobs_keep_update [of _ "\<lambda>j. j_attempt j = a_id a \<and> j_status j = JRunning"])
      (use that in \<open>auto simp: interrupt_attempt_def interrupt_jobs_def\<close>)
  have "jobs_keep db db1"
    by (rule foldr_result_invariant [where P = "jobs_keep db", OF f])
      (auto intro: jobs_keep_refl jobs_keep_trans step)
  then show ?thesis
    unfolding db' interrupt_exported_jobs_def
    by (rule jobs_keep_trans) (auto simp: jobs_keep_def intro: in_upd_where_keep)
qed

lemma jobs_record_job:
  assumes c: "core db" and r: "record_job E aid name st now run req details db = Inr db'"
  shows "jobs_keep db db'"
  using r
proof (cases rule: record_job_cases)
  case (update current j status fin d)
  have "k = j" if "k \<in> set (jobs db)" "job_key k = (aid, name)" for k
    using c that update(3) row_by_unique [of job_key "jobs db" k "(aid, name)" j] by (simp add: core_ok_def keys_ok_def)
  then show ?thesis
    using update by (intro jobs_keep_update [of _ "\<lambda>j. job_key j = (aid, name)"]) auto
qed (auto simp: jobs_keep_def)

lemma jobs_mark_delivered:
  assumes "mark_delivered E aid m receipt now db = Inr db'"
  shows "jobs_keep db db'"
  using assms
proof (cases rule: mark_delivered_cases)
  case (deliver current bid row)
  show ?thesis
    by (rule jobs_keep_update [of _ "\<lambda>j. j_attempt j = aid \<and> j_status j = JRunning \<and> upload_job (j_name j)"])
      (auto simp: deliver(8))
qed (simp add: jobs_keep_refl)

lemma jobs_fail_attempt:
  assumes "fail_attempt aid rsn now db = Inr db'"
  shows "jobs_keep db db'"
  using assms by (rule fail_attempt_cases) (rule jobs_keep_update [of _ "\<lambda>j. j_attempt j = aid \<and> j_status j = JRunning"], auto)

lemma jobs_record_export:
  assumes "record_export E aid m fl now st db = Inr db'"
  shows "jobs_keep db db'"
  using assms
proof (rule record_export_cases)
  fix current x row
  assume "put_export aid m fl current st x row (db\<lparr>watermark := Some current\<rparr>) = Inr db'"
  then show ?thesis by (cases rule: put_export_cases) (simp_all add: jobs_keep_refl)
qed

lemma jobs_quarantine: "quarantine_export aid rsn now db = Inr db' \<Longrightarrow> jobs_keep db db'"
  by (erule quarantine_cases) (auto intro: jobs_keep_trans [OF jobs_keep_refl jobs_finish_export])

lemma jobs_record_diagnostic:
  assumes "record_diagnostic aid ph st now dur et rsn db = Inr db'"
  shows "jobs_keep db db'"
  using assms
proof (rule record_diagnostic_cases)
  fix current err
  assume "put_diagnostic aid ph st current dur err (db\<lparr>watermark := Some current\<rparr>) = Inr db'"
  then show ?thesis by (rule put_diagnostic_cases) (simp add: jobs_keep_refl)
qed

lemma jobs_pending_replay:
  assumes c: "core db" and r: "pending_replay R now i db = Inr (v, db')"
  shows "jobs_keep db db'"
proof -
  have "\<exists>current. now = Aware current \<and> jobs_keep db db'"
    by (rule replay_keeps [OF r])
      (use core_keys [OF c] in \<open>auto intro: jobs_keep_refl jobs_keep_trans [OF _ jobs_finish_export]\<close>)
  then show ?thesis by blast
qed

lemma jobs_claim: "claim P aid sid now i lock db = Inr (r, db') \<Longrightarrow> jobs_keep db db'"
  by (erule claim_cases) (simp add: jobs_keep_refl)

lemma jobs_step:
  assumes "ledger_step E db db'" and "core db"
  shows "jobs_keep db db'"
  using assms
proof (induction rule: ledger_step.induct)
  case (export_intent aid m fl now db db')
  then show ?case unfolding mark_export_intent_def by (blast dest: jobs_record_export)
next
  case (export aid m fl now db db')
  then show ?case unfolding mark_export_def by (blast dest: jobs_record_export)
qed (blast dest: jobs_plan_due jobs_claim jobs_recover jobs_record_job jobs_record_diagnostic jobs_quarantine
    jobs_mark_delivered jobs_fail_attempt jobs_pending_replay)+

end
