(* ===== verification/Market_Props.thy ===== *)
theory Market_Props
  imports Market_Time
begin

text \<open>
  What the schedule and the calendar guarantee, and the sample environment with which the
  theorems of the development are instantiated.
\<close>

section \<open>Sample environment\<close>

text \<open>Library functions replaced by simple ones, and a calendar that is open on weekdays.\<close>

definition sample_hash :: string where
  "sample_hash = replicate 64 (CHR ''a'')"

definition sample_env :: py_env where
  "sample_env = \<lparr>float_repr = (\<lambda>_. ''0.5''), sha256_hex = (\<lambda>_. sample_hash),
     fromisoformat = (\<lambda>s. if s = ''T1'' then Some (Aware (shanghai_instant 20000 (hhmm 15 0)))
                           else if s = ''T0'' then Some (Aware (shanghai_instant 20000 (hhmm 9 30))) else None)\<rparr>"

definition clock_at :: "int \<Rightarrow> int \<Rightarrow> dtime" where
  "clock_at h m = Aware (shanghai_instant 20000 (hhmm h m))"

definition sample_calendar :: calendar_service where
  "sample_calendar = \<lparr>xshg = (\<lambda>d. Inr (weekday d < 5)), cal_provider = None\<rparr>"

section \<open>Calendar\<close>

lemma effective_trade_date_le: "effective_trade_date S day \<le> day"
  by (auto simp: effective_trade_date_def dest: effective_search_Some split: option.splits)

text \<open>The effective trade date is the latest trading day among the day itself and the 29 days
  before it, and the day itself only when none of them is one.\<close>

theorem effective_trade_date_latest:
  "effective_trade_date S day \<le> day
   \<and> (\<forall>x. effective_trade_date S day < x \<and> x \<le> day \<longrightarrow> \<not> d_trade_day (decision S x))
   \<and> (d_trade_day (decision S (effective_trade_date S day))
      \<or> (\<forall>x. day - 30 < x \<and> x \<le> day \<longrightarrow> \<not> d_trade_day (decision S x)))"
proof (cases "effective_search S 30 day")
  case None
  then show ?thesis using effective_search_None [OF None] by (auto simp: effective_trade_date_def)
next
  case (Some d)
  then show ?thesis using effective_search_Some [OF Some] by (simp add: effective_trade_date_def)
qed

theorem effective_trade_date_latest_witness:
  "effective_trade_date sample_calendar 20002 = 20000 \<and> \<not> d_trade_day (decision sample_calendar 20001)"
proof -
  have e: "effective_trade_date sample_calendar 20002 = 20000" by code_simp
  have "effective_trade_date sample_calendar 20002 < 20001 \<and> (20001::int) \<le> 20002 \<longrightarrow> \<not> d_trade_day (decision sample_calendar 20001)"
    using effective_trade_date_latest [of sample_calendar 20002] by blast
  with e show ?thesis by simp
qed

text \<open>A session counts as settled only once its 15:15 cutoff has passed: the settled session ends
  no later than the given instant, on a trading day whenever one lies within the search window.\<close>

theorem settled_session_has_closed:
  "shanghai_instant (settled_session S now) settlement_cutoff \<le> market_time now"
proof -
  let ?u = "market_time now"
  let ?day = "if local_time ?u < settlement_cutoff then local_date ?u - 1 else local_date ?u"
  have "settled_session S now \<le> ?day"
    using effective_trade_date_le [of S ?day] by (simp add: settled_session_def Let_def)
  then have "shanghai_instant (settled_session S now) settlement_cutoff \<le> shanghai_instant ?day settlement_cutoff"
    by (simp add: shanghai_instant_def)
  also have "\<dots> \<le> shanghai_instant (local_date ?u) (local_time ?u)"
    using local_time_range(1) [of ?u] by (simp add: shanghai_instant_def settlement_cutoff_def del: local_time_range)
  finally show ?thesis by (simp add: local_split)
qed

text \<open>The quote window of the scheduler is exactly the open market of the refresh plan, and the
  cadence it prescribes is hourly, half-hourly, ten-minutely or two-minutely.\<close>

theorem quote_window_is_market_open:
  "session_quote_window_open now trade_day = market_open (balanced_plan now trade_day)
   \<and> (case intraday_refresh_minutes now trade_day of None \<Rightarrow> True | Some n \<Rightarrow> n \<in> {60, 30, 10, 2})"
  by (auto simp: session_quote_window_open_def intraday_refresh_minutes_def balanced_plan_def Let_def)

text \<open>C40: a local slot is due exactly when the exchange calendar itself confirms a trading day, the slot
  belongs to the schedule, its time has come less than the window ago, and it is not the slot served
  last; no due slot is overlooked.\<close>

theorem due_slot_local_exact:
  assumes "due_slot_local S last_slot now slots window = Inr r"
  shows "(case r of
      Some sid \<Rightarrow> (\<exists>slot t b. xshg S (local_date (market_time now)) = Inr b \<and> b \<and> slot \<in> set slots
          \<and> sid = (local_date (market_time now), slot) \<and> parse_time slot = Inr t \<and> last_slot \<noteq> Some sid
          \<and> t \<le> local_time (market_time now) \<and> local_time (market_time now) < t + window * second_us)
    | None \<Rightarrow> (\<forall>slot \<in> set slots. \<forall>t. xshg S (local_date (market_time now)) = Inr True \<longrightarrow> parse_time slot = Inr t \<longrightarrow>
          \<not> (t \<le> local_time (market_time now) \<and> local_time (market_time now) < t + window * second_us
             \<and> last_slot \<noteq> Some (local_date (market_time now), slot))))"
proof (cases "d_verified (decision S (local_date (market_time now))) \<and> d_trade_day (decision S (local_date (market_time now)))")
  case False
  then have "xshg S (local_date (market_time now)) \<noteq> Inr True" "r = None"
    using assms by (auto simp: due_slot_local_def decision_def Let_def split: if_splits)
  then show ?thesis by simp
next
  case True
  then have x: "xshg S (local_date (market_time now)) = Inr True"
    using decision_verified_iff [of S "local_date (market_time now)"] by (auto simp: decision_def)
  have scan: "due_slot_scan last_slot (market_time now) window slots = Inr r"
    using assms True by (simp add: due_slot_local_def Let_def)
  show ?thesis
  proof (cases r)
    case None
    then show ?thesis using due_slot_scan_None [OF scan [unfolded None]] by fastforce
  next
    case (Some sid)
    then show ?thesis using due_slot_scan_Some [OF scan [unfolded Some]] x by auto
  qed
qed

theorem due_slot_local_exact_witness:
  "due_slot_local sample_calendar None (clock_at 14 31) local_schedule_slots 180 = Inr (Some (20000, ''14:30''))
   \<and> (\<exists>t. parse_time ''14:30'' = Inr t \<and> t \<le> local_time (market_time (clock_at 14 31)))"
proof -
  have d: "due_slot_local sample_calendar None (clock_at 14 31) local_schedule_slots 180 = Inr (Some (20000, ''14:30''))" by code_simp
  from due_slot_local_exact [OF d] d show ?thesis by auto
qed

text \<open>A daily task that has succeeded is not due again on the same Shanghai day, and a failed one is
  not due before its retry wait is over.\<close>

theorem daily_due_once_per_day:
  assumes "daily_due last_success last_attempt now retry_minutes"
  shows "(case last_success of None \<Rightarrow> True | Some s \<Rightarrow> local_date (market_time s) < local_date (market_time now))
     \<and> (case last_attempt of None \<Rightarrow> True | Some a \<Rightarrow> market_time a + retry_minutes * minute_us \<le> market_time now)"
  using assms by (auto simp: daily_due_def Let_def split: option.splits if_splits)

theorem daily_due_once_per_day_witness:
  "daily_due None (Some (clock_at 9 0)) (clock_at 10 0) 60 \<and> market_time (clock_at 9 0) + 60 * minute_us \<le> market_time (clock_at 10 0)"
proof -
  have "daily_due None (Some (clock_at 9 0)) (clock_at 10 0) 60" by code_simp
  with daily_due_once_per_day [OF this] show ?thesis by simp
qed

end
