(* ===== verification/Display_Props.thy ===== *)
theory Display_Props
  imports Display_Contract Market_Props
begin

text \<open>
  What an accepted display bundle and a projected chart are known to contain.
\<close>

section \<open>Values inside values\<close>

text \<open>\<open>inside v w\<close>: \<open>w\<close> is \<open>v\<close> or occurs in it at some depth.\<close>

inductive inside :: "pyval \<Rightarrow> pyval \<Rightarrow> bool" where
  here: "inside v v"
| field: "(k, v) \<in> set d \<Longrightarrow> inside v w \<Longrightarrow> inside (PDict d) w"
| item: "v \<in> set xs \<Longrightarrow> inside v w \<Longrightarrow> inside (PList xs) w"

inductive_cases insideE: "inside v w"
inductive_simps inside_leaf:
  "inside PNone w" "inside (PBool b) w" "inside (PInt i) w" "inside (PFloat f) w" "inside (PStr s) w"

definition public_field :: "string \<times> pyval \<Rightarrow> bool" where
  "public_field kv \<longleftrightarrow> lower (fst kv) \<notin> set forbidden_private_fields
     \<and> (fst kv = ''actionable'' \<longrightarrow> snd kv = PBool False)"

lemma scan_items_iff: "scan_items d \<longleftrightarrow> (\<forall>kv \<in> set d. public_field kv \<and> scan_deep (snd kv))"
proof (induction d)
  case (Cons kv d)
  have "scan_items (kv # d) \<longleftrightarrow> public_field kv \<and> scan_deep (snd kv) \<and> scan_items d"
    by (cases kv) (simp add: public_field_def)
  with Cons show ?case by simp
qed simp

lemma scan_list_iff: "scan_list xs \<longleftrightarrow> (\<forall>v \<in> set xs. scan_deep v)"
  by (induction xs) auto

lemma scan_deep_inside: "inside v w \<Longrightarrow> scan_deep v \<Longrightarrow> scan_deep w"
  by (induction rule: inside.induct) (auto simp: scan_items_iff scan_list_iff)

lemma scan_deep_complete:
  "(\<And>d kv. inside v (PDict d) \<Longrightarrow> kv \<in> set d \<Longrightarrow> public_field kv) \<Longrightarrow> scan_deep v"
proof (induction v)
  case (PDict d)
  have "public_field kv \<and> scan_deep (snd kv)" if kv: "kv \<in> set d" for kv
  proof
    show "public_field kv" using PDict.prems [OF inside.here kv] .
    show "scan_deep (snd kv)"
    proof (rule PDict.IH [of kv "snd kv"])
      fix e x assume "inside (snd kv) (PDict e)" "x \<in> set e"
      moreover from this have "inside (PDict d) (PDict e)"
        using inside.field [of "fst kv" "snd kv" d "PDict e"] kv by simp
      ultimately show "public_field x" using PDict.prems by blast
    qed (use kv in \<open>auto intro: snds.intros\<close>)
  qed
  then show ?case by (simp add: scan_items_iff)
next
  case (PList xs)
  have "scan_deep v" if "v \<in> set xs" for v
    by (rule PList.IH [OF that]) (use that in \<open>auto intro: PList.prems inside.item\<close>)
  then show ?case by (simp add: scan_list_iff)
qed simp_all

text \<open>C22: the privacy scan accepts a value exactly when no object at any depth of it has a forbidden
  private key, in any letter case, or an \<^verbatim>\<open>actionable\<close> that is not false.\<close>

theorem privacy_scan_exact:
  "scan_deep v \<longleftrightarrow> (\<forall>d kv. inside v (PDict d) \<and> kv \<in> set d \<longrightarrow> public_field kv)"
proof
  assume "scan_deep v"
  then show "\<forall>d kv. inside v (PDict d) \<and> kv \<in> set d \<longrightarrow> public_field kv"
    using scan_deep_inside scan_items_iff scan_deep.simps(1) by blast
qed (blast intro: scan_deep_complete)

theorem privacy_scan_exact_witness:
  "\<not> scan_deep (PList [PDict [(''rows'', PList [PDict [(''Token'', PStr ''x'')]])]])
   \<and> (\<exists>d kv. inside (PList [PDict [(''rows'', PList [PDict [(''Token'', PStr ''x'')]])]]) (PDict d) \<and> kv \<in> set d \<and> \<not> public_field kv)"
proof -
  have "\<not> scan_deep (PList [PDict [(''rows'', PList [PDict [(''Token'', PStr ''x'')]])]])" by code_simp
  then show ?thesis using privacy_scan_exact [of "PList [PDict [(''rows'', PList [PDict [(''Token'', PStr ''x'')]])]]"] by blast
qed

section \<open>Accepted bundles\<close>

lemma verify_bundleD:
  assumes "verify_bundle_integrity E bundle now"
  obtains m parts manifest h where "pget ''manifest'' bundle = PDict m" and "pget ''parts'' bundle = PDict parts"
    and "validate_bundle_manifest E (PDict m) = Inr manifest"
    and "case now of None \<Rightarrow> True | Some t \<Rightarrow> m_generated_at manifest \<le> t \<and> t < m_expires_at manifest"
    and "parts_shape_ok parts" and "compute_parts_hashes E parts = Inr h" and "dict_eq h (m_parts_hashes manifest)"
    and "scan_deep bundle"
    and "check_charts E (m_universe manifest) (m_generated_at manifest) (the (as_dict (pget ''charts'' (PDict parts))))"
    and "check_details (m_universe manifest) (the (as_dict (pget ''details'' (PDict parts))))"
proof -
  obtain m parts where mp: "pget ''manifest'' bundle = PDict m" "pget ''parts'' bundle = PDict parts"
    using assms by (cases "pget ''manifest'' bundle"; cases "pget ''parts'' bundle") (auto simp: verify_bundle_integrity_def)
  obtain manifest where man: "validate_bundle_manifest E (PDict m) = Inr manifest"
    using assms mp by (cases "validate_bundle_manifest E (PDict m)") (auto simp: verify_bundle_integrity_def)
  obtain h where h: "compute_parts_hashes E parts = Inr h"
    using assms mp man by (cases "compute_parts_hashes E parts") (auto simp: verify_bundle_integrity_def)
  show ?thesis
    by (rule that [OF mp man _ _ h]) (use assms mp man h in \<open>simp_all add: verify_bundle_integrity_def\<close>)
qed

lemma validate_bar_dates:
  assumes "validate_bar cutoff partial bar dates = Inr dates'"
  obtains day where "dates' = day # dates" and "dates = [] \<or> hd dates < day"
    and "case cutoff of None \<Rightarrow> True | Some c \<Rightarrow> day \<le> c" and "daily_date False (pget ''date'' bar) = Inr (Some day)"
proof -
  obtain d where d: "bar = PDict d" "keys_within bar_fields d"
    using assms by (cases bar) (auto simp: validate_bar_def split: if_splits)
  obtain day where day: "daily_date False (pget ''date'' bar) = Inr (Some day)"
    using assms d by (cases "daily_date False (pget ''date'' bar)"; cases "projr (daily_date False (pget ''date'' bar))")
      (auto simp: validate_bar_def)
  have "dates' = day # dates \<and> \<not> (dates \<noteq> [] \<and> day \<le> hd dates) \<and> \<not> (case cutoff of None \<Rightarrow> False | Some c \<Rightarrow> c < day)"
    using assms d day
    by (cases "if phas ''indicators'' bar then pget ''indicators'' bar else PDict []")
      (auto simp: validate_bar_def split: if_splits)
  then show ?thesis using that [of day] day by (auto split: option.splits)
qed

lemma validate_series_sorted:
  assumes "foldr_result (validate_bar cutoff partial) bars dates = Inr dates'"
    and "sorted_wrt (>) dates" and "\<forall>d \<in> set dates. case cutoff of None \<Rightarrow> True | Some c \<Rightarrow> d \<le> c"
  shows "sorted_wrt (>) dates' \<and> (\<forall>d \<in> set dates'. case cutoff of None \<Rightarrow> True | Some c \<Rightarrow> d \<le> c)
     \<and> length dates' = length bars + length dates"
  using assms
proof (induction bars arbitrary: dates)
  case (Cons bar bars)
  then obtain dates1 where b: "validate_bar cutoff partial bar dates = Inr dates1"
    and rest: "foldr_result (validate_bar cutoff partial) bars dates1 = Inr dates'" by auto
  from b obtain day where day: "dates1 = day # dates" "dates = [] \<or> hd dates < day"
    "case cutoff of None \<Rightarrow> True | Some c \<Rightarrow> day \<le> c" by (rule validate_bar_dates)
  have "\<forall>x \<in> set dates. x < day" using day(2) Cons.prems(2) by (cases dates) auto
  with Cons.IH [OF rest] Cons.prems(2,3) day show ?case by simp
qed simp

lemma validate_public_chartD:
  assumes "validate_public_chart E chart code g partial iv = Inr ()"
  shows "is_dict chart \<and> keys_within chart_fields (the (as_dict chart)) \<and> validate_chart_times E chart g partial = Inr ()"
proof -
  obtain d where d: "chart = PDict d" using assms unfolding validate_public_chart_def by (cases chart) simp_all
  then show ?thesis using assms unfolding validate_public_chart_def
    by (simp only: pyval.case bindr_eq_Inr raise_if_simps split: if_split_asm) auto
qed

lemma validate_public_chart_series:
  assumes "validate_public_chart E chart code (Some g) partial iv = Inr ()"
  shows "\<exists>cutoff bars rbars. cutoff \<le> local_date g
     \<and> validate_series (Some cutoff) partial (pget_default ''bars'' (PList []) chart) = Inr bars
     \<and> validate_series (Some cutoff) partial (pget_default ''research_bars'' (PList []) chart) = Inr rbars"
proof -
  from validate_public_chartD [OF assms] obtain as_of source where
    o: "(if phas ''as_of'' chart then bindr (chart_time E (pget ''as_of'' chart)) (\<lambda>u. Inr (Some u)) else Inr (Some g)) = Inr as_of"
    and a: "\<not> (case as_of of None \<Rightarrow> False | Some a \<Rightarrow> g < a)"
    and c: "validate_chart_series chart (map_option local_date as_of) source partial = Inr ()"
    unfolding validate_chart_times_def by (auto simp only: bindr_eq_Inr raise_if_simps Let_def option.case)
  then obtain u where u: "as_of = Some u" "u \<le> g" by (auto split: if_splits)
  from c show ?thesis
    unfolding validate_chart_series_def u
    by (auto intro: local_date_mono [OF u(2)])
qed

lemma series_public:
  assumes "validate_series (Some c) partial rows = Inr dates"
  shows "sorted_wrt (>) dates \<and> (\<forall>d \<in> set dates. d \<le> c) \<and> (\<exists>bars. rows = PList bars \<and> length dates = length bars)"
proof -
  obtain bars where "rows = PList bars" using assms by (cases rows) (auto simp: validate_series_def)
  then show ?thesis using assms validate_series_sorted [of "Some c" partial bars "[]" dates] by (simp add: validate_series_def)
qed

text \<open>The days the bars themselves carry, oldest first.\<close>

definition bars_dated :: "pyval \<Rightarrow> int list \<Rightarrow> bool" where
  "bars_dated rows days \<longleftrightarrow> (\<exists>bars. rows = PList bars
     \<and> list_all2 (\<lambda>bar day. \<exists>s. pget ''date'' bar = PStr s \<and> parse_date s = Some day) bars days)"

lemma daily_date_Some: "daily_date False v = Inr (Some day) \<Longrightarrow> \<exists>s. v = PStr s \<and> parse_date s = Some day"
  by (cases v) (auto split: option.splits)

lemma validate_bars_days:
  assumes "foldr_result (validate_bar cutoff partial) bars dates = Inr dates'"
  shows "\<exists>days. list_all2 (\<lambda>bar day. \<exists>s. pget ''date'' bar = PStr s \<and> parse_date s = Some day) bars days
     \<and> dates' = rev days @ dates"
  using assms
proof (induction bars arbitrary: dates)
  case (Cons bar bars)
  then obtain dates1 where b: "validate_bar cutoff partial bar dates = Inr dates1"
    and rest: "foldr_result (validate_bar cutoff partial) bars dates1 = Inr dates'" by auto
  from b obtain day where day: "dates1 = day # dates" "daily_date False (pget ''date'' bar) = Inr (Some day)"
    by (rule validate_bar_dates)
  from Cons.IH [OF rest] obtain days where
    d: "list_all2 (\<lambda>bar day. \<exists>s. pget ''date'' bar = PStr s \<and> parse_date s = Some day) bars days" "dates' = rev days @ dates1"
    by blast
  show ?case by (rule exI [of _ "day # days"]) (use d day(1) daily_date_Some [OF day(2)] in simp)
qed simp

lemma series_causal:
  assumes "validate_series (Some c) partial rows = Inr dates" "c \<le> g"
  shows "\<exists>days. bars_dated rows days \<and> sorted_wrt (<) days \<and> (\<forall>d \<in> set days. d \<le> g)"
proof -
  obtain bars where b: "rows = PList bars" "foldr_result (validate_bar (Some c) partial) bars [] = Inr dates"
    using assms(1) by (cases rows) (auto simp: validate_series_def)
  from validate_bars_days [OF b(2)] obtain days where d: "bars_dated rows days" "dates = rev days"
    unfolding bars_dated_def b(1) by auto
  from series_public [OF assms(1)] have "sorted_wrt (\<lambda>x y. y < x) (rev days)" "\<forall>d \<in> set days. d \<le> c" by (simp_all add: d(2))
  with assms(2) d(1) show ?thesis unfolding sorted_wrt_rev by force
qed

text \<open>C21: in an accepted bundle every object at every depth is public: no key is a private field in any
  letter case and nothing is marked actionable; every chart belongs to the manifest's universe, and the
  days its bars and its research bars carry are strictly increasing, none after the Shanghai day of
  generation.\<close>

theorem accepted_bundle_is_public_and_causal:
  assumes "verify_bundle_integrity E bundle now"
  shows "(\<forall>d kv. inside bundle (PDict d) \<and> kv \<in> set d \<longrightarrow> public_field kv)
    \<and> (\<exists>parts manifest. pget ''parts'' bundle = PDict parts
        \<and> validate_bundle_manifest E (pget ''manifest'' bundle) = Inr manifest
        \<and> (\<forall>(code, chart) \<in> set (the (as_dict (pget ''charts'' (PDict parts)))).
             code \<in> set (m_universe manifest)
             \<and> (\<forall>k \<in> {''bars'', ''research_bars''}. \<exists>days. bars_dated (pget_default k (PList []) chart) days
                  \<and> sorted_wrt (<) days \<and> (\<forall>d \<in> set days. d \<le> local_date (m_generated_at manifest)))))"
  using assms
proof (rule verify_bundleD)
  fix m parts manifest h
  assume m: "pget ''manifest'' bundle = PDict m" and parts: "pget ''parts'' bundle = PDict parts"
    and v: "validate_bundle_manifest E (PDict m) = Inr manifest" and scan: "scan_deep bundle"
    and ch: "check_charts E (m_universe manifest) (m_generated_at manifest) (the (as_dict (pget ''charts'' (PDict parts))))"
  have "\<forall>d kv. inside bundle (PDict d) \<and> kv \<in> set d \<longrightarrow> public_field kv"
    using scan scan_deep_inside scan_items_iff scan_deep.simps(1) by blast
  moreover have "code \<in> set (m_universe manifest) \<and> (\<forall>k \<in> {''bars'', ''research_bars''}. \<exists>days.
        bars_dated (pget_default k (PList []) chart) days
        \<and> sorted_wrt (<) days \<and> (\<forall>d \<in> set days. d \<le> local_date (m_generated_at manifest)))"
    if "(code, chart) \<in> set (the (as_dict (pget ''charts'' (PDict parts))))" for code chart
  proof -
    have c: "code \<in> set (m_universe manifest)"
      "validate_public_chart E chart (Some code) (Some (m_generated_at manifest)) True ''1d'' = Inr ()"
      using ch that by (auto simp: check_charts_def list_all_iff)
    from validate_public_chart_series [OF c(2)] obtain cutoff bars rbars where s: "cutoff \<le> local_date (m_generated_at manifest)"
      "validate_series (Some cutoff) True (pget_default ''bars'' (PList []) chart) = Inr bars"
      "validate_series (Some cutoff) True (pget_default ''research_bars'' (PList []) chart) = Inr rbars" by blast
    with c(1) series_causal [OF s(2,1)] series_causal [OF s(3,1)] show ?thesis by blast
  qed
  ultimately show ?thesis unfolding m using parts v by (intro conjI exI [of _ parts] exI [of _ manifest]) auto
qed

definition sample_bundle :: pyval where
  "sample_bundle = PDict [
     (''manifest'', PDict [(''contract_version'', PStr ''local-display-v2''), (''actionable'', PBool False),
        (''code_sha'', PStr (replicate 40 (CHR ''b''))), (''config_hash'', PStr sample_hash), (''sequence'', PInt 7),
        (''generated_at'', PStr ''T0''), (''expires_at'', PStr ''T1''), (''universe'', PList [PStr ''510300.SH'']),
        (''parts_hashes'', PDict [(''overview'', PStr sample_hash), (''details'', PStr sample_hash),
           (''charts'', PStr sample_hash), (''sectors'', PStr sample_hash)])]),
     (''parts'', PDict [(''overview'', PDict []), (''details'', PDict []),
        (''charts'', PDict [(''510300.SH'', PDict [(''bars'', PList [
            PDict [(''date'', PStr ''2024-10-03'')], PDict [(''date'', PStr ''2024-10-04''), (''source'', PStr ''x'')]])])]),
        (''sectors'', PDict [])])]"

theorem accepted_bundle_is_public_and_causal_witness:
  "verify_bundle_integrity sample_env sample_bundle None \<and> public_field (''parts'', pget ''parts'' sample_bundle)"
proof -
  have v: "verify_bundle_integrity sample_env sample_bundle None" by code_simp
  have i: "inside sample_bundle (PDict (the (as_dict sample_bundle)))" by (simp add: sample_bundle_def inside.here)
  have "(''parts'', pget ''parts'' sample_bundle) \<in> set (the (as_dict sample_bundle))" by code_simp
  then show ?thesis using accepted_bundle_is_public_and_causal [OF v] v i by blast
qed

text \<open>Every part of an accepted bundle hashes to the digest its manifest declares, and the bundle was
  accepted within its validity period.\<close>

theorem accepted_parts_match_manifest:
  assumes "verify_bundle_integrity E bundle now" and "pget ''parts'' bundle = PDict parts"
    and "(k, part) \<in> set parts" and "distinct (map fst parts)"
  shows "\<exists>manifest h. validate_bundle_manifest E (pget ''manifest'' bundle) = Inr manifest
     \<and> digest E part = Inr h \<and> map_of (m_parts_hashes manifest) k = Some (PStr h)
     \<and> (case now of None \<Rightarrow> True | Some t \<Rightarrow> m_generated_at manifest \<le> t \<and> t < m_expires_at manifest)"
  using assms(1)
proof (rule verify_bundleD)
  fix m parts' manifest hs
  assume m: "pget ''manifest'' bundle = PDict m" and p: "pget ''parts'' bundle = PDict parts'"
    and v: "validate_bundle_manifest E (PDict m) = Inr manifest"
    and t: "case now of None \<Rightarrow> True | Some t \<Rightarrow> m_generated_at manifest \<le> t \<and> t < m_expires_at manifest"
    and hs: "compute_parts_hashes E parts' = Inr hs" and eq: "dict_eq hs (m_parts_hashes manifest)"
  have parts': "parts' = parts" using p assms(2) by simp
  from hs have all: "list_all2 (\<lambda>(k, v) y. \<exists>h. digest E v = Inr h \<and> y = (k, PStr h)) parts hs"
    unfolding compute_parts_hashes_def mapr_Inr_iff parts' by (rule list_all2_mono) auto
  then have keys: "map fst hs = map fst parts" by (induction rule: list_all2_induct) auto
  from list_all2_ex_right [OF all assms(3)] obtain h where h: "digest E part = Inr h" "(k, PStr h) \<in> set hs" by auto
  moreover have "map_of hs k = Some (PStr h)" using h(2) keys assms(4) by (simp add: map_of_is_SomeI)
  moreover have "k \<in> set (map fst hs)" using h(2) by force
  ultimately show ?thesis using eq v t m by (auto simp: dict_eq_def list_all_iff)
qed

theorem accepted_parts_match_manifest_witness:
  "\<exists>manifest h. validate_bundle_manifest sample_env (pget ''manifest'' sample_bundle) = Inr manifest
     \<and> digest sample_env (PDict []) = Inr h \<and> map_of (m_parts_hashes manifest) ''sectors'' = Some (PStr h)"
proof -
  have v: "verify_bundle_integrity sample_env sample_bundle None" by code_simp
  define parts where "parts = the (as_dict (pget ''parts'' sample_bundle))"
  have p: "pget ''parts'' sample_bundle = PDict parts" and k: "(''sectors'', PDict []) \<in> set parts" and d: "distinct (map fst parts)"
    unfolding parts_def by code_simp+
  from accepted_parts_match_manifest [OF v p k d] show ?thesis by auto
qed

section \<open>Projected charts\<close>

definition public_bar :: "pyval \<Rightarrow> bool" where
  "public_bar bar = (case bar of PDict d \<Rightarrow> keys_within bar_fields d
       \<and> (case pget ''indicators'' bar of PDict ind \<Rightarrow> keys_within indicator_fields ind | _ \<Rightarrow> False)
     | _ \<Rightarrow> False)"

lemma project_bar_public:
  assumes "project_bar row = Inr bar"
  shows "public_bar bar"
proof -
  obtain d ind where "row = PDict d" "por (pget ''indicators'' row) (PDict []) = PDict ind"
    using assms by (cases row; cases "por (pget ''indicators'' row) (PDict [])") (auto simp: project_bar_def)
  then have bar: "bar = PDict (dict_set ''indicators'' (PDict (dict_keep indicator_fields ind))
      (filter (\<lambda>(k, v). k \<in> set bar_fields \<and> k \<noteq> ''indicators'') d))"
    using assms by (simp add: project_bar_def)
  have "keys_within bar_fields (filter (\<lambda>(k, v). k \<in> set bar_fields \<and> k \<noteq> ''indicators'') d)"
    by (auto simp: keys_within_def)
  then have "keys_within bar_fields (dict_set ''indicators'' (PDict (dict_keep indicator_fields ind))
      (filter (\<lambda>(k, v). k \<in> set bar_fields \<and> k \<noteq> ''indicators'') d))"
    by (rule keys_within_dict_set [rotated]) (simp add: bar_fields_def)
  then show ?thesis by (simp add: bar public_bar_def map_of_dict_set keys_within_dict_keep)
qed

lemma project_bars_public:
  assumes "project_bars rows = Inr v"
  shows "\<exists>bs. v = PList bs \<and> list_all public_bar bs"
proof -
  obtain rs where "rows = PList rs" using assms by (cases rows) (auto simp: project_bars_def)
  then obtain bs where bs: "v = PList bs" "list_all2 (\<lambda>r b. project_bar r = Inr b) rs bs"
    using assms by (auto simp: project_bars_def mapr_Inr_iff split: if_splits)
  have "public_bar b" if "b \<in> set bs" for b
    using list_all2_ex_left [OF bs(2) that] project_bar_public by blast
  with bs(1) show ?thesis by (simp add: list_all_iff)
qed

text \<open>A projected chart has public chart fields only, every bar of it has public bar fields and public
  indicators only, and the safety flags are forced whatever the source said.\<close>

theorem projected_chart_is_public:
  assumes "project_chart source = Inr chart"
  shows "\<exists>d bars rbars. chart = PDict d \<and> keys_within chart_fields d
     \<and> pget ''bars'' chart = PList bars \<and> pget ''research_bars'' chart = PList rbars
     \<and> list_all public_bar bars \<and> list_all public_bar rbars
     \<and> pget ''actionable'' chart = PBool False \<and> pget ''research_only'' chart = PBool True
     \<and> pget ''cost_overlay_allowed'' chart = PBool False \<and> pget ''research_cost_overlay_allowed'' chart = PBool False
     \<and> pget ''qualification'' chart = PStr ''UNKNOWN'' \<and> pget ''interval'' chart = PStr ''1d''"
proof -
  obtain d where d: "source = PDict d" using assms by (cases source) (auto simp: project_chart_def)
  let ?result = "filter (\<lambda>(k, v). k \<in> set chart_fields
       \<and> k \<notin> {''bars'', ''research_bars'', ''studies'', ''support_resistance'', ''research_support_resistance''}) d"
  obtain bars rbars st sr rsr where
    b: "project_bars (pget_default ''bars'' (PList []) source) = Inr bars"
       "project_bars (pget_default ''research_bars'' (PList []) source) = Inr rbars"
    and chart: "chart = PDict (dict_update
       [(''bars'', bars), (''research_bars'', rbars), (''studies'', st), (''support_resistance'', sr),
        (''research_support_resistance'', rsr), (''interval'', PStr ''1d''),
        (''unsupported_intervals'', PList [PStr ''1w'', PStr ''1mo'', PStr ''5m'', PStr ''15m'']),
        (''qualification'', PStr ''UNKNOWN''), (''research_only'', PBool True), (''actionable'', PBool False),
        (''cost_overlay_allowed'', PBool False), (''research_cost_overlay_allowed'', PBool False)] ?result)"
    using assms unfolding d project_chart_def by (auto simp only: pyval.case Let_def bindr_eq_Inr sum.inject)
  have "keys_within chart_fields ?result" by (auto simp: keys_within_def)
  then have keys: "keys_within chart_fields (dict_update
       [(''bars'', bars), (''research_bars'', rbars), (''studies'', st), (''support_resistance'', sr),
        (''research_support_resistance'', rsr), (''interval'', PStr ''1d''),
        (''unsupported_intervals'', PList [PStr ''1w'', PStr ''1mo'', PStr ''5m'', PStr ''15m'']),
        (''qualification'', PStr ''UNKNOWN''), (''research_only'', PBool True), (''actionable'', PBool False),
        (''cost_overlay_allowed'', PBool False), (''research_cost_overlay_allowed'', PBool False)] ?result)"
    by (rule keys_within_dict_update [rotated]) (simp add: chart_fields_def)
  show ?thesis
    using project_bars_public [OF b(1)] project_bars_public [OF b(2)] keys
    by (auto simp: chart dict_update_simps map_of_dict_set)
qed

definition sample_chart_source :: pyval where
  "sample_chart_source = PDict [(''ts_code'', PStr ''510300.SH''), (''holdings'', PInt 3), (''actionable'', PBool True),
     (''bars'', PList [PDict [(''date'', PStr ''2024-10-04''), (''cost'', PInt 1)]])]"

theorem projected_chart_is_public_witness:
  "\<exists>d chart. project_chart sample_chart_source = Inr chart \<and> chart = PDict d \<and> keys_within chart_fields d
     \<and> pget ''actionable'' chart = PBool False"
proof -
  have "\<not> isl (project_chart sample_chart_source)" by code_simp
  then obtain chart where c: "project_chart sample_chart_source = Inr chart" by (cases "project_chart sample_chart_source") auto
  from projected_chart_is_public [OF c] c show ?thesis by blast
qed

text \<open>A receipt is accepted only for the very manifest that was sent: it names the manifest's digest
  twice, repeats its positive sequence, reports acceptance, has an aware timestamp, and has no other
  field.\<close>

theorem receipt_binds_manifest:
  assumes "validate_receipt E receipt m ''local-display-v2'' = Inr r"
  shows "r = receipt \<and> (\<exists>bid q s u. digest E m = Inr bid \<and> pget ''bundle_id'' receipt = PStr bid
     \<and> pget ''manifest_hash'' receipt = PStr bid \<and> 1 \<le> q \<and> pget ''sequence'' receipt = PInt q \<and> pget ''sequence'' m = PInt q
     \<and> pget ''status'' receipt \<in> {PStr ''accepted'', PStr ''already_accepted''}
     \<and> pget ''received_at'' receipt = PStr s \<and> fromisoformat E s = Some (Aware u)
     \<and> set (pkeys receipt) = {''bundle_id'', ''manifest_hash'', ''status'', ''sequence'', ''received_at''})"
  using assms
proof (rule validate_receiptD)
  fix bid
  assume b: "digest E m = Inr bid" "pget ''bundle_id'' receipt = PStr bid"
    and v: "validate_receipt_v2 E receipt m bid = Inr ()"
    and k: "set (pkeys receipt) = {''bundle_id'', ''manifest_hash'', ''status'', ''sequence'', ''received_at''}"
  show ?thesis using b k validate_receipt_v2D [OF v] validate_receipt_returns [OF assms] by blast
qed

definition sample_receipt :: pyval where
  "sample_receipt = PDict [(''bundle_id'', PStr sample_hash), (''manifest_hash'', PStr sample_hash),
     (''status'', PStr ''accepted''), (''sequence'', PInt 7), (''received_at'', PStr ''T1'')]"

theorem receipt_binds_manifest_witness:
  "validate_receipt sample_env sample_receipt (pget ''manifest'' sample_bundle) ''local-display-v2'' = Inr sample_receipt
     \<and> (\<exists>q. 1 \<le> q \<and> pget ''sequence'' sample_receipt = PInt q)"
proof -
  have "\<not> isl (validate_receipt sample_env sample_receipt (pget ''manifest'' sample_bundle) ''local-display-v2'')" by code_simp
  then obtain r where r: "validate_receipt sample_env sample_receipt (pget ''manifest'' sample_bundle) ''local-display-v2'' = Inr r"
    by (cases "validate_receipt sample_env sample_receipt (pget ''manifest'' sample_bundle) ''local-display-v2''") auto
  from receipt_binds_manifest [OF r] r show ?thesis by blast
qed

end
