(* ===== verification/Ledger_Props.thy ===== *)
theory Ledger_Props
  imports Ledger_Slots Display_Props
begin

text \<open>
  What the job ledger guarantees to its callers, stated for every ledger that any sequence of
  calls can reach from the empty database.
\<close>

section \<open>Reachable ledgers\<close>

lemma slots_ok_empty: "slots_ok empty_ledger"
  by (simp add: slots_ok_def empty_ledger_def)

interpretation slot_system: invariant_system "\<lambda>db. db = empty_ledger" "ledger_step E" "\<lambda>db. core db \<and> slots_ok db" for E
  by unfold_locales
    (auto simp: slots_ok_empty ledger_okD(1) [OF ledger_ok_empty] intro: core_step slots_ok_step)

lemma reachable_core: "ledger_reachable E db \<Longrightarrow> core db"
  using slot_system.inv_reachable by blast

lemma reachable_stamps: "ledger_reachable E db \<Longrightarrow> stamps_ok db"
  using ledger_system.inv_reachable ledger_okD by blast

lemma reachable_slots: "ledger_reachable E db \<Longrightarrow> slots_ok db"
  using slot_system.inv_reachable by blast

lemma reachable_packages: "ledger_reachable E db \<Longrightarrow> packages_ok E db"
  using ledger_system.inv_reachable ledger_okD by blast

section \<open>Upload budget\<close>

definition exhausted :: "ledger \<Rightarrow> attempt_row \<Rightarrow> bool" where
  "exhausted db a \<longleftrightarrow> a_status a = EXPORTED \<and> 3 \<le> length (failed_uploads (a_id a) db)"

definition budget_ok :: "ledger \<Rightarrow> bool" where
  "budget_ok db \<longleftrightarrow> core db \<and> (\<forall>a \<in> set (attempts db). \<not> exhausted db a)"

lemma filter_upd_where_other:
  assumes "\<And>r. P r \<Longrightarrow> \<not> Q r" and "\<And>r. P r \<Longrightarrow> \<not> Q (f r)"
  shows "filter Q (upd_where P f t) = filter Q t"
  using assms by (induction t) auto

lemma failed_uploads_finish:
  assumes "ast \<notin> exporting" "sst \<notin> exporting" and "aid \<notin> a_id ` set rows"
  shows "failed_uploads aid (finish_exports rows ast sst rsn stamp db) = failed_uploads aid db"
  using assms unfolding failed_uploads_def
  by (simp add: finish_exports_bulk end_exports_def) (rule filter_upd_where_other; auto)

lemma budget_finish_exports:
  assumes c: "core db" and rows: "set rows \<subseteq> set (attempts db)" "\<And>r. r \<in> set rows \<Longrightarrow> a_status r \<in> exporting"
    and st: "ast \<notin> active" "sst \<notin> exporting"
    and old: "\<And>a. a \<in> set (attempts db) \<Longrightarrow> a \<notin> set rows \<Longrightarrow> \<not> exhausted db a"
  shows "budget_ok (finish_exports rows ast sst rsn stamp db)" (is "budget_ok ?db'")
  unfolding budget_ok_def
proof (intro conjI ballI)
  show "core ?db'" by (rule core_finish_exports [OF c rows st])
  fix a assume a: "a \<in> set (attempts ?db')"
  show "\<not> exhausted ?db' a"
  proof
    assume ex: "exhausted ?db' a"
    then have act: "a_status a \<in> active" "a_status a \<in> exporting" by (simp_all add: exhausted_def active_def exporting_def)
    note left = finish_exports_left [OF a act(1) st]
    have "a_id a \<notin> a_id ` set rows"
      using left(1) left(2) [OF act(2)] rows(1) attempt_id_inj [OF c left(1)] by auto
    moreover have "ast \<notin> exporting" using st(1) exporting_active(1) by auto
    ultimately have "exhausted db a" using ex st failed_uploads_finish by (simp add: exhausted_def)
    then show False using old [OF left(1) left(2) [OF act(2)]] by simp
  qed
qed

lemma budget_slots:
  assumes "budget_ok db" and "core (db\<lparr>slots := S\<rparr>)"
  shows "budget_ok (db\<lparr>slots := S\<rparr>)"
  using assms by (simp add: budget_ok_def exhausted_def failed_uploads_def)

lemma budget_settle: "core db \<Longrightarrow> budget_ok (settle_previous current db)"
proof -
  assume c: "core db"
  let ?d1 = "close_exhausted current db" and ?d = "local_date current"
  have 1: "budget_ok ?d1"
    unfolding close_exhausted_def
    by (rule budget_finish_exports [OF c]) (auto simp: exporting_def exhausted_def)
  have "core (settle_previous current db)" using c by (rule core_settle_previous)
  moreover have "\<not> exhausted (settle_previous current db) a" if "a \<in> set (attempts (settle_previous current db))" for a
  proof
    let ?d2 = "miss_previous_sessions ?d current ?d1"
    let ?rows = "filter (\<lambda>a. a_status a \<in> exporting
         \<and> (case session_of (a_slot a) ?d2 of None \<Rightarrow> False | Some ss \<Rightarrow> ss < ?d)) (attempts ?d2)"
    assume ex: "exhausted (settle_previous current db) a"
    have eq: "settle_previous current db = finish_exports ?rows EXPIRED MISSED (Reason ''previous_session'') current ?d2"
      by (simp add: settle_previous_def expire_previous_exports_def)
    have act: "a_status a \<in> active" "a_status a \<in> exporting"
      using ex by (simp_all add: exhausted_def active_def exporting_def)
    note left = finish_exports_left [OF that [unfolded eq] act(1)]
    have a2: "a \<in> set (attempts ?d2)" by (rule left(1)) simp_all
    then have a1: "a \<in> set (attempts ?d1)" by (simp add: miss_previous_sessions_def)
    have "a \<notin> set ?rows" by (rule left(2)) (simp_all add: act)
    moreover have "r \<in> set (attempts ?d1)" if "r \<in> set ?rows" for r using that by (simp add: miss_previous_sessions_def)
    ultimately have "a_id a \<notin> a_id ` set ?rows"
      using attempt_id_inj [of "\<lambda>_. False" ?d1 a] a1 1 unfolding budget_ok_def by blast
    then have "failed_uploads (a_id a) (settle_previous current db) = failed_uploads (a_id a) ?d1"
      unfolding eq by (subst failed_uploads_finish) (simp_all add: failed_uploads_def miss_previous_sessions_def)
    then have "exhausted ?d1 a" using ex by (simp add: exhausted_def)
    then show False using 1 a1 by (simp add: budget_ok_def)
  qed
  ultimately show ?thesis by (simp add: budget_ok_def)
qed

lemma budget_plan_slot: "budget_ok db \<Longrightarrow> budget_ok (plan_slot session stamp st db)"
  using core_plan_slot [of "\<lambda>_. False" db session stamp st]
  by (auto simp: budget_ok_def plan_slot_def Let_def exhausted_def failed_uploads_def split: option.splits)

lemma budget_finish_slot:
  assumes "budget_ok db" and "set rows \<subseteq> set (attempts db)" "\<And>r. r \<in> set rows \<Longrightarrow> a_status r \<in> exporting"
    and "ast \<notin> active" "sst \<notin> exporting"
  shows "budget_ok (finish_exports rows ast sst rsn stamp db)"
  using assms by (intro budget_finish_exports) (auto simp: budget_ok_def)

lemma slot_exports_rows:
  "set (slot_exports sid db) \<subseteq> set (attempts db)" "r \<in> set (slot_exports sid db) \<Longrightarrow> a_status r \<in> exporting"
  by (auto simp: slot_exports_def)

lemma budget_supersede: "budget_ok db \<Longrightarrow> budget_ok (supersede_slot latest stamp sid db)"
proof -
  assume b: "budget_ok db"
  have "core (supersede_slot latest stamp sid db)" using b by (simp add: budget_ok_def core_supersede_slot)
  then show ?thesis
    unfolding supersede_slot_def Let_def
    by (rule budget_slots [rotated]) (rule budget_finish_slot [OF b slot_exports_rows], simp_all)
qed

lemma budget_miss_late: "budget_ok db \<Longrightarrow> budget_ok (miss_late_slot latest stamp db)"
proof -
  assume b: "budget_ok db"
  have "core (miss_late_slot latest stamp db)" using b by (simp add: budget_ok_def core_miss_late_slot)
  then show ?thesis
    unfolding miss_late_slot_def Let_def
    by (rule budget_slots [rotated]) (rule budget_finish_slot [OF b slot_exports_rows], simp_all)
qed

lemma budget_drop_stale:
  assumes b: "budget_ok db"
  shows "budget_ok (fold (drop_stale_export ident current) (slot_exports latest db) db)"
proof -
  have "budget_ok (drop_stale_export ident current a db)" if "a \<in> set (slot_exports latest db)" for a
    using that b by (auto simp: drop_stale_export_def Let_def finish_export_single slot_exports_def intro!: budget_finish_slot)
  then show ?thesis using slot_exports_single [of "\<lambda>_. False" db latest] b by (auto simp: budget_ok_def)
qed

lemma budget_plan_session:
  assumes b: "budget_ok db"
  shows "budget_ok (snd (plan_session P ident current parsed db))"
proof -
  have 1: "budget_ok (fold (plan_slot session current) xs db)" for session xs
    by (rule fold_invariant_set [where P = budget_ok, OF b]) (rule budget_plan_slot)
  have 2: "budget_ok (fold (\<lambda>(sid, _). supersede_slot latest current sid) ys db1)"
    if "budget_ok db1" for latest db1 and ys :: "(slot_id \<times> int) list"
    by (rule fold_invariant_set [where P = budget_ok, OF that]) (auto intro: budget_supersede)
  have 3: "budget_ok (snd (plan_latest P ident current latest age db1))" if "budget_ok db1" for latest age db1
    using that by (auto simp: plan_latest_def Let_def budget_miss_late budget_drop_stale split: option.splits)
  show ?thesis using 1 3 [OF 2 [OF 1]] by (simp add: plan_session_def Let_def split_beta)
qed

lemma budget_plan_due:
  assumes "core db" and "plan_due P now v i ss db = Inr (r, db')"
  shows "budget_ok db'"
  using assms(2)
proof (rule plan_due_cases)
  fix current ident parsed
  assume u: "\<not> v \<Longrightarrow> r = None \<and> db' = settle_previous current (db\<lparr>watermark := Some current\<rparr>)"
    and v: "v \<Longrightarrow> (r, db') = plan_session P ident current parsed (settle_previous current (db\<lparr>watermark := Some current\<rparr>))"
  let ?db1 = "settle_previous current (db\<lparr>watermark := Some current\<rparr>)"
  have "budget_ok ?db1" using assms(1) by (simp add: budget_settle)
  moreover have "db' = ?db1 \<or> db' = snd (plan_session P ident current parsed ?db1)"
    using u v by (cases v) (auto dest: arg_cong [of _ _ snd])
  ultimately show ?thesis using budget_plan_session by auto
qed

section \<open>From the plan to the claim\<close>

lemma plan_latest_SomeD:
  assumes "plan_latest P ident current latest age db = (Some row, db')"
  shows "age \<le> max_lateness P * second_us" and "slot_by_id latest db' = Some row"
    and "s_status row \<notin> terminal_slots \<union> {RUNNING, EXPORTING, EXPORTED}"
    and "\<not> retry_blocked current (max_attempts P) (cooldown_seconds P) (previous_attempt latest db')"
  using assms by (auto simp: plan_latest_def Let_def split: if_splits option.splits)

lemma plan_session_SomeD:
  assumes "plan_session P ident current parsed db = (Some row, db')"
  obtains s t db2 where "(s, t) \<in> set parsed" and "0 \<le> current - shanghai_instant (local_date current) t"
    and "plan_latest P ident current (local_date current, s) (current - shanghai_instant (local_date current) t) db2 = (Some row, db')"
proof -
  let ?due = "due_slots (local_date current) current (sort_key fst parsed)"
  have ne: "?due \<noteq> []" using assms by (auto simp: plan_session_def Let_def)
  obtain latest age where l: "last ?due = (latest, age)" by (cases "last ?due")
  with ne have "(latest, age) \<in> set ?due" by (metis last_in_set)
  then obtain s t where st: "(s, t) \<in> set parsed" "latest = (local_date current, s)"
    "age = current - shanghai_instant (local_date current) t" "0 \<le> age" by (auto simp: due_slots_def)
  from assms ne l obtain db2 where "plan_latest P ident current latest age db2 = (Some row, db')"
    by (auto simp: plan_session_def Let_def)
  with st that show ?thesis by blast
qed

lemma plan_due_SomeD:
  assumes "plan_due P now v i ss db = Inr (Some row, db')"
  obtains current ident s t where "now = Aware current" and "identity_of i = Inr ident"
    and "parse_time s = Inr t" and "0 \<le> current - shanghai_instant (local_date current) t"
    and "current - shanghai_instant (local_date current) t \<le> max_lateness P * second_us"
    and "slot_by_id (local_date current, s) db' = Some row"
    and "s_status row \<notin> terminal_slots \<union> {RUNNING, EXPORTING, EXPORTED}"
    and "\<not> retry_blocked current (max_attempts P) (cooldown_seconds P) (previous_attempt (local_date current, s) db')"
    and "1 \<le> max_attempts P" and "max_attempts P \<le> 5" and "0 \<le> cooldown_seconds P" and "cooldown_seconds P \<le> 3600"
    and "v"
  using assms
proof (rule plan_due_cases)
  fix current ident parsed
  assume now: "now = Aware current" and i: "identity_of i = Inr ident" and parsed: "parse_slots ss = Inr parsed"
    and b: "1 \<le> max_attempts P" "max_attempts P \<le> 5" "0 \<le> cooldown_seconds P" "cooldown_seconds P \<le> 3600"
    and u: "\<not> v \<Longrightarrow> Some row = None \<and> db' = settle_previous current (db\<lparr>watermark := Some current\<rparr>)"
    and v: "v \<Longrightarrow> (Some row, db') = plan_session P ident current parsed (settle_previous current (db\<lparr>watermark := Some current\<rparr>))"
  have vt: v using u by blast
  from v [OF vt, symmetric] show ?thesis
  proof (rule plan_session_SomeD)
    fix s t db2
    assume st: "(s, t) \<in> set parsed" "0 \<le> current - shanghai_instant (local_date current) t"
      and pl: "plan_latest P ident current (local_date current, s) (current - shanghai_instant (local_date current) t) db2 = (Some row, db')"
    have "parse_time s = Inr t" using parse_slots_timed [OF parsed st(1)] by simp
    from that [OF now i this st(2) plan_latest_SomeD [OF pl] b vt] show ?thesis .
  qed
qed

lemma claimable_status:
  "st \<in> slot_states \<Longrightarrow> st \<notin> terminal_slots \<union> {RUNNING, EXPORTING, EXPORTED} \<Longrightarrow> st \<in> {PENDING, FAILED, INTERRUPTED}"
  by (auto simp: slot_states_def)

lemma claim_after_plan:
  assumes ok: "core db" "stamps_ok db" "slots_ok db" and p: "plan_due P now v i ss db = Inr (Some row, db')"
    and quiet: "\<forall>a \<in> set (attempts db'). a_status a \<noteq> RUNNING" and new: "attempt_by_id aid db' = None"
  shows "\<exists>a db''. claim P aid (s_id row) now i True db' = Inr ((a, manifest_of aid db''), db'') \<and> a \<in> set (attempts db'')
           \<and> a_id a = aid \<and> a_slot a = s_id row \<and> a_status a = RUNNING"
  using p
proof (rule plan_due_SomeD)
  fix current ident s t
  assume now: "now = Aware current" and i: "identity_of i = Inr ident" and t: "parse_time s = Inr t"
    and age: "0 \<le> current - shanghai_instant (local_date current) t"
      "current - shanghai_instant (local_date current) t \<le> max_lateness P * second_us"
    and row: "slot_by_id (local_date current, s) db' = Some row"
    and st: "s_status row \<notin> terminal_slots \<union> {RUNNING, EXPORTING, EXPORTED}"
    and nb: "\<not> retry_blocked current (max_attempts P) (cooldown_seconds P) (previous_attempt (local_date current, s) db')"
    and b: "1 \<le> max_attempts P" "max_attempts P \<le> 5" "0 \<le> cooldown_seconds P" "cooldown_seconds P \<le> 3600"
  have core': "core db'" by (rule core_plan_due [OF ok(1) p])
  have slots': "slots_ok db'" by (rule slots_ok_keep [OF ok(3) keep_plan_due [OF p]])
  obtain c2 where "now = Aware c2" "fresh c2 db'" using fresh_plan_due [OF ok(2) p] by blast
  then have fr: "fresh current db'" using now by simp
  have r: "row \<in> set (slots db')" "s_id row = (local_date current, s)" using slot_by_idD [OF row] by auto
  then have name: "s_session row = local_date current" "s_slot row = s"
    using core' refs_okD(1) [of db' row] by (auto simp: core_ok_def)
  have "s_status row \<in> {PENDING, FAILED, INTERRUPTED}" using slots' r(1) st claimable_status by (simp add: slots_ok_def)
  moreover have "observe_clock current db' = Inr db'" using fr by (simp add: observe_clock_def fresh_def)
  moreover have "forward (s_updated_at row) current = Inr ()" using fr r(1) by (auto simp: fresh_def stamped_def forward_def)
  ultimately show ?thesis
    using i t age row nb b quiet new r(2)
    by (auto simp: claim_def now name Let_def retry_blocked_def next_attempt_no_def attempt_view_def raise_if_def
        split: option.splits)
qed

section \<open>Replay\<close>

lemma replay_loop_result:
  assumes "replay_loop R ident current rows db = (Some v, db')"
    and "set rows \<subseteq> set (attempts db)" and "distinct (map a_id rows)"
  shows "\<exists>row \<in> set rows. row \<in> set (attempts db') \<and> v = attempt_view db' row
     \<and> (\<exists>slot. slot_by_id (a_slot row) db' = Some slot \<and> s_session slot = local_date current
          \<and> current - s_planned_at slot \<le> r_lateness R * second_us
          \<and> replay_ready R ident current row (current - s_planned_at slot) db')
     \<and> (\<exists>x. a_expires_at row = Some x \<and> current < x)
     \<and> int (length (failed_uploads (a_id row) db')) \<le> max_retries R"
  using assms
proof (induction rows arbitrary: db)
  case (Cons row rows)
  have stay: "set rows \<subseteq> set (attempts (finish_export row st sst rsn current db))" for st sst rsn
  proof
    fix b assume "b \<in> set rows"
    then show "b \<in> set (attempts (finish_export row st sst rsn current db))"
      using Cons.prems by (intro finish_export_other) (auto simp: image_iff)
  qed
  show ?case
  proof (cases "slot_by_id (a_slot row) db")
    case None
    then show ?thesis using Cons.IH [of db] Cons.prems by simp
  next
    case (Some slot)
    consider (late) "s_session slot \<noteq> local_date current \<or> r_lateness R * second_us < current - s_planned_at slot
           \<or> (case a_expires_at row of None \<Rightarrow> True | Some x \<Rightarrow> x \<le> current)"
      | (spent) "\<not> (s_session slot \<noteq> local_date current \<or> r_lateness R * second_us < current - s_planned_at slot
           \<or> (case a_expires_at row of None \<Rightarrow> True | Some x \<Rightarrow> x \<le> current))"
         "max_retries R + 1 \<le> int (length (failed_uploads (a_id row) db))"
      | (ready) "\<not> (s_session slot \<noteq> local_date current \<or> r_lateness R * second_us < current - s_planned_at slot
           \<or> (case a_expires_at row of None \<Rightarrow> True | Some x \<Rightarrow> x \<le> current))"
         "\<not> max_retries R + 1 \<le> int (length (failed_uploads (a_id row) db))"
         "replay_ready R ident current row (current - s_planned_at slot) db"
      | (skip) "\<not> (s_session slot \<noteq> local_date current \<or> r_lateness R * second_us < current - s_planned_at slot
           \<or> (case a_expires_at row of None \<Rightarrow> True | Some x \<Rightarrow> x \<le> current))"
         "\<not> max_retries R + 1 \<le> int (length (failed_uploads (a_id row) db))"
         "\<not> replay_ready R ident current row (current - s_planned_at slot) db"
      by blast
    then show ?thesis
    proof cases
      case late
      then show ?thesis using Cons.IH [OF _ stay] Cons.prems Some by (simp add: Let_def)
    next
      case spent
      then show ?thesis using Cons.IH [OF _ stay] Cons.prems Some by (simp add: Let_def)
    next
      case ready
      then show ?thesis using Cons.prems Some by (simp add: Let_def) (auto split: option.splits)
    next
      case skip
      then show ?thesis using Cons.IH [of db] Cons.prems Some by (simp add: Let_def)
    qed
  qed
qed simp

section \<open>Recovery and repetition\<close>

lemma reachable_forward:
  assumes "stamps_ok db" and "\<forall>w. watermark db = Some w \<longrightarrow> w \<le> current"
  shows "a \<in> set (attempts db) \<Longrightarrow> forward (a_updated_at a) current = Inr ()"
    and "s \<in> set (slots db) \<Longrightarrow> forward (s_updated_at s) current = Inr ()"
    and "g \<in> set (diagnostics db) \<Longrightarrow> forward (g_updated_at g) current = Inr ()"
  using fresh_observed [OF assms] by (auto simp: fresh_def stamped_def forward_def)

lemma recover_total:
  assumes c: "core db" and st: "stamps_ok db" and w: "\<forall>w. watermark db = Some w \<longrightarrow> w \<le> current"
  shows "\<exists>n db'. recover_interrupted (Aware current) True db = Inr (n, db')"
proof -
  have o: "observe_clock current db = Inr (db\<lparr>watermark := Some current\<rparr>)"
    using w by (auto simp: observe_clock_def split: option.splits)
  have "\<exists>db1. foldr_result (interrupt_attempt current) (filter (\<lambda>a. a_status a = RUNNING) (attempts db))
      (db\<lparr>watermark := Some current\<rparr>) = Inr db1"
    using running_rows [OF c]
  proof
    assume "\<exists>a. filter (\<lambda>a. a_status a = RUNNING) (attempts db) = [a]"
    then obtain a where eq: "filter (\<lambda>a. a_status a = RUNNING) (attempts db) = [a]" by blast
    then have "a \<in> set (attempts db)" by (auto dest: filter_eq_ConsD)
    with reachable_forward(1) [OF st w] eq show ?thesis by (simp add: interrupt_attempt_def)
  qed simp
  then show ?thesis by (auto simp: recover_interrupted_def o Let_def)
qed

lemma recover_quiet:
  assumes c: "core db" and r: "recover_interrupted now lock db = Inr (n, db')"
  shows "\<forall>a \<in> set (attempts db'). a_status a \<noteq> RUNNING"
    and "\<forall>a \<in> set (attempts db'). a_status a = EXPORTED \<longrightarrow> (\<forall>j \<in> set (jobs db'). j_attempt j = a_id a \<longrightarrow> j_status j \<noteq> JRunning)"
proof -
  from r show "\<forall>a \<in> set (attempts db'). a_status a \<noteq> RUNNING"
  proof (rule recover_cases)
    fix current db1
    assume f: "foldr_result (interrupt_attempt current) (filter (\<lambda>a. a_status a = RUNNING) (attempts db))
           (db\<lparr>watermark := Some current\<rparr>) = Inr db1" and db': "db' = interrupt_exported_jobs current db1"
    have "\<forall>a \<in> set (attempts db1). a_status a \<noteq> RUNNING"
      using running_rows [OF c]
    proof
      assume "filter (\<lambda>a. a_status a = RUNNING) (attempts db) = []"
      with f show ?thesis by (auto simp: filter_empty_conv)
    next
      assume "\<exists>a. filter (\<lambda>a. a_status a = RUNNING) (attempts db) = [a]"
      then obtain a where eq: "filter (\<lambda>a. a_status a = RUNNING) (attempts db) = [a]" by blast
      have "b = a" if "b \<in> set (attempts db)" "a_status b = RUNNING" for b
      proof -
        have "b \<in> set (filter (\<lambda>a. a_status a = RUNNING) (attempts db))" using that by simp
        then show ?thesis unfolding eq by simp
      qed
      with f eq show ?thesis by (auto simp: interrupt_attempt_def elim!: in_upd_whereE)
    qed
    then show ?thesis by (simp add: db' interrupt_exported_jobs_def)
  qed
  from r show "\<forall>a \<in> set (attempts db'). a_status a = EXPORTED \<longrightarrow> (\<forall>j \<in> set (jobs db'). j_attempt j = a_id a \<longrightarrow> j_status j \<noteq> JRunning)"
    by (rule recover_cases) (auto simp: interrupt_exported_jobs_def elim!: in_upd_whereE)
qed

lemma attempt_by_id_upd:
  assumes "\<And>a. a_id (f a) = a_id a"
  shows "attempt_by_id aid (db\<lparr>attempts := upd_where P f (attempts db), slots := S\<rparr>)
     = map_option (\<lambda>a. if P a then f a else a) (attempt_by_id aid db)"
  using assms by (simp add: attempt_by_id_def row_by_upd_where)

text \<open>What is stored after an export.\<close>

lemma exported_row:
  assumes act: "a_status row \<in> active" and row: "attempt_by_id aid db = Some row"
    and mf: "\<And>stored. manifest_of aid db = Some stored \<Longrightarrow> json_dumps E stored = Inr (x_encoded x)"
    and m: "json_dumps E m = Inr (x_encoded x)"
    and put: "put_export aid m fl current EXPORTED x row db = Inr db1"
  shows "\<exists>row1 stored. attempt_by_id aid db1 = Some row1 \<and> a_status row1 = EXPORTED \<and> a_code_sha row1 = a_code_sha row
      \<and> a_config_hash row1 = a_config_hash row \<and> a_scope_hash row1 = a_scope_hash row
      \<and> a_bundle_id row1 = Some (x_bundle_id x) \<and> a_bundle_file row1 = Some fl
      \<and> manifest_of aid db1 = Some stored \<and> json_dumps E stored = Inr (x_encoded x) \<and> jobs db1 = jobs db"
  using put
proof (cases rule: put_export_cases)
  case same
  have "manifest_of aid db1 = (case manifest_of aid db of None \<Rightarrow> Some m | Some v \<Rightarrow> Some v)"
    unfolding same(5) by (simp add: manifest_store split: option.splits)
  moreover have "attempt_by_id aid db1 = Some row" using row by (simp add: same(5) attempt_by_id_def)
  ultimately show ?thesis using same(2-5) mf m by (cases "manifest_of aid db") auto
next
  case (export db2)
  have "manifest_of aid db1 = (case manifest_of aid db of None \<Rightarrow> Some m | Some v \<Rightarrow> Some v)"
    unfolding export(3) export(2) by (simp add: manifest_of_def manifest_store [unfolded manifest_of_def] split: option.splits)
  moreover have "attempt_by_id aid db1 = Some (set_exported EXPORTED current fl x row)"
    using row attempt_by_idD [OF row] unfolding export(3) export(2) attempt_by_id_def
    by (simp add: row_by_upd_where set_exported_def)
  moreover have "jobs db1 = jobs db" by (simp add: export)
  ultimately show ?thesis using mf m by (cases "manifest_of aid db") (auto simp: set_exported_def)
qed

lemma export_repeats:
  assumes st: "stamps_ok db" and r: "record_export E aid m fl (Aware t) EXPORTED db = Inr db1"
    and t: "t \<le> t'" and x: "export_facts_of E m fl t' = Inr x'"
  shows "record_export E aid m fl (Aware t') EXPORTED db1 = Inr (db1\<lparr>watermark := Some t'\<rparr>)"
  using r
proof (rule record_export_cases)
  fix current x row
  assume now: "Aware t = Aware current" and facts: "export_facts_of E m fl current = Inr x"
    and row: "attempt_by_id aid db = Some row" and act: "a_status row \<in> active"
    and ids: "pget ''code_sha'' m = PStr (a_code_sha row)" "pget ''config_hash'' m = PStr (a_config_hash row)"
    and sc: "scope_matches E (pget ''universe'' m) (a_scope_hash row) = Inr True"
    and mf: "\<And>stored. manifest_of aid db = Some stored \<Longrightarrow> json_dumps E stored = Inr (x_encoded x)"
    and ln: "\<And>context. row_by job_key (aid, ''execution_contract'') (jobs db) = Some context \<Longrightarrow> lineage_matches context m"
    and put: "put_export aid m fl current EXPORTED x row (db\<lparr>watermark := Some current\<rparr>) = Inr db1"
  have same: "x_bundle_id x' = x_bundle_id x" "x_encoded x' = x_encoded x"
    using export_facts_ofD(1,2) [OF facts] export_facts_ofD(1,2) [OF x] by simp_all
  obtain row1 stored where row1: "attempt_by_id aid db1 = Some row1" "a_status row1 = EXPORTED" "a_code_sha row1 = a_code_sha row"
    "a_config_hash row1 = a_config_hash row" "a_scope_hash row1 = a_scope_hash row"
    "a_bundle_id row1 = Some (x_bundle_id x)" "a_bundle_file row1 = Some fl"
    and stored: "manifest_of aid db1 = Some stored" "json_dumps E stored = Inr (x_encoded x)" and jobs: "jobs db1 = jobs db"
    using exported_row [OF act _ _ export_facts_ofD(2) [OF facts] put] row mf by auto
  have fr: "fresh t db1" using fresh_record_export [OF st r] by auto
  then have w: "observe_clock t' db1 = Inr (db1\<lparr>watermark := Some t'\<rparr>)" using t by (simp add: observe_clock_def fresh_def)
  have "forward (a_updated_at row1) t' = Inr ()"
    using fr attempt_by_idD [OF row1(1)] t by (fastforce simp: fresh_def stamped_def forward_def)
  then show ?thesis
    using x w row1 ids sc stored jobs ln same
    by (auto simp: record_export_def put_export_def store_manifest_def raise_if_def exporting_def split: option.splits)
qed

lemma numbered_bound:
  assumes "numbered db"
  shows "length (filter (\<lambda>a. a_slot a = sid) (attempts db)) \<le> 5"
proof -
  let ?as = "filter (\<lambda>a. a_slot a = sid) (attempts db)"
  have "distinct (map attempt_key ?as)" using assms by (simp add: numbered_def distinct_map_filter)
  then have d: "distinct (map a_no ?as)" by (auto simp: distinct_map inj_on_def)
  have "set (map a_no ?as) \<subseteq> {1..5}" using assms by (auto simp: numbered_def)
  then have "card (set (map a_no ?as)) \<le> card {1..5::int}" by (rule card_mono [rotated]) simp
  then show ?thesis using distinct_card [OF d] by simp
qed

text \<open>Every successful call has passed the watermark.\<close>

lemma watermark_forward:
  assumes s: "ledger_step E db db'" and c: "core db" and st: "stamps_ok db"
  shows "\<exists>w'. watermark db' = Some w' \<and> stamped w' db' \<and> (case watermark db of None \<Rightarrow> True | Some w \<Rightarrow> w \<le> w')"
proof -
  obtain w' where fr: "fresh w' db'" using watermark_step [OF s c st] by blast
  have "case watermark db of None \<Rightarrow> True | Some w \<Rightarrow> w \<le> w'"
    using s
  proof (cases rule: ledger_step.cases)
    case (plan P now v i ss r)
    then show ?thesis using fresh_plan_due [OF st plan] fr by (auto elim!: plan_due_cases simp: fresh_def split: option.splits)
  next
    case (claim P aid sid now i lock row)
    then show ?thesis using fresh_claim [OF st claim] fr by (auto elim!: claim_cases simp: fresh_def split: option.splits)
  next
    case (recover now lock n)
    then show ?thesis using fresh_recover [OF c st recover] fr by (auto elim!: recover_cases simp: fresh_def split: option.splits)
  next
    case (job aid name st now run req details)
    then show ?thesis using fr by (auto elim!: record_job_cases simp: fresh_def split: option.splits)
  next
    case (diagnostic aid ph sta now dur et rsn)
    then show ?thesis using fresh_record_diagnostic [OF st diagnostic] fr
      by (auto elim!: record_diagnostic_cases simp: fresh_def split: option.splits)
  next
    case (export_intent aid m fl now)
    then show ?thesis using fresh_record_export [OF st export_intent [unfolded mark_export_intent_def]] fr
      by (auto elim!: record_export_cases simp: mark_export_intent_def fresh_def split: option.splits)
  next
    case (export aid m fl now)
    then show ?thesis using fresh_record_export [OF st export [unfolded mark_export_def]] fr
      by (auto elim!: record_export_cases simp: mark_export_def fresh_def split: option.splits)
  next
    case (quarantine aid rsn now)
    then show ?thesis using fresh_quarantine [OF st quarantine] fr by (auto elim!: quarantine_cases simp: fresh_def split: option.splits)
  next
    case (delivered aid m receipt now)
    then show ?thesis using fr by (auto elim!: mark_delivered_cases simp: fresh_def split: option.splits)
  next
    case (failed aid rsn now)
    then show ?thesis using fr by (auto elim!: fail_attempt_cases simp: fresh_def split: option.splits)
  next
    case (replay R now i v)
    then show ?thesis using fresh_pending_replay [OF c st replay] fr by (auto elim!: pending_replay_cases simp: fresh_def split: option.splits)
  qed
  with fr show ?thesis by (auto simp: fresh_def)
qed

section \<open>A run\<close>

text \<open>
  A day of one slot: planned, claimed, exported, delivered. The library functions are replaced by
  constant ones; the run shows that the hypotheses of the theorems below can hold.
\<close>

definition sample_identity :: pyval where
  "sample_identity = PDict [(''code_sha'', PStr (replicate 40 (CHR ''b''))), (''config_hash'', PStr sample_hash),
     (''scope_hash'', PStr sample_hash)]"

definition sample_manifest :: pyval where
  "sample_manifest = PDict [(''contract_version'', PStr ''local-display-v2''), (''sequence'', PInt 7),
     (''expires_at'', PStr ''T1''), (''code_sha'', PStr (replicate 40 (CHR ''b''))), (''config_hash'', PStr sample_hash),
     (''universe'', PList [PStr ''510300''])]"

abbreviation sample_plan :: "int \<Rightarrow> int \<Rightarrow> ledger \<Rightarrow> (slot_row option \<times> ledger) result" where
  "sample_plan h m \<equiv> plan_due default_policy (clock_at h m) True sample_identity [''09:35'', ''10:00'']"

abbreviation sample_claim :: "ledger \<Rightarrow> ((attempt_row \<times> pyval option) \<times> ledger) result" where
  "sample_claim \<equiv> claim default_policy ''u1'' (20000, ''10:00'') (clock_at 10 2) sample_identity True"

abbreviation sample_export :: "int \<Rightarrow> int \<Rightarrow> ledger \<Rightarrow> ledger result" where
  "sample_export h m \<equiv> mark_export sample_env ''u1'' sample_manifest ''bundle_7.json'' (clock_at h m)"

abbreviation sample_deliver :: "ledger \<Rightarrow> ledger result" where
  "sample_deliver \<equiv> mark_delivered sample_env ''u1'' sample_manifest sample_receipt (clock_at 10 5)"

definition planned_db :: ledger where
  "planned_db = snd (projr (sample_plan 10 1 empty_ledger))"

definition claimed_db :: ledger where
  "claimed_db = snd (projr (sample_claim planned_db))"

definition exported_db :: ledger where
  "exported_db = projr (sample_export 10 3 claimed_db)"

definition delivered_db :: ledger where
  "delivered_db = projr (sample_deliver exported_db)"

lemma sample_plan_ok: "sample_plan 10 1 empty_ledger = Inr (slot_by_id (20000, ''10:00'') planned_db, planned_db)"
proof -
  have "\<not> isl (sample_plan 10 1 empty_ledger)"
    and "fst (projr (sample_plan 10 1 empty_ledger)) = slot_by_id (20000, ''10:00'') planned_db" by code_simp+
  then show ?thesis unfolding planned_db_def by (cases "sample_plan 10 1 empty_ledger") auto
qed

lemma sample_claim_ok: "sample_claim planned_db = Inr ((hd (attempts claimed_db), None), claimed_db)"
proof -
  have "\<not> isl (sample_claim planned_db)" and "fst (projr (sample_claim planned_db)) = (hd (attempts claimed_db), None)"
    by code_simp+
  then show ?thesis unfolding claimed_db_def by (cases "sample_claim planned_db") auto
qed

lemma sample_export_ok: "sample_export 10 3 claimed_db = Inr exported_db"
proof -
  have "\<not> isl (sample_export 10 3 claimed_db)" by code_simp
  then show ?thesis unfolding exported_db_def by (cases "sample_export 10 3 claimed_db") auto
qed

lemma sample_deliver_ok: "sample_deliver exported_db = Inr delivered_db"
proof -
  have "\<not> isl (sample_deliver exported_db)" by code_simp
  then show ?thesis unfolding delivered_db_def by (cases "sample_deliver exported_db") auto
qed

lemma sample_steps:
  "ledger_step sample_env empty_ledger planned_db" "ledger_step sample_env planned_db claimed_db"
  "ledger_step sample_env claimed_db exported_db" "ledger_step sample_env exported_db delivered_db"
  by (rule ledger_step.plan [OF sample_plan_ok] ledger_step.claim [OF sample_claim_ok]
      ledger_step.export [OF sample_export_ok] ledger_step.delivered [OF sample_deliver_ok])+

lemma sample_reachable:
  "ledger_reachable sample_env empty_ledger" "ledger_reachable sample_env planned_db" "ledger_reachable sample_env claimed_db"
  "ledger_reachable sample_env exported_db" "ledger_reachable sample_env delivered_db"
proof -
  show 0: "ledger_reachable sample_env empty_ledger" by (rule reachable_from.start) simp
  show 1: "ledger_reachable sample_env planned_db" by (rule reachable_from.later [OF 0 sample_steps(1)])
  show 2: "ledger_reachable sample_env claimed_db" by (rule reachable_from.later [OF 1 sample_steps(2)])
  show 3: "ledger_reachable sample_env exported_db" by (rule reachable_from.later [OF 2 sample_steps(3)])
  show "ledger_reachable sample_env delivered_db" by (rule reachable_from.later [OF 3 sample_steps(4)])
qed

section \<open>Properties\<close>

text \<open>C1: in every reachable ledger the table keys are unique, foreign keys resolve, an active
  attempt and its slot agree, at most one attempt runs and at most one is active per slot, no
  stamp lies after the watermark, attempt numbers are unique per slot and between 1 and 5, every
  exported attempt is bound to its stored manifest, and every slot has a slot status.\<close>

theorem ledger_invariant: "ledger_reachable E db \<Longrightarrow> ledger_ok E db \<and> slots_ok db"
  using ledger_system.inv_reachable slot_system.inv_reachable by blast

theorem ledger_invariant_witness:
  "ledger_reachable sample_env delivered_db \<and> ledger_ok sample_env delivered_db \<and> slots_ok delivered_db"
  using ledger_invariant [OF sample_reachable(5)] sample_reachable(5) by blast

text \<open>C2: every call moves every stored attempt along the attempt state machine: a row keeps its
  identity, slot, number and source, config and scope hashes; its package is bound once; a row in a
  final status is frozen; only a claim adds a row.\<close>

theorem attempts_follow_state_machine:
  assumes "ledger_reachable E db" and "ledger_step E db db'"
  shows "list_all2 evolves (attempts db) (take (length (attempts db)) (attempts db'))"
  using evolve_step [OF assms(2) reachable_core [OF assms(1)]] by (simp add: attempts_evolve_def)

theorem attempts_follow_state_machine_witness:
  "list_all2 evolves (attempts exported_db) (take (length (attempts exported_db)) (attempts delivered_db))
     \<and> map a_status (attempts exported_db) = [EXPORTED] \<and> map a_status (attempts delivered_db) = [DELIVERED]"
proof -
  have "map a_status (attempts exported_db) = [EXPORTED]" "map a_status (attempts delivered_db) = [DELIVERED]" by code_simp+
  then show ?thesis using attempts_follow_state_machine [OF sample_reachable(4) sample_steps(4)] by blast
qed

text \<open>C4: a slot that is closed (delivered, superseded, failed in delivery, quarantined, or missed with
  no attempt of it still running) stays the row it is under every later sequence of calls.\<close>

theorem closed_slots_stay_closed:
  assumes "ledger_reachable E db" and "(ledger_step E)\<^sup>*\<^sup>* db db'" and "closed_slot db s"
  shows "closed_slot db' s"
  using slot_system.inv_step_stable [OF assms(2), of "\<lambda>db. closed_slot db s"] assms closed_slot_step
    slot_system.inv_reachable [OF assms(1)] by blast

theorem closed_slots_stay_closed_witness:
  "(\<exists>s. closed_slot planned_db s \<and> s_id s = (20000, ''09:35'') \<and> s_status s = SUPERSEDED \<and> closed_slot delivered_db s)"
proof -
  let ?s = "hd (slots planned_db)"
  have c: "closed_slot planned_db ?s" "s_id ?s = (20000, ''09:35'')" "s_status ?s = SUPERSEDED" by code_simp+
  have "(ledger_step sample_env)\<^sup>*\<^sup>* planned_db delivered_db"
    using sample_steps(2-4) by (meson rtranclp.rtrancl_refl rtranclp.rtrancl_into_rtrancl)
  from closed_slots_stay_closed [OF sample_reachable(2) this c(1)] c show ?thesis by blast
qed

text \<open>C3: a delivered attempt carries a receipt that names its package and manifest hash, its package is
  bound to the stored public manifest whose digest is the package identity and whose sequence is the
  number in the file name.\<close>

theorem delivered_attempt_is_bound:
  assumes "ledger_reachable E db" and "a \<in> set (attempts db)" and "a_status a = DELIVERED"
  shows "receipt_bound a \<and> (\<exists>m. manifest_of (a_id a) db = Some m \<and> package_bound E m a)"
  using reachable_packages [OF assms(1)] assms(2,3) by (auto simp: packages_ok_def row_bound_def split: option.splits)

theorem delivered_attempt_is_bound_witness:
  "receipt_bound (hd (attempts delivered_db)) \<and> (\<exists>m. manifest_of ''u1'' delivered_db = Some m \<and> package_bound sample_env m (hd (attempts delivered_db)))"
proof -
  have "hd (attempts delivered_db) \<in> set (attempts delivered_db)" "a_status (hd (attempts delivered_db)) = DELIVERED"
    "a_id (hd (attempts delivered_db)) = ''u1''" by code_simp+
  then show ?thesis using delivered_attempt_is_bound [OF sample_reachable(5), of "hd (attempts delivered_db)"] by simp
qed

text \<open>C5: planning and claiming agree: when \<^verbatim>\<open>plan_due\<close> returns a slot, nothing runs and the new
  identifier is unused, \<^verbatim>\<open>claim\<close> with the same clock, identity and policy succeeds and yields a
  running attempt of that slot.\<close>

theorem planned_slot_is_claimable:
  assumes "ledger_reachable E db" and "plan_due P now v i ss db = Inr (Some row, db')"
    and "\<forall>a \<in> set (attempts db'). a_status a \<noteq> RUNNING" and "attempt_by_id aid db' = None"
  shows "\<exists>a db''. claim P aid (s_id row) now i True db' = Inr ((a, manifest_of aid db''), db'') \<and> a \<in> set (attempts db'')
           \<and> a_id a = aid \<and> a_slot a = s_id row \<and> a_status a = RUNNING"
  by (rule claim_after_plan [OF reachable_core reachable_stamps reachable_slots assms(2-4), OF assms(1) assms(1) assms(1)])

theorem planned_slot_is_claimable_witness:
  "\<exists>row a db''. slot_by_id (20000, ''10:00'') planned_db = Some row \<and>
     claim default_policy ''u9'' (s_id row) (clock_at 10 1) sample_identity True planned_db = Inr ((a, manifest_of ''u9'' db''), db'')
     \<and> a_status a = RUNNING"
proof -
  obtain row where row: "slot_by_id (20000, ''10:00'') planned_db = Some row"
  proof -
    have "slot_by_id (20000, ''10:00'') planned_db \<noteq> None" by code_simp
    with that show thesis by auto
  qed
  have "\<forall>a \<in> set (attempts planned_db). a_status a \<noteq> RUNNING" "attempt_by_id ''u9'' planned_db = None" by code_simp+
  from planned_slot_is_claimable [OF sample_reachable(1) sample_plan_ok [unfolded row] this] row show ?thesis by blast
qed

text \<open>C6: an upload that \<^verbatim>\<open>pending_replay\<close> hands out is an exported attempt of today's session with
  the caller's identity, within the delivery window and before its expiry, with retries left, past the
  cooldown, with no upload in progress, and bound to its stored manifest.\<close>

theorem replayed_upload_is_valid:
  assumes "ledger_reachable E db" and "pending_replay R now i db = Inr (Some (a, m), db')"
  shows "a \<in> set (attempts db') \<and> a_status a = EXPORTED \<and> (\<exists>v. m = Some v \<and> package_bound E v a)
     \<and> (\<exists>current ident slot x. now = Aware current \<and> identity_of i = Inr ident
          \<and> slot_by_id (a_slot a) db' = Some slot \<and> s_session slot = local_date current
          \<and> current - s_planned_at slot \<le> r_lateness R * second_us \<and> a_expires_at a = Some x \<and> current < x
          \<and> replay_ready R ident current a (current - s_planned_at slot) db')
     \<and> int (length (failed_uploads (a_id a) db')) \<le> max_retries R"
  using assms(2)
proof (rule pending_replay_cases)
  fix current ident
  assume now: "now = Aware current" and i: "identity_of i = Inr ident"
    and eq: "(Some (a, m), db') = replay_loop R ident current (replay_rows (db\<lparr>watermark := Some current\<rparr>)) (db\<lparr>watermark := Some current\<rparr>)"
  have rows: "set (replay_rows (db\<lparr>watermark := Some current\<rparr>)) \<subseteq> set (attempts (db\<lparr>watermark := Some current\<rparr>))"
    "distinct (map a_id (replay_rows (db\<lparr>watermark := Some current\<rparr>)))"
    using replay_rows_facts [of "db\<lparr>watermark := Some current\<rparr>"] core_keys [OF reachable_core [OF assms(1)]] by simp_all
  from replay_loop_result [OF eq [symmetric] rows] obtain slot x where
    a: "a \<in> set (replay_rows (db\<lparr>watermark := Some current\<rparr>))" "a \<in> set (attempts db')" "m = manifest_of (a_id a) db'"
    and s: "slot_by_id (a_slot a) db' = Some slot" "s_session slot = local_date current"
      "current - s_planned_at slot \<le> r_lateness R * second_us" "a_expires_at a = Some x" "current < x"
      "replay_ready R ident current a (current - s_planned_at slot) db'" "int (length (failed_uploads (a_id a) db')) \<le> max_retries R"
    by (auto simp: attempt_view_def)
  have st: "a_status a = EXPORTED" using replay_rows_facts(2) [of "db\<lparr>watermark := Some current\<rparr>"] a(1) by blast
  have "packages_ok E db'"
    using packages_fade [OF reachable_packages [OF assms(1)] fade_pending_replay [OF reachable_core [OF assms(1)] assms(2)]] .
  then have "\<exists>v. m = Some v \<and> package_bound E v a"
    using a(2,3) st by (auto simp: packages_ok_def row_bound_def split: option.splits)
  with now i a(2) st s show ?thesis by blast
qed

theorem replayed_upload_is_valid_witness:
  "\<exists>a m db'. pending_replay default_replay (clock_at 10 4) sample_identity exported_db = Inr (Some (a, m), db')
     \<and> a_status a = EXPORTED \<and> (\<exists>v. m = Some v \<and> package_bound sample_env v a)"
proof -
  let ?r = "pending_replay default_replay (clock_at 10 4) sample_identity exported_db"
  have "(case ?r of Inr (Some v, db') \<Rightarrow> True | _ \<Rightarrow> False)" by code_simp
  then obtain a m db' where r: "?r = Inr (Some (a, m), db')" by (auto split: sum.splits prod.splits option.splits)
  from replayed_upload_is_valid [OF sample_reachable(4) r] r show ?thesis by blast
qed

text \<open>C7: after planning no exported attempt is left whose upload has failed three times: its delivery
  failure has become final before a newer slot can hide it.\<close>

theorem plan_closes_exhausted_uploads:
  assumes "ledger_reachable E db" and "plan_due P now v i ss db = Inr (r, db')"
    and "a \<in> set (attempts db')" and "a_status a = EXPORTED"
  shows "length (failed_uploads (a_id a) db') < 3"
  using budget_plan_due [OF reachable_core [OF assms(1)] assms(2)] assms(3,4) by (auto simp: budget_ok_def exhausted_def)

theorem plan_closes_exhausted_uploads_witness:
  "\<exists>r db'. sample_plan 10 4 exported_db = Inr (r, db') \<and> hd (attempts db') \<in> set (attempts db')
     \<and> a_status (hd (attempts db')) = EXPORTED \<and> length (failed_uploads (a_id (hd (attempts db'))) db') < 3"
proof -
  let ?r = "sample_plan 10 4 exported_db"
  have "(case ?r of Inr (_, db') \<Rightarrow> attempts db' \<noteq> [] \<and> a_status (hd (attempts db')) = EXPORTED | _ \<Rightarrow> False)" by code_simp
  then obtain r db' where r: "?r = Inr (r, db')" and a: "attempts db' \<noteq> []" "a_status (hd (attempts db')) = EXPORTED"
    by (auto split: sum.splits prod.splits)
  from plan_closes_exhausted_uploads [OF sample_reachable(4) r, of "hd (attempts db')"] r a show ?thesis by auto
qed

text \<open>C25: recovery always succeeds under the lock with a clock that has not gone back, and leaves no
  running attempt and no running job of an exported attempt.\<close>

theorem recovery_succeeds_and_clears:
  assumes "ledger_reachable E db" and "\<forall>w. watermark db = Some w \<longrightarrow> w \<le> current"
  shows "\<exists>n db'. recover_interrupted (Aware current) True db = Inr (n, db')
     \<and> (\<forall>a \<in> set (attempts db'). a_status a \<noteq> RUNNING)
     \<and> (\<forall>a \<in> set (attempts db'). a_status a = EXPORTED \<longrightarrow>
          (\<forall>j \<in> set (jobs db'). j_attempt j = a_id a \<longrightarrow> j_status j \<noteq> JRunning))"
  using recover_total [OF reachable_core reachable_stamps assms(2), OF assms(1) assms(1)]
    recover_quiet [OF reachable_core [OF assms(1)]] by blast

theorem recovery_succeeds_and_clears_witness:
  "\<exists>n db'. recover_interrupted (clock_at 11 0) True claimed_db = Inr (n, db')
     \<and> list_all (\<lambda>a. a_status a \<noteq> RUNNING) (attempts db')"
proof -
  have w: "watermark claimed_db = Some (shanghai_instant 20000 (hhmm 10 2))" by code_simp
  have "shanghai_instant 20000 (hhmm 10 2) \<le> shanghai_instant 20000 (hhmm 11 0)" by code_simp
  with w have "\<forall>w. watermark claimed_db = Some w \<longrightarrow> w \<le> shanghai_instant 20000 (hhmm 11 0)" by simp
  from recovery_succeeds_and_clears [OF sample_reachable(3) this] show ?thesis
    unfolding clock_at_def list_all_iff by blast
qed

text \<open>A job that has ended keeps its row, outcome and details included, under every call.\<close>

theorem ended_jobs_are_final:
  assumes "ledger_reachable E db" and "ledger_step E db db'" and "j \<in> set (jobs db)" and "j_status j \<noteq> JRunning"
  shows "j \<in> set (jobs db')"
  using jobs_step [OF assms(2) reachable_core [OF assms(1)]] assms(3,4) by (simp add: jobs_keep_def)

theorem ended_jobs_are_final_witness:
  "\<exists>db1 db2 j. record_job sample_env ''u1'' ''projection'' ''succeeded'' (clock_at 10 3) None True (PDict []) claimed_db = Inr db1
     \<and> fail_attempt ''u1'' ''export_failed'' (clock_at 10 4) db1 = Inr db2 \<and> j \<in> set (jobs db1) \<and> j \<in> set (jobs db2)"
proof -
  let ?r1 = "record_job sample_env ''u1'' ''projection'' ''succeeded'' (clock_at 10 3) None True (PDict []) claimed_db"
  let ?r2 = "fail_attempt ''u1'' ''export_failed'' (clock_at 10 4) (projr ?r1)"
  have "\<not> isl ?r1" "\<not> isl ?r2" "jobs (projr ?r1) \<noteq> []" "j_status (hd (jobs (projr ?r1))) \<noteq> JRunning" by code_simp+
  then obtain db1 db2 where r: "?r1 = Inr db1" "?r2 = Inr db2" "fail_attempt ''u1'' ''export_failed'' (clock_at 10 4) db1 = Inr db2"
    and j: "hd (jobs db1) \<in> set (jobs db1)" "j_status (hd (jobs db1)) \<noteq> JRunning"
    by (cases ?r1; cases ?r2) auto
  have "ledger_reachable sample_env db1"
    by (rule reachable_from.later [OF sample_reachable(3) ledger_step.job [OF r(1)]])
  from ended_jobs_are_final [OF this ledger_step.failed [OF r(3)] j] r j(1) show ?thesis by blast
qed

text \<open>Marking the same export again, at a later time before its expiry, changes nothing but the
  observed clock.\<close>

theorem mark_export_repeats:
  assumes "ledger_reachable E db" and "mark_export E aid m fl (Aware t) db = Inr db1"
    and "t \<le> t'" and "export_facts_of E m fl t' = Inr x"
  shows "mark_export E aid m fl (Aware t') db1 = Inr (db1\<lparr>watermark := Some t'\<rparr>)"
  using export_repeats [OF reachable_stamps [OF assms(1)] _ assms(3,4)] assms(2) unfolding mark_export_def by blast

theorem mark_export_repeats_witness:
  "sample_export 11 0 exported_db = Inr (exported_db\<lparr>watermark := Some (shanghai_instant 20000 (hhmm 11 0))\<rparr>)"
proof -
  let ?x = "export_facts_of sample_env sample_manifest ''bundle_7.json'' (shanghai_instant 20000 (hhmm 11 0))"
  have "\<not> isl ?x" by code_simp
  then obtain x where x: "?x = Inr x" by (cases ?x) auto
  have le: "shanghai_instant 20000 (hhmm 10 3) \<le> shanghai_instant 20000 (hhmm 11 0)" by code_simp
  show ?thesis
    using mark_export_repeats [OF sample_reachable(3) sample_export_ok [unfolded clock_at_def] le x]
    unfolding clock_at_def .
qed

text \<open>The durable clock never goes back: every call that succeeds moves the watermark forward, and no
  stamp of a slot, an attempt or a diagnostic lies after it.\<close>

theorem durable_clock_is_monotone:
  assumes "ledger_reachable E db" and "ledger_step E db db'"
  shows "\<exists>w'. watermark db' = Some w' \<and> stamped w' db' \<and> (case watermark db of None \<Rightarrow> True | Some w \<Rightarrow> w \<le> w')"
  using watermark_forward [OF assms(2) reachable_core reachable_stamps, OF assms(1) assms(1)] .

theorem durable_clock_is_monotone_witness:
  "\<exists>w'. watermark delivered_db = Some w' \<and> stamped w' delivered_db"
  using durable_clock_is_monotone [OF sample_reachable(4) sample_steps(4)] by blast

text \<open>C39: a slot never has more than five attempts.\<close>

theorem attempts_per_slot_bounded:
  assumes "ledger_reachable E db"
  shows "length (filter (\<lambda>a. a_slot a = sid) (attempts db)) \<le> 5"
  using numbered_bound [OF ledger_okD(3) [OF ledger_system.inv_reachable [OF assms]]] .

theorem attempts_per_slot_bounded_witness:
  "length (filter (\<lambda>a. a_slot a = (20000, ''10:00'')) (attempts delivered_db)) \<le> 5
     \<and> filter (\<lambda>a. a_slot a = (20000, ''10:00'')) (attempts delivered_db) \<noteq> []"
proof -
  have "filter (\<lambda>a. a_slot a = (20000, ''10:00'')) (attempts delivered_db) \<noteq> []" by code_simp
  then show ?thesis using attempts_per_slot_bounded [OF sample_reachable(5)] by blast
qed

end
