(* ===== verification/Sync_Domain.thy ===== *)
theory Sync_Domain
  imports Display_Contract
begin

text \<open>
  The writer lock and the disk budget of the synchronisation directory:
  \<^verbatim>\<open>LocalRunLock\<close> of \<^verbatim>\<open>app/workspace/local_schedule.py\<close> and
  \<^verbatim>\<open>app/workspace/sync_domain.py\<close>. The operating system's part is the set of exclusive
  file locks: one holder per inode, released when the holder's descriptor is closed, which
  also happens when its process exits.
\<close>

section \<open>The lock file\<close>

text \<open>
  Lock objects are numbered; \<open>fds\<close> gives the descriptor an object keeps in \<^verbatim>\<open>self._fd\<close>,
  \<open>holder\<close> the descriptor that owns the exclusive lock of the inode, \<open>next_fd\<close> a descriptor
  number never handed out.
\<close>

record run_lock_state =
  fds :: "nat \<Rightarrow> nat option"
  holder :: "nat option"
  next_fd :: nat

definition no_locks :: run_lock_state where
  "no_locks = \<lparr> fds = (\<lambda>_. None), holder = None, next_fd = 0 \<rparr>"

text \<open>\<open>opens\<close> says whether \<^verbatim>\<open>os.open\<close> of the lock path succeeds.\<close>

definition lock_acquire :: "bool \<Rightarrow> nat \<Rightarrow> run_lock_state \<Rightarrow> run_lock_state \<times> bool" where
  "lock_acquire opens i s =
     (if fds s i \<noteq> None then (s, False)
      else if \<not> opens then (s, False)
      else if holder s \<noteq> None then (s\<lparr> next_fd := Suc (next_fd s) \<rparr>, False)
      else (s\<lparr> fds := (fds s)(i := Some (next_fd s)), holder := Some (next_fd s),
              next_fd := Suc (next_fd s) \<rparr>, True))"

text \<open>\<^verbatim>\<open>os.close(fd)\<close> gives up the lock when \<open>fd\<close> is its holder.\<close>

definition os_close :: "nat \<Rightarrow> run_lock_state \<Rightarrow> run_lock_state" where
  "os_close fd s = s\<lparr> holder := (if holder s = Some fd then None else holder s) \<rparr>"

definition lock_release :: "nat \<Rightarrow> run_lock_state \<Rightarrow> run_lock_state" where
  "lock_release i s = (case fds s i of None \<Rightarrow> s
     | Some fd \<Rightarrow> os_close fd (s\<lparr> fds := (fds s)(i := None) \<rparr>))"

text \<open>
  What can happen to the lock: an object acquires or releases it, or the process that owns an
  object exits, which closes the descriptor.
\<close>

inductive lock_step :: "run_lock_state \<Rightarrow> run_lock_state \<Rightarrow> bool" where
  acquire: "lock_acquire opens i s = (t, ok) \<Longrightarrow> lock_step s t"
| release: "lock_step s (lock_release i s)"
| exit: "fds s i = Some fd \<Longrightarrow> lock_step s (os_close fd (s\<lparr> fds := (fds s)(i := None) \<rparr>))"

inductive_cases lock_stepE: "lock_step s t"

text \<open>Either nobody holds the lock, or exactly one object does and its descriptor is the holder.\<close>

definition lock_inv :: "run_lock_state \<Rightarrow> bool" where
  "lock_inv s \<longleftrightarrow> (holder s = None \<and> fds s = (\<lambda>_. None))
     \<or> (\<exists>i fd. holder s = Some fd \<and> fds s = (\<lambda>_. None)(i := Some fd))"

lemma lock_inv_close:
  assumes "lock_inv s" and "fds s i = Some fd"
  shows "lock_inv (os_close fd (s\<lparr> fds := (fds s)(i := None) \<rparr>))"
  using assms by (auto simp: lock_inv_def os_close_def split: if_splits)

lemma lock_inv_acquire: "lock_inv s \<Longrightarrow> lock_inv (fst (lock_acquire opens i s))"
  unfolding lock_inv_def lock_acquire_def by (elim disjE exE) auto

lemma lock_inv_release: "lock_inv s \<Longrightarrow> lock_inv (lock_release i s)"
  by (simp add: lock_release_def lock_inv_close split: option.splits)

lemma lock_inv_step: "lock_inv s \<Longrightarrow> lock_step s t \<Longrightarrow> lock_inv t"
  by (erule lock_stepE) (metis fst_conv lock_inv_acquire, simp_all add: lock_inv_release lock_inv_close)

interpretation lock_system: invariant_system "\<lambda>s. s = no_locks" lock_step lock_inv
proof
  show "s = no_locks \<Longrightarrow> lock_inv s" for s by (simp add: lock_inv_def no_locks_def)
qed (rule lock_inv_step)

section \<open>The domain\<close>

text \<open>
  A file below the synchronisation root is a regular file or a symbolic link; a link carries
  the bytes it resolves to, which is what \<^verbatim>\<open>read_bytes\<close> and \<^verbatim>\<open>stat\<close> see through it. The
  staging area \<^verbatim>\<open>chunks/\<close> is kept in full; all the other files of the domain's roots are
  only known by their total size and by whether a link is among them.
\<close>

datatype fentry = FRegular string | FLink string

fun fbytes :: "fentry \<Rightarrow> string" where
  "fbytes (FRegular b) = b"
| "fbytes (FLink b) = b"

fun is_flink :: "fentry \<Rightarrow> bool" where
  "is_flink (FLink _) = True"
| "is_flink (FRegular _) = False"

record staged =
  s_files :: "(string \<times> fentry) list"
  s_mtime :: int

datatype entry = Directory staged | PlainFile string | EntryLink

record sync_domain =
  entries :: "(string \<times> entry) list"
  root_link :: bool
  chunks_link :: bool
  outside_bytes :: int
  outside_link :: bool
  max_bytes :: int
  depth :: nat
  held_bytes :: int
  owner :: "nat option"

definition new_domain :: "int \<Rightarrow> sync_domain result" where
  "new_domain cap = raise_if (cap \<le> 0) (ValueError ''invalid sync domain budget'')
     (Inr \<lparr> entries = [], root_link = False, chunks_link = False, outside_bytes = 0,
       outside_link = False, max_bytes = cap, depth = 0, held_bytes = 0, owner = None \<rparr>)"

text \<open>
  \<^verbatim>\<open>for attempt in range(21)\<close>: \<open>busy attempt\<close> says that the try to lock at that attempt
  fails.
\<close>

function acquire_loop :: "(nat \<Rightarrow> bool) \<Rightarrow> nat \<Rightarrow> unit result" where
  "acquire_loop busy attempt =
     (if 21 \<le> attempt then Inr ()
      else if \<not> busy attempt then Inr ()
      else if attempt = 20 then Inl (ValueError ''sync domain writer busy'')
      else acquire_loop busy (Suc attempt))"
  by pat_completeness auto
termination by (relation "measure (\<lambda>(_, n). 21 - n)") auto

declare acquire_loop.simps [simp del]

definition with_locked ::
  "(nat \<Rightarrow> bool) \<Rightarrow> nat \<Rightarrow> (sync_domain \<Rightarrow> sync_domain \<times> 'a result) \<Rightarrow> sync_domain \<Rightarrow> sync_domain \<times> 'a result" where
  "with_locked busy me body w =
     (if depth w \<noteq> 0 \<and> owner w = Some me
      then (case body (w\<lparr> depth := depth w + 1 \<rparr>) of (w', r) \<Rightarrow> (w'\<lparr> depth := depth w' - 1 \<rparr>, r))
      else if root_link w then (w, Inl (ValueError ''unsafe sync domain root''))
      else (case acquire_loop busy 0 of
          Inl e \<Rightarrow> (w, Inl e)
        | Inr _ \<Rightarrow> (case body (w\<lparr> depth := 1, owner := Some me \<rparr>) of
            (w', r) \<Rightarrow> (w'\<lparr> depth := 0, owner := None \<rparr>, r))))"

fun entry_link :: "entry \<Rightarrow> bool" where
  "entry_link EntryLink = True"
| "entry_link (PlainFile _) = False"
| "entry_link (Directory d) = list_ex (\<lambda>(_, f). is_flink f) (s_files d)"

fun entry_size :: "entry \<Rightarrow> int" where
  "entry_size EntryLink = 0"
| "entry_size (PlainFile b) = int (length b)"
| "entry_size (Directory d) = sum_list (map (\<lambda>(_, f). int (length (fbytes f))) (s_files d))"

definition used_bytes :: "sync_domain \<Rightarrow> int result" where
  "used_bytes w =
     raise_if (root_link w \<or> chunks_link w \<or> outside_link w \<or> list_ex (\<lambda>(_, e). entry_link e) (entries w))
       (ValueError ''unsafe sync domain path'')
       (Inr (outside_bytes w + sum_list (map (\<lambda>(_, e). entry_size e) (entries w))))"

definition reserve :: "int \<Rightarrow> sync_domain \<Rightarrow> unit result" where
  "reserve extra w =
     raise_if (extra < 0) (ValueError ''sync domain capacity exceeded'')
       (bindr (used_bytes w) (\<lambda>used.
         raise_if (max_bytes w < used + held_bytes w + extra) (ValueError ''sync domain capacity exceeded'') (Inr ())))"

text \<open>\<^verbatim>\<open>with self.hold(size)\<close>: the reservation is given back however the body ends.\<close>

definition with_hold ::
  "int \<Rightarrow> (sync_domain \<Rightarrow> sync_domain \<times> 'a result) \<Rightarrow> sync_domain \<Rightarrow> sync_domain \<times> 'a result" where
  "with_hold n body w = (case reserve n w of
       Inl e \<Rightarrow> (w, Inl e)
     | Inr _ \<Rightarrow> (case body (w\<lparr> held_bytes := held_bytes w + n \<rparr>) of
         (w', r) \<Rightarrow> (w'\<lparr> held_bytes := held_bytes w' - n \<rparr>, r)))"

section \<open>Lemmas\<close>

lemma acquire_loop_cases:
  "acquire_loop busy n = Inr () \<or> acquire_loop busy n = Inl (ValueError ''sync domain writer busy'')"
proof (induction busy n rule: acquire_loop.induct)
  case (1 busy n)
  then show ?case
    by (cases "busy n"; cases "n = 20"; cases "21 \<le> n") (simp_all add: acquire_loop.simps [of busy n] acquire_loop.simps [of busy 20])
qed

lemma acquire_loop_ok: "n \<le> 20 \<Longrightarrow> acquire_loop busy n = Inr () \<longleftrightarrow> (\<exists>k. n \<le> k \<and> k \<le> 20 \<and> \<not> busy k)"
proof (induction busy n rule: acquire_loop.induct)
  case (1 busy n)
  show ?case
  proof (cases "busy n \<and> n < 20")
    case True
    then have step: "acquire_loop busy n = acquire_loop busy (Suc n)"
      by (simp add: acquire_loop.simps [of busy n])
    have "acquire_loop busy (Suc n) = Inr () \<longleftrightarrow> (\<exists>k. Suc n \<le> k \<and> k \<le> 20 \<and> \<not> busy k)"
      using True by (intro "1.IH") auto
    then show ?thesis using True step by (metis Suc_le_eq le_eq_less_or_eq)
  next
    case False
    with 1(2) show ?thesis
      by (cases "busy n"; cases "n = 20")
        (auto simp: acquire_loop.simps [of busy n] acquire_loop.simps [of busy 20] dest: le_antisym)
  qed
qed

lemma with_locked_cases:
  assumes "with_locked busy me body w = (w', r)"
  obtains (reenter) w1 where "depth w \<noteq> 0" "owner w = Some me"
      "body (w\<lparr> depth := depth w + 1 \<rparr>) = (w1, r)" "w' = w1\<lparr> depth := depth w1 - 1 \<rparr>"
  | (enter) w1 where "body (w\<lparr> depth := 1, owner := Some me \<rparr>) = (w1, r)"
      "w' = w1\<lparr> depth := 0, owner := None \<rparr>" "\<not> root_link w" "\<exists>k\<le>20. \<not> busy k"
  | (refused) e where "w' = w" "r = Inl e" "\<exists>t. e = ValueError t"
proof (cases "depth w \<noteq> 0 \<and> owner w = Some me")
  case True
  obtain w1 r1 where "body (w\<lparr> depth := depth w + 1 \<rparr>) = (w1, r1)" by fastforce
  with True assms show ?thesis by (intro that(1) [of w1]) (simp_all add: with_locked_def del: One_nat_def)
next
  case no: False
  obtain w1 r1 where body: "body (w\<lparr> depth := 1, owner := Some me \<rparr>) = (w1, r1)" by fastforce
  show ?thesis
  proof (cases "root_link w \<or> acquire_loop busy 0 \<noteq> Inr ()")
    case True
    with assms no acquire_loop_cases [of busy 0] have "w' = w \<and> (\<exists>t. r = Inl (ValueError t))"
      by (cases "root_link w") (auto simp: with_locked_def)
    then show ?thesis by (elim conjE exE) (rule that(3), auto)
  next
    case False
    with acquire_loop_ok [of 0 busy] have "\<exists>k\<le>20. \<not> busy k" by simp
    moreover have "with_locked busy me body w = (w1\<lparr> depth := 0, owner := None \<rparr>, r1)"
      unfolding with_locked_def if_not_P [OF no] using False body by (simp del: One_nat_def)
    ultimately show ?thesis using assms body False by (intro that(2) [of w1]) simp_all
  qed
qed

lemma reserve_Inr_iff:
  "reserve extra w = Inr () \<longleftrightarrow>
     0 \<le> extra \<and> (\<exists>u. used_bytes w = Inr u \<and> u + held_bytes w + extra \<le> max_bytes w)"
  by (auto simp: reserve_def not_less)

lemma entry_size_nonneg: "0 \<le> entry_size e"
  by (cases e) (auto intro!: sum_list_nonneg)

lemma used_bytes_lock [simp]:
  "used_bytes (w\<lparr> depth := d \<rparr>) = used_bytes w"
  "used_bytes (w\<lparr> owner := ow \<rparr>) = used_bytes w"
  "used_bytes (w\<lparr> held_bytes := h \<rparr>) = used_bytes w"
  by (simp_all add: used_bytes_def)

end
