(* ===== verification/Shadow_Chunks.thy ===== *)
theory Shadow_Chunks
  imports Sync_Domain
begin

text \<open>
  Chunked delivery of display bundles, \<^verbatim>\<open>app/workspace/shadow_chunks.py\<close>: splitting a
  canonical body into chunks, staging the chunks of one upload at a time below
  \<^verbatim>\<open>chunks/<upload_id>/\<close>, and the commit that reassembles them, hands the body to the
  publisher and leaves a receipt.

  An operation returns the domain it leaves behind next to its result, also when it raises:
  collected directories, a freshly made directory and a written \<^verbatim>\<open>total\<close> stay. One call reads
  the clock once; times are microseconds. The decompressor, the JSON text of a receipt and its
  parser, and SHA-256 are arguments.
\<close>

record chunk_env =
  ce_sha256 :: "string \<Rightarrow> string"
  gz_read :: "int \<Rightarrow> string \<Rightarrow> string option"
  receipt_dumps :: "pyval \<Rightarrow> string result"
  receipt_loads :: "string \<Rightarrow> pyval result"

definition chunk_max_wire_bytes :: int where "chunk_max_wire_bytes = 16 * 1024 * 1024"
definition chunk_max_decoded_bytes :: int where "chunk_max_decoded_bytes = 16 * 1024 * 1024"
definition max_total_decoded_bytes :: int where "max_total_decoded_bytes = 64 * 1024 * 1024"
definition max_chunks :: int where "max_chunks = 4"
definition staging_ttl :: int where "staging_ttl = 900 * 1000000"

lemmas chunk_limits = chunk_max_wire_bytes_def chunk_max_decoded_bytes_def
  max_total_decoded_bytes_def max_chunks_def staging_ttl_def

section \<open>The sender\<close>

definition chunk_meta :: "string \<Rightarrow> int \<Rightarrow> int \<Rightarrow> string \<Rightarrow> string" where
  "chunk_meta upload_id index tot chunk_sha256 =
     ''chunk-v1:'' @ upload_id @ '':'' @ show_int index @ '':'' @ show_int tot @ '':'' @ chunk_sha256"

text \<open>\<^verbatim>\<open>json.dumps\<close> with sorted keys; a validated upload id needs no escapes.\<close>

definition commit_body :: "string \<Rightarrow> int \<Rightarrow> string" where
  "commit_body upload_id tot =
     ''{'' @ json_string ''total'' @ '':'' @ show_int tot @ '','' @ json_string ''upload_id'' @ '':''
       @ json_string upload_id @ ''}''"

text \<open>\<^verbatim>\<open>[body[i : i + chunk_size] for i in range(0, len(body), chunk_size)]\<close>.\<close>

fun slices :: "nat \<Rightarrow> string \<Rightarrow> string list" where
  "slices n body = (if n = 0 \<or> body = [] then [] else take n body # slices n (drop n body))"

declare slices.simps [simp del]

definition split_canonical :: "int \<Rightarrow> string \<Rightarrow> string list result" where
  "split_canonical chunk_size body =
     raise_if (chunk_size \<le> 0 \<or> chunk_max_decoded_bytes < chunk_size) (ValueError ''invalid chunk size'')
     (raise_if (max_total_decoded_bytes < int (length body)) (ValueError ''bundle exceeds 64 MiB sync domain'')
     (let parts = (if slices (nat chunk_size) body = [] then [[]] else slices (nat chunk_size) body)
      in raise_if (max_chunks < int (length parts)) (ValueError ''too many chunks'') (Inr parts)))"

section \<open>Requests\<close>

definition hex64 :: "pyval \<Rightarrow> bool" where
  "hex64 v = (case v of PStr s \<Rightarrow> hex_string 64 s | _ \<Rightarrow> False)"

definition int_within :: "int \<Rightarrow> pyval \<Rightarrow> int \<Rightarrow> bool" where
  "int_within lo v hi = (case v of PInt n \<Rightarrow> lo \<le> n \<and> n \<le> hi | _ \<Rightarrow> False)"

fun as_int :: "pyval \<Rightarrow> int" where
  "as_int (PInt n) = n"
| "as_int _ = 0"

fun as_text :: "pyval \<Rightarrow> string" where
  "as_text (PStr s) = s"
| "as_text _ = []"

definition validate_ids :: "pyval \<Rightarrow> pyval \<Rightarrow> pyval \<Rightarrow> unit result" where
  "validate_ids upload_id index tot =
     raise_if (\<not> hex64 upload_id) (ChunkRejected ''invalid upload id'')
     (raise_if (\<not> int_within 1 tot max_chunks) (ChunkRejected ''invalid chunk total'')
     (raise_if (\<not> int_within 0 index (as_int tot - 1)) (ChunkRejected ''invalid chunk index'')
     (Inr ())))"

section \<open>The staging area\<close>

definition find_file :: "string \<Rightarrow> staged \<Rightarrow> fentry option" where
  "find_file n d = map_of (s_files d) n"

definition find_entry :: "string \<Rightarrow> sync_domain \<Rightarrow> entry option" where
  "find_entry n w = map_of (entries w) n"

definition put_dir :: "string \<Rightarrow> staged \<Rightarrow> sync_domain \<Rightarrow> sync_domain" where
  "put_dir n d w = w\<lparr> entries := dict_set n (Directory d) (entries w) \<rparr>"

definition ends_with :: "string \<Rightarrow> string \<Rightarrow> bool" where
  "ends_with p s \<longleftrightarrow> length p \<le> length s \<and> drop (length s - length p) s = p"

definition is_part :: "string \<Rightarrow> bool" where
  "is_part n = ends_with ''.part'' n"

definition part_name :: "int \<Rightarrow> string" where
  "part_name i = show_int i @ ''.part''"

definition prepare :: "sync_domain \<Rightarrow> unit result" where
  "prepare w = raise_if (chunks_link w \<or> root_link w) (ChunkRejected ''unsafe staging root'') (Inr ())"

text \<open>
  The loop of \<^verbatim>\<open>_gc\<close>: directories named like an upload and not touched since the cutoff go;
  a link stops the scan, and what was removed before it stays removed.
\<close>

fun expired :: "int \<Rightarrow> string \<times> entry \<Rightarrow> bool" where
  "expired cutoff (n, Directory d) = (hex_string 64 n \<and> s_mtime d < cutoff)"
| "expired cutoff _ = False"

fun gc_scan :: "int \<Rightarrow> (string \<times> entry) list \<Rightarrow> (string \<times> entry) list \<times> unit result" where
  "gc_scan cutoff [] = ([], Inr ())"
| "gc_scan cutoff ((n, e) # es) =
     (if e = EntryLink then ((n, e) # es, Inl (ChunkRejected ''unsafe staging path''))
      else (case gc_scan cutoff es of
        (es', r) \<Rightarrow> (if expired cutoff (n, e) then es' else (n, e) # es', r)))"

definition gc_unlocked :: "int \<Rightarrow> sync_domain \<Rightarrow> sync_domain \<times> unit result" where
  "gc_unlocked now w = (case prepare w of
       Inl e \<Rightarrow> (w, Inl e)
     | Inr _ \<Rightarrow> (case gc_scan (now - staging_ttl) (entries w) of (es, r) \<Rightarrow> (w\<lparr> entries := es \<rparr>, r)))"

definition gc_chunks :: "(nat \<Rightarrow> bool) \<Rightarrow> nat \<Rightarrow> int \<Rightarrow> sync_domain \<Rightarrow> sync_domain \<times> unit result" where
  "gc_chunks busy me now w = with_locked busy me (gc_unlocked now) w"

fun entry_part_bytes :: "entry \<Rightarrow> int" where
  "entry_part_bytes (Directory d) =
     sum_list (map (\<lambda>(n, f). if is_part n then int (length (fbytes f)) else 0) (s_files d))"
| "entry_part_bytes _ = 0"

definition staged_bytes :: "sync_domain \<Rightarrow> int" where
  "staged_bytes w = sum_list (map (\<lambda>(_, e). entry_part_bytes e) (entries w))"

text \<open>\<^verbatim>\<open>_atomic(directory / name, data)\<close>; creating the file also touches the directory.\<close>

definition write_file :: "int \<Rightarrow> string \<Rightarrow> string \<Rightarrow> staged \<Rightarrow> staged" where
  "write_file now n data d = d\<lparr> s_files := dict_set n (FRegular data) (s_files d), s_mtime := now \<rparr>"

definition atomic_file ::
  "int \<Rightarrow> string \<Rightarrow> staged \<Rightarrow> string \<Rightarrow> string \<Rightarrow> sync_domain \<Rightarrow> sync_domain \<times> staged result" where
  "atomic_file now uid d n data w = (case reserve (int (length data)) w of
       Inl e \<Rightarrow> (w, Inl e)
     | Inr _ \<Rightarrow> (let d' = write_file now n data d in (put_dir uid d' w, Inr d')))"

fun blocks :: "string \<Rightarrow> string \<times> entry \<Rightarrow> bool" where
  "blocks uid (n, Directory d) = (n \<noteq> uid \<and> find_file ''receipt.json'' d = None)"
| "blocks uid _ = False"

definition staged_status :: "string \<Rightarrow> int \<Rightarrow> pyval" where
  "staged_status uid index =
     PDict [(''upload_id'', PStr uid), (''index'', PInt index), (''status'', PStr ''staged'')]"

text \<open>\<^verbatim>\<open>directory.mkdir(exist_ok=True)\<close>.\<close>

definition make_dir :: "int \<Rightarrow> string \<Rightarrow> sync_domain \<Rightarrow> sync_domain \<times> staged result" where
  "make_dir now uid w = (case find_entry uid w of
       None \<Rightarrow> (let d = \<lparr> s_files = [], s_mtime = now \<rparr> in (put_dir uid d w, Inr d))
     | Some (Directory d) \<Rightarrow> (w, Inr d)
     | Some _ \<Rightarrow> (w, Inl (OSError ''File exists'')))"

text \<open>The last part of \<^verbatim>\<open>put\<close>: the new bytes are charged and written.\<close>

definition ensure_total ::
  "int \<Rightarrow> string \<Rightarrow> int \<Rightarrow> staged \<Rightarrow> sync_domain \<Rightarrow> sync_domain \<times> staged result" where
  "ensure_total now uid tot d w =
     (if find_file ''total'' d = None then atomic_file now uid d ''total'' (show_int tot) w else (w, Inr d))"

definition put_new ::
  "int \<Rightarrow> string \<Rightarrow> int \<Rightarrow> int \<Rightarrow> string \<Rightarrow> staged \<Rightarrow> sync_domain \<Rightarrow> sync_domain \<times> pyval result" where
  "put_new now uid index tot decoded d w =
     (if max_total_decoded_bytes < staged_bytes w + int (length decoded)
      then (w, Inl (ChunkRejected ''staging budget exhausted''))
      else case reserve (int (length decoded) +
             (if find_file ''total'' d = None then int (length (show_int tot)) else 0)) w of
        Inl e \<Rightarrow> (w, Inl e)
      | Inr _ \<Rightarrow>
         (case ensure_total now uid tot d w of
            (w1, Inl e) \<Rightarrow> (w1, Inl e)
          | (w1, Inr d1) \<Rightarrow>
             (case atomic_file now uid d1 (part_name index) decoded w1 of
                (w2, Inl e) \<Rightarrow> (w2, Inl e)
              | (w2, Inr d2) \<Rightarrow> (w2, Inr (staged_status uid index)))))"

definition put_in_dir ::
  "int \<Rightarrow> string \<Rightarrow> int \<Rightarrow> int \<Rightarrow> string \<Rightarrow> staged \<Rightarrow> sync_domain \<Rightarrow> sync_domain \<times> pyval result" where
  "put_in_dir now uid index tot decoded d w =
     (if (case find_file ''total'' d of Some (FLink _) \<Rightarrow> True | _ \<Rightarrow> False)
      then (w, Inl (ChunkRejected ''unsafe staging path''))
      else if (case find_file ''total'' d of Some f \<Rightarrow> fbytes f \<noteq> show_int tot | None \<Rightarrow> False)
      then (w, Inl (ChunkRejected ''chunk total changed''))
      else case find_file (part_name index) d of
        Some f \<Rightarrow>
          if is_flink f \<or> fbytes f \<noteq> decoded then (w, Inl (ChunkRejected ''immutable chunk collision''))
          else (put_dir uid (d\<lparr> s_mtime := now \<rparr>) w, Inr (staged_status uid index))
      | None \<Rightarrow>
          if find_file ''receipt.json'' d \<noteq> None then (w, Inr (staged_status uid index))
          else put_new now uid index tot decoded d w)"

definition put_locked ::
  "int \<Rightarrow> string \<Rightarrow> int \<Rightarrow> int \<Rightarrow> string \<Rightarrow> sync_domain \<Rightarrow> sync_domain \<times> pyval result" where
  "put_locked now uid index tot decoded w = (case gc_unlocked now w of
       (w1, Inl e) \<Rightarrow> (w1, Inl e)
     | (w1, Inr _) \<Rightarrow>
        (if list_ex (blocks uid) (entries w1) then (w1, Inl (ChunkBusy ''another upload is staging''))
         else case make_dir now uid w1 of
           (w2, Inl e) \<Rightarrow> (w2, Inl e)
         | (w2, Inr d) \<Rightarrow> put_in_dir now uid index tot decoded d w2))"

definition decode_chunk :: "chunk_env \<Rightarrow> pyval \<Rightarrow> string \<Rightarrow> string result" where
  "decode_chunk C chunk_sha256 wire =
     raise_if (\<not> hex64 chunk_sha256) (ChunkRejected ''invalid chunk digest'')
     (raise_if (chunk_max_wire_bytes < int (length wire)) (ChunkRejected ''chunk wire too large'')
     (case gz_read C (chunk_max_decoded_bytes + 1) wire of
        None \<Rightarrow> Inl (ChunkRejected ''invalid gzip chunk'')
      | Some decoded \<Rightarrow>
          raise_if (chunk_max_decoded_bytes < int (length decoded)) (ChunkRejected ''chunk decoded too large'')
          (raise_if (PStr (ce_sha256 C decoded) \<noteq> chunk_sha256) (ChunkRejected ''chunk digest mismatch'')
          (Inr decoded))))"

definition put_chunk ::
  "chunk_env \<Rightarrow> (nat \<Rightarrow> bool) \<Rightarrow> nat \<Rightarrow> int \<Rightarrow> pyval \<Rightarrow> pyval \<Rightarrow> pyval \<Rightarrow> pyval \<Rightarrow> string
     \<Rightarrow> sync_domain \<Rightarrow> sync_domain \<times> pyval result" where
  "put_chunk C busy me now upload_id index tot chunk_sha256 wire w =
     (case bindr (validate_ids upload_id index tot) (\<lambda>_. decode_chunk C chunk_sha256 wire) of
        Inl e \<Rightarrow> (w, Inl e)
      | Inr decoded \<Rightarrow>
          with_locked busy me (put_locked now (as_text upload_id) (as_int index) (as_int tot) decoded) w)"

section \<open>Assembling and committing\<close>

definition assemble_part :: "staged \<Rightarrow> int \<Rightarrow> string \<Rightarrow> string result" where
  "assemble_part d index buffer = (case find_file (part_name index) d of
       Some (FRegular b) \<Rightarrow>
         raise_if (chunk_max_decoded_bytes < int (length b)) (ChunkRejected ''stored chunk too large'')
         (raise_if (max_total_decoded_bytes < int (length (buffer @ b))) (ChunkRejected ''assembled bundle too large'')
         (Inr (buffer @ b)))
     | _ \<Rightarrow> Inl (ChunkRejected ''missing chunk''))"

definition read_total :: "staged \<Rightarrow> string result" where
  "read_total d = (case find_file ''total'' d of None \<Rightarrow> Inl (OSError ''No such file or directory'')
     | Some f \<Rightarrow> Inr (fbytes f))"

definition assemble_unlocked :: "chunk_env \<Rightarrow> pyval \<Rightarrow> pyval \<Rightarrow> sync_domain \<Rightarrow> string result" where
  "assemble_unlocked C upload_id tot w =
     bindr (validate_ids upload_id (PInt 0) tot) (\<lambda>_.
     case find_entry (as_text upload_id) w of
       Some (Directory d) \<Rightarrow>
         raise_if (case find_file ''total'' d of Some (FLink _) \<Rightarrow> True | _ \<Rightarrow> False)
           (ChunkRejected ''unsafe staging metadata'')
         (bindr (read_total d) (\<lambda>t.
          raise_if (t \<noteq> show_int (as_int tot)) (ChunkRejected ''chunk total mismatch'')
          (bindr (foldr_result (assemble_part d) [0 .. as_int tot - 1] []) (\<lambda>buffer.
           raise_if (ce_sha256 C buffer \<noteq> as_text upload_id) (ChunkRejected ''assembled digest mismatch'')
           (Inr buffer)))))
     | _ \<Rightarrow> Inl (ChunkRejected ''unknown upload''))"

definition assemble :: "chunk_env \<Rightarrow> (nat \<Rightarrow> bool) \<Rightarrow> nat \<Rightarrow> pyval \<Rightarrow> pyval \<Rightarrow> sync_domain \<Rightarrow> sync_domain \<times> string result" where
  "assemble C busy me upload_id tot w =
     with_locked busy me (\<lambda>w. (w, assemble_unlocked C upload_id tot w)) w"

text \<open>\<^verbatim>\<open>publish(body)\<close> works on the same domain: its files count against the same budget.\<close>

type_synonym publisher = "string \<Rightarrow> sync_domain \<Rightarrow> sync_domain \<times> pyval result"

definition drop_parts :: "int \<Rightarrow> staged \<Rightarrow> staged" where
  "drop_parts now d = d\<lparr> s_files := filter (\<lambda>(n, _). \<not> is_part n) (s_files d), s_mtime := now \<rparr>"

definition completed_receipt :: "chunk_env \<Rightarrow> int \<Rightarrow> staged \<Rightarrow> fentry \<Rightarrow> pyval result" where
  "completed_receipt C tot d f =
     raise_if (case find_file ''total'' d of Some (FLink _) \<Rightarrow> True | _ \<Rightarrow> False)
       (ChunkRejected ''invalid completed upload'')
     (bindr (read_total d) (\<lambda>t.
      raise_if (t \<noteq> show_int tot \<or> 1024 < int (length (fbytes f))) (ChunkRejected ''invalid completed upload'')
      (receipt_loads C (fbytes f))))"

definition store_receipt ::
  "chunk_env \<Rightarrow> int \<Rightarrow> string \<Rightarrow> pyval \<Rightarrow> sync_domain \<Rightarrow> sync_domain \<times> pyval result" where
  "store_receipt C now uid receipt w = (case receipt_dumps C receipt of
       Inl e \<Rightarrow> (w, Inl e)
     | Inr payload \<Rightarrow>
        (if 1024 < int (length payload) then (w, Inl (ChunkRejected ''invalid publish receipt''))
         else case find_entry uid w of
           Some (Directory d) \<Rightarrow>
             (case atomic_file now uid d ''receipt.json'' payload w of
                (w1, Inl e) \<Rightarrow> (w1, Inl e)
              | (w1, Inr d1) \<Rightarrow> (put_dir uid (drop_parts now d1) w1, Inr receipt))
         | _ \<Rightarrow> (w, bindr (reserve (int (length payload)) w)
                     (\<lambda>_. Inl (OSError ''No such file or directory'')))))"

definition commit_locked ::
  "chunk_env \<Rightarrow> int \<Rightarrow> publisher \<Rightarrow> pyval \<Rightarrow> pyval \<Rightarrow> sync_domain \<Rightarrow> sync_domain \<times> pyval result" where
  "commit_locked C now publish upload_id tot w =
     (let uid = as_text upload_id;
          fresh = (case assemble_unlocked C upload_id tot w of
              Inl e \<Rightarrow> (w, Inl e)
            | Inr body \<Rightarrow> (case with_hold 1024 (publish body) w of
                (w1, Inl e) \<Rightarrow> (w1, Inl e)
              | (w1, Inr receipt) \<Rightarrow> store_receipt C now uid receipt w1))
      in case find_entry uid w of
           Some EntryLink \<Rightarrow> (w, Inl (ChunkRejected ''unsafe staging receipt''))
         | Some (Directory d) \<Rightarrow>
             (case find_file ''receipt.json'' d of
                Some (FLink _) \<Rightarrow> (w, Inl (ChunkRejected ''unsafe staging receipt''))
              | Some f \<Rightarrow> (w, completed_receipt C (as_int tot) d f)
              | None \<Rightarrow> fresh)
         | _ \<Rightarrow> fresh)"

definition commit_chunks ::
  "chunk_env \<Rightarrow> (nat \<Rightarrow> bool) \<Rightarrow> nat \<Rightarrow> int \<Rightarrow> publisher \<Rightarrow> pyval \<Rightarrow> pyval
     \<Rightarrow> sync_domain \<Rightarrow> sync_domain \<times> pyval result" where
  "commit_chunks C busy me now publish upload_id tot w =
     (case validate_ids upload_id (PInt 0) tot of
        Inl e \<Rightarrow> (w, Inl e)
      | Inr _ \<Rightarrow> with_locked busy me (commit_locked C now publish upload_id tot) w)"

section \<open>The sender's loop\<close>

text \<open>
  The chunked branch of \<^verbatim>\<open>upload_bundle_auto\<close> in \<^verbatim>\<open>app/workspace/shadow_client.py\<close>. The
  HTTP exchange is a pair of state-passing operations: \<open>post\<close> delivers one chunk and returns the
  decoded acknowledgement, \<open>post_commit\<close> delivers the commit. Credentials, signatures and headers
  are the transport's. \<open>gzip\<close> is \<^verbatim>\<open>gzip.compress\<close>.
\<close>

type_synonym 's chunk_post = "string \<Rightarrow> int \<Rightarrow> int \<Rightarrow> string \<Rightarrow> string \<Rightarrow> 's \<Rightarrow> 's \<times> pyval result"

definition acknowledged :: "string \<Rightarrow> int \<Rightarrow> pyval \<Rightarrow> bool" where
  "acknowledged uid index staged \<longleftrightarrow> is_dict staged \<and> pget ''status'' staged = PStr ''staged''
     \<and> pget ''index'' staged = PInt index \<and> pget ''upload_id'' staged = PStr uid"

fun send_parts ::
  "chunk_env \<Rightarrow> (string \<Rightarrow> string) \<Rightarrow> 's chunk_post \<Rightarrow> string \<Rightarrow> int \<Rightarrow> int \<Rightarrow> string list \<Rightarrow> 's \<Rightarrow> 's \<times> unit result" where
  "send_parts C gzip post uid tot index [] s = (s, Inr ())"
| "send_parts C gzip post uid tot index (part # parts) s =
     (if chunk_max_wire_bytes < int (length (gzip part)) then (s, Inl (ValueError ''chunk wire exceeds 16 MiB''))
      else case post uid index tot (ce_sha256 C part) (gzip part) s of
        (s1, Inl e) \<Rightarrow> (s1, Inl e)
      | (s1, Inr staged) \<Rightarrow>
          if acknowledged uid index staged then send_parts C gzip post uid tot (index + 1) parts s1
          else (s1, Inl (ValueError ''chunk staging not acknowledged'')))"

definition upload_chunked ::
  "chunk_env \<Rightarrow> (string \<Rightarrow> string) \<Rightarrow> 's chunk_post \<Rightarrow> (string \<Rightarrow> int \<Rightarrow> 's \<Rightarrow> 's \<times> pyval result)
     \<Rightarrow> int \<Rightarrow> string \<Rightarrow> 's \<Rightarrow> 's \<times> pyval result" where
  "upload_chunked C gzip post post_commit csize body s =
     (let uid = ce_sha256 C body
      in case split_canonical csize body of
        Inl e \<Rightarrow> (s, Inl e)
      | Inr parts \<Rightarrow>
         (case send_parts C gzip post uid (int (length parts)) 0 parts s of
            (s1, Inl e) \<Rightarrow> (s1, Inl e)
          | (s1, Inr _) \<Rightarrow> post_commit uid (int (length parts)) s1))"

end
