(* ===== verification/Chunk_Inv.thy ===== *)
theory Chunk_Inv
  imports Shadow_Chunks "HOL-Library.Sublist"
begin

text \<open>
  The staging area as a system of steps: what a directory and the whole area look like in every
  reachable state, how an operation may change a directory, and the accounting of bytes. The
  properties of the delivery protocol rest on these lemmas.
\<close>

section \<open>File names\<close>

lemma ends_with_append [simp]: "ends_with p (s @ p)"
  by (simp add: ends_with_def)

lemma is_part_part_name [simp]: "is_part (part_name i)"
  by (simp add: is_part_def part_name_def)

lemma not_part_names [simp]: "\<not> is_part ''total''" "\<not> is_part ''receipt.json''"
  by (simp_all add: is_part_def ends_with_def)

lemma part_name_neq [simp]:
  "part_name i \<noteq> ''total''" "part_name i \<noteq> ''receipt.json''" "''total'' \<noteq> part_name i" "''receipt.json'' \<noteq> part_name i"
  using is_part_part_name not_part_names by metis+

lemma show_nat_digits: "c \<in> set (show_nat n) \<Longrightarrow> c \<noteq> CHR ''-''"
proof (induction n arbitrary: c rule: show_nat.induct)
  case (1 n)
  have digit: "k < 10 \<Longrightarrow> digit_char k \<noteq> CHR ''-''" for k
    by (simp add: digit_char_def char_of_eq_iff take_bit_eq_mod)
  show ?case
  proof (cases "n < 10")
    case True
    with "1.prems" digit show ?thesis by (simp add: show_nat.simps [of n])
  next
    case False
    with "1.prems" have "c = digit_char (n mod 10) \<or> c \<in> set (show_nat (n div 10))"
      by (simp add: show_nat.simps [of n])
    with "1.IH" False digit [of "n mod 10"] show ?thesis by auto
  qed
qed

lemma show_int_inject: "show_int i = show_int j \<Longrightarrow> i = j"
proof -
  assume eq: "show_int i = show_int j"
  have hd_nat: "hd (show_nat n) \<noteq> CHR ''-''" for n
    using show_nat_digits [of "hd (show_nat n)" n] by simp
  then have "show_nat n \<noteq> CHR ''-'' # s" for n s by (metis list.sel(1))
  with eq show ?thesis
    by (auto simp: show_int_def split: if_splits dest: show_nat_inject) (metis+)?
qed

lemma part_name_inject [simp]: "part_name i = part_name j \<longleftrightarrow> i = j"
  by (auto simp: part_name_def dest: show_int_inject)

section \<open>Directories\<close>

lemma find_file_write [simp]:
  "find_file n (write_file now m data d) = (if n = m then Some (FRegular data) else find_file n d)"
  by (simp add: find_file_def write_file_def map_of_dict_set)

lemma find_file_touch [simp]: "find_file n (d\<lparr> s_mtime := t \<rparr>) = find_file n d"
  by (simp add: find_file_def)

lemma find_file_empty [simp]: "find_file n \<lparr> s_files = [], s_mtime = t \<rparr> = None"
  by (simp add: find_file_def)

lemma find_file_drop_parts [simp]:
  "find_file n (drop_parts now d) = (if is_part n then None else find_file n d)"
  by (simp add: find_file_def drop_parts_def map_of_filter_key)

text \<open>
  What the code keeps of a staging directory: regular files under the names it uses, chunks no
  larger than the limit, a recorded total as soon as there is a chunk, and no chunk bytes left
  once the receipt is there.
\<close>

definition dir_ok :: "staged \<Rightarrow> bool" where
  "dir_ok d \<longleftrightarrow> distinct (map fst (s_files d))
     \<and> (\<forall>n f. find_file n d = Some f \<longrightarrow> \<not> is_flink f \<and>
          (n = ''total'' \<or> n = ''receipt.json''
            \<or> (\<exists>i. n = part_name i \<and> int (length (fbytes f)) \<le> chunk_max_decoded_bytes)))
     \<and> ((\<exists>n. find_file n d \<noteq> None) \<longrightarrow> find_file ''total'' d \<noteq> None)
     \<and> (find_file ''receipt.json'' d \<noteq> None \<longrightarrow> (\<forall>i. find_file (part_name i) d = None))"

lemma dir_okI [intro?]:
  assumes "distinct (map fst (s_files d))"
    and "\<And>n f. find_file n d = Some f \<Longrightarrow> \<not> is_flink f \<and>
          (n = ''total'' \<or> n = ''receipt.json''
            \<or> (\<exists>i. n = part_name i \<and> int (length (fbytes f)) \<le> chunk_max_decoded_bytes))"
    and "\<And>n f. find_file n d = Some f \<Longrightarrow> find_file ''total'' d \<noteq> None"
    and "\<And>i. find_file ''receipt.json'' d \<noteq> None \<Longrightarrow> find_file (part_name i) d = None"
  shows "dir_ok d"
  using assms unfolding dir_ok_def by blast

lemma dir_okD:
  assumes "dir_ok d"
  shows "distinct (map fst (s_files d))"
    and "find_file n d = Some f \<Longrightarrow> \<not> is_flink f"
    and "find_file n d = Some f \<Longrightarrow> n = ''total'' \<or> n = ''receipt.json''
            \<or> (\<exists>i. n = part_name i \<and> int (length (fbytes f)) \<le> chunk_max_decoded_bytes)"
    and "find_file n d = Some f \<Longrightarrow> find_file ''total'' d \<noteq> None"
    and "find_file ''receipt.json'' d \<noteq> None \<Longrightarrow> find_file (part_name i) d = None"
  using assms unfolding dir_ok_def by blast+

lemma dir_ok_empty: "dir_ok \<lparr> s_files = [], s_mtime = t \<rparr>"
  by (simp add: dir_ok_def)

lemma dir_ok_touch: "dir_ok d \<Longrightarrow> dir_ok (d\<lparr> s_mtime := t \<rparr>)"
  by (simp add: dir_ok_def)

lemma distinct_write_file: "distinct (map fst (s_files d)) \<Longrightarrow> distinct (map fst (s_files (write_file now n b d)))"
  by (simp add: write_file_def distinct_dict_set)

lemma dir_ok_write_total: "dir_ok d \<Longrightarrow> dir_ok (write_file now ''total'' b d)"
  by (rule dir_okI)
    (auto simp: distinct_write_file dir_okD(1,5) split: if_splits dest: dir_okD(2,3))

lemma dir_ok_write_part:
  assumes d: "dir_ok d" and "find_file ''total'' d \<noteq> None" "find_file ''receipt.json'' d = None"
    and "int (length b) \<le> chunk_max_decoded_bytes"
  shows "dir_ok (write_file now (part_name i) b d)"
proof
  show "distinct (map fst (s_files (write_file now (part_name i) b d)))"
    using d by (simp add: distinct_write_file dir_okD(1))
next
  fix n f
  assume "find_file n (write_file now (part_name i) b d) = Some f"
  then show "\<not> is_flink f \<and> (n = ''total'' \<or> n = ''receipt.json''
            \<or> (\<exists>i. n = part_name i \<and> int (length (fbytes f)) \<le> chunk_max_decoded_bytes))"
    using assms(4) dir_okD(2,3) [OF d, of n f] by (auto split: if_splits)
qed (use assms in \<open>simp_all\<close>)

lemma dir_ok_complete:
  assumes d: "dir_ok d" and "find_file ''total'' d \<noteq> None"
  shows "dir_ok (drop_parts now (write_file now ''receipt.json'' b d))"
proof
  have "distinct (map fst (filter P xs))" if "distinct (map fst xs)" for P and xs :: "(string \<times> fentry) list"
    using that by (induction xs) auto
  then show "distinct (map fst (s_files (drop_parts now (write_file now ''receipt.json'' b d))))"
    using distinct_write_file [OF dir_okD(1) [OF d], of now "''receipt.json''" b]
    by (simp add: drop_parts_def)
next
  fix n f
  assume "find_file n (drop_parts now (write_file now ''receipt.json'' b d)) = Some f"
  then show "\<not> is_flink f \<and> (n = ''total'' \<or> n = ''receipt.json''
            \<or> (\<exists>i. n = part_name i \<and> int (length (fbytes f)) \<le> chunk_max_decoded_bytes))"
    using dir_okD(2,3) [OF d, of n f] by (auto split: if_splits)
qed (use assms in \<open>simp_all\<close>)

section \<open>The staging area\<close>

fun is_active :: "string \<times> entry \<Rightarrow> bool" where
  "is_active (n, Directory d) = (find_file ''receipt.json'' d = None)"
| "is_active _ = False"

fun entry_ok :: "string \<times> entry \<Rightarrow> bool" where
  "entry_ok (n, Directory d) = (hex_string 64 n \<and> dir_ok d)"
| "entry_ok _ = False"

definition chunks_ok :: "sync_domain \<Rightarrow> bool" where
  "chunks_ok w \<longleftrightarrow> distinct (map fst (entries w)) \<and> list_all entry_ok (entries w)
     \<and> length (filter is_active (entries w)) \<le> 1
     \<and> staged_bytes w \<le> max_total_decoded_bytes"

text \<open>What of a domain the accounting and the invariant do not look at.\<close>

lemma chunks_ok_frame [simp]:
  "chunks_ok (w\<lparr> depth := x \<rparr>) = chunks_ok w"
  "chunks_ok (w\<lparr> owner := ow \<rparr>) = chunks_ok w"
  "chunks_ok (w\<lparr> held_bytes := h \<rparr>) = chunks_ok w"
  by (simp_all add: chunks_ok_def staged_bytes_def)

lemma entry_ok_DirectoryD:
  "chunks_ok w \<Longrightarrow> find_entry n w = Some e \<Longrightarrow> \<exists>d. e = Directory d \<and> hex_string 64 n \<and> dir_ok d"
  unfolding chunks_ok_def find_entry_def
  by (cases e) (auto simp: list_all_iff dest!: map_of_SomeD)

lemma find_entry_put_dir [simp]:
  "find_entry n (put_dir m d w) = (if n = m then Some (Directory d) else find_entry n w)"
  by (simp add: find_entry_def put_dir_def map_of_dict_set)

lemma put_dir_twice [simp]: "put_dir n d (put_dir n d' w) = put_dir n d w"
  by (simp add: put_dir_def)

lemma put_dir_frame [simp]:
  "max_bytes (put_dir n d w) = max_bytes w" "held_bytes (put_dir n d w) = held_bytes w"
  "outside_bytes (put_dir n d w) = outside_bytes w" "depth (put_dir n d w) = depth w"
  "owner (put_dir n d w) = owner w" "root_link (put_dir n d w) = root_link w"
  "chunks_link (put_dir n d w) = chunks_link w" "outside_link (put_dir n d w) = outside_link w"
  by (simp_all add: put_dir_def)

definition dir_part_bytes :: "string \<Rightarrow> sync_domain \<Rightarrow> int" where
  "dir_part_bytes n w = (case find_entry n w of None \<Rightarrow> 0 | Some e \<Rightarrow> entry_part_bytes e)"

definition dir_bytes :: "string \<Rightarrow> sync_domain \<Rightarrow> int" where
  "dir_bytes n w = (case find_entry n w of None \<Rightarrow> 0 | Some e \<Rightarrow> entry_size e)"

lemma staged_bytes_put_dir:
  "staged_bytes (put_dir n d w) = staged_bytes w + entry_part_bytes (Directory d) - dir_part_bytes n w"
  unfolding staged_bytes_def put_dir_def dir_part_bytes_def find_entry_def
  by (simp add: sum_dict_set del: entry_part_bytes.simps cong: option.case_cong)

lemma part_bytes_write_file:
  "entry_part_bytes (Directory (write_file now n b d)) = entry_part_bytes (Directory d)
     + (if is_part n then int (length b) - (case find_file n d of None \<Rightarrow> 0 | Some f \<Rightarrow> int (length (fbytes f))) else 0)"
  by (auto simp: write_file_def sum_dict_set find_file_def split: option.splits)

lemma size_write_file:
  "entry_size (Directory (write_file now n b d)) = entry_size (Directory d)
     + int (length b) - (case find_file n d of None \<Rightarrow> 0 | Some f \<Rightarrow> int (length (fbytes f)))"
  by (auto simp: write_file_def sum_dict_set find_file_def split: option.splits)

lemma part_bytes_nonneg: "0 \<le> entry_part_bytes e"
  by (cases e) (auto intro!: sum_list_nonneg)

lemma part_bytes_drop [simp]: "entry_part_bytes (Directory (drop_parts now d)) = 0"
proof -
  have "(\<Sum>(n, f)\<leftarrow>filter (\<lambda>(n, _). \<not> is_part n) xs. if is_part n then int (length (fbytes f)) else 0) = 0" for xs
    by (induction xs) auto
  then show ?thesis by (simp add: drop_parts_def)
qed

lemma part_bytes_touch [simp]: "entry_part_bytes (Directory (d\<lparr> s_mtime := t \<rparr>)) = entry_part_bytes (Directory d)"
  by simp

text \<open>Rewriting one directory keeps the area well-formed under these conditions.\<close>

lemma chunks_ok_put_dir:
  assumes ok: "chunks_ok w" and hex: "hex_string 64 n" and d: "dir_ok d"
    and alone: "find_file ''receipt.json'' d = None \<Longrightarrow> \<not> list_ex (blocks n) (entries w)"
    and bytes: "staged_bytes w + entry_part_bytes (Directory d) - dir_part_bytes n w \<le> max_total_decoded_bytes"
  shows "chunks_ok (put_dir n d w)"
proof -
  let ?es = "dict_set n (Directory d) (entries w)"
  have dist: "distinct (map fst ?es)" using ok by (simp add: chunks_ok_def distinct_dict_set)
  have act: "length (filter is_active ?es) \<le> 1"
  proof (cases "find_file ''receipt.json'' d = None")
    case True
    from alone [OF True] have "fst x = n" if "x \<in> set (filter is_active ?es)" for x
      using that ok by (cases x rule: is_active.cases)
        (auto simp: list_ex_iff chunks_ok_def in_dict_set)
    then have "set (map fst (filter is_active ?es)) \<subseteq> {n}" by auto
    moreover have "distinct (map fst (filter is_active ?es))" using dist by (simp add: distinct_map_filter)
    ultimately show ?thesis by (metis card_mono distinct_card finite.emptyI finite.insertI is_singletonI is_singleton_altdef length_map)
  next
    case False
    have "set (filter is_active ?es) \<subseteq> set (filter is_active (entries w))"
      using False ok by (auto simp: chunks_ok_def in_dict_set)
    moreover have "distinct ?es" using dist by (simp add: distinct_map)
    ultimately have "length (filter is_active ?es) \<le> length (filter is_active (entries w))"
      by (metis List.finite_set card_length card_mono distinct_card distinct_filter le_trans)
    with ok show ?thesis by (simp add: chunks_ok_def)
  qed
  have "entry_ok x" if "x \<in> set ?es" for x
    using that in_dict_setD [OF that] ok hex d by (auto simp: chunks_ok_def list_all_iff)
  with dist act bytes show ?thesis
    by (simp add: chunks_ok_def put_dir_def list_all_iff staged_bytes_put_dir [unfolded put_dir_def])
qed

lemma chunks_ok_budget: "chunks_ok w \<Longrightarrow> staged_bytes w \<le> max_total_decoded_bytes"
  by (simp add: chunks_ok_def)

lemma chunks_ok_rewrite:
  assumes "chunks_ok w" and "find_entry n w = Some (Directory d)" and "dir_ok d'"
    and "\<not> list_ex (blocks n) (entries w)"
    and "entry_part_bytes (Directory d') = entry_part_bytes (Directory d)"
  shows "chunks_ok (put_dir n d' w)"
  using assms entry_ok_DirectoryD [OF assms(1,2)] chunks_ok_budget [OF assms(1)]
  by (intro chunks_ok_put_dir) (auto simp: dir_part_bytes_def simp del: entry_part_bytes.simps)

section \<open>Collection\<close>

lemma gc_scan_subset: "set (fst (gc_scan c es)) \<subseteq> set es"
  by (induction c es rule: gc_scan.induct) (auto split: prod.splits if_splits)

lemma gc_scan_subseq: "subseq (fst (gc_scan c es)) es"
  by (induction c es rule: gc_scan.induct) (auto split: prod.splits)

lemma gc_scan_Inr:
  "gc_scan c es = (es', Inr ()) \<Longrightarrow> es' = filter (\<lambda>x. \<not> expired c x) es \<and> (\<forall>x \<in> set es. snd x \<noteq> EntryLink)"
  by (induction c es arbitrary: es' rule: gc_scan.induct) (auto split: prod.splits if_splits)

lemma sum_list_subseq:
  fixes g :: "'a \<Rightarrow> int"
  shows "subseq xs ys \<Longrightarrow> (\<And>x. 0 \<le> g x) \<Longrightarrow> sum_list (map g xs) \<le> sum_list (map g ys)"
proof (induction rule: list_emb.induct)
  case (list_emb_Nil ys)
  then show ?case by (auto intro!: sum_list_nonneg)
next
  case (list_emb_Cons xs ys y)
  then show ?case by (simp add: add_increasing)
qed auto

lemma set_subseq: "subseq xs ys \<Longrightarrow> x \<in> set xs \<Longrightarrow> x \<in> set ys"
  by (induction rule: list_emb.induct) auto

lemma distinct_subseq: "subseq xs ys \<Longrightarrow> distinct ys \<Longrightarrow> distinct xs"
  by (induction rule: list_emb.induct) (auto dest: set_subseq)

lemma chunks_ok_subseq:
  assumes "chunks_ok w" and "subseq es (entries w)"
  shows "chunks_ok (w\<lparr> entries := es \<rparr>)"
proof -
  have "subseq (map fst es) (map fst (entries w))" using assms(2) by (rule subseq_map)
  then have "distinct (map fst es)" using assms(1) by (auto simp: chunks_ok_def dest: distinct_subseq)
  moreover have "length (filter is_active es) \<le> length (filter is_active (entries w))"
    using assms(2) by (metis list_emb_length subseq_filter)
  moreover have "staged_bytes (w\<lparr> entries := es \<rparr>) \<le> staged_bytes w"
    unfolding staged_bytes_def using assms(2)
    by (auto intro!: sum_list_subseq part_bytes_nonneg)
  ultimately show ?thesis using assms
    by (auto simp: chunks_ok_def list_all_iff dest: set_subseq)
qed

lemma gc_unlocked_shape:
  "gc_unlocked now w = (w', r) \<Longrightarrow> \<exists>es. w' = w\<lparr> entries := es \<rparr> \<and> subseq es (entries w)"
proof (cases "prepare w")
  case (Inl e)
  moreover assume "gc_unlocked now w = (w', r)"
  ultimately show ?thesis by (intro exI [of _ "entries w"]) (simp add: gc_unlocked_def)
next
  case (Inr u)
  moreover assume "gc_unlocked now w = (w', r)"
  ultimately show ?thesis
    using gc_scan_subseq [of "now - staging_ttl" "entries w"]
    by (auto simp: gc_unlocked_def split: prod.splits)
qed

lemma gc_unlocked_Inr:
  "gc_unlocked now w = (w', Inr u) \<Longrightarrow>
     w' = w\<lparr> entries := filter (\<lambda>x. \<not> expired (now - staging_ttl) x) (entries w) \<rparr>"
  by (auto simp: gc_unlocked_def split: sum.splits prod.splits dest: gc_scan_Inr)

lemma chunks_ok_gc: "chunks_ok w \<Longrightarrow> gc_unlocked now w = (w', r) \<Longrightarrow> chunks_ok w'"
  by (auto dest: gc_unlocked_shape intro: chunks_ok_subseq)

section \<open>Writing\<close>

lemma atomic_file_cases:
  assumes "atomic_file now uid d n b w = (w', r)"
  obtains (refused) e where "w' = w" "r = Inl e" "reserve (int (length b)) w = Inl e"
  | (written) "w' = put_dir uid (write_file now n b d) w" "r = Inr (write_file now n b d)"
      "reserve (int (length b)) w = Inr ()"
  using assms by (cases "reserve (int (length b)) w") (auto simp: atomic_file_def Let_def)

text \<open>How \<^verbatim>\<open>put\<close> can leave the directory it works on.\<close>

definition with_total :: "int \<Rightarrow> int \<Rightarrow> staged \<Rightarrow> staged" where
  "with_total now tot d = (if find_file ''total'' d = None then write_file now ''total'' (show_int tot) d else d)"

lemma find_file_with_total:
  "find_file n (with_total now tot d)
     = (if n = ''total'' \<and> find_file ''total'' d = None then Some (FRegular (show_int tot)) else find_file n d)"
  by (simp add: with_total_def)

lemma ensure_total_cases:
  assumes "ensure_total now uid tot d w = (w', r)"
  obtains (refused) e where "w' = w" "r = Inl e"
  | (ready) "r = Inr (with_total now tot d)" "w' = w \<and> with_total now tot d = d \<or> w' = put_dir uid (with_total now tot d) w"
proof (cases "find_file ''total'' d = None")
  case True
  with assms have "atomic_file now uid d ''total'' (show_int tot) w = (w', r)" by (simp add: ensure_total_def)
  then show ?thesis by (cases rule: atomic_file_cases) (simp_all add: refused ready with_total_def True)
next
  case False
  with assms show ?thesis by (intro ready) (auto simp: ensure_total_def with_total_def)
qed

lemma put_new_cases:
  assumes "put_new now uid i tot b d w = (w', r)"
  obtains (refused) e where "w' = w" "r = Inl e"
  | (total_only) e where "w' = put_dir uid (with_total now tot d) w" "r = Inl e"
  | (part) "w' = put_dir uid (write_file now (part_name i) b (with_total now tot d)) w"
      "r = Inr (staged_status uid i)" "staged_bytes w + int (length b) \<le> max_total_decoded_bytes"
proof (cases "staged_bytes w + int (length b) \<le> max_total_decoded_bytes")
  case False
  with assms show ?thesis by (intro refused) (auto simp: put_new_def)
next
  case bytes: True
  define need where
    "need = int (length b) + (if find_file ''total'' d = None then int (length (show_int tot)) else 0)"
  obtain w1 r1 where a1: "ensure_total now uid tot d w = (w1, r1)" by fastforce
  show ?thesis
  proof (cases "reserve need w")
    case (Inl e)
    with assms bytes show ?thesis by (intro refused [of e]) (simp_all add: put_new_def need_def)
  next
    case (Inr u)
    with assms bytes a1 have put: "(case r1 of Inl e \<Rightarrow> (w1, Inl e) | Inr d1 \<Rightarrow>
        (case atomic_file now uid d1 (part_name i) b w1 of (w2, Inl e) \<Rightarrow> (w2, Inl e)
          | (w2, Inr d2) \<Rightarrow> (w2, Inr (staged_status uid i)))) = (w', r)"
      by (simp add: put_new_def need_def)
    from a1 show ?thesis
    proof (cases rule: ensure_total_cases)
      case (refused e)
      with put show ?thesis by (intro that(1) [of e]) auto
    next
      case ready
      obtain w2 r2 where a2: "atomic_file now uid (with_total now tot d) (part_name i) b w1 = (w2, r2)" by fastforce
      with put ready(1) have w': "w' = w2" "r = (case r2 of Inl e \<Rightarrow> Inl e | Inr _ \<Rightarrow> Inr (staged_status uid i))"
        by (auto split: sum.splits)
      from a2 show ?thesis
      proof (cases rule: atomic_file_cases)
        case (refused e)
        with w' ready(2) show ?thesis by (auto intro: that(1,2))
      next
        case written
        with w' ready(2) bytes show ?thesis by (intro that(3)) auto
      qed
    qed
  qed
qed

section \<open>What an operation keeps\<close>

lemma dir_ok_with_total: "dir_ok d \<Longrightarrow> dir_ok (with_total now tot d)"
  by (simp add: with_total_def dir_ok_write_total)

lemma part_bytes_with_total [simp]:
  "entry_part_bytes (Directory (with_total now tot d)) = entry_part_bytes (Directory d)"
  by (simp add: with_total_def part_bytes_write_file del: entry_part_bytes.simps)

lemma chunks_ok_put_in_dir:
  assumes ok: "chunks_ok w" and hex: "hex_string 64 uid" and d: "find_entry uid w = Some (Directory d)"
    and alone: "\<not> list_ex (blocks uid) (entries w)"
    and size: "int (length b) \<le> chunk_max_decoded_bytes"
    and put: "put_in_dir now uid i tot b d w = (w', r)"
  shows "chunks_ok w'"
proof -
  from entry_ok_DirectoryD [OF ok d] have dok: "dir_ok d" by auto
  have pb: "dir_part_bytes uid w = entry_part_bytes (Directory d)" using d by (simp add: dir_part_bytes_def)
  have same: "chunks_ok (put_dir uid d' w)" if "dir_ok d'" "entry_part_bytes (Directory d') = entry_part_bytes (Directory d)" for d'
    using ok d that(1) alone that(2) by (rule chunks_ok_rewrite)
  show ?thesis
  proof (cases "find_file (part_name i) d = None \<and> find_file ''receipt.json'' d = None \<and> put_new now uid i tot b d w = (w', r)")
    case False
    then have "w' = w \<or> w' = put_dir uid (d\<lparr> s_mtime := now \<rparr>) w"
      using put by (auto simp: put_in_dir_def split: if_splits option.splits)
    with same [of "d\<lparr> s_mtime := now \<rparr>"] ok dok show ?thesis by (auto simp: dir_ok_touch)
  next
    case new: True
    then have "put_new now uid i tot b d w = (w', r)" by simp
    then show ?thesis
    proof (cases rule: put_new_cases)
      case total_only
      with same dok show ?thesis by (simp add: dir_ok_with_total del: entry_part_bytes.simps)
    next
      case part
      let ?d = "write_file now (part_name i) b (with_total now tot d)"
      have "dir_ok ?d" using dok new size
        by (intro dir_ok_write_part dir_ok_with_total) (simp_all add: find_file_with_total)
      moreover have "entry_part_bytes (Directory ?d) = entry_part_bytes (Directory d) + int (length b)"
        using new by (simp add: part_bytes_write_file find_file_with_total del: entry_part_bytes.simps)
      ultimately show ?thesis using part(1,3) ok hex alone pb
        by (auto intro!: chunks_ok_put_dir simp del: entry_part_bytes.simps)
    qed (simp add: ok)
  qed
qed

lemma blocks_put_dir: "list_ex (blocks uid) (entries (put_dir uid d w)) \<Longrightarrow> list_ex (blocks uid) (entries w)"
  by (auto simp: list_ex_iff put_dir_def dest!: in_dict_setD)

lemma make_dir_cases:
  assumes "make_dir now uid w = (w', r)" and "chunks_ok w"
  obtains (found) d where "w' = w" "r = Inr d" "find_entry uid w = Some (Directory d)"
  | (made) "w' = put_dir uid \<lparr> s_files = [], s_mtime = now \<rparr> w" "r = Inr \<lparr> s_files = [], s_mtime = now \<rparr>"
      "find_entry uid w = None"
proof (cases "find_entry uid w")
  case None
  with assms(1) show ?thesis by (intro made) (simp_all add: make_dir_def Let_def)
next
  case (Some e)
  with entry_ok_DirectoryD [OF assms(2) Some] assms(1) show ?thesis by (auto simp: make_dir_def intro: found)
qed

lemma put_locked_cases:
  assumes "put_locked now uid i tot b w = (w', r)" and ok: "chunks_ok w"
  obtains (stopped) w1 e where "gc_unlocked now w = (w1, e)" "w' = w1" "\<exists>x. r = Inl x"
  | (put) w1 w2 d where "gc_unlocked now w = (w1, Inr ())" "chunks_ok w1"
      "\<not> list_ex (blocks uid) (entries w1)" "make_dir now uid w1 = (w2, Inr d)"
      "find_entry uid w2 = Some (Directory d)" "\<not> list_ex (blocks uid) (entries w2)"
      "put_in_dir now uid i tot b d w2 = (w', r)"
proof -
  obtain w1 g where g: "gc_unlocked now w = (w1, g)" by fastforce
  then have ok1: "chunks_ok w1" using chunks_ok_gc [OF ok] by auto
  obtain w2 m where m: "make_dir now uid w1 = (w2, m)" by fastforce
  show ?thesis
  proof (cases "(\<exists>u. g = Inr u) \<and> \<not> list_ex (blocks uid) (entries w1)")
    case True
    from m ok1 obtain d where "m = Inr d" "find_entry uid w2 = Some (Directory d)"
      "\<not> list_ex (blocks uid) (entries w2)"
      using True by (cases rule: make_dir_cases) (auto dest: blocks_put_dir)
    with assms(1) g m True ok1 show ?thesis by (intro that(2) [of w1 w2 d]) (auto simp: put_locked_def)
  next
    case False
    with assms(1) g have "w' = w1" "\<exists>x. r = Inl x" by (auto simp: put_locked_def split: sum.splits)
    with g show ?thesis by (intro that(1)) auto
  qed
qed

lemma chunks_ok_make_dir:
  assumes "make_dir now uid w = (w', r)" and ok: "chunks_ok w" and "hex_string 64 uid"
    and "\<not> list_ex (blocks uid) (entries w)"
  shows "chunks_ok w'"
  using assms(1) ok
proof (cases rule: make_dir_cases)
  case made
  moreover have "chunks_ok (put_dir uid \<lparr> s_files = [], s_mtime = now \<rparr> w)"
    using ok assms(3,4) made(3)
    by (intro chunks_ok_put_dir) (simp_all add: dir_ok_empty dir_part_bytes_def, simp add: chunks_ok_def)
  ultimately show ?thesis by simp
qed (simp add: ok)

lemma chunks_ok_put_locked:
  assumes "put_locked now uid i tot b w = (w', r)" and ok: "chunks_ok w" and hex: "hex_string 64 uid"
    and size: "int (length b) \<le> chunk_max_decoded_bytes"
  shows "chunks_ok w'"
  using assms(1) ok
proof (cases rule: put_locked_cases)
  case stopped
  then show ?thesis using ok by (auto intro: chunks_ok_gc)
next
  case (put w1 w2 d)
  from put(2,3,4) hex have "chunks_ok w2" by (auto intro: chunks_ok_make_dir)
  then show ?thesis using hex put(5-7) size by (auto intro: chunks_ok_put_in_dir)
qed

lemma with_locked_keeps:
  assumes "with_locked busy me body w = (w', r)" and "P w"
    and body: "\<And>w w' r. body w = (w', r) \<Longrightarrow> P w \<Longrightarrow> P w'"
    and frame: "\<And>w x. P (w\<lparr> depth := x \<rparr>) = P w" "\<And>w x. P (w\<lparr> owner := x \<rparr>) = P w"
  shows "P w'"
  using assms(1)
proof (cases rule: with_locked_cases)
  case (reenter w1)
  with body [OF reenter(3)] assms(2) show ?thesis by (simp add: frame)
next
  case (enter w1)
  have "P w1" using body [OF enter(1)] assms(2) by (simp add: frame)
  with enter(2) show ?thesis by (simp add: frame)
next
  case refused
  with assms(2) show ?thesis by simp
qed

lemma validate_ids_Inr:
  assumes "validate_ids u i t = Inr ()"
  obtains uid k n where "u = PStr uid" "hex_string 64 uid" "i = PInt k" "t = PInt n" "0 \<le> k" "k < n" "1 \<le> n" "n \<le> 4"
  using assms
  by (cases u; cases i; cases t)
    (auto simp: validate_ids_def hex64_def int_within_def max_chunks_def intro: that split: if_splits)

lemma decode_chunk_Inr:
  "decode_chunk C sha wire = Inr b \<Longrightarrow>
     int (length b) \<le> chunk_max_decoded_bytes \<and> sha = PStr (ce_sha256 C b)
     \<and> gz_read C (chunk_max_decoded_bytes + 1) wire = Some b"
  by (auto simp: decode_chunk_def not_less split: option.splits)

lemma put_chunk_cases:
  assumes "put_chunk C busy me now u i t sha wire w = (w', r)"
  obtains (rejected) e where "w' = w" "r = Inl e"
  | (accepted) uid k n b where "u = PStr uid" "hex_string 64 uid" "i = PInt k" "t = PInt n"
      "0 \<le> k" "k < n" "n \<le> 4" "int (length b) \<le> chunk_max_decoded_bytes" "sha = PStr (ce_sha256 C b)"
      "with_locked busy me (put_locked now uid k n b) w = (w', r)"
proof (cases "bindr (validate_ids u i t) (\<lambda>_. decode_chunk C sha wire)")
  case (Inl e)
  with assms show ?thesis by (intro rejected [of e]) (simp_all add: put_chunk_def)
next
  case (Inr b)
  then have v: "validate_ids u i t = Inr ()" and b: "decode_chunk C sha wire = Inr b" by auto
  from v obtain uid k n where "u = PStr uid" "hex_string 64 uid" "i = PInt k" "t = PInt n" "0 \<le> k" "k < n" "n \<le> 4"
    by (rule validate_ids_Inr)
  with assms v b decode_chunk_Inr [OF b] show ?thesis
    by (intro accepted [of uid k n b]) (simp_all add: put_chunk_def)
qed

lemma chunks_ok_put_chunk:
  assumes "put_chunk C busy me now u i t sha wire w = (w', r)" and ok: "chunks_ok w"
  shows "chunks_ok w'"
  using assms(1)
proof (cases rule: put_chunk_cases)
  case (accepted uid k n b)
  from accepted(10) ok show ?thesis
    by (rule with_locked_keeps) (use accepted in \<open>auto intro: chunks_ok_put_locked\<close>)
qed (simp add: ok)

lemma chunks_ok_gc_chunks: "gc_chunks busy me now w = (w', r) \<Longrightarrow> chunks_ok w \<Longrightarrow> chunks_ok w'"
  unfolding gc_chunks_def by (erule with_locked_keeps) (auto intro: chunks_ok_gc)

subsection \<open>Commit\<close>

text \<open>
  The publisher behind a commit writes its own files of the domain and leaves the staging area
  alone.
\<close>

definition keeps_staging :: "publisher \<Rightarrow> bool" where
  "keeps_staging publish \<longleftrightarrow> (\<forall>body w. entries (fst (publish body w)) = entries w)"

lemma chunks_ok_entries: "entries w = entries w' \<Longrightarrow> chunks_ok w = chunks_ok w'"
  by (simp add: chunks_ok_def staged_bytes_def)

lemma find_entry_entries: "entries w = entries w' \<Longrightarrow> find_entry n w = find_entry n w'"
  by (simp add: find_entry_def)

lemma with_hold_entries:
  "keeps_staging publish \<Longrightarrow> with_hold n (publish body) w = (w', r) \<Longrightarrow> entries w' = entries w"
proof (cases "reserve n w")
  case (Inr u)
  assume pub: "keeps_staging publish" and run: "with_hold n (publish body) w = (w', r)"
  obtain w1 r1 where p: "publish body (w\<lparr> held_bytes := held_bytes w + n \<rparr>) = (w1, r1)" by fastforce
  with pub have "entries w1 = entries (w\<lparr> held_bytes := held_bytes w + n \<rparr>)" by (metis fst_conv keeps_staging_def)
  with run Inr p show ?thesis by (auto simp: with_hold_def)
qed (simp add: with_hold_def)

lemma assemble_InrD:
  assumes "assemble_unlocked C u t w = Inr body"
  obtains d where "find_entry (as_text u) w = Some (Directory d)"
    "find_file ''total'' d = Some (FRegular (show_int (as_int t)))"
    "foldr_result (assemble_part d) [0 .. as_int t - 1] [] = Inr body" "ce_sha256 C body = as_text u"
  using assms
  by (auto simp: assemble_unlocked_def read_total_def intro: that
      split: option.splits entry.splits fentry.splits)

lemma store_receipt_cases:
  assumes "store_receipt C now uid receipt w = (w', r)" and "find_entry uid w = Some (Directory d)"
  obtains (refused) e where "w' = w" "r = Inl e"
  | (stored) payload where "receipt_dumps C receipt = Inr payload" "int (length payload) \<le> 1024"
      "w' = put_dir uid (drop_parts now (write_file now ''receipt.json'' payload d)) w" "r = Inr receipt"
proof (cases "receipt_dumps C receipt")
  case (Inl e)
  with assms show ?thesis by (intro refused [of e]) (simp_all add: store_receipt_def)
next
  case (Inr payload)
  obtain w1 r1 where a: "atomic_file now uid d ''receipt.json'' payload w = (w1, r1)" by fastforce
  show ?thesis
  proof (cases "1024 < int (length payload)")
    case True
    with assms Inr show ?thesis
      by (intro refused [of "ChunkRejected ''invalid publish receipt''"]) (simp_all add: store_receipt_def)
  next
    case False
    from a show ?thesis
    proof (cases rule: atomic_file_cases)
      case (refused e)
      with assms a Inr False show ?thesis by (intro that(1) [of e]) (simp_all add: store_receipt_def)
    next
      case written
      with assms a Inr False show ?thesis by (intro that(2) [of payload]) (simp_all add: store_receipt_def)
    qed
  qed
qed

text \<open>
  A commit either changes nothing in the staging area, or it published the assembled body and
  replaced the chunks of the upload by the receipt.
\<close>

lemma commit_locked_cases:
  assumes "commit_locked C now publish u t w = (w', r)" and pub: "keeps_staging publish"
  obtains (unchanged) "entries w' = entries w"
      "\<And>x. r = Inr x \<Longrightarrow> \<exists>d f. find_entry (as_text u) w = Some (Directory d) \<and> find_file ''receipt.json'' d = Some f"
  | (published) d body receipt payload w1 where
      "find_entry (as_text u) w = Some (Directory d)" "find_file ''receipt.json'' d = None"
      "find_file ''total'' d = Some (FRegular (show_int (as_int t)))"
      "assemble_unlocked C u t w = Inr body" "with_hold 1024 (publish body) w = (w1, Inr receipt)"
      "receipt_dumps C receipt = Inr payload" "int (length payload) \<le> 1024" "entries w1 = entries w"
      "w' = put_dir (as_text u) (drop_parts now (write_file now ''receipt.json'' payload d)) w1" "r = Inr receipt"
proof (cases "assemble_unlocked C u t w")
  case (Inl e)
  with assms show ?thesis
    by (intro unchanged) (auto simp: commit_locked_def Let_def split: option.splits entry.splits fentry.splits)
next
  case (Inr body)
  then obtain d where d: "find_entry (as_text u) w = Some (Directory d)"
    "find_file ''total'' d = Some (FRegular (show_int (as_int t)))" by (rule assemble_InrD)
  obtain w1 r1 where h: "with_hold 1024 (publish body) w = (w1, r1)" by fastforce
  have e1: "entries w1 = entries w" using with_hold_entries [OF pub h] .
  show ?thesis
  proof (cases "find_file ''receipt.json'' d = None \<and> (\<exists>x. r1 = Inr x)")
    case True
    then obtain receipt where r1: "r1 = Inr receipt" by auto
    with True assms(1) Inr d(1) h have "store_receipt C now (as_text u) receipt w1 = (w', r)"
      by (simp add: commit_locked_def Let_def)
    then show ?thesis
      using d(1) [folded find_entry_entries [OF e1]]
    proof (cases rule: store_receipt_cases)
      case (stored payload)
      with True d Inr h r1 e1 show ?thesis by (intro published [of d body w1 receipt payload]) simp_all
    qed (auto intro: unchanged e1)
  next
    case False
    with assms(1) Inr d(1) h e1 show ?thesis
      by (intro unchanged) (auto simp: commit_locked_def Let_def split: sum.splits option.splits fentry.splits)
  qed
qed

lemma chunks_ok_commit_locked:
  assumes "commit_locked C now publish u t w = (w', r)" and "keeps_staging publish" and ok: "chunks_ok w"
  shows "chunks_ok w'"
  using assms(1,2)
proof (cases rule: commit_locked_cases)
  case unchanged
  with ok show ?thesis using chunks_ok_entries by blast
next
  case (published d body receipt payload w1)
  have ok1: "chunks_ok w1" using ok chunks_ok_entries [OF published(8)] by simp
  have "find_entry (as_text u) w1 = Some (Directory d)"
    using published(1) find_entry_entries [OF published(8)] by simp
  with entry_ok_DirectoryD [OF ok1 this] have "dir_ok d" "hex_string 64 (as_text u)" and
    "0 \<le> dir_part_bytes (as_text u) w1" by (auto simp: dir_part_bytes_def part_bytes_nonneg simp del: entry_part_bytes.simps)
  moreover have "staged_bytes w1 \<le> max_total_decoded_bytes" using ok1 by (simp add: chunks_ok_def)
  ultimately show ?thesis unfolding published(9) using ok1 published(3)
    by (intro chunks_ok_put_dir dir_ok_complete) (simp_all del: entry_part_bytes.simps)
qed

lemma chunks_ok_commit:
  assumes "commit_chunks C busy me now publish u t w = (w', r)" and "keeps_staging publish" and "chunks_ok w"
  shows "chunks_ok w'"
proof (cases "validate_ids u (PInt 0) t")
  case (Inr x)
  with assms(1) have "with_locked busy me (commit_locked C now publish u t) w = (w', r)"
    by (simp add: commit_chunks_def)
  then show ?thesis using assms(3)
    by (rule with_locked_keeps) (use assms(2) in \<open>auto intro: chunks_ok_commit_locked\<close>)
qed (use assms in \<open>simp add: commit_chunks_def\<close>)

end
