(* ===== verification/Chunk_Props.thy ===== *)
theory Chunk_Props
  imports Chunk_Inv Market_Props
begin

text \<open>
  Properties of the writer lock, the disk budget and the chunked delivery: mutual exclusion, what
  every reachable staging area looks like, immutability of staged chunks, and the end-to-end
  statement that a body split by the sender reaches the publisher unchanged.
\<close>

section \<open>Splitting\<close>

lemma concat_slices: "0 < n \<Longrightarrow> concat (slices n body) = body"
proof (induction n body rule: slices.induct)
  case (1 n body)
  then show ?case by (subst slices.simps) auto
qed

lemma slices_length: "p \<in> set (slices n body) \<Longrightarrow> p \<noteq> [] \<and> length p \<le> n"
proof (induction n body rule: slices.induct)
  case (1 n body)
  then show ?case by (subst (asm) slices.simps) (auto split: if_splits)
qed

lemma slices_eq_Nil: "0 < n \<Longrightarrow> slices n body = [] \<longleftrightarrow> body = []"
  by (subst slices.simps) auto

lemma length_slices: "0 < n \<Longrightarrow> int (length (slices n body)) = (int (length body) + int n - 1) div int n"
proof (induction n body rule: slices.induct)
  case (1 n body)
  show ?case
  proof (cases "body = []")
    case True
    with 1(2) show ?thesis by (subst slices.simps) (simp add: div_pos_pos_trivial)
  next
    case False
    have len: "int (length (slices n body)) = 1 + int (length (slices n (drop n body)))"
      using False 1(2) by (subst slices.simps) simp
    show ?thesis
    proof (cases "length body \<le> n")
      case True
      then have "(int (length body) + int n - 1) div int n = 1"
        using False 1(2) by (intro int_div_pos_eq [of _ _ _ "int (length body) - 1"]) (auto simp: Suc_le_eq)
      with True len show ?thesis by (simp add: slices.simps)
    next
      case False
      have "int (length (slices n (drop n body))) = (int (length body) - int n + int n - 1) div int n"
        using 1 False \<open>body \<noteq> []\<close> by (simp add: of_nat_diff)
      moreover have "(int (length body) + int n - 1) div int n = 1 + (int (length body) - 1) div int n"
        using 1(2) div_add_self2 [of "int n" "int (length body) - 1"] by (simp add: algebra_simps)
      ultimately show ?thesis using len by simp
    qed
  qed
qed

lemma split_canonical_Inr:
  assumes "split_canonical csize body = Inr parts"
  shows "concat parts = body" and "parts \<noteq> []" and "int (length parts) \<le> 4"
    and "p \<in> set parts \<Longrightarrow> int (length p) \<le> csize" and "0 < csize" and "csize \<le> chunk_max_decoded_bytes"
    and "int (length body) \<le> max_total_decoded_bytes"
proof -
  from assms have size: "0 < csize" "csize \<le> chunk_max_decoded_bytes"
    and len: "int (length body) \<le> max_total_decoded_bytes" "int (length parts) \<le> 4"
    and parts: "parts = (if slices (nat csize) body = [] then [[]] else slices (nat csize) body)"
    by (auto simp: split_canonical_def Let_def max_chunks_def not_le not_less split: if_splits)
  then show "0 < csize" "csize \<le> chunk_max_decoded_bytes" "int (length body) \<le> max_total_decoded_bytes"
    "int (length parts) \<le> 4" "parts \<noteq> []" by simp_all
  show "concat parts = body"
    using parts size concat_slices [of "nat csize" body] slices_eq_Nil [of "nat csize" body] by auto
  show "int (length p) \<le> csize" if "p \<in> set parts"
    using that parts size slices_length [of p "nat csize" body] by (auto split: if_splits)
qed

section \<open>A chunk that finds room is stored\<close>

definition area_bytes :: "sync_domain \<Rightarrow> int" where
  "area_bytes w = sum_list (map (\<lambda>(_, e). entry_size e) (entries w))"

definition no_links :: "sync_domain \<Rightarrow> bool" where
  "no_links w \<longleftrightarrow> \<not> root_link w \<and> \<not> chunks_link w \<and> \<not> outside_link w"

lemma used_bytes_ok:
  assumes "chunks_ok w" and "no_links w"
  shows "used_bytes w = Inr (outside_bytes w + area_bytes w)"
proof -
  have "\<not> entry_link e" if "(n, e) \<in> set (entries w)" for n e
  proof -
    have eok: "entry_ok (n, e)" using assms(1) that by (auto simp: chunks_ok_def list_all_iff)
    then obtain d where d: "e = Directory d" "dir_ok d" by (cases e) auto
    have "\<not> is_flink f" if "(m, f) \<in> set (s_files d)" for m f
      using d(2) that dir_okD(1,2) [OF d(2)] by (auto simp: find_file_def)
    with d(1) show ?thesis by (auto simp: list_ex_iff)
  qed
  then show ?thesis using assms(2) by (auto simp: used_bytes_def no_links_def area_bytes_def list_ex_iff)
qed

lemma area_bytes_put_dir: "area_bytes (put_dir n d w) = area_bytes w + entry_size (Directory d) - dir_bytes n w"
  unfolding area_bytes_def put_dir_def dir_bytes_def find_entry_def
  by (simp add: sum_dict_set del: entry_size.simps cong: option.case_cong)

lemma reserve_ok:
  assumes "chunks_ok w" and "no_links w" and "0 \<le> n"
    and "outside_bytes w + area_bytes w + held_bytes w + n \<le> max_bytes w"
  shows "reserve n w = Inr ()"
  using assms used_bytes_ok [OF assms(1,2)] by (auto simp: reserve_Inr_iff)

lemma staged_bytes_alone:
  assumes ok: "chunks_ok w" and alone: "\<not> list_ex (blocks uid) (entries w)"
  shows "staged_bytes w = dir_part_bytes uid w"
proof -
  have zero: "entry_part_bytes e = 0" if "(n, e) \<in> set (entries w)" "n \<noteq> uid" for n e
  proof -
    have "entry_ok (n, e)" using ok that by (auto simp: chunks_ok_def list_all_iff)
    then obtain d where d: "e = Directory d" "dir_ok d" by (cases e) auto
    with that alone have "find_file ''receipt.json'' d \<noteq> None" by (auto simp: list_ex_iff)
    then have none: "find_file (part_name i) d = None" for i by (rule dir_okD(5) [OF d(2)])
    have nopart: "\<not> is_part m" if "(m, f) \<in> set (s_files d)" for m f
    proof -
      have "find_file m d = Some f" using that dir_okD(1) [OF d(2)] by (simp add: find_file_def)
      with dir_okD(3) [OF d(2) this] none show ?thesis by auto
    qed
    have "(\<Sum>(n, f)\<leftarrow>xs. if is_part n then int (length (fbytes f)) else 0) = 0"
      if "list_all (\<lambda>(m, f). \<not> is_part m) xs" for xs
      using that by (induction xs) auto
    from this [of "s_files d"] nopart d(1) show ?thesis by (auto simp: list_all_iff)
  qed
  have "(\<Sum>(_, e)\<leftarrow>es. entry_part_bytes e) = (case map_of es uid of None \<Rightarrow> 0 | Some e \<Rightarrow> entry_part_bytes e)"
    if "distinct (map fst es)" "\<And>n e. (n, e) \<in> set es \<Longrightarrow> n \<noteq> uid \<Longrightarrow> entry_part_bytes e = 0" for es
    using that
  proof (induction es)
    case (Cons x es)
    obtain n e where x: "x = (n, e)" by fastforce
    have none: "map_of es uid = None" if "n = uid" using that Cons.prems(1) x by (auto simp: map_of_eq_None_iff)
    have "(\<Sum>(_, e)\<leftarrow>es. entry_part_bytes e) = (case map_of es uid of None \<Rightarrow> 0 | Some e \<Rightarrow> entry_part_bytes e)"
      by (rule Cons.IH) (use Cons.prems in auto)
    with Cons.prems(2) [of n e] none x show ?case by (cases "n = uid") auto
  qed simp
  from this [of "entries w"] ok zero show ?thesis
    by (auto simp: staged_bytes_def dir_part_bytes_def find_entry_def chunks_ok_def)
qed

lemma gc_scan_ok: "chunks_ok w \<Longrightarrow> gc_scan c (entries w) = (filter (\<lambda>x. \<not> expired c x) (entries w), Inr ())"
proof -
  have "gc_scan c es = (filter (\<lambda>x. \<not> expired c x) es, Inr ())" if "\<forall>x \<in> set es. snd x \<noteq> EntryLink" for c es
    using that by (induction c es rule: gc_scan.induct) auto
  moreover assume "chunks_ok w"
  then have "\<forall>x \<in> set (entries w). snd x \<noteq> EntryLink" by (auto simp: chunks_ok_def list_all_iff)
  ultimately show ?thesis by blast
qed

lemma gc_ok:
  assumes "chunks_ok w" and "no_links w"
  shows "gc_unlocked now w = (w\<lparr> entries := filter (\<lambda>x. \<not> expired (now - staging_ttl) x) (entries w) \<rparr>, Inr ())"
  using gc_scan_ok [OF assms(1)] assms(2) by (simp add: gc_unlocked_def prepare_def no_links_def)

definition collected :: "int \<Rightarrow> sync_domain \<Rightarrow> sync_domain" where
  "collected now w = w\<lparr> entries := filter (\<lambda>x. \<not> expired (now - staging_ttl) x) (entries w) \<rparr>"

lemma collected_frame [simp]:
  "max_bytes (collected now w) = max_bytes w" "held_bytes (collected now w) = held_bytes w"
  "outside_bytes (collected now w) = outside_bytes w" "no_links (collected now w) = no_links w"
  by (simp_all add: collected_def no_links_def)

lemma chunks_ok_collected: "chunks_ok w \<Longrightarrow> chunks_ok (collected now w)"
  unfolding collected_def by (rule chunks_ok_subseq) simp_all

lemma area_bytes_collected: "area_bytes (collected now w) \<le> area_bytes w"
  unfolding area_bytes_def collected_def by (auto intro!: sum_list_subseq entry_size_nonneg)

lemma blocks_collected: "\<not> list_ex (blocks uid) (entries w) \<Longrightarrow> \<not> list_ex (blocks uid) (entries (collected now w))"
  by (auto simp: collected_def list_ex_iff)

lemma find_entry_collected:
  "distinct (map fst (entries w)) \<Longrightarrow>
     find_entry n (collected now w) = (case find_entry n w of None \<Rightarrow> None
       | Some e \<Rightarrow> if expired (now - staging_ttl) (n, e) then None else Some e)"
proof -
  have "map_of (filter P es) n = (case map_of es n of None \<Rightarrow> None | Some e \<Rightarrow> if P (n, e) then Some e else None)"
    if "distinct (map fst es)" for P and es :: "(string \<times> entry) list"
    using that by (induction es) (auto split: option.splits simp: map_of_eq_None_iff)
  then show "distinct (map fst (entries w)) \<Longrightarrow> ?thesis"
    by (auto simp: find_entry_def collected_def split: option.splits)
qed

text \<open>
  The state of an upload on its way: directory \<open>d\<close> holds exactly the first \<open>k\<close> of the chunks
  \<open>ps\<close> (before the first one there is no directory), nobody else is staging, and what the area
  grew by is accounted for.
\<close>

definition fresh_dir :: "int \<Rightarrow> staged" where
  "fresh_dir now = \<lparr> s_files = [], s_mtime = now \<rparr>"

definition holds_first :: "string list \<Rightarrow> nat \<Rightarrow> staged \<Rightarrow> bool" where
  "holds_first ps k d \<longleftrightarrow> find_file ''receipt.json'' d = None
     \<and> find_file ''total'' d = (if k = 0 then None else Some (FRegular (show_int (int (length ps)))))
     \<and> (\<forall>i. 0 \<le> i \<longrightarrow> find_file (part_name i) d = (if nat i < k then Some (FRegular (ps ! nat i)) else None))"

definition bytes_before :: "string list \<Rightarrow> nat \<Rightarrow> int" where
  "bytes_before ps k = int (length (concat (take k ps)))"

lemma bytes_before_Suc: "k < length ps \<Longrightarrow> bytes_before ps (Suc k) = bytes_before ps k + int (length (ps ! k))"
  by (simp add: bytes_before_def take_Suc_conv_app_nth)

lemma bytes_before_le: "bytes_before ps k \<le> int (length (concat ps))"
proof -
  have "concat ps = concat (take k ps) @ concat (drop k ps)" by (metis append_take_drop_id concat_append)
  then show ?thesis by (simp add: bytes_before_def)
qed

definition add_chunk :: "int \<Rightarrow> int \<Rightarrow> int \<Rightarrow> string \<Rightarrow> staged \<Rightarrow> staged" where
  "add_chunk now i n b d = write_file now (part_name i) b (with_total now n d)"

lemma put_in_dir_next:
  assumes ok: "chunks_ok w" and d: "find_entry uid w = Some (Directory d)" and links: "no_links w"
    and alone: "\<not> list_ex (blocks uid) (entries w)"
    and k: "holds_first ps k d" "k < length ps" "length ps \<le> 4"
    and pb: "entry_part_bytes (Directory d) = bytes_before ps k"
    and small: "int (length (concat ps)) \<le> max_total_decoded_bytes"
    and room: "outside_bytes w + area_bytes w + held_bytes w + int (length (ps ! k)) + 1 \<le> max_bytes w"
  shows "put_in_dir now uid (int k) (int (length ps)) (ps ! k) d w
    = (put_dir uid (add_chunk now (int k) (int (length ps)) (ps ! k) d) w, Inr (staged_status uid (int k)))"
    (is "_ = (put_dir uid ?d' w, _)")
proof -
  let ?n = "int (length ps)"
  have one: "length (show_int ?n) = 1" using k by (simp add: show_int_def show_nat.simps)
  have fresh: "find_file (part_name (int k)) d = None" "find_file ''receipt.json'' d = None"
    using k(1) by (auto simp: holds_first_def)
  have tot: "find_file ''total'' d = None \<or> find_file ''total'' d = Some (FRegular (show_int ?n))"
    using k(1) by (auto simp: holds_first_def split: if_splits)
  have budget: "\<not> max_total_decoded_bytes < staged_bytes w + int (length (ps ! k))"
    using staged_bytes_alone [OF ok alone] d pb bytes_before_Suc [OF k(2)] bytes_before_le [of ps "Suc k"] small
    by (simp add: dir_part_bytes_def del: entry_part_bytes.simps)
  have res: "reserve (int (length (ps ! k)) + (if find_file ''total'' d = None then 1 else 0)) w = Inr ()"
    using room by (intro reserve_ok ok links) auto
  have dok: "dir_ok d" using entry_ok_DirectoryD [OF ok d] by auto
  have et: "ensure_total now uid ?n d w = (if find_file ''total'' d = None then put_dir uid (with_total now ?n d) w else w,
      Inr (with_total now ?n d))"
    using tot reserve_ok [OF ok links, of 1] room one by (auto simp: ensure_total_def with_total_def atomic_file_def Let_def)
  let ?w1 = "if find_file ''total'' d = None then put_dir uid (with_total now ?n d) w else w"
  have ok1: "chunks_ok ?w1"
    using chunks_ok_rewrite [OF ok d dir_ok_with_total [OF dok] alone part_bytes_with_total] ok by simp
  have area1: "area_bytes ?w1 \<le> area_bytes w + 1"
    using d one by (simp add: area_bytes_put_dir dir_bytes_def with_total_def size_write_file del: entry_size.simps)
  have "reserve (int (length (ps ! k))) ?w1 = Inr ()"
    using room area1 links by (intro reserve_ok ok1) (auto simp: no_links_def)
  then have wr: "atomic_file now uid (with_total now ?n d) (part_name (int k)) (ps ! k) ?w1 = (put_dir uid ?d' w, Inr ?d')"
    by (auto simp: atomic_file_def add_chunk_def Let_def)
  have "put_new now uid (int k) ?n (ps ! k) d w = (put_dir uid ?d' w, Inr (staged_status uid (int k)))"
    unfolding put_new_def using budget res one et wr by (cases "find_file ''total'' d") simp_all
  then show ?thesis using tot fresh by (auto simp: put_in_dir_def)
qed

record upload =
  u_id :: string
  u_parts :: "string list"
  u_since :: int

definition uploading :: "sync_domain \<Rightarrow> upload \<Rightarrow> nat \<Rightarrow> sync_domain \<Rightarrow> bool" where
  "uploading w0 u k w \<longleftrightarrow> chunks_ok w \<and> no_links w \<and> \<not> list_ex (blocks (u_id u)) (entries w)
     \<and> outside_bytes w = outside_bytes w0 \<and> held_bytes w = held_bytes w0 \<and> max_bytes w = max_bytes w0
     \<and> area_bytes w \<le> area_bytes w0 + (if k = 0 then 0 else 1) + bytes_before (u_parts u) k
     \<and> (if k = 0 then find_entry (u_id u) w = None
        else \<exists>d. find_entry (u_id u) w = Some (Directory d) \<and> holds_first (u_parts u) k d
          \<and> u_since u \<le> s_mtime d \<and> entry_part_bytes (Directory d) = bytes_before (u_parts u) k)"

lemma uploading_frame [simp]:
  "uploading w0 u k (w\<lparr> depth := x \<rparr>) = uploading w0 u k w"
  "uploading w0 u k (w\<lparr> owner := y \<rparr>) = uploading w0 u k w"
  by (simp_all add: uploading_def no_links_def area_bytes_def find_entry_def)

lemma holds_first_fresh: "holds_first ps 0 (fresh_dir now)"
  by (simp add: holds_first_def fresh_dir_def)

lemma holds_first_add:
  "holds_first ps k d \<Longrightarrow> k < length ps \<Longrightarrow> holds_first ps (Suc k) (add_chunk now (int k) (int (length ps)) (ps ! k) d)"
  by (auto simp: holds_first_def add_chunk_def find_file_with_total less_Suc_eq)

lemma size_add_chunk:
  assumes "holds_first ps k d" and "length ps \<le> 4"
  shows "entry_size (Directory (add_chunk now (int k) (int (length ps)) b d))
    = entry_size (Directory d) + int (length b) + (if k = 0 then 1 else 0)"
proof -
  have "length (show_int (int (length ps))) = 1" using assms(2) by (simp add: show_int_def show_nat.simps)
  with assms(1) show ?thesis
    by (simp add: holds_first_def add_chunk_def with_total_def size_write_file del: entry_size.simps)
qed

lemma part_bytes_add_chunk:
  "holds_first ps k d \<Longrightarrow> entry_part_bytes (Directory (add_chunk now (int k) n b d)) = entry_part_bytes (Directory d) + int (length b)"
  by (simp add: holds_first_def add_chunk_def part_bytes_write_file find_file_with_total del: entry_part_bytes.simps)

text \<open>The directory the next chunk goes to, after collection and \<^verbatim>\<open>mkdir\<close>.\<close>

lemma next_directory:
  assumes up: "uploading w0 u k w" and hex: "hex_string 64 (u_id u)" and t: "t \<le> u_since u + staging_ttl" "u_since u \<le> t"
  obtains w2 d where "make_dir t (u_id u) (collected t w) = (w2, Inr d)" "chunks_ok w2" "no_links w2"
    "\<not> list_ex (blocks (u_id u)) (entries w2)" "find_entry (u_id u) w2 = Some (Directory d)"
    "holds_first (u_parts u) k d" "entry_part_bytes (Directory d) = bytes_before (u_parts u) k"
    "area_bytes w2 \<le> area_bytes w0 + (if k = 0 then 0 else 1) + bytes_before (u_parts u) k"
    "outside_bytes w2 = outside_bytes w0" "held_bytes w2 = held_bytes w0" "max_bytes w2 = max_bytes w0"
proof -
  let ?w1 = "collected t w"
  have w: "chunks_ok w" "no_links w" "\<not> list_ex (blocks (u_id u)) (entries w)" "distinct (map fst (entries w))"
    using up by (auto simp: uploading_def chunks_ok_def)
  have ok1: "chunks_ok ?w1" and bl: "\<not> list_ex (blocks (u_id u)) (entries ?w1)"
    using w chunks_ok_collected blocks_collected by blast+
  have area: "area_bytes ?w1 \<le> area_bytes w0 + (if k = 0 then 0 else 1) + bytes_before (u_parts u) k"
    using area_bytes_collected [of t w] up by (simp add: uploading_def)
  have fr: "outside_bytes ?w1 = outside_bytes w0" "held_bytes ?w1 = held_bytes w0" "max_bytes ?w1 = max_bytes w0" "no_links ?w1"
    using up by (simp_all add: uploading_def)
  show ?thesis
  proof (cases "k = 0")
    case True
    let ?w2 = "put_dir (u_id u) (fresh_dir t) ?w1"
    have none: "find_entry (u_id u) ?w1 = None"
      using up True w(4) by (simp add: uploading_def find_entry_collected)
    then have mk: "make_dir t (u_id u) ?w1 = (?w2, Inr (fresh_dir t))" by (simp add: make_dir_def fresh_dir_def Let_def)
    have "area_bytes ?w2 = area_bytes ?w1" by (simp add: area_bytes_put_dir dir_bytes_def none) (simp add: fresh_dir_def)
    moreover have "no_links ?w2" using fr(4) by (simp add: no_links_def)
    moreover have "entry_part_bytes (Directory (fresh_dir t)) = bytes_before (u_parts u) 0"
      by (simp add: fresh_dir_def bytes_before_def)
    ultimately show ?thesis
      using mk chunks_ok_make_dir [OF mk ok1 hex bl] bl area fr True holds_first_fresh blocks_put_dir
      by (intro that [of ?w2 "fresh_dir t"]) auto
  next
    case False
    with up obtain d where d: "find_entry (u_id u) w = Some (Directory d)" "holds_first (u_parts u) k d"
      "u_since u \<le> s_mtime d" "entry_part_bytes (Directory d) = bytes_before (u_parts u) k"
      by (auto simp: uploading_def simp del: entry_part_bytes.simps)
    have "find_entry (u_id u) ?w1 = Some (Directory d)"
      using d t w(4) by (simp add: find_entry_collected)
    with ok1 bl d area fr show ?thesis
      by (intro that [of ?w1 d]) (simp_all add: make_dir_def del: entry_part_bytes.simps)
  qed
qed

definition fits :: "sync_domain \<Rightarrow> string list \<Rightarrow> bool" where
  "fits w ps \<longleftrightarrow> ps \<noteq> [] \<and> length ps \<le> 4 \<and> int (length (concat ps)) \<le> max_total_decoded_bytes
     \<and> (\<forall>p \<in> set ps. int (length p) \<le> chunk_max_decoded_bytes)
     \<and> outside_bytes w + area_bytes w + held_bytes w + int (length (concat ps)) + 2 \<le> max_bytes w"

lemma put_locked_next:
  assumes up: "uploading w0 u k w" and hex: "hex_string 64 (u_id u)" and fits: "fits w0 (u_parts u)"
    and t: "t \<le> u_since u + staging_ttl" "u_since u \<le> t" and k: "k < length (u_parts u)"
  shows "\<exists>w'. put_locked t (u_id u) (int k) (int (length (u_parts u))) (u_parts u ! k) w
    = (w', Inr (staged_status (u_id u) (int k))) \<and> uploading w0 u (Suc k) w'"
proof -
  let ?ps = "u_parts u" and ?id = "u_id u"
  let ?p = "?ps ! k" and ?n = "int (length ?ps)"
  from up hex t obtain w2 d where w2: "make_dir t ?id (collected t w) = (w2, Inr d)" "chunks_ok w2" "no_links w2"
    "\<not> list_ex (blocks ?id) (entries w2)" "find_entry ?id w2 = Some (Directory d)"
    "holds_first ?ps k d" "entry_part_bytes (Directory d) = bytes_before ?ps k"
    "area_bytes w2 \<le> area_bytes w0 + (if k = 0 then 0 else 1) + bytes_before ?ps k"
    "outside_bytes w2 = outside_bytes w0" "held_bytes w2 = held_bytes w0" "max_bytes w2 = max_bytes w0"
    by (rule next_directory)
  have sizes: "bytes_before ?ps (Suc k) = bytes_before ?ps k + int (length ?p)"
    "bytes_before ?ps (Suc k) \<le> int (length (concat ?ps))"
    using bytes_before_Suc [OF k] bytes_before_le [of ?ps "Suc k"] by auto
  have four: "length ?ps \<le> 4" using fits by (simp add: fits_def)
  let ?d' = "add_chunk t (int k) ?n ?p d"
  have small: "int (length (concat ?ps)) \<le> max_total_decoded_bytes" using fits by (simp add: fits_def)
  have grown: "area_bytes (put_dir ?id ?d' w2) \<le> area_bytes w0 + 1 + bytes_before ?ps (Suc k)"
    using w2(5,8) sizes size_add_chunk [OF w2(6) four, of t ?p]
    by (simp add: area_bytes_put_dir dir_bytes_def del: entry_size.simps split: if_splits)
  have put: "put_in_dir t ?id (int k) ?n ?p d w2 = (put_dir ?id ?d' w2, Inr (staged_status ?id (int k)))"
  proof (rule put_in_dir_next [OF w2(2,5,3,4,6) k four w2(7) small])
    show "outside_bytes w2 + area_bytes w2 + held_bytes w2 + int (length ?p) + 1 \<le> max_bytes w2"
      using w2(8-11) sizes fits by (auto simp: fits_def split: if_splits)
  qed
  have blk: "\<not> list_ex (blocks ?id) (entries (collected t w))"
    using blocks_collected up by (simp add: uploading_def)
  have "gc_unlocked t w = (collected t w, Inr ())"
    using up gc_ok [of w t] by (simp add: uploading_def collected_def)
  with put w2(1) blk have run: "put_locked t ?id (int k) ?n ?p w = (put_dir ?id ?d' w2, Inr (staged_status ?id (int k)))"
    by (simp add: put_locked_def)
  moreover have "chunks_ok (put_dir ?id ?d' w2)"
    using up hex fits k run by (intro chunks_ok_put_locked [OF run]) (auto simp: uploading_def fits_def)
  moreover have "no_links (put_dir ?id ?d' w2)" using w2(3) by (simp add: no_links_def)
  moreover have "\<not> list_ex (blocks ?id) (entries (put_dir ?id ?d' w2))" using w2(4) blocks_put_dir by blast
  moreover have "entry_part_bytes (Directory ?d') = bytes_before ?ps (Suc k)"
    using part_bytes_add_chunk [OF w2(6)] w2(7) sizes by (simp del: entry_part_bytes.simps)
  moreover have "s_mtime ?d' = t" by (simp add: add_chunk_def write_file_def)
  ultimately show ?thesis using grown holds_first_add [OF w2(6) k] w2(9-11) t
    by (auto simp: uploading_def simp del: entry_part_bytes.simps)
qed

text \<open>The environment of the delivery: the decompressor undoes the compressor on chunks.\<close>

definition transports :: "chunk_env \<Rightarrow> (string \<Rightarrow> string) \<Rightarrow> string list \<Rightarrow> bool" where
  "transports C gzip ps \<longleftrightarrow> (\<forall>p \<in> set ps. gz_read C (chunk_max_decoded_bytes + 1) (gzip p) = Some p
     \<and> int (length (gzip p)) \<le> chunk_max_wire_bytes \<and> hex_string 64 (ce_sha256 C p))"

lemma put_chunk_next:
  assumes up: "uploading w0 u k w" "depth w = 0" and hex: "hex_string 64 (u_id u)" and fits: "fits w0 (u_parts u)"
    and tr: "transports C gzip (u_parts u)"
    and t: "t \<le> u_since u + staging_ttl" "u_since u \<le> t" and k: "k < length (u_parts u)"
  shows "\<exists>w'. put_chunk C (\<lambda>_. False) me t (PStr (u_id u)) (PInt (int k)) (PInt (int (length (u_parts u))))
      (PStr (ce_sha256 C (u_parts u ! k))) (gzip (u_parts u ! k)) w = (w', Inr (staged_status (u_id u) (int k)))
    \<and> uploading w0 u (Suc k) w' \<and> depth w' = 0"
proof -
  let ?p = "u_parts u ! k" and ?n = "int (length (u_parts u))"
  have p: "?p \<in> set (u_parts u)" using k by simp
  have "uploading w0 u k (w\<lparr> depth := 1, owner := Some me \<rparr>)" using up(1) by simp
  from put_locked_next [OF this hex fits t k] obtain w1 where w1:
    "put_locked t (u_id u) (int k) ?n ?p (w\<lparr> depth := 1, owner := Some me \<rparr>) = (w1, Inr (staged_status (u_id u) (int k)))"
    "uploading w0 u (Suc k) w1" by auto
  have "acquire_loop (\<lambda>_. False) 0 = Inr ()" by (simp add: acquire_loop.simps)
  moreover have "\<not> root_link w" using up(1) by (simp add: uploading_def no_links_def)
  ultimately have "with_locked (\<lambda>_. False) me (put_locked t (u_id u) (int k) ?n ?p) w
      = (w1\<lparr> depth := 0, owner := None \<rparr>, Inr (staged_status (u_id u) (int k)))"
    using up(2) w1(1) by (simp add: with_locked_def del: One_nat_def)
  moreover have "validate_ids (PStr (u_id u)) (PInt (int k)) (PInt ?n) = Inr ()"
    using hex k fits by (auto simp: validate_ids_def hex64_def int_within_def max_chunks_def fits_def)
  moreover have "decode_chunk C (PStr (ce_sha256 C ?p)) (gzip ?p) = Inr ?p"
    using tr p fits by (simp add: decode_chunk_def hex64_def transports_def fits_def not_less)
  ultimately show ?thesis using w1(2)
    by (intro exI [of _ "w1\<lparr> depth := 0, owner := None \<rparr>"]) (simp add: put_chunk_def)
qed

section \<open>A body reaches the other side unchanged\<close>

text \<open>The server's two operations as the sender's transport; \<open>clk i\<close> is when chunk \<open>i\<close> arrives.\<close>

definition serve_chunk :: "chunk_env \<Rightarrow> nat \<Rightarrow> (int \<Rightarrow> int) \<Rightarrow> sync_domain chunk_post" where
  "serve_chunk C me clk uid index n sha wire w =
     put_chunk C (\<lambda>_. False) me (clk index) (PStr uid) (PInt index) (PInt n) (PStr sha) wire w"

lemma acknowledged_status: "acknowledged uid i (staged_status uid i)"
  by (simp add: acknowledged_def staged_status_def)

lemma send_parts_delivers:
  assumes "uploading w0 u k w" "depth w = 0" and hex: "hex_string 64 (u_id u)" and fits: "fits w0 (u_parts u)"
    and tr: "transports C gzip (u_parts u)"
    and clk: "\<And>i. 0 \<le> i \<Longrightarrow> i < int (length (u_parts u)) \<Longrightarrow> u_since u \<le> clk i \<and> clk i \<le> u_since u + staging_ttl"
    and "k \<le> length (u_parts u)"
  shows "\<exists>w'. send_parts C gzip (serve_chunk C me clk) (u_id u) (int (length (u_parts u))) (int k) (drop k (u_parts u)) w
      = (w', Inr ()) \<and> uploading w0 u (length (u_parts u)) w' \<and> depth w' = 0"
  using assms(1,2,7)
proof (induction "length (u_parts u) - k" arbitrary: k w)
  case 0
  then show ?case by simp
next
  case (Suc m)
  then have k: "k < length (u_parts u)" by simp
  let ?p = "u_parts u ! k"
  from put_chunk_next [OF Suc.prems(1,2) hex fits tr _ _ k, of "clk (int k)" me] clk [of "int k"] k
  obtain w1 where w1: "serve_chunk C me clk (u_id u) (int k) (int (length (u_parts u))) (ce_sha256 C ?p) (gzip ?p) w
      = (w1, Inr (staged_status (u_id u) (int k)))" "uploading w0 u (Suc k) w1" "depth w1 = 0"
    by (auto simp: serve_chunk_def)
  have wire: "\<not> chunk_max_wire_bytes < int (length (gzip ?p))"
    using tr k by (simp add: transports_def not_less)
  have rest: "\<exists>w'. send_parts C gzip (serve_chunk C me clk) (u_id u) (int (length (u_parts u))) (int (Suc k))
      (drop (Suc k) (u_parts u)) w1 = (w', Inr ()) \<and> uploading w0 u (length (u_parts u)) w' \<and> depth w' = 0"
    by (rule Suc.hyps(1)) (use Suc.hyps(2) k w1 in auto)
  have "drop k (u_parts u) = ?p # drop (Suc k) (u_parts u)" using k by (simp add: Cons_nth_drop_Suc)
  then show ?case using rest w1(1) wire acknowledged_status by (simp add: add.commute)
qed

lemma assemble_parts_concat:
  assumes d: "holds_first ps (length ps) d" and fits: "fits w ps" and "j \<le> length ps"
  shows "foldr_result (assemble_part d) [int j .. int (length ps) - 1] (concat (take j ps)) = Inr (concat ps)"
  using assms(3)
proof (induction "length ps - j" arbitrary: j)
  case (Suc m)
  then have j: "j < length ps" by simp
  have "find_file (part_name (int j)) d = Some (FRegular (ps ! j))" using d j by (simp add: holds_first_def)
  moreover have "int (length (ps ! j)) \<le> chunk_max_decoded_bytes" using fits j by (simp add: fits_def)
  moreover have "concat (take j ps) @ ps ! j = concat (take (Suc j) ps)" using j by (simp add: take_Suc_conv_app_nth)
  moreover have "int (length (concat (take (Suc j) ps))) \<le> max_total_decoded_bytes"
    using bytes_before_le [of ps "Suc j"] fits by (simp add: bytes_before_def fits_def)
  ultimately have part: "assemble_part d (int j) (concat (take j ps)) = Inr (concat (take (Suc j) ps))"
    by (simp add: assemble_part_def not_less)
  have "[int j .. int (length ps) - 1] = int j # [int (Suc j) .. int (length ps) - 1]"
    using j by (simp add: upto_rec1 add.commute)
  with part Suc.hyps(1) [of "Suc j"] Suc.hyps(2) j show ?case by simp
qed simp

lemma assemble_delivered:
  assumes up: "uploading w0 u (length (u_parts u)) w" and fits: "fits w0 (u_parts u)" and hex: "hex_string 64 (u_id u)"
    and id: "u_id u = ce_sha256 C (concat (u_parts u))"
  shows "assemble_unlocked C (PStr (u_id u)) (PInt (int (length (u_parts u)))) w = Inr (concat (u_parts u))"
proof -
  let ?ps = "u_parts u"
  have ne: "?ps \<noteq> []" "length ?ps \<le> 4" using fits by (auto simp: fits_def)
  with up obtain d where d: "find_entry (u_id u) w = Some (Directory d)" "holds_first ?ps (length ?ps) d"
    by (auto simp: uploading_def)
  have tot: "find_file ''total'' d = Some (FRegular (show_int (int (length ?ps))))"
    using d(2) ne by (simp add: holds_first_def)
  have v: "validate_ids (PStr (u_id u)) (PInt 0) (PInt (int (length ?ps))) = Inr ()"
    using hex ne by (auto simp: validate_ids_def hex64_def int_within_def max_chunks_def Suc_le_eq)
  have "foldr_result (assemble_part d) [0 .. int (length ?ps) - 1] [] = Inr (concat ?ps)"
    using assemble_parts_concat [OF d(2) fits, of 0] by simp
  with d(1) tot v id show ?thesis by (simp add: assemble_unlocked_def read_total_def)
qed

section \<open>Steps\<close>

inductive chunk_step :: "sync_domain \<Rightarrow> sync_domain \<Rightarrow> bool" where
  put: "put_chunk C busy me now u i n sha wire s = (t, r) \<Longrightarrow> chunk_step s t"
| collect: "gc_chunks busy me now s = (t, r) \<Longrightarrow> chunk_step s t"
| assembled: "assemble C busy me u n s = (t, r) \<Longrightarrow> chunk_step s t"
| commit: "keeps_staging publish \<Longrightarrow> commit_chunks C busy me now publish u n s = (t, r) \<Longrightarrow> chunk_step s t"

inductive_cases chunk_stepE: "chunk_step s t"

definition empty_domain :: "sync_domain \<Rightarrow> bool" where
  "empty_domain s \<longleftrightarrow> (\<exists>cap. new_domain cap = Inr s)"

lemma assemble_keeps_chunks: "assemble C busy me u n s = (t, r) \<Longrightarrow> chunks_ok s \<Longrightarrow> chunks_ok t"
  unfolding assemble_def by (erule with_locked_keeps) auto

interpretation chunk_system: invariant_system empty_domain chunk_step chunks_ok
proof
  show "empty_domain s \<Longrightarrow> chunks_ok s" for s
    by (auto simp: empty_domain_def new_domain_def chunks_ok_def staged_bytes_def max_total_decoded_bytes_def)
  show "chunks_ok s \<Longrightarrow> chunk_step s t \<Longrightarrow> chunks_ok t" for s t
    by (erule chunk_stepE)
      (auto intro: chunks_ok_put_chunk chunks_ok_gc_chunks assemble_keeps_chunks chunks_ok_commit)
qed

section \<open>Staged files are written once\<close>

definition keeps_files :: "staged \<Rightarrow> staged \<Rightarrow> bool" where
  "keeps_files d d' \<longleftrightarrow> (\<forall>n f. find_file n d = Some f \<longrightarrow> find_file n d' = Some f)"

lemma keeps_files_refl [simp]: "keeps_files d d" "keeps_files d (d\<lparr> s_mtime := t \<rparr>)"
  by (simp_all add: keeps_files_def)

lemma keeps_files_with_total: "keeps_files d (with_total now n d)"
  by (auto simp: keeps_files_def find_file_with_total)

lemma put_in_dir_keeps:
  assumes "put_in_dir now uid i n b d w = (w', r)" and "find_entry uid w = Some (Directory d)"
  shows "(\<forall>m. m \<noteq> uid \<longrightarrow> find_entry m w' = find_entry m w)
    \<and> (\<exists>d'. find_entry uid w' = Some (Directory d') \<and> keeps_files d d')"
proof (cases "find_file (part_name i) d = None \<and> put_new now uid i n b d w = (w', r)")
  case False
  then have "w' = w \<or> w' = put_dir uid (d\<lparr> s_mtime := now \<rparr>) w"
    using assms(1) by (auto simp: put_in_dir_def split: if_splits option.splits)
  with assms(2) show ?thesis by auto
next
  case True
  then have new: "find_file (part_name i) d = None" "put_new now uid i n b d w = (w', r)" by auto
  from new(2) show ?thesis
  proof (cases rule: put_new_cases)
    case part
    have "keeps_files d (write_file now (part_name i) b (with_total now n d))"
      using new(1) keeps_files_with_total [of d now n] by (auto simp: keeps_files_def)
    with part show ?thesis by simp
  qed (use assms(2) keeps_files_with_total in auto)
qed

lemma gc_unlocked_ok_cases:
  assumes "chunks_ok w" and "gc_unlocked now w = (w1, r)"
  shows "w1 = w \<or> w1 = collected now w"
proof (cases "prepare w")
  case (Inr u)
  with gc_scan_ok [OF assms(1)] assms(2) show ?thesis by (auto simp: gc_unlocked_def collected_def)
qed (use assms in \<open>simp add: gc_unlocked_def\<close>)

lemma live_find_entry_gc:
  assumes "chunks_ok w" and "gc_unlocked now w = (w1, r)"
    and "find_entry uid w = Some (Directory d)" and "now - staging_ttl \<le> s_mtime d"
  shows "find_entry uid w1 = Some (Directory d)"
  using gc_unlocked_ok_cases [OF assms(1,2)] assms
  by (auto simp: find_entry_collected chunks_ok_def)

lemma put_locked_keeps:
  assumes "put_locked now uid' i n b w = (w', r)" and ok: "chunks_ok w"
    and d: "find_entry uid w = Some (Directory d)" and live: "now - staging_ttl \<le> s_mtime d"
  shows "\<exists>d'. find_entry uid w' = Some (Directory d') \<and> keeps_files d d'"
  using assms(1) ok
proof (cases rule: put_locked_cases)
  case (stopped w1)
  then show ?thesis using live_find_entry_gc [OF ok _ d live] by auto
next
  case (put w1 w2 d2)
  have d1: "find_entry uid w1 = Some (Directory d)" using live_find_entry_gc [OF ok put(1) d live] .
  have e2: "find_entry uid w2 = Some (Directory d)"
    using put(4,2) d1 by (cases rule: make_dir_cases) (auto split: if_splits)
  show ?thesis
  proof (cases "uid = uid'")
    case True
    with put(5) e2 have "d2 = d" by simp
    with put_in_dir_keeps [OF put(7,5)] True show ?thesis by auto
  next
    case False
    with put_in_dir_keeps [OF put(7,5)] e2 show ?thesis by auto
  qed
qed

lemma put_chunk_keeps:
  assumes "put_chunk C busy me now u i n sha wire w = (w', r)" and ok: "chunks_ok w"
    and d: "find_entry uid w = Some (Directory d)" and live: "now - staging_ttl \<le> s_mtime d"
  shows "\<exists>d'. find_entry uid w' = Some (Directory d') \<and> keeps_files d d'"
  using assms(1)
proof (cases rule: put_chunk_cases)
  case (accepted uid' k m b)
  from accepted(10) show ?thesis
  proof (cases rule: with_locked_cases)
    case (reenter w1)
    with put_locked_keeps [OF reenter(3) _ _ live, of uid] ok d show ?thesis by (simp add: find_entry_def)
  next
    case (enter w1)
    with put_locked_keeps [OF enter(1) _ _ live, of uid] ok d show ?thesis by (simp add: find_entry_def)
  qed (use d in auto)
qed (use d in auto)

section \<open>Properties\<close>

text \<open>In every state the writer lock can reach through acquisitions, releases and exits of
  processes, at most one lock object holds it; and as soon as nobody holds it, the next
  acquisition whose open succeeds gets it.\<close>

theorem run_lock_exclusive:
  assumes "reachable_from (\<lambda>s. s = no_locks) lock_step s"
  shows "(fds s i \<noteq> None \<and> fds s j \<noteq> None \<longrightarrow> i = j)
    \<and> (snd (lock_acquire opens i s) \<longleftrightarrow> opens \<and> (\<forall>k. fds s k = None))"
proof -
  have "lock_inv s" using assms by (rule lock_system.inv_reachable)
  then show ?thesis unfolding lock_inv_def lock_acquire_def
    by (elim disjE exE) (auto split: if_splits)
qed

theorem run_lock_exclusive_witness:
  "snd (lock_acquire True 3 (lock_release 0 (fst (lock_acquire True 0 no_locks))))
     \<and> \<not> snd (lock_acquire True 3 (fst (lock_acquire True 0 no_locks)))"
proof -
  have a: "reachable_from (\<lambda>s. s = no_locks) lock_step (fst (lock_acquire True 0 no_locks))"
    by (rule reachable_from.later [OF reachable_from.start], simp)
      (rule lock_step.acquire [of True 0 _ _ True], simp add: lock_acquire_def no_locks_def)
  then have b: "reachable_from (\<lambda>s. s = no_locks) lock_step (lock_release 0 (fst (lock_acquire True 0 no_locks)))"
    by (rule reachable_from.later) (rule lock_step.release)
  show ?thesis
    using run_lock_exclusive [OF a, of 3 0 True] run_lock_exclusive [OF b, of 3 0 True]
    by (simp add: lock_acquire_def lock_release_def os_close_def no_locks_def)
qed

text \<open>C27: Splitting succeeds exactly when the chunk size is in range, the body is at most 64 MiB and
  it takes at most four chunks; the chunks are then non-empty slices no longer than the chunk
  size (one empty chunk for the empty body) whose concatenation is the body.\<close>

theorem split_canonical_exact:
  "((\<exists>parts. split_canonical csize body = Inr parts) \<longleftrightarrow>
     0 < csize \<and> csize \<le> 16777216 \<and> int (length body) \<le> 67108864 \<and> int (length body) \<le> 4 * csize)
   \<and> (\<forall>parts. split_canonical csize body = Inr parts \<longrightarrow>
     concat parts = body \<and> 1 \<le> length parts \<and> length parts \<le> 4 \<and> list_all (\<lambda>p. int (length p) \<le> csize) parts)"
proof (intro conjI allI impI)
  fix parts
  assume "split_canonical csize body = Inr parts"
  from split_canonical_Inr [OF this] show "concat parts = body" "1 \<le> length parts" "length parts \<le> 4"
    "list_all (\<lambda>p. int (length p) \<le> csize) parts" by (auto simp: list_all_iff Suc_le_eq)
next
  have count: "4 < (int (length body) + csize - 1) div csize \<longleftrightarrow> 4 * csize < int (length body)" if "0 < csize"
  proof
    assume "4 < (int (length body) + csize - 1) div csize"
    then have "5 * csize \<le> (int (length body) + csize - 1) div csize * csize"
      using that by (intro mult_right_mono) auto
    also have "\<dots> \<le> int (length body) + csize - 1"
      using that by (metis add_increasing2 div_mult_mod_eq order_refl pos_mod_sign)
    finally show "4 * csize < int (length body)" by simp
  next
    assume "4 * csize < int (length body)"
    then have "(5 * csize) div csize \<le> (int (length body) + csize - 1) div csize"
      using that by (intro zdiv_mono1) auto
    with that show "4 < (int (length body) + csize - 1) div csize" by simp
  qed
  show "(\<exists>parts. split_canonical csize body = Inr parts) \<longleftrightarrow>
     0 < csize \<and> csize \<le> 16777216 \<and> int (length body) \<le> 67108864 \<and> int (length body) \<le> 4 * csize"
    using length_slices [of "nat csize" body] slices_eq_Nil [of "nat csize" body] count
    by (auto simp: split_canonical_def Let_def chunk_limits raise_if_def not_le not_less)
qed

theorem split_canonical_exact_witness:
  "split_canonical 2 ''abcde'' = Inr [''ab'', ''cd'', ''e''] \<and> concat [''ab'', ''cd'', ''e''] = ''abcde''
   \<and> \<not> (\<exists>parts. split_canonical 1 ''abcde'' = Inr parts)"
proof -
  have s: "split_canonical 2 ''abcde'' = Inr [''ab'', ''cd'', ''e'']" by code_simp
  then show ?thesis
    using split_canonical_exact [of 2 "''abcde''"] split_canonical_exact [of 1 "''abcde''"] by simp
qed

text \<open>C8: A bundle that was split by the sender arrives unchanged. When no other upload is staging and
  the domain has room, every chunk the sender's loop posts is staged and acknowledged, whatever
  completed uploads lie around and however the chunks are spread over the staging lifetime, and
  assembling the upload afterwards gives back the body.\<close>

theorem upload_roundtrip:
  assumes split: "split_canonical csize body = Inr parts" and id: "ce_sha256 C body = uid" and hex: "hex_string 64 uid"
    and area: "chunks_ok w" "no_links w" "depth w = 0" "\<not> list_ex (blocks uid) (entries w)" "find_entry uid w = None"
    and room: "outside_bytes w + area_bytes w + held_bytes w + int (length body) + 2 \<le> max_bytes w"
    and tr: "transports C gzip parts" and clk: "\<And>i. 0 \<le> i \<Longrightarrow> i < int (length parts) \<Longrightarrow> t0 \<le> clk i \<and> clk i \<le> t0 + staging_ttl"
  shows "\<exists>w'. send_parts C gzip (serve_chunk C me clk) uid (int (length parts)) 0 parts w = (w', Inr ())
    \<and> snd (assemble C (\<lambda>_. False) me' (PStr uid) (PInt (int (length parts))) w') = Inr body"
proof -
  define u where "u = \<lparr> u_id = uid, u_parts = parts, u_since = t0 \<rparr>"
  note sp = split_canonical_Inr [OF split]
  have fits: "fits w (u_parts u)"
    using sp room by (force simp: fits_def u_def intro: order_trans)
  have up: "uploading w u 0 w" using area by (simp add: uploading_def u_def bytes_before_def)
  from send_parts_delivers [OF up area(3) _ fits _ _ _, of C gzip clk me] hex tr clk
  obtain w' where w': "send_parts C gzip (serve_chunk C me clk) uid (int (length parts)) 0 parts w = (w', Inr ())"
    "uploading w u (length parts) w'" "depth w' = 0" by (auto simp: u_def)
  from w'(2) have "uploading w u (length (u_parts u)) (w'\<lparr> depth := 1, owner := Some me' \<rparr>)" by (simp add: u_def)
  from assemble_delivered [OF this fits, of C] hex id sp(1)
  have "assemble_unlocked C (PStr uid) (PInt (int (length parts))) (w'\<lparr> depth := 1, owner := Some me' \<rparr>) = Inr body"
    by (simp add: u_def)
  moreover have "acquire_loop (\<lambda>_. False) 0 = Inr ()" by (simp add: acquire_loop.simps)
  moreover have "\<not> root_link w'" using w'(2) by (simp add: uploading_def no_links_def)
  ultimately have "snd (assemble C (\<lambda>_. False) me' (PStr uid) (PInt (int (length parts))) w') = Inr body"
    using w'(3) by (simp add: assemble_def with_locked_def del: One_nat_def)
  with w'(1) show ?thesis by blast
qed

definition sample_chunks :: chunk_env where
  "sample_chunks = \<lparr> ce_sha256 = (\<lambda>_. sample_hash), gz_read = (\<lambda>n wire. if int (length wire) \<le> n then Some wire else None),
     receipt_dumps = (\<lambda>v. if v = PNone then Inr ''null'' else Inl OverflowError),
     receipt_loads = (\<lambda>_. Inr PNone) \<rparr>"

definition sample_domain :: sync_domain where
  "sample_domain = \<lparr> entries = [(replicate 64 (CHR ''b''), Directory \<lparr> s_files = [(''total'', FRegular ''1''),
       (''receipt.json'', FRegular ''null'')], s_mtime = 5 \<rparr>)], root_link = False, chunks_link = False,
     outside_bytes = 3, outside_link = False, max_bytes = 4096, depth = 0, held_bytes = 0, owner = None \<rparr>"

lemma sample_domain_ok: "chunks_ok sample_domain"
proof -
  have "dir_ok \<lparr> s_files = [(''total'', FRegular ''1''), (''receipt.json'', FRegular ''null'')], s_mtime = 5 \<rparr>"
    by (rule dir_okI) (auto simp: find_file_def split: if_splits)
  then show ?thesis
    by (simp add: chunks_ok_def sample_domain_def staged_bytes_def hex_string_def max_total_decoded_bytes_def find_file_def)
      (simp add: list_all_iff is_hex_lower_def is_digit_def)
qed

theorem upload_roundtrip_witness:
  "\<exists>w'. send_parts sample_chunks id (serve_chunk sample_chunks 0 (\<lambda>i. 10 + i)) sample_hash 3 0 [''ab'', ''cd'', ''e''] sample_domain
      = (w', Inr ())
    \<and> snd (assemble sample_chunks (\<lambda>_. False) 1 (PStr sample_hash) (PInt 3) w') = Inr ''abcde''"
proof -
  have s: "split_canonical 2 ''abcde'' = Inr [''ab'', ''cd'', ''e'']" by code_simp
  have h: "hex_string 64 sample_hash" by code_simp
  have "\<not> list_ex (blocks sample_hash) (entries sample_domain)" "find_entry sample_hash sample_domain = None" by code_simp+
  moreover have "transports sample_chunks id [''ab'', ''cd'', ''e'']"
    using h by (simp add: transports_def sample_chunks_def chunk_limits)
  moreover have "no_links sample_domain" "depth sample_domain = 0"
    "outside_bytes sample_domain + area_bytes sample_domain + held_bytes sample_domain + int (length ''abcde'') + 2
       \<le> max_bytes sample_domain" by (simp_all add: no_links_def sample_domain_def area_bytes_def)
  moreover have "ce_sha256 sample_chunks ''abcde'' = sample_hash" by (simp add: sample_chunks_def)
  moreover have "0 \<le> 10 + i \<and> 10 + i \<le> 0 + staging_ttl" if "0 \<le> i" "i < int (length [''ab'', ''cd'', ''e''])" for i
    using that by (simp add: staging_ttl_def)
  ultimately show ?thesis
    using upload_roundtrip [OF s _ h sample_domain_ok, of sample_chunks id 0 "\<lambda>i. 10 + i" 0 1]
    by (simp del: send_parts.simps)
qed

text \<open>C9: In every state reachable from an empty domain by any requests, valid or not, the staging
  area holds only directories named by upload digests, at most one of them without a receipt, at
  most 64 MiB of chunk bytes in all, no symbolic link, no chunk above 16 MiB, and no chunk left
  next to a receipt.\<close>

theorem staging_invariant:
  assumes "reachable_from empty_domain chunk_step w"
  shows "length (filter is_active (entries w)) \<le> 1 \<and> staged_bytes w \<le> 67108864
    \<and> (\<forall>n e. find_entry n w = Some e \<longrightarrow> (\<exists>d. e = Directory d \<and> hex_string 64 n
        \<and> (\<forall>m f. find_file m d = Some f \<longrightarrow> \<not> is_flink f
             \<and> (is_part m \<longrightarrow> length (fbytes f) \<le> 16777216 \<and> find_file ''receipt.json'' d = None))))"
proof -
  have ok: "chunks_ok w" using assms by (rule chunk_system.inv_reachable)
  have "\<exists>d. e = Directory d \<and> hex_string 64 n
        \<and> (\<forall>m f. find_file m d = Some f \<longrightarrow> \<not> is_flink f
             \<and> (is_part m \<longrightarrow> length (fbytes f) \<le> 16777216 \<and> find_file ''receipt.json'' d = None))"
    if "find_entry n w = Some e" for n e
  proof -
    from entry_ok_DirectoryD [OF ok that] obtain d where d: "e = Directory d" "hex_string 64 n" "dir_ok d" by auto
    have "length (fbytes f) \<le> 16777216 \<and> find_file ''receipt.json'' d = None" if "find_file m d = Some f" "is_part m" for m f
    proof -
      from that dir_okD(3) [OF d(3) that(1)] obtain i where i: "m = part_name i"
        "int (length (fbytes f)) \<le> chunk_max_decoded_bytes" by auto
      then have "find_file ''receipt.json'' d = None" using that(1) dir_okD(5) [OF d(3), of i] by force
      with i show ?thesis by (simp add: chunk_max_decoded_bytes_def)
    qed
    with d dir_okD(2) [OF d(3)] show ?thesis by blast
  qed
  with ok show ?thesis by (auto simp: chunks_ok_def max_total_decoded_bytes_def)
qed

theorem staging_invariant_witness:
  "\<exists>w. reachable_from empty_domain chunk_step w \<and> entries w \<noteq> [] \<and> length (filter is_active (entries w)) \<le> 1"
proof -
  obtain w0 where w0: "new_domain 4096 = Inr w0" by (auto simp: new_domain_def raise_if_def)
  let ?put = "put_chunk sample_chunks (\<lambda>_. False) 0 7 (PStr sample_hash) (PInt 0) (PInt 2) (PStr sample_hash) ''ab''"
  have "reachable_from empty_domain chunk_step w0"
    by (rule reachable_from.start) (use w0 in \<open>auto simp: empty_domain_def\<close>)
  then have r: "reachable_from empty_domain chunk_step (fst (?put w0))"
    by (rule reachable_from.later) (rule chunk_step.put, rule surjective_pairing)
  moreover have "entries (fst (?put (case new_domain 4096 of Inr x \<Rightarrow> x | Inl _ \<Rightarrow> sample_domain))) \<noteq> []" by code_simp
  ultimately show ?thesis using staging_invariant [OF r] w0 by auto
qed

text \<open>What a commit does to a staged file: it stays, or it is a chunk of the committed upload and gives way to
  the receipt that the commit answers with.\<close>

lemma commit_locked_keeps:
  assumes "commit_locked C now publish u t w = (w', r)" and "keeps_staging publish"
    and "find_entry uid w = Some (Directory d)" and "find_file n d = Some f"
  shows "\<exists>d'. find_entry uid w' = Some (Directory d') \<and> (find_file n d' = Some f
    \<or> is_part n \<and> as_text u = uid \<and> (\<exists>receipt p. r = Inr receipt \<and> receipt_dumps C receipt = Inr p
        \<and> find_file ''receipt.json'' d = None \<and> find_file ''receipt.json'' d' = Some (FRegular p)))"
  using assms(1,2)
proof (cases rule: commit_locked_cases)
  case unchanged
  with assms(3,4) find_entry_entries [of w' w] show ?thesis by auto
next
  case (published d0 body receipt p w1)
  have e: "find_entry m w1 = find_entry m w" for m using published(8) by (rule find_entry_entries)
  show ?thesis
  proof (cases "as_text u = uid")
    case False
    with assms(3,4) published(9) e show ?thesis by auto
  next
    case True
    with assms(3) published(1) have d0: "d0 = d" by simp
    with assms(4) published(2) have "n \<noteq> ''receipt.json''" by auto
    with True assms(4) published(2,6,9,10) d0 show ?thesis by (auto simp: e)
  qed
qed

lemma commit_chunks_keeps:
  assumes "commit_chunks C busy me now publish u t w = (w', r)" and "keeps_staging publish"
    and "find_entry uid w = Some (Directory d)" and "find_file n d = Some f"
  shows "\<exists>d'. find_entry uid w' = Some (Directory d') \<and> (find_file n d' = Some f
    \<or> is_part n \<and> as_text u = uid \<and> (\<exists>receipt p. r = Inr receipt \<and> receipt_dumps C receipt = Inr p
        \<and> find_file ''receipt.json'' d = None \<and> find_file ''receipt.json'' d' = Some (FRegular p)))"
proof (cases "validate_ids u (PInt 0) t")
  case (Inl e)
  with assms show ?thesis by (auto simp: commit_chunks_def)
next
  case (Inr x)
  with assms(1) have "with_locked busy me (commit_locked C now publish u t) w = (w', r)" by (simp add: commit_chunks_def)
  then show ?thesis
  proof (cases rule: with_locked_cases)
    case (reenter w1)
    with commit_locked_keeps [OF reenter(3) assms(2) _ assms(4), of uid] assms(3) show ?thesis by (simp add: find_entry_def)
  next
    case (enter w1)
    with commit_locked_keeps [OF enter(1) assms(2) _ assms(4), of uid] assms(3) show ?thesis by (simp add: find_entry_def)
  qed (use assms in auto)
qed

text \<open>C26: A staged file is written once. While an upload is inside its staging lifetime, whatever chunk
  request arrives, valid or not and for whichever upload, every file of the upload is still there with the
  same bytes afterwards. A commit request, too, leaves every file of every upload, except that the commit
  that succeeds puts its receipt in the place of its own upload's chunks.\<close>

theorem staged_files_written_once:
  assumes "chunks_ok w" and "find_entry uid w = Some (Directory d)" and "now - staging_ttl \<le> s_mtime d"
    and "find_file n d = Some f" and "keeps_staging publish"
  shows "(\<exists>d'. find_entry uid (fst (put_chunk C busy me now u i tot sha wire w)) = Some (Directory d') \<and> find_file n d' = Some f)
    \<and> (\<exists>d'. find_entry uid (fst (commit_chunks C busy me now publish u tot w)) = Some (Directory d') \<and> (find_file n d' = Some f
        \<or> is_part n \<and> as_text u = uid \<and> (\<exists>receipt p. snd (commit_chunks C busy me now publish u tot w) = Inr receipt
            \<and> receipt_dumps C receipt = Inr p \<and> find_file ''receipt.json'' d = None
            \<and> find_file ''receipt.json'' d' = Some (FRegular p))))"
  using put_chunk_keeps [OF surjective_pairing assms(1,2,3)]
    commit_chunks_keeps [OF surjective_pairing assms(5,2,4)] assms(4) by (fastforce simp: keeps_files_def)

theorem staged_files_written_once_witness:
  "\<exists>d'. find_entry (replicate 64 (CHR ''b'')) (fst (put_chunk sample_chunks (\<lambda>_. False) 0 7 (PStr sample_hash) (PInt 0) (PInt 2)
       (PStr sample_hash) ''ab'' sample_domain)) = Some (Directory d') \<and> find_file ''total'' d' = Some (FRegular ''1'')"
proof -
  have "keeps_staging (\<lambda>_ w. (w, Inl OverflowError))" by (simp add: keeps_staging_def)
  from staged_files_written_once [OF sample_domain_ok _ _ _ this, of "replicate 64 (CHR ''b'')"
      "\<lparr> s_files = [(''total'', FRegular ''1''), (''receipt.json'', FRegular ''null'')], s_mtime = 5 \<rparr>" 7 "''total''"
      "FRegular ''1''" sample_chunks "\<lambda>_. False" 0 "PStr sample_hash" "PInt 0" "PInt 2" "PStr sample_hash" "''ab''"]
  show ?thesis by (simp add: sample_domain_def find_entry_def find_file_def staging_ttl_def)
qed

text \<open>
  Two values are the same JSON value when they differ in the order of the keys of their dicts only:
  \<^verbatim>\<open>json.dumps(receipt, sort_keys=True)\<close> forgets that order, so a stored receipt is read back with
  its keys sorted.
\<close>

fun sorted_keys :: "pyval \<Rightarrow> pyval" where
  "sorted_keys (PList xs) = PList (map sorted_keys xs)"
| "sorted_keys (PDict d) = PDict (sort_key fst (map (\<lambda>(k, v). (k, sorted_keys v)) d))"
| "sorted_keys v = v"

definition same_json :: "pyval \<Rightarrow> pyval \<Rightarrow> bool" where
  "same_json a b \<longleftrightarrow> sorted_keys a = sorted_keys b"

lemma same_json_refl [simp]: "same_json v v" by (simp add: same_json_def)

lemma commit_locked_replay:
  assumes "find_entry (as_text u) w = Some (Directory d)" and "find_file ''receipt.json'' d = Some (FRegular p)"
    and "completed_receipt C (as_int n) d (FRegular p) = Inr receipt"
  shows "commit_locked C now publish u n w = (w, Inr receipt)"
  using assms by (simp add: commit_locked_def Let_def)

lemma commit_locked_done:
  assumes "commit_locked C now publish u n w = (w', Inr receipt)" and pub: "keeps_staging publish"
    and loads: "\<And>p. receipt_dumps C receipt = Inr p \<Longrightarrow> \<exists>v. receipt_loads C p = Inr v \<and> same_json receipt v"
  obtains d p receipt' where "find_entry (as_text u) w' = Some (Directory d)"
    "find_file ''receipt.json'' d = Some (FRegular p)"
    "completed_receipt C (as_int n) d (FRegular p) = Inr receipt'" "same_json receipt receipt'"
proof (cases "\<exists>d f. find_entry (as_text u) w = Some (Directory d) \<and> find_file ''receipt.json'' d = Some f")
  case True
  then obtain d f where d: "find_entry (as_text u) w = Some (Directory d)" "find_file ''receipt.json'' d = Some f" by auto
  with assms(1) show ?thesis by (cases f) (auto simp: commit_locked_def Let_def intro: that [OF _ _ _ same_json_refl])
next
  case False
  from assms(1) pub show ?thesis
  proof (cases rule: commit_locked_cases)
    case (published d body r payload w1)
    let ?d = "drop_parts now (write_file now ''receipt.json'' payload d)"
    from loads obtain v where v: "receipt_loads C payload = Inr v" "same_json receipt v" using published(6,10) by blast
    then have "completed_receipt C (as_int n) ?d (FRegular payload) = Inr v"
      using published(3,7,10) by (simp add: completed_receipt_def read_total_def)
    with published(9) v(2) show ?thesis by (intro that [of ?d payload v]) simp_all
  next
    case unchanged
    with False show ?thesis by blast
  qed
qed

lemma with_locked_free:
  assumes "depth w = 0" and "\<not> root_link w" and "\<not> busy k" "k \<le> 20"
  shows "with_locked busy me body w = (case body (w\<lparr> depth := 1, owner := Some me \<rparr>) of (w', r) \<Rightarrow> (w'\<lparr> depth := 0, owner := None \<rparr>, r))"
proof -
  have "acquire_loop busy 0 = Inr ()" using acquire_loop_ok [of 0 busy] assms(3,4) by auto
  with assms show ?thesis by (simp add: with_locked_def del: One_nat_def)
qed

lemma find_entry_lock [simp]:
  "find_entry n (w\<lparr> depth := x \<rparr>) = find_entry n w" "find_entry n (w\<lparr> owner := y \<rparr>) = find_entry n w"
  by (simp_all add: find_entry_def)

text \<open>C10: A commit is idempotent. Once a commit has answered with a receipt, repeating it answers with
  the same receipt (up to the order of dict keys, which the stored text sorts) and changes nothing,
  whatever publisher is behind it: the body is published once. It takes that parsing the text
  written for this receipt gives the same JSON value back.\<close>

theorem committed_upload_replays:
  assumes first: "commit_chunks C busy me now publish u n w = (w', Inr receipt)" and free: "depth w = 0"
    and pub: "keeps_staging publish" and loads: "\<And>p. receipt_dumps C receipt = Inr p \<Longrightarrow> \<exists>v. receipt_loads C p = Inr v \<and> same_json receipt v"
    and again: "\<not> root_link w'" "\<not> busy' k" "k \<le> 20"
  shows "\<exists>receipt'. same_json receipt receipt' \<and> commit_chunks C busy' me' now' publish' u n w' = (w', Inr receipt')"
proof -
  from first have v: "validate_ids u (PInt 0) n = Inr ()"
    and run: "with_locked busy me (commit_locked C now publish u n) w = (w', Inr receipt)"
    by (auto simp: commit_chunks_def split: sum.splits)
  from run free obtain w1 where w1: "commit_locked C now publish u n (w\<lparr> depth := 1, owner := Some me \<rparr>) = (w1, Inr receipt)"
    "w' = w1\<lparr> depth := 0, owner := None \<rparr>"
    by (cases rule: with_locked_cases) auto
  from w1(1) pub loads obtain d p receipt' where d: "find_entry (as_text u) w1 = Some (Directory d)"
    "find_file ''receipt.json'' d = Some (FRegular p)" "completed_receipt C (as_int n) d (FRegular p) = Inr receipt'"
    and same: "same_json receipt receipt'"
    by (rule commit_locked_done)
  have "find_entry (as_text u) (w'\<lparr> depth := 1, owner := Some me' \<rparr>) = Some (Directory d)"
    using d(1) w1(2) by simp
  from commit_locked_replay [OF this d(2,3)]
  have "commit_locked C now' publish' u n (w'\<lparr> depth := 1, owner := Some me' \<rparr>) = (w'\<lparr> depth := 1, owner := Some me' \<rparr>, Inr receipt')" .
  moreover have "depth w' = 0" "w'\<lparr> depth := 0, owner := None \<rparr> = w'" using w1(2) by simp_all
  ultimately have "commit_chunks C busy' me' now' publish' u n w' = (w', Inr receipt')" using v again
    by (simp add: commit_chunks_def with_locked_free [of w' busy' k, OF _ again] del: One_nat_def)
  with same show ?thesis by blast
qed

definition fresh_receipt :: pyval where
  "fresh_receipt = PDict [(''status'', PStr ''published''), (''bundle_id'', PStr ''b1'')]"

definition stored_receipt :: pyval where
  "stored_receipt = PDict [(''bundle_id'', PStr ''b1''), (''status'', PStr ''published'')]"

definition json_chunks :: chunk_env where
  "json_chunks = sample_chunks\<lparr> receipt_dumps := json_dumps sample_env,
     receipt_loads := (\<lambda>p. if Inr p = json_dumps sample_env stored_receipt then Inr stored_receipt
                           else Inl (ValueError ''invalid JSON'')) \<rparr>"

definition sample_publisher :: publisher where
  "sample_publisher body w = (w\<lparr> outside_bytes := outside_bytes w + int (length body) \<rparr>, Inr fresh_receipt)"

definition one_chunk :: sync_domain where
  "one_chunk = fst (put_chunk json_chunks (\<lambda>_. False) 0 7 (PStr sample_hash) (PInt 0) (PInt 1) (PStr sample_hash) ''ab'' sample_domain)"

definition committed_once :: sync_domain where
  "committed_once = fst (commit_chunks json_chunks (\<lambda>_. False) 0 8 sample_publisher (PStr sample_hash) (PInt 1) one_chunk)"

lemma fresh_receipt_stored: "json_dumps sample_env fresh_receipt = json_dumps sample_env stored_receipt" by code_simp

theorem committed_upload_replays_witness:
  "\<exists>receipt'. same_json fresh_receipt receipt'
     \<and> commit_chunks json_chunks (\<lambda>_. False) 0 9 (\<lambda>_ w. (w, Inl OverflowError)) (PStr sample_hash) (PInt 1) committed_once
       = (committed_once, Inr receipt') \<and> outside_bytes committed_once = 5"
proof -
  have r: "snd (commit_chunks json_chunks (\<lambda>_. False) 0 8 sample_publisher (PStr sample_hash) (PInt 1) one_chunk) = Inr fresh_receipt"
    "\<not> root_link committed_once" "outside_bytes committed_once = 5" "depth one_chunk = 0" by code_simp+
  then have c: "commit_chunks json_chunks (\<lambda>_. False) 0 8 sample_publisher (PStr sample_hash) (PInt 1) one_chunk
      = (committed_once, Inr fresh_receipt)" by (metis committed_once_def prod.collapse)
  have "keeps_staging sample_publisher" by (simp add: keeps_staging_def sample_publisher_def)
  moreover have "same_json fresh_receipt stored_receipt" by code_simp
  then have "\<exists>v. receipt_loads json_chunks p = Inr v \<and> same_json fresh_receipt v"
    if "receipt_dumps json_chunks fresh_receipt = Inr p" for p
    using that fresh_receipt_stored by (auto simp: json_chunks_def)
  ultimately show ?thesis using committed_upload_replays [OF c r(4), of "\<lambda>_. False" 0 0 9] r(2,3) by blast
qed

end
