(* ===== verification/Time_Split.thy ===== *)
theory Time_Split
  imports Py_Values
begin

text \<open>
  Chronological train/test splits with purged labels, \<^verbatim>\<open>app/utils/time_split.py\<close>. Session
  dates are any linearly ordered type; \<^verbatim>\<open>int(...)\<close> of the integer arguments is the identity.
\<close>

section \<open>Results\<close>

record 'd holdout_bounds =
  hb_test_start :: 'd
  hb_train_before :: 'd
  hb_train_last :: 'd
  hb_label_end_before :: 'd
  hb_label_horizon :: int
  hb_embargo_sessions :: int
  hb_purge_sessions :: int
  hb_purged_dates :: "'d list"

definition bounds_dump :: "('d \<Rightarrow> string) \<Rightarrow> 'd holdout_bounds \<Rightarrow> pyval" where
  "bounds_dump str b = PDict
     [(''test_start'', PStr (str (hb_test_start b))), (''train_before'', PStr (str (hb_train_before b))),
      (''train_last'', PStr (str (hb_train_last b))), (''label_end_before'', PStr (str (hb_label_end_before b))),
      (''label_horizon'', PInt (hb_label_horizon b)), (''embargo_sessions'', PInt (hb_embargo_sessions b)),
      (''purge_sessions'', PInt (hb_purge_sessions b)),
      (''purged_dates'', PList (map (\<lambda>d. PStr (str d)) (hb_purged_dates b))),
      (''rule'', PStr ''training label end must be strictly earlier than first test session'')]"

record 'd walk_fold =
  wf_fold_index :: int
  wf_train_first :: 'd
  wf_train_before :: 'd
  wf_train_last :: 'd
  wf_label_end_before :: 'd
  wf_test_start :: 'd
  wf_test_end :: 'd
  wf_label_horizon :: int
  wf_embargo_sessions :: int
  wf_purge_sessions :: int
  wf_purged_dates :: "'d list"
  wf_train_sessions :: int
  wf_test_sessions :: int

definition fold_dump :: "('d \<Rightarrow> string) \<Rightarrow> 'd walk_fold \<Rightarrow> pyval" where
  "fold_dump str f = PDict
     [(''fold_index'', PInt (wf_fold_index f)), (''train_first'', PStr (str (wf_train_first f))),
      (''train_before'', PStr (str (wf_train_before f))), (''train_last'', PStr (str (wf_train_last f))),
      (''label_end_before'', PStr (str (wf_label_end_before f))), (''test_start'', PStr (str (wf_test_start f))),
      (''test_end'', PStr (str (wf_test_end f))), (''label_horizon'', PInt (wf_label_horizon f)),
      (''embargo_sessions'', PInt (wf_embargo_sessions f)), (''purge_sessions'', PInt (wf_purge_sessions f)),
      (''purged_dates'', PList (map (\<lambda>d. PStr (str d)) (wf_purged_dates f))),
      (''train_sessions'', PInt (wf_train_sessions f)), (''test_sessions'', PInt (wf_test_sessions f)),
      (''rule'', PStr ''expanding train; fixed non-overlapping test; target-overlap purge before every test fold'')]"

section \<open>Operations\<close>

text \<open>\<^verbatim>\<open>sorted(set(...))\<close> and \<^verbatim>\<open>bisect_left\<close> on a sorted list.\<close>

definition sessions :: "'d::linorder list \<Rightarrow> 'd list" where
  "sessions dates = sorted_list_of_set (set dates)"

definition bisect_left :: "'d::linorder list \<Rightarrow> 'd \<Rightarrow> nat" where
  "bisect_left xs x = length (takeWhile (\<lambda>y. y < x) xs)"

definition purged_holdout_bounds :: "'d::linorder list \<Rightarrow> 'd \<Rightarrow> int \<Rightarrow> int \<Rightarrow> 'd holdout_bounds result" where
  "purged_holdout_bounds calendar_dates test_start horizon embargo =
     raise_if (horizon \<le> 0) (ValueError ''label_horizon must be positive'')
     (raise_if (embargo < 0) (ValueError ''embargo_sessions must be non-negative'')
     (let calendar = sessions calendar_dates in
      raise_if (calendar = []) (ValueError ''calendar_dates cannot be empty'')
      (let split_index = bisect_left calendar test_start in
       raise_if (length calendar \<le> split_index \<or> calendar ! split_index \<noteq> test_start)
         (ValueError ''test_start must be present in calendar_dates'')
       (let purge_sessions = horizon + embargo;
            train_before_index = int split_index - purge_sessions
        in raise_if (train_before_index \<le> 0) (ValueError ''not enough pre-test sessions for requested purge'')
           (Inr \<lparr> hb_test_start = calendar ! split_index,
                  hb_train_before = calendar ! nat train_before_index,
                  hb_train_last = calendar ! (nat train_before_index - 1),
                  hb_label_end_before = (if embargo \<noteq> 0 then calendar ! (split_index - nat embargo) else calendar ! split_index),
                  hb_label_horizon = horizon, hb_embargo_sessions = embargo, hb_purge_sessions = purge_sessions,
                  hb_purged_dates = take (split_index - nat train_before_index) (drop (nat train_before_index) calendar) \<rparr>)))))"

definition walk_fold_at ::
  "'d::linorder list \<Rightarrow> int \<Rightarrow> int \<Rightarrow> int \<Rightarrow> int \<Rightarrow> int \<Rightarrow> int \<Rightarrow> 'd walk_fold result" where
  "walk_fold_at calendar first_test_index test_count minimum_train horizon embargo i =
     (let test_index = first_test_index + i * test_count;
          test_start = calendar ! nat test_index;
          test_end = calendar ! nat (test_index + test_count - 1)
      in bindr (purged_holdout_bounds calendar test_start horizon embargo) (\<lambda>guard.
         let train_sessions = test_index - hb_purge_sessions guard
         in raise_if (train_sessions < minimum_train)
              (ValueError ''not enough leakage-safe training sessions for requested walk-forward configuration'')
            (Inr \<lparr> wf_fold_index = i + 1, wf_train_first = calendar ! 0, wf_train_before = hb_train_before guard,
                   wf_train_last = hb_train_last guard, wf_label_end_before = hb_label_end_before guard,
                   wf_test_start = test_start, wf_test_end = test_end, wf_label_horizon = horizon,
                   wf_embargo_sessions = embargo, wf_purge_sessions = hb_purge_sessions guard,
                   wf_purged_dates = hb_purged_dates guard, wf_train_sessions = train_sessions,
                   wf_test_sessions = test_count \<rparr>)))"

definition purged_expanding_walk_forward_folds ::
  "'d::linorder list \<Rightarrow> int \<Rightarrow> int \<Rightarrow> int \<Rightarrow> int \<Rightarrow> int \<Rightarrow> 'd walk_fold list result" where
  "purged_expanding_walk_forward_folds calendar_dates horizon fold_count test_count minimum_train embargo =
     raise_if (fold_count \<le> 0) (ValueError ''folds must be positive'')
     (raise_if (test_count \<le> 0) (ValueError ''test_sessions must be positive'')
     (raise_if (minimum_train \<le> 0) (ValueError ''min_train_sessions must be positive'')
     (raise_if (horizon \<le> 0) (ValueError ''label_horizon must be positive'')
     (raise_if (embargo < 0) (ValueError ''embargo_sessions must be non-negative'')
     (let calendar = sessions calendar_dates in
      raise_if (calendar = []) (ValueError ''calendar_dates cannot be empty'')
      (let first_test_index = int (length calendar) - fold_count * test_count in
       raise_if (first_test_index \<le> 0) (ValueError ''not enough sessions for requested walk-forward test windows'')
       (mapr (walk_fold_at calendar first_test_index test_count minimum_train horizon embargo) [0 .. fold_count - 1])))))))"

section \<open>Lemmas\<close>

lemma sessions_props [simp]: "sorted (sessions ds)" "distinct (sessions ds)" "set (sessions ds) = set ds"
  by (simp_all add: sessions_def)

lemma sessions_idem [simp]: "sessions (sessions ds) = sessions ds"
  by (metis sessions_def sessions_props(3))

lemma sessions_strict: "i < j \<Longrightarrow> j < length (sessions ds) \<Longrightarrow> sessions ds ! i < sessions ds ! j"
  by (metis nth_eq_iff_index_eq less_le order.strict_trans sessions_props(1,2) sorted_nth_mono order_less_imp_le)

lemma bisect_left_nth:
  assumes "k < length (sessions ds)"
  shows "bisect_left (sessions ds) (sessions ds ! k) = k"
proof -
  have "takeWhile (\<lambda>y. y < sessions ds ! k) (sessions ds) = take k (sessions ds)"
    using assms by (intro takeWhile_eq_take_P_nth) (auto intro: sessions_strict)
  with assms show ?thesis by (simp add: bisect_left_def)
qed

text \<open>The bounds as indices of the session list.\<close>

lemma holdout_bounds_indices:
  assumes "purged_holdout_bounds ds t horizon embargo = Inr b"
  obtains s where "s < length (sessions ds)" "sessions ds ! s = t" "hb_test_start b = t"
    "0 < horizon" "0 \<le> embargo" "horizon + embargo < int s"
    "hb_train_before b = sessions ds ! nat (int s - (horizon + embargo))"
    "hb_train_last b = sessions ds ! (nat (int s - (horizon + embargo)) - 1)"
    "hb_label_end_before b = sessions ds ! nat (int s - embargo)"
    "hb_purge_sessions b = horizon + embargo"
    "hb_purged_dates b = take (nat (horizon + embargo)) (drop (nat (int s - (horizon + embargo))) (sessions ds))"
proof -
  let ?s = "bisect_left (sessions ds) t"
  note facts = assms [unfolded purged_holdout_bounds_def Let_def raise_if_simps(1)]
  have b: "0 < horizon" "0 \<le> embargo" "?s < length (sessions ds)" "sessions ds ! ?s = t"
    "horizon + embargo < int ?s" using facts by auto
  have idx: "?s - nat embargo = nat (int ?s - embargo)" "?s - nat (int ?s - (horizon + embargo)) = nat (horizon + embargo)"
    using b by auto
  show ?thesis
    using facts b idx by (intro that [of ?s]) auto
qed

lemma holdout_bounds_ok:
  assumes "k < length (sessions ds)" and "0 < horizon" and "0 \<le> embargo" and "horizon + embargo < int k"
  shows "\<exists>b. purged_holdout_bounds ds (sessions ds ! k) horizon embargo = Inr b"
  using assms bisect_left_nth [OF assms(1)]
  by (auto simp: purged_holdout_bounds_def Let_def raise_if_def not_le)

lemma walk_fold_at_Inr:
  assumes "walk_fold_at (sessions ds) first tc minimum horizon embargo i = Inr f" and "first + i * tc = int k"
    and "k < length (sessions ds)"
  shows "wf_test_start f = sessions ds ! k" and "wf_test_end f = sessions ds ! nat (int k + tc - 1)"
    and "wf_train_first f = sessions ds ! 0" and "wf_fold_index f = i + 1"
    and "horizon + embargo < int k" and "0 < horizon" and "0 \<le> embargo"
    and "wf_train_before f = sessions ds ! nat (int k - (horizon + embargo))"
    and "wf_train_last f = sessions ds ! (nat (int k - (horizon + embargo)) - 1)"
    and "wf_label_end_before f = sessions ds ! nat (int k - embargo)"
    and "wf_train_sessions f = int k - (horizon + embargo)" and "minimum \<le> wf_train_sessions f"
    and "wf_purged_dates f = take (nat (horizon + embargo)) (drop (nat (int k - (horizon + embargo))) (sessions ds))"
proof -
  from assms(1,2) obtain g where g: "purged_holdout_bounds (sessions ds) (sessions ds ! k) horizon embargo = Inr g"
    and f: "f = \<lparr> wf_fold_index = i + 1, wf_train_first = sessions ds ! 0, wf_train_before = hb_train_before g,
       wf_train_last = hb_train_last g, wf_label_end_before = hb_label_end_before g,
       wf_test_start = sessions ds ! k, wf_test_end = sessions ds ! nat (int k + tc - 1), wf_label_horizon = horizon,
       wf_embargo_sessions = embargo, wf_purge_sessions = hb_purge_sessions g,
       wf_purged_dates = hb_purged_dates g, wf_train_sessions = int k - hb_purge_sessions g, wf_test_sessions = tc \<rparr>"
    and m: "minimum \<le> int k - hb_purge_sessions g"
    by (auto simp: walk_fold_at_def Let_def not_less)
  from g obtain s where s: "s < length (sessions ds)" "sessions ds ! s = sessions ds ! k"
    "0 < horizon" "0 \<le> embargo" "horizon + embargo < int s"
    "hb_train_before g = sessions ds ! nat (int s - (horizon + embargo))"
    "hb_train_last g = sessions ds ! (nat (int s - (horizon + embargo)) - 1)"
    "hb_label_end_before g = sessions ds ! nat (int s - embargo)" "hb_purge_sessions g = horizon + embargo"
    "hb_purged_dates g = take (nat (horizon + embargo)) (drop (nat (int s - (horizon + embargo))) (sessions ds))"
    by (rule holdout_bounds_indices) simp
  have "s = k" using s(1,2) assms(3) by (simp add: nth_eq_iff_index_eq)
  with s f m show "wf_test_start f = sessions ds ! k" "wf_test_end f = sessions ds ! nat (int k + tc - 1)"
    "wf_train_first f = sessions ds ! 0" "wf_fold_index f = i + 1"
    "horizon + embargo < int k" "0 < horizon" "0 \<le> embargo"
    "wf_train_before f = sessions ds ! nat (int k - (horizon + embargo))"
    "wf_train_last f = sessions ds ! (nat (int k - (horizon + embargo)) - 1)"
    "wf_label_end_before f = sessions ds ! nat (int k - embargo)"
    "wf_train_sessions f = int k - (horizon + embargo)" "minimum \<le> wf_train_sessions f"
    "wf_purged_dates f = take (nat (horizon + embargo)) (drop (nat (int k - (horizon + embargo))) (sessions ds))" by simp_all
qed

lemma purge_index_order:
  assumes "horizon + embargo < int k" and "0 < horizon" and "0 \<le> embargo"
  shows "nat (int k - (horizon + embargo)) - 1 < nat (int k - (horizon + embargo))"
    and "nat (int k - (horizon + embargo)) < nat (int k - embargo)" and "nat (int k - embargo) \<le> k"
  using assms by auto

lemma purge_index_gap:
  assumes "horizon + embargo < int k" and "0 < horizon" and "0 \<le> embargo"
  shows "nat (int k - (horizon + embargo)) \<le> k" and "k - nat (int k - (horizon + embargo)) = nat (horizon + embargo)"
    and "int (k - nat (int k - embargo)) = embargo" and "int (nat (int k - (horizon + embargo))) = int k - (horizon + embargo)"
  using assms by auto

lemma concat_windows:
  "concat (map (\<lambda>j. take t (drop (a + j * t) xs)) [0..<n]) = take (n * t) (drop a xs)"
proof (induction n)
  case (Suc n)
  have "take (n * t + t) (drop a xs) = take (n * t) (drop a xs) @ take t (drop (n * t) (drop a xs))"
    by (rule take_add)
  with Suc show ?case by (simp add: add.commute [of t] add.commute [of a])
qed simp

text \<open>The sessions of a test window.\<close>

definition test_window :: "'d::linorder list \<Rightarrow> 'd walk_fold \<Rightarrow> 'd list" where
  "test_window ds f = filter (\<lambda>d. wf_test_start f \<le> d \<and> d \<le> wf_test_end f) (sessions ds)"

lemma sessions_le_iff:
  "i < length (sessions ds) \<Longrightarrow> j < length (sessions ds) \<Longrightarrow> sessions ds ! i \<le> sessions ds ! j \<longleftrightarrow> i \<le> j"
  by (metis linorder_not_less order_less_imp_le sessions_strict le_eq_less_or_eq)

lemma filter_window:
  assumes "a + t \<le> length (sessions ds)" and "0 < t"
  shows "filter (\<lambda>d. sessions ds ! a \<le> d \<and> d \<le> sessions ds ! (a + t - 1)) (sessions ds) = take t (drop a (sessions ds))"
proof -
  let ?s = "sessions ds" and ?P = "\<lambda>d. sessions ds ! a \<le> d \<and> d \<le> sessions ds ! (a + t - 1)"
  have at: "?P (?s ! i) \<longleftrightarrow> a \<le> i \<and> i < a + t" if "i < length ?s" for i
    using that assms sessions_le_iff [of a ds i] sessions_le_iff [of i ds "a + t - 1"] by auto
  have split: "?s = take a ?s @ take t (drop a ?s) @ drop (a + t) ?s"
    by (metis append.assoc append_take_drop_id drop_drop add.commute)
  have "\<not> ?P d" if d: "d \<in> set (take a ?s)" for d
  proof -
    from d obtain i where "i < a" "i < length ?s" "d = ?s ! i" by (auto simp: in_set_conv_nth)
    with at [of i] show ?thesis by simp
  qed
  moreover have "?P d" if d: "d \<in> set (take t (drop a ?s))" for d
  proof -
    from d obtain i where "i < t" "a + i < length ?s" "d = ?s ! (a + i)" by (auto simp: in_set_conv_nth)
    with at [of "a + i"] show ?thesis by simp
  qed
  moreover have "\<not> ?P d" if d: "d \<in> set (drop (a + t) ?s)" for d
  proof -
    from d obtain i where "i < length ?s - (a + t)" "d = ?s ! (a + t + i)" by (auto simp: in_set_conv_nth)
    with at [of "a + t + i"] show ?thesis by simp
  qed
  ultimately have "filter ?P (take a ?s @ take t (drop a ?s) @ drop (a + t) ?s) = take t (drop a ?s)"
    by (simp add: filter_empty_conv filter_id_conv del: filter_append) (auto simp: filter_empty_conv filter_id_conv)
  with split show ?thesis by simp
qed

text \<open>The sessions from one to before another.\<close>

definition sessions_between :: "'d::linorder list \<Rightarrow> 'd \<Rightarrow> 'd \<Rightarrow> 'd list" where
  "sessions_between ds a b = filter (\<lambda>d. a \<le> d \<and> d < b) (sessions ds)"

lemma sessions_between_nth:
  assumes "a \<le> k" "k < length (sessions ds)"
  shows "sessions_between ds (sessions ds ! a) (sessions ds ! k) = take (k - a) (drop a (sessions ds))"
proof (cases "a = k")
  case True
  then show ?thesis by (auto simp: sessions_between_def filter_empty_conv)
next
  case False
  have before: "d < sessions ds ! k \<longleftrightarrow> d \<le> sessions ds ! (k - 1)" if "d \<in> set (sessions ds)" for d
  proof -
    from that obtain i where "i < length (sessions ds)" "d = sessions ds ! i" by (metis in_set_conv_nth)
    then show ?thesis using sessions_le_iff [of k ds i] sessions_le_iff [of i ds "k - 1"] assms False
      by (auto simp: linorder_not_le [symmetric])
  qed
  have "sessions_between ds (sessions ds ! a) (sessions ds ! k)
      = filter (\<lambda>d. sessions ds ! a \<le> d \<and> d \<le> sessions ds ! (a + (k - a) - 1)) (sessions ds)"
    unfolding sessions_between_def using assms before by (intro filter_cong) auto
  also have "\<dots> = take (k - a) (drop a (sessions ds))" by (rule filter_window) (use assms False in auto)
  finally show ?thesis .
qed

text \<open>The sessions a fold trains on.\<close>

definition train_window :: "'d::linorder list \<Rightarrow> 'd walk_fold \<Rightarrow> 'd list" where
  "train_window ds f = filter (\<lambda>d. d < wf_train_before f) (sessions ds)"

lemma train_window_between: "sessions ds \<noteq> [] \<Longrightarrow> train_window ds f = sessions_between ds (sessions ds ! 0) (wf_train_before f)"
  unfolding train_window_def sessions_between_def
proof (intro filter_cong refl)
  fix d assume "sessions ds \<noteq> []" "d \<in> set (sessions ds)"
  then obtain i where "i < length (sessions ds)" "d = sessions ds ! i" by (metis in_set_conv_nth)
  moreover from this have "0 < length (sessions ds)" by linarith
  ultimately have "sessions ds ! 0 \<le> d" using sessions_le_iff [of 0 ds i] by simp
  then show "(d < wf_train_before f) = (sessions ds ! 0 \<le> d \<and> d < wf_train_before f)" by simp
qed

section \<open>Properties\<close>

text \<open>C28: A purged holdout does not leak: whenever the bounds are returned, a session may train exactly
  when the session its label looks ahead to lies before the embargoed stretch in front of the
  test, and that stretch ends no later than the first test session.\<close>

theorem purged_labels_stay_before_test:
  assumes "purged_holdout_bounds ds t horizon embargo = Inr b"
  shows "hb_train_last b < hb_train_before b \<and> hb_train_before b < hb_label_end_before b \<and> hb_label_end_before b \<le> t
    \<and> length (hb_purged_dates b) = nat (horizon + embargo)
    \<and> (\<forall>i. i + nat horizon < length (sessions ds) \<longrightarrow>
        (sessions ds ! i < hb_train_before b \<longleftrightarrow> sessions ds ! (i + nat horizon) < hb_label_end_before b))"
proof -
  from assms obtain s where s: "s < length (sessions ds)" "sessions ds ! s = t"
    "0 < horizon" "0 \<le> embargo" "horizon + embargo < int s"
    "hb_train_before b = sessions ds ! nat (int s - (horizon + embargo))"
    "hb_train_last b = sessions ds ! (nat (int s - (horizon + embargo)) - 1)"
    "hb_label_end_before b = sessions ds ! nat (int s - embargo)"
    "hb_purged_dates b = take (nat (horizon + embargo)) (drop (nat (int s - (horizon + embargo))) (sessions ds))"
    by (rule holdout_bounds_indices)
  let ?a = "nat (int s - (horizon + embargo))" and ?l = "nat (int s - embargo)"
  have idx: "0 < ?a" "?a < ?l" "?l \<le> s" "?a + nat horizon = ?l" using s(3-5) by auto
  have less: "sessions ds ! i < sessions ds ! j \<longleftrightarrow> i < j" if "i < length (sessions ds)" "j < length (sessions ds)" for i j
    using sessions_le_iff [OF that(2,1)] by (simp add: linorder_not_le [symmetric])
  have "sessions ds ! i < hb_train_before b \<longleftrightarrow> sessions ds ! (i + nat horizon) < hb_label_end_before b"
    if "i + nat horizon < length (sessions ds)" for i
    using that idx s(1,6,8) less [of i ?a] less [of "i + nat horizon" ?l] by auto
  moreover have "hb_train_last b < hb_train_before b" "hb_train_before b < hb_label_end_before b"
    using idx s(1) less [of "?a - 1" ?a] less [of ?a ?l] unfolding s(6-8) by simp_all
  moreover have "hb_label_end_before b \<le> t"
    using idx s(1,2,8) sessions_le_iff [of ?l ds s] by simp
  moreover have "length (hb_purged_dates b) = nat (horizon + embargo)" using s(1,5,9) idx by simp
  ultimately show ?thesis by blast
qed

theorem purged_labels_stay_before_test_witness:
  "\<exists>b. purged_holdout_bounds [5, 1, 2, 3, 4, 9, 7, 2 :: int] 7 2 1 = Inr b \<and> hb_train_last b = 2
     \<and> hb_purged_dates b = [3, 4, 5] \<and> (\<not> sessions [5, 1, 2, 3, 4, 9, 7, 2 :: int] ! 2 < hb_train_before b)"
proof -
  let ?ds = "[5, 1, 2, 3, 4, 9, 7, 2 :: int]"
  obtain b where b: "purged_holdout_bounds ?ds 7 2 1 = Inr b" "hb_train_last b = 2" "hb_purged_dates b = [3, 4, 5]"
    "hb_label_end_before b = 5"
  proof -
    have "case purged_holdout_bounds ?ds 7 2 1 of Inl _ \<Rightarrow> False
      | Inr b \<Rightarrow> hb_train_last b = 2 \<and> hb_purged_dates b = [3, 4, 5] \<and> hb_label_end_before b = 5" by code_simp
    then show ?thesis using that by (auto split: sum.splits)
  qed
  have "sessions ?ds ! (2 + nat 2) = 5" "2 + nat 2 < length (sessions ?ds)" by code_simp+
  with purged_labels_stay_before_test [OF b(1)] b show ?thesis by fastforce
qed

text \<open>C29: Walk-forward folds tile the end of the calendar. A successful call returns the requested
  number of folds, numbered from one; their test windows are disjoint runs of the requested length
  whose concatenation is exactly the last sessions of the calendar. Every fold trains on at least the
  requested sessions, its count of them is the number of sessions before its bound, and between that
  bound and the test lie exactly the horizon and the embargo, as its purged dates; the last label ends
  before the embargo.\<close>

theorem walk_forward_folds_tile:
  assumes "purged_expanding_walk_forward_folds ds horizon folds tests minimum embargo = Inr fs"
  shows "length fs = nat folds \<and> map wf_fold_index fs = [1 .. folds]
    \<and> concat (map (test_window ds) fs) = drop (length (sessions ds) - nat (folds * tests)) (sessions ds)
    \<and> list_all (\<lambda>f. length (test_window ds f) = nat tests \<and> minimum \<le> wf_train_sessions f
        \<and> wf_train_sessions f = int (length (train_window ds f))
        \<and> wf_purged_dates f = sessions_between ds (wf_train_before f) (wf_test_start f)
        \<and> int (length (wf_purged_dates f)) = horizon + embargo
        \<and> int (length (sessions_between ds (wf_label_end_before f) (wf_test_start f))) = embargo
        \<and> wf_train_last f < wf_train_before f \<and> wf_train_before f < wf_label_end_before f
        \<and> wf_label_end_before f \<le> wf_test_start f) fs"
proof -
  let ?s = "sessions ds" and ?first = "int (length (sessions ds)) - folds * tests"
  from assms have pos: "0 < folds" "0 < tests" "0 < horizon" "0 \<le> embargo" "0 < ?first"
    and run: "mapr (walk_fold_at ?s ?first tests minimum horizon embargo) [0 .. folds - 1] = Inr fs"
    by (auto simp: purged_expanding_walk_forward_folds_def Let_def)
  from run have fold: "list_all2 (\<lambda>i f. walk_fold_at ?s ?first tests minimum horizon embargo i = Inr f) [0 .. folds - 1] fs"
    by (simp add: mapr_Inr_iff)
  then have len: "length fs = nat folds" by (simp add: list_all2_lengthD [symmetric])
  define a t where "a = nat ?first" and "t = nat tests"
  have tile: "a + nat folds * t = length ?s" using pos by (simp add: a_def t_def nat_mult_distrib [symmetric] nat_add_distrib [symmetric])
  have at: "walk_fold_at ?s ?first tests minimum horizon embargo (int j) = Inr (fs ! j)" if "j < nat folds" for j
    using list_all2_nthD [OF fold, of j] that pos by (simp add: nth_upto)
  have idx: "?first + int j * tests = int (a + j * t)" "a + j * t + t \<le> length ?s" if "j < nat folds" for j
  proof -
    show "?first + int j * tests = int (a + j * t)" using pos by (simp add: a_def t_def)
    have "Suc j * t \<le> nat folds * t" using that by (intro mult_le_mono1) simp
    with tile show "a + j * t + t \<le> length ?s" by simp
  qed
  have t: "0 < t" using pos by (simp add: t_def)
  have win: "test_window ds (fs ! j) = take t (drop (a + j * t) ?s)" if "j < nat folds" for j
  proof -
    note w = walk_fold_at_Inr [OF at [OF that] idx(1) [OF that]]
    have k: "a + j * t < length ?s" using idx(2) [OF that] t by simp
    have "tests = int t" using pos by (simp add: t_def)
    moreover have "nat (int m + int t - 1) = m + t - 1" for m using t by linarith
    ultimately have "nat (int (a + j * t) + tests - 1) = a + j * t + t - 1" by blast
    then show ?thesis unfolding test_window_def w(1,2) [OF k] using filter_window [OF idx(2) [OF that] t] by simp
  qed
  have "map (test_window ds) fs = map (\<lambda>j. take t (drop (a + j * t) ?s)) [0..<nat folds]"
    by (rule nth_equalityI) (simp_all add: len win)
  have tiles: "concat (map (test_window ds) fs) = drop (length ?s - nat (folds * tests)) ?s"
  proof -
    have "length ?s - nat (folds * tests) = a" using pos by (simp add: a_def nat_diff_distrib)
    moreover have "take (nat folds * t) (drop a ?s) = drop a ?s" using tile by simp
    ultimately show ?thesis using \<open>map (test_window ds) fs = _\<close> concat_windows [of t a ?s "nat folds"] by simp
  qed
  have each: "length (test_window ds (fs ! j)) = nat tests \<and> minimum \<le> wf_train_sessions (fs ! j)
      \<and> wf_train_sessions (fs ! j) = int (length (train_window ds (fs ! j)))
      \<and> wf_purged_dates (fs ! j) = sessions_between ds (wf_train_before (fs ! j)) (wf_test_start (fs ! j))
      \<and> int (length (wf_purged_dates (fs ! j))) = horizon + embargo
      \<and> int (length (sessions_between ds (wf_label_end_before (fs ! j)) (wf_test_start (fs ! j)))) = embargo
      \<and> wf_train_last (fs ! j) < wf_train_before (fs ! j) \<and> wf_train_before (fs ! j) < wf_label_end_before (fs ! j)
      \<and> wf_label_end_before (fs ! j) \<le> wf_test_start (fs ! j) \<and> wf_fold_index (fs ! j) = int j + 1" if j: "j < nat folds" for j
  proof -
    let ?k = "a + j * t" and ?a = "nat (int (a + j * t) - (horizon + embargo))" and ?l = "nat (int (a + j * t) - embargo)"
    have k: "?k < length ?s" using idx(2) [OF j] t by simp
    note w = walk_fold_at_Inr [OF at [OF j] idx(1) [OF j] k]
    have ord: "?a \<le> ?k" "?l \<le> ?k" "?k - ?a = nat (horizon + embargo)" "int (?k - ?l) = embargo" "int ?a = int ?k - (horizon + embargo)"
      by (fact purge_index_gap(1) [OF w(5-7)] purge_index_order(3) [OF w(5-7)] purge_index_gap(2-4) [OF w(5-7)])+
    have "wf_purged_dates (fs ! j) = sessions_between ds (wf_train_before (fs ! j)) (wf_test_start (fs ! j))"
      unfolding w(1,8,13) using sessions_between_nth [OF ord(1) k] ord(3) by simp
    moreover have "int (length (wf_purged_dates (fs ! j))) = horizon + embargo"
      unfolding w(13) using ord k w(5-7) by simp
    moreover have "int (length (sessions_between ds (wf_label_end_before (fs ! j)) (wf_test_start (fs ! j)))) = embargo"
      unfolding w(1,10) sessions_between_nth [OF ord(2) k] using ord(4) k by simp
    moreover have "wf_train_sessions (fs ! j) = int (length (train_window ds (fs ! j)))"
    proof -
      have "train_window ds (fs ! j) = sessions_between ds (?s ! 0) (?s ! ?a)"
        using train_window_between [of ds "fs ! j"] k unfolding w(8) by force
      then show ?thesis using sessions_between_nth [of 0 ?a ds] ord k unfolding w(11) by simp
    qed
    moreover have "length (test_window ds (fs ! j)) = nat tests" using win [OF j] idx(2) [OF j] by (simp add: t_def)
    moreover have "wf_train_last (fs ! j) < wf_train_before (fs ! j)" "wf_train_before (fs ! j) < wf_label_end_before (fs ! j)"
      "wf_label_end_before (fs ! j) \<le> wf_test_start (fs ! j)"
      unfolding w(1,8-10) using purge_index_order [OF w(5-7)] k by (auto intro: sessions_strict simp: sessions_le_iff)
    ultimately show ?thesis using w(4,12) by blast
  qed
  have nums: "map wf_fold_index fs = [1 .. folds]"
    by (rule nth_equalityI) (use each len pos in \<open>auto simp: nth_upto\<close>)
  have "list_all (\<lambda>f. length (test_window ds f) = nat tests \<and> minimum \<le> wf_train_sessions f
        \<and> wf_train_sessions f = int (length (train_window ds f))
        \<and> wf_purged_dates f = sessions_between ds (wf_train_before f) (wf_test_start f)
        \<and> int (length (wf_purged_dates f)) = horizon + embargo
        \<and> int (length (sessions_between ds (wf_label_end_before f) (wf_test_start f))) = embargo
        \<and> wf_train_last f < wf_train_before f \<and> wf_train_before f < wf_label_end_before f
        \<and> wf_label_end_before f \<le> wf_test_start f) fs"
    unfolding list_all_length len using each by blast
  with len nums tiles show ?thesis by blast
qed

theorem walk_forward_folds_tile_witness:
  "\<exists>fs. purged_expanding_walk_forward_folds [1 .. 12 :: int] 2 2 3 2 1 = Inr fs
     \<and> concat (map (test_window [1 .. 12]) fs) = [7, 8, 9, 10, 11, 12]"
proof -
  have "case purged_expanding_walk_forward_folds [1 .. 12 :: int] 2 2 3 2 1 of Inl _ \<Rightarrow> False | Inr _ \<Rightarrow> True" by code_simp
  then obtain fs where fs: "purged_expanding_walk_forward_folds [1 .. 12 :: int] 2 2 3 2 1 = Inr fs" by (auto split: sum.splits)
  have "drop (length (sessions [1 .. 12 :: int]) - nat (2 * 3)) (sessions [1 .. 12 :: int]) = [7, 8, 9, 10, 11, 12]" by code_simp
  with walk_forward_folds_tile [OF fs] fs show ?thesis by auto
qed

end
