(* ===== verification/Chan_Structure.thy ===== *)
theory Chan_Structure
  imports Py_Values
begin

text \<open>
  Chart geometry, \<^verbatim>\<open>app/utils/chan_structure.py\<close>: merging of included bars, fractals, strokes,
  segments and zones, in the order of the source. A finite float is its exact rational value.
  Lists the source appends to are kept with the last element first.
\<close>

section \<open>Numbers and dates\<close>

text \<open>\<^verbatim>\<open>str(v)\<close> and \<^verbatim>\<open>float(s)\<close> of a string are arguments.\<close>

record text_env =
  te_str :: "pyval \<Rightarrow> string"
  te_float :: "string \<Rightarrow> pyfloat option"

text \<open>
  \<^verbatim>\<open>float(value)\<close>: a \<^verbatim>\<open>TypeError\<close> or \<^verbatim>\<open>ValueError\<close> is \<open>Inr None\<close>, an integer beyond the range of
  binary64 raises.
\<close>

definition py_float :: "text_env \<Rightarrow> pyval \<Rightarrow> pyfloat option result" where
  "py_float T v = (case v of
       PBool b \<Rightarrow> Inr (Some (Fin (if b then 1 else 0)))
     | PInt n \<Rightarrow> bindr (float_of_int n) (\<lambda>f. Inr (Some f))
     | PFloat f \<Rightarrow> Inr (Some f)
     | PStr s \<Rightarrow> Inr (te_float T s)
     | _ \<Rightarrow> Inr None)"

definition chan_number :: "text_env \<Rightarrow> pyval \<Rightarrow> rat option result" where
  "chan_number T v = bindr (py_float T v) (\<lambda>f. Inr (case f of Some (Fin r) \<Rightarrow> Some r | _ \<Rightarrow> None))"

definition chan_day :: "text_env \<Rightarrow> pyval \<Rightarrow> string option" where
  "chan_day T row =
     (let raw = (if phas ''date'' row then pget ''date'' row else pget ''trade_date'' row)
      in if raw = PNone then None
         else let text = take 10 (te_str T raw) in if length text = 10 then Some text else None)"

text \<open>\<^verbatim>\<open>round(x, n)\<close>: the exact decimal rounding, half to even, as the nearest binary64 number.\<close>

definition py_round :: "nat \<Rightarrow> rat \<Rightarrow> rat" where
  "py_round n x = round64 (of_int (round_half_even (x * 10 ^ n)) / 10 ^ n)"

definition chan_price :: "rat \<Rightarrow> rat" where
  "chan_price = py_round 6"

section \<open>Data\<close>

record merged =
  m_start_date :: string
  m_end_date :: string
  m_high :: rat
  m_low :: rat
  m_high_date :: string
  m_low_date :: string

datatype fractal_kind = Top | Bottom

record fractal =
  f_kind :: fractal_kind
  f_price :: rat
  f_date :: string
  f_index :: nat

datatype direction = Up | Down

record stroke =
  st_start_date :: string
  st_end_date :: string
  st_start_price :: rat
  st_end_price :: rat
  st_direction :: direction

record segment = stroke +
  seg_bi_count :: int

record zone =
  z_start_date :: string
  z_end_date :: string
  z_zd :: rat
  z_zg :: rat
  z_source :: string

section \<open>Merging\<close>

definition new_merged :: "string \<Rightarrow> rat \<Rightarrow> rat \<Rightarrow> merged" where
  "new_merged day high low = \<lparr> m_start_date = day, m_end_date = day, m_high = high, m_low = low,
     m_high_date = day, m_low_date = day \<rparr>"

definition included :: "rat \<Rightarrow> rat \<Rightarrow> merged \<Rightarrow> bool" where
  "included high low prev \<longleftrightarrow> (high \<le> m_high prev \<and> m_low prev \<le> low) \<or> (m_high prev \<le> high \<and> low \<le> m_low prev)"

definition absorb :: "bool \<Rightarrow> string \<Rightarrow> rat \<Rightarrow> rat \<Rightarrow> merged \<Rightarrow> merged" where
  "absorb up day high low prev =
     (let a = (if (if up then m_high prev \<le> high else high \<le> m_high prev)
               then prev\<lparr> m_high := high, m_high_date := day \<rparr> else prev);
          b = (if (if up then m_low a \<le> low else low \<le> m_low a)
               then a\<lparr> m_low := low, m_low_date := day \<rparr> else a)
      in b\<lparr> m_end_date := day \<rparr>)"

definition merge_bar :: "string \<Rightarrow> rat \<Rightarrow> rat \<Rightarrow> merged list \<times> int \<Rightarrow> merged list \<times> int" where
  "merge_bar day high low st = (case st of
       ([], direction) \<Rightarrow> ([new_merged day high low], direction)
     | (prev # rest, direction) \<Rightarrow>
        (if included high low prev
         then (if 0 \<le> direction then (absorb True day high low prev # rest, 1)
               else (absorb False day high low prev # rest, direction))
         else (new_merged day high low # prev # rest,
               if m_high prev < high \<and> m_low prev < low then 1
               else if high < m_high prev \<and> low < m_low prev then -1 else direction)))"

definition merge_parsed :: "string option \<Rightarrow> rat option \<Rightarrow> rat option \<Rightarrow> merged list \<times> int \<Rightarrow> merged list \<times> int" where
  "merge_parsed day high low st = (case (day, high, low) of
       (Some d, Some h, Some l) \<Rightarrow> if h < l \<or> l \<le> 0 then st else merge_bar d h l st
     | _ \<Rightarrow> st)"

definition merge_row :: "text_env \<Rightarrow> pyval \<Rightarrow> merged list \<times> int \<Rightarrow> (merged list \<times> int) result" where
  "merge_row T row st =
     raise_if (\<not> is_dict row) (AttributeError ''get'')
     (bindr (chan_number T (pget ''high'' row)) (\<lambda>high.
      bindr (chan_number T (pget ''low'' row)) (\<lambda>low.
      Inr (merge_parsed (chan_day T row) high low st))))"

definition merge_rows :: "text_env \<Rightarrow> pyval list \<Rightarrow> merged list result" where
  "merge_rows T rows = bindr (foldr_result (merge_row T) rows ([], 0)) (\<lambda>(ms, _). Inr (rev ms))"

section \<open>Fractals and strokes\<close>

definition is_top :: "merged \<Rightarrow> merged \<Rightarrow> merged \<Rightarrow> bool" where
  "is_top p c n \<longleftrightarrow> m_high p < m_high c \<and> m_high n < m_high c \<and> m_low p < m_low c \<and> m_low n < m_low c"

definition is_bottom :: "merged \<Rightarrow> merged \<Rightarrow> merged \<Rightarrow> bool" where
  "is_bottom p c n \<longleftrightarrow> m_high c < m_high p \<and> m_high c < m_high n \<and> m_low c < m_low p \<and> m_low c < m_low n"

fun fractals_from :: "nat \<Rightarrow> merged list \<Rightarrow> fractal list" where
  "fractals_from i (p # c # n # ms) =
     (if is_top p c n then [\<lparr> f_kind = Top, f_price = m_high c, f_date = m_high_date c, f_index = i \<rparr>]
      else if is_bottom p c n then [\<lparr> f_kind = Bottom, f_price = m_low c, f_date = m_low_date c, f_index = i \<rparr>]
      else []) @ fractals_from (Suc i) (c # n # ms)"
| "fractals_from i _ = []"

definition fractals :: "merged list \<Rightarrow> fractal list" where
  "fractals ms = fractals_from 1 ms"

definition min_merged_gap :: nat where "min_merged_gap = 4"

text \<open>\<^verbatim>\<open>fractal.index - previous.index < MIN_MERGED_GAP\<close> on integers.\<close>

definition too_close :: "fractal \<Rightarrow> fractal \<Rightarrow> bool" where
  "too_close f prev \<longleftrightarrow> int (f_index f) - int (f_index prev) < int min_merged_gap"

definition as_extreme :: "fractal \<Rightarrow> fractal \<Rightarrow> bool" where
  "as_extreme f prev \<longleftrightarrow> (f_kind f = Top \<and> f_price prev \<le> f_price f) \<or> (f_kind f = Bottom \<and> f_price f \<le> f_price prev)"

fun replace_same :: "fractal \<Rightarrow> fractal list \<Rightarrow> fractal list" where
  "replace_same f (lst # prev # rest) =
     (if f_kind f \<noteq> f_kind prev \<or> too_close f prev then lst # prev # rest
      else if as_extreme f prev then f # rest else lst # prev # rest)"
| "replace_same f chosen = chosen"

fun choose_fractal :: "fractal \<Rightarrow> fractal list \<Rightarrow> fractal list" where
  "choose_fractal f [] = [f]"
| "choose_fractal f (lst # rest) =
     (if f_kind f = f_kind lst then (if as_extreme f lst then f # rest else lst # rest)
      else if too_close f lst then (if rest \<noteq> [] then replace_same f (lst # rest) else lst # rest)
      else if f_kind lst = Bottom \<and> f_price f \<le> f_price lst then lst # rest
      else if f_kind lst = Top \<and> f_price lst \<le> f_price f then lst # rest
      else f # lst # rest)"

definition chosen_fractals :: "fractal list \<Rightarrow> fractal list" where
  "chosen_fractals fs = rev (fold choose_fractal fs [])"

definition make_stroke :: "fractal \<Rightarrow> fractal \<Rightarrow> stroke" where
  "make_stroke a b = \<lparr> st_start_date = f_date a, st_end_date = f_date b, st_start_price = chan_price (f_price a),
     st_end_price = chan_price (f_price b), st_direction = (if f_kind a = Bottom then Up else Down) \<rparr>"

definition strokes :: "fractal list \<Rightarrow> stroke list" where
  "strokes fs = (let chosen = chosen_fractals fs in map2 make_stroke chosen (tl chosen))"

section \<open>Segments\<close>

definition lowest :: "rat list \<Rightarrow> rat" where "lowest xs = Min (set xs)"
definition highest :: "rat list \<Rightarrow> rat" where "highest xs = Max (set xs)"

text \<open>The inner loop: how far a segment that starts at some stroke extends.\<close>

function seg_extend :: "'a stroke_scheme list \<Rightarrow> direction \<Rightarrow> rat list \<Rightarrow> nat \<Rightarrow> nat" where
  "seg_extend ss dir feature cursor =
     (if cursor + 1 < length ss \<and> feature \<noteq> []
      then let nxt = ss ! (cursor + 1)
           in if st_direction nxt = dir then seg_extend ss dir feature (cursor + 1)
              else if dir = Up \<and> st_end_price nxt < lowest feature then cursor
              else if dir = Down \<and> highest feature < st_end_price nxt then cursor
              else seg_extend ss dir (feature @ [st_end_price nxt]) (cursor + 1)
      else cursor)"
  by pat_completeness auto
termination by (relation "measure (\<lambda>(ss, _, _, c). length ss - c)") auto

declare seg_extend.simps [simp del]

definition seg_end :: "'a stroke_scheme list \<Rightarrow> nat \<Rightarrow> nat" where
  "seg_end ss i =
     (let dir = st_direction (ss ! i);
          feature = map st_end_price (filter (\<lambda>s. st_direction s \<noteq> dir) (take 3 (drop i ss)))
      in seg_extend ss dir feature (i + 2))"

lemma seg_extend_ge: "c \<le> seg_extend ss dir feature c"
  by (induction ss dir feature c rule: seg_extend.induct) (subst seg_extend.simps, auto simp: Let_def)

function segments_from :: "'a stroke_scheme list \<Rightarrow> nat \<Rightarrow> segment list" where
  "segments_from ss i =
     (if i + 2 < length ss
      then let c = seg_end ss i; a = ss ! i; b = ss ! c
           in \<lparr> st_start_date = st_start_date a, st_end_date = st_end_date b, st_start_price = st_start_price a,
                st_end_price = st_end_price b, st_direction = st_direction a, seg_bi_count = int c - int i + 1 \<rparr>
              # (if length ss \<le> c + 1 then [] else segments_from ss (c + 1))
      else [])"
  by pat_completeness auto
termination
proof (relation "measure (\<lambda>(ss, i). length ss - i)", goal_cases)
  case (2 ss i c a b)
  moreover have "i + 2 \<le> seg_end ss i" by (simp add: seg_end_def Let_def seg_extend_ge)
  ultimately show ?case by simp
qed simp

declare segments_from.simps [simp del]

definition segments :: "'a stroke_scheme list \<Rightarrow> segment list" where
  "segments ss = segments_from ss 0"

section \<open>Zones\<close>

definition st_high :: "'a stroke_scheme \<Rightarrow> rat" where
  "st_high s = max (st_start_price s) (st_end_price s)"

definition st_low :: "'a stroke_scheme \<Rightarrow> rat" where
  "st_low s = min (st_start_price s) (st_end_price s)"

function zone_extend :: "'a stroke_scheme list \<Rightarrow> rat \<Rightarrow> rat \<Rightarrow> nat \<Rightarrow> nat" where
  "zone_extend ss zg zd e =
     (if e + 1 < length ss
      then (if zg \<le> st_low (ss ! (e + 1)) \<or> st_high (ss ! (e + 1)) \<le> zd then e else zone_extend ss zg zd (e + 1))
      else e)"
  by pat_completeness auto
termination by (relation "measure (\<lambda>(ss, _, _, e). length ss - e)") auto

declare zone_extend.simps [simp del]

lemma zone_extend_ge: "e \<le> zone_extend ss zg zd e"
proof (induction ss zg zd e rule: zone_extend.induct)
  case (1 ss zg zd e)
  then show ?case by (subst zone_extend.simps) auto
qed

definition zone_zg :: "'a stroke_scheme list \<Rightarrow> nat \<Rightarrow> rat" where
  "zone_zg ss i = lowest (map st_high (take 3 (drop i ss)))"

definition zone_zd :: "'a stroke_scheme list \<Rightarrow> nat \<Rightarrow> rat" where
  "zone_zd ss i = highest (map st_low (take 3 (drop i ss)))"

function zhongshu_from :: "'a stroke_scheme list \<Rightarrow> nat \<Rightarrow> zone list" where
  "zhongshu_from ss i =
     (if i + 2 < length ss
      then let zg = zone_zg ss i; zd = zone_zd ss i
           in if zg \<le> zd then zhongshu_from ss (i + 1)
              else let e = zone_extend ss zg zd (i + 2)
                   in \<lparr> z_start_date = st_start_date (ss ! i), z_end_date = st_end_date (ss ! e),
                        z_zd = chan_price zd, z_zg = chan_price zg, z_source = ''bi'' \<rparr> # zhongshu_from ss (e + 1)
      else [])"
  by pat_completeness auto
termination
proof (relation "measure (\<lambda>(ss, i). length ss - i)", goal_cases)
  case (3 ss i zg zd e)
  moreover have "i + 2 \<le> zone_extend ss zg zd (i + 2)" by (rule zone_extend_ge)
  ultimately show ?case by simp
qed auto

declare zhongshu_from.simps [simp del]

definition zhongshu :: "'a stroke_scheme list \<Rightarrow> zone list" where
  "zhongshu ss = zhongshu_from ss 0"

section \<open>The result\<close>

definition direction_text :: "direction \<Rightarrow> string" where
  "direction_text d = (case d of Up \<Rightarrow> ''up'' | Down \<Rightarrow> ''down'')"

definition stroke_items :: "'a stroke_scheme \<Rightarrow> (string \<times> pyval) list" where
  "stroke_items s = [(''start_date'', PStr (st_start_date s)), (''end_date'', PStr (st_end_date s)),
     (''start_price'', PFloat (Fin (st_start_price s))), (''end_price'', PFloat (Fin (st_end_price s))),
     (''direction'', PStr (direction_text (st_direction s)))]"

definition zone_val :: "zone \<Rightarrow> pyval" where
  "zone_val z = PDict [(''start_date'', PStr (z_start_date z)), (''end_date'', PStr (z_end_date z)),
     (''zd'', PFloat (Fin (z_zd z))), (''zg'', PFloat (Fin (z_zg z))), (''source'', PStr (z_source z))]"

definition chan_algorithm :: string where
  "chan_algorithm = ''chan-structure-simplified-v1''"

text \<open>The disclaimer is a fixed text; its bytes are an argument.\<close>

definition chan_result :: "string \<Rightarrow> bool \<Rightarrow> pyval \<Rightarrow> string \<Rightarrow> stroke list \<Rightarrow> segment list \<Rightarrow> zone list \<Rightarrow> pyval" where
  "chan_result disclaimer available reason interval bi segs zones = PDict
     [(''available'', PBool available), (''algorithm'', PStr chan_algorithm), (''qualified'', PBool False),
      (''actionable'', PBool False), (''reason'', reason), (''interval'', PStr interval),
      (''bi'', PList (map (\<lambda>s. PDict (stroke_items s)) bi)),
      (''segments'', PList (map (\<lambda>s. PDict (stroke_items s @ [(''bi_count'', PInt (seg_bi_count s))])) segs)),
      (''zhongshu'', PList (map zone_val zones)), (''disclaimer'', PStr disclaimer)]"

definition build_chan_structure :: "text_env \<Rightarrow> string \<Rightarrow> pyval list \<Rightarrow> string \<Rightarrow> pyval result" where
  "build_chan_structure T disclaimer rows interval =
     bindr (merge_rows T rows) (\<lambda>ms.
       if length ms < 7 then Inr (chan_result disclaimer False (PStr ''history_too_short'') interval [] [] [])
       else let bi = strokes (fractals ms);
                segs = segments bi;
                zones = zhongshu bi @ map (\<lambda>z. z\<lparr> z_source := ''segment'' \<rparr>) (zhongshu segs)
            in Inr (chan_result disclaimer True PNone interval bi segs zones))"

section \<open>Merged bars\<close>

definition moves_up :: "merged \<Rightarrow> merged \<Rightarrow> bool" where
  "moves_up a b \<longleftrightarrow> m_high a < m_high b \<and> m_low a < m_low b"

definition moves_down :: "merged \<Rightarrow> merged \<Rightarrow> bool" where
  "moves_down a b \<longleftrightarrow> m_high b < m_high a \<and> m_low b < m_low a"

text \<open>The state of the loop: adjacent bars move strictly, and the direction is that of the last move.\<close>

fun merged_ok :: "merged list \<Rightarrow> bool" where
  "merged_ok (b # a # ms) = ((moves_up a b \<or> moves_down a b) \<and> m_low b \<le> m_high b \<and> merged_ok (a # ms))"
| "merged_ok [b] = (m_low b \<le> m_high b)"
| "merged_ok [] = True"

definition direction_ok :: "merged list \<times> int \<Rightarrow> bool" where
  "direction_ok st = (case st of
       (b # a # _, d) \<Rightarrow> (d = 1 \<and> moves_up a b) \<or> (d = -1 \<and> moves_down a b)
     | (_, d) \<Rightarrow> 0 \<le> d)"

lemma absorb_up:
  "included h l p \<Longrightarrow> m_high (absorb True day h l p) = max (m_high p) h \<and> m_low (absorb True day h l p) = max (m_low p) l"
  by (auto simp: absorb_def Let_def)

lemma absorb_down:
  "included h l p \<Longrightarrow> m_high (absorb False day h l p) = min (m_high p) h \<and> m_low (absorb False day h l p) = min (m_low p) l"
  by (auto simp: absorb_def Let_def)

lemma not_included: "\<not> included h l p \<Longrightarrow> (m_high p < h \<and> m_low p < l) \<or> (h < m_high p \<and> l < m_low p)"
  by (auto simp: included_def not_le)

lemma merge_bar_ok:
  assumes "merged_ok (fst st)" and "direction_ok st" and "l \<le> h"
  shows "merged_ok (fst (merge_bar day h l st)) \<and> direction_ok (merge_bar day h l st)"
proof -
  obtain ms d where st: "st = (ms, d)" by fastforce
  show ?thesis
  proof (cases ms)
    case Nil
    with assms st show ?thesis by (simp add: merge_bar_def new_merged_def direction_ok_def)
  next
    case (Cons p rest)
    show ?thesis
    proof (cases "included h l p")
      case False
      with not_included [OF False] assms st Cons show ?thesis
        by (auto simp: merge_bar_def new_merged_def direction_ok_def moves_up_def moves_down_def)
    next
      case inc: True
      note up = absorb_up [OF inc, of day] and down = absorb_down [OF inc, of day]
      show ?thesis
      proof (cases rest)
        case Nil
        with assms st Cons inc up show ?thesis
          by (auto simp: merge_bar_def direction_ok_def max_def)
      next
        case (Cons a more)
        with assms st \<open>ms = p # rest\<close> inc up down show ?thesis
          by (auto simp: merge_bar_def direction_ok_def moves_up_def moves_down_def max_def min_def)
      qed
    qed
  qed
qed

lemma merge_parsed_cases:
  "merge_parsed day high low st = st \<or> (\<exists>d h l. l \<le> h \<and> merge_parsed day high low st = merge_bar d h l st)"
  by (cases day; cases high; cases low) (auto simp: merge_parsed_def not_less)

lemma merge_rows_loop:
  assumes "foldr_result (merge_row T) rows ([], 0) = Inr st"
  shows "merged_ok (fst st) \<and> direction_ok st"
  using assms
proof (rule foldr_result_invariant)
  show "merged_ok (fst ([], 0)) \<and> direction_ok ([], 0)" by (simp add: direction_ok_def)
next
  fix row s s'
  assume step: "merge_row T row s = Inr s'" and ok: "merged_ok (fst s) \<and> direction_ok s"
  from step obtain high low where "s' = merge_parsed (chan_day T row) high low s" by (auto simp: merge_row_def)
  then have "s' = s \<or> (\<exists>day h l. l \<le> h \<and> s' = merge_bar day h l s)" using merge_parsed_cases by metis
  with ok merge_bar_ok show "merged_ok (fst s') \<and> direction_ok s'" by blast
qed

lemma merged_ok_nth:
  "merged_ok ms \<Longrightarrow> Suc i < length ms \<Longrightarrow> moves_up (ms ! Suc i) (ms ! i) \<or> moves_down (ms ! Suc i) (ms ! i)"
proof (induction ms arbitrary: i rule: merged_ok.induct)
  case (1 b a ms)
  show ?case
  proof (cases i)
    case 0
    with 1 show ?thesis by auto
  next
    case (Suc j)
    with "1.IH" [of j] "1.prems" show ?thesis by simp
  qed
qed simp_all

section \<open>Chosen fractals\<close>

definition opposes :: "fractal \<Rightarrow> fractal \<Rightarrow> bool" where
  "opposes a b \<longleftrightarrow> f_kind a \<noteq> f_kind b \<and> f_index a + min_merged_gap \<le> f_index b
     \<and> (if f_kind b = Top then f_price a < f_price b else f_price b < f_price a)"

fun chosen_ok :: "fractal list \<Rightarrow> bool" where
  "chosen_ok (b # a # fs) = (opposes a b \<and> chosen_ok (a # fs))"
| "chosen_ok _ = True"

lemma opposes_extend: "opposes a b \<Longrightarrow> f_kind f = f_kind b \<Longrightarrow> as_extreme f b \<Longrightarrow> f_index b \<le> f_index f \<Longrightarrow> opposes a f"
  by (cases "f_kind b") (auto simp: opposes_def as_extreme_def)

lemma chosen_ok_replace_last:
  "chosen_ok (b # rest) \<Longrightarrow> f_kind f = f_kind b \<Longrightarrow> as_extreme f b \<Longrightarrow> f_index b \<le> f_index f \<Longrightarrow> chosen_ok (f # rest)"
  by (cases rest) (auto intro: opposes_extend)

lemma chosen_ok_tl: "chosen_ok (b # rest) \<Longrightarrow> chosen_ok rest"
  by (cases rest) auto

lemma chosen_ok_replace_same:
  assumes "chosen_ok (b # a # rest)" and "f_index a \<le> f_index f"
  shows "chosen_ok (replace_same f (b # a # rest))"
  using assms chosen_ok_replace_last [of a rest f] by (auto dest: chosen_ok_tl)

lemma fractal_kind_neq: "k \<noteq> Top \<longleftrightarrow> k = Bottom" "k \<noteq> Bottom \<longleftrightarrow> k = Top"
  by (cases k; simp)+

lemma choose_fractal_ok:
  assumes ok: "chosen_ok cs" and idx: "\<And>x. x \<in> set cs \<Longrightarrow> f_index x \<le> f_index f"
  shows "chosen_ok (choose_fractal f cs)"
proof (cases cs)
  case (Cons b rest)
  show ?thesis
  proof (cases "f_kind f = f_kind b")
    case True
    with Cons ok idx chosen_ok_replace_last [of b rest f] show ?thesis by simp
  next
    case other: False
    show ?thesis
    proof (cases "too_close f b")
      case True
      with Cons ok idx other chosen_ok_replace_same [of b "hd rest" "tl rest" f] show ?thesis by (cases rest) auto
    next
      case False
      then have "f_index b + min_merged_gap \<le> f_index f" by (simp add: too_close_def)
      with Cons ok other False show ?thesis
        by (cases "f_kind b"; cases "f_kind f") (auto simp: opposes_def not_le)
    qed
  qed
qed simp

lemma set_replace_same: "set (replace_same f cs) \<subseteq> insert f (set cs)"
  by (cases "(f, cs)" rule: replace_same.cases) auto

lemma set_choose_fractal: "set (choose_fractal f cs) \<subseteq> insert f (set cs)"
proof (cases cs)
  case (Cons b rest)
  with set_replace_same [of f "b # rest"] show ?thesis by auto
qed simp

lemma fold_choose_ok:
  assumes "sorted (map f_index fs)" and "chosen_ok cs"
    and "\<And>x f. x \<in> set cs \<Longrightarrow> f \<in> set fs \<Longrightarrow> f_index x \<le> f_index f"
  shows "chosen_ok (fold choose_fractal fs cs)"
  using assms
proof (induction fs arbitrary: cs)
  case (Cons f fs)
  have "chosen_ok (choose_fractal f cs)" using Cons.prems(2,3) by (intro choose_fractal_ok) auto
  moreover have "f_index x \<le> f_index g" if "x \<in> set (choose_fractal f cs)" "g \<in> set fs" for x g
    using that set_choose_fractal [of f cs] Cons.prems(1,3) by fastforce
  ultimately show ?case using Cons.IH Cons.prems(1) by simp
qed simp

lemma fractals_from_index: "x \<in> set (fractals_from i ms) \<Longrightarrow> i \<le> f_index x"
  by (induction i ms rule: fractals_from.induct) (fastforce split: if_splits)+

lemma sorted_fractals_from: "sorted (map f_index (fractals_from i ms))"
  by (induction i ms rule: fractals_from.induct) (auto simp: sorted_append dest!: fractals_from_index)

lemma chosen_ok_nth: "chosen_ok cs \<Longrightarrow> Suc i < length cs \<Longrightarrow> opposes (cs ! Suc i) (cs ! i)"
proof (induction cs arbitrary: i rule: chosen_ok.induct)
  case (1 b a cs)
  then show ?case by (cases i) auto
qed simp_all

text \<open>Reading a list kept with the last element first from its other end.\<close>

lemma rev_adjacent:
  assumes "\<And>i. Suc i < length xs \<Longrightarrow> P (xs ! Suc i) (xs ! i)" and "Suc i < length (rev xs)"
  shows "P (rev xs ! i) (rev xs ! Suc i)"
proof -
  have "Suc (length xs - Suc (Suc i)) < length xs" "Suc (length xs - Suc (Suc i)) = length xs - Suc i"
    using assms(2) by auto
  with assms(1) [of "length xs - Suc (Suc i)"] assms(2) show ?thesis by (simp add: rev_nth)
qed

section \<open>Zones and segments\<close>

definition overlaps :: "rat \<Rightarrow> rat \<Rightarrow> 'a stroke_scheme \<Rightarrow> bool" where
  "overlaps zd zg s \<longleftrightarrow> st_low s < zg \<and> zd < st_high s"

lemma zone_extend_overlaps:
  "e < length ss \<Longrightarrow> zone_extend ss zg zd e < length ss \<and> (\<forall>k. e < k \<and> k \<le> zone_extend ss zg zd e \<longrightarrow> overlaps zd zg (ss ! k))
     \<and> (zone_extend ss zg zd e + 1 < length ss \<longrightarrow> \<not> overlaps zd zg (ss ! (zone_extend ss zg zd e + 1)))"
proof (induction ss zg zd e rule: zone_extend.induct)
  case (1 ss zg zd e)
  show ?case
  proof (cases "e + 1 < length ss \<and> \<not> (zg \<le> st_low (ss ! (e + 1)) \<or> st_high (ss ! (e + 1)) \<le> zd)")
    case True
    then have eq: "zone_extend ss zg zd e = zone_extend ss zg zd (e + 1)" by (subst zone_extend.simps) simp
    have ov: "overlaps zd zg (ss ! (e + 1))" using True by (simp add: overlaps_def not_le)
    from 1 True have "zone_extend ss zg zd (e + 1) < length ss
      \<and> (\<forall>k. e + 1 < k \<and> k \<le> zone_extend ss zg zd (e + 1) \<longrightarrow> overlaps zd zg (ss ! k))
      \<and> (zone_extend ss zg zd (e + 1) + 1 < length ss \<longrightarrow> \<not> overlaps zd zg (ss ! (zone_extend ss zg zd (e + 1) + 1)))" by blast
    with ov eq show ?thesis by (metis Suc_eq_plus1 Suc_leI le_neq_implies_less)
  next
    case False
    then have "zone_extend ss zg zd e = e" by (subst zone_extend.simps) auto
    with "1.prems" False show ?thesis by (auto simp: overlaps_def not_le)
  qed
qed

definition zone_of :: "'a stroke_scheme list \<Rightarrow> nat \<Rightarrow> nat \<Rightarrow> zone \<Rightarrow> bool" where
  "zone_of ss i j z \<longleftrightarrow> i + 2 \<le> j \<and> j < length ss \<and> z_start_date z = st_start_date (ss ! i) \<and> z_end_date z = st_end_date (ss ! j)
     \<and> zone_zd ss i < zone_zg ss i \<and> z_zd z = chan_price (zone_zd ss i) \<and> z_zg z = chan_price (zone_zg ss i)
     \<and> (\<forall>k. i \<le> k \<and> k \<le> j \<longrightarrow> overlaps (zone_zd ss i) (zone_zg ss i) (ss ! k))
     \<and> (j + 1 < length ss \<longrightarrow> \<not> overlaps (zone_zd ss i) (zone_zg ss i) (ss ! (j + 1)))"

text \<open>No zone is left out: outside the runs, no three consecutive strokes have a common stretch.\<close>

definition no_zone_outside :: "'a stroke_scheme list \<Rightarrow> nat \<Rightarrow> (nat \<times> nat) list \<Rightarrow> bool" where
  "no_zone_outside ss i ijs \<longleftrightarrow>
     (\<forall>k. i \<le> k \<and> k + 2 < length ss \<and> (\<forall>(a, b) \<in> set ijs. k < a \<or> b < k) \<longrightarrow> zone_zg ss k \<le> zone_zd ss k)"

lemma first_three_overlap:
  assumes "i + 2 < length ss" and "zone_zd ss i < zone_zg ss i" and "i \<le> k" "k \<le> i + 2"
  shows "overlaps (zone_zd ss i) (zone_zg ss i) (ss ! k)"
proof -
  have mem: "ss ! k \<in> set (take 3 (drop i ss))"
    using assms by (auto simp: in_set_conv_nth intro!: exI [of _ "k - i"])
  have ne: "set (map st_high (take 3 (drop i ss))) \<noteq> {}" using assms by auto
  have "zone_zg ss i \<le> st_high (ss ! k)" unfolding zone_zg_def lowest_def using mem by (intro Min_le) auto
  moreover have "st_low (ss ! k) \<le> zone_zd ss i" unfolding zone_zd_def highest_def using mem by (intro Max_ge) auto
  ultimately show ?thesis using assms(2) by (simp add: overlaps_def)
qed

lemma zhongshu_from_zones:
  "\<exists>ijs. list_all2 (\<lambda>z (a, b). zone_of ss a b z \<and> i \<le> a) (zhongshu_from ss i) ijs
     \<and> sorted_wrt (\<lambda>(a, b) (c, d). b < c) ijs \<and> no_zone_outside ss i ijs"
proof (induction ss i rule: zhongshu_from.induct)
  case (1 ss i)
  let ?zg = "zone_zg ss i" and ?zd = "zone_zd ss i"
  have weaken: "list_all2 (\<lambda>z (a, b). zone_of ss a b z \<and> i \<le> a) zs ijs"
    if "list_all2 (\<lambda>z (a, b). zone_of ss a b z \<and> m \<le> a) zs ijs" "i \<le> m" for zs ijs m
    using that by (auto elim!: list_all2_mono)
  show ?case
  proof (cases "i + 2 < length ss")
    case False
    then show ?thesis by (subst zhongshu_from.simps) (auto intro: exI [of _ "[]"] simp: no_zone_outside_def)
  next
    case len: True
    show ?thesis
    proof (cases "?zg \<le> ?zd")
      case True
      then have eq: "zhongshu_from ss i = zhongshu_from ss (i + 1)" using len by (subst zhongshu_from.simps) (simp add: Let_def)
      obtain ijs where ijs: "list_all2 (\<lambda>z (a, b). zone_of ss a b z \<and> i + 1 \<le> a) (zhongshu_from ss (i + 1)) ijs"
        "sorted_wrt (\<lambda>(a, b) (c, d). b < c) ijs" "no_zone_outside ss (i + 1) ijs"
        using "1.IH"(1) [OF len refl refl True] by blast
      have "no_zone_outside ss i ijs" using ijs(3) True unfolding no_zone_outside_def
        by (metis Suc_eq_plus1 le_neq_implies_less Suc_leI)
      with weaken [OF ijs(1)] ijs(2) eq show ?thesis by (intro exI [of _ ijs]) simp
    next
      case False
      define e where "e = zone_extend ss ?zg ?zd (i + 2)"
      define z where "z = \<lparr> z_start_date = st_start_date (ss ! i), z_end_date = st_end_date (ss ! e),
                        z_zd = chan_price ?zd, z_zg = chan_price ?zg, z_source = ''bi'' \<rparr>"
      have eq: "zhongshu_from ss i = z # zhongshu_from ss (e + 1)"
        using len False by (subst zhongshu_from.simps) (simp add: Let_def e_def z_def)
      have e: "i + 2 \<le> e" "e < length ss" "\<And>k. i + 2 < k \<Longrightarrow> k \<le> e \<Longrightarrow> overlaps ?zd ?zg (ss ! k)"
        using zone_extend_ge [of "i + 2" ss ?zg ?zd] zone_extend_overlaps [of "i + 2" ss ?zg ?zd] len by (auto simp: e_def)
      have "\<not> overlaps ?zd ?zg (ss ! (e + 1))" if "e + 1 < length ss"
        using zone_extend_overlaps [of "i + 2" ss ?zg ?zd] len that by (simp add: e_def)
      then have "zone_of ss i e z" unfolding zone_of_def
        using e False first_three_overlap [OF len] by (auto simp: z_def not_le) (metis linorder_not_less)
      moreover obtain ijs where ijs: "list_all2 (\<lambda>z (a, b). zone_of ss a b z \<and> e + 1 \<le> a) (zhongshu_from ss (e + 1)) ijs"
        "sorted_wrt (\<lambda>(a, b) (c, d). b < c) ijs" "no_zone_outside ss (e + 1) ijs"
        using "1.IH"(2) [OF len refl refl False e_def] by blast
      moreover have "e < c" if "(c, d) \<in> set ijs" for c d
        using list_all2_ex_left [OF ijs(1) that] by auto
      moreover have "no_zone_outside ss i ((i, e) # ijs)" using ijs(3) unfolding no_zone_outside_def by auto
      ultimately show ?thesis using e(1) weaken [OF ijs(1)]
        by (intro exI [of _ "(i, e) # ijs"]) (auto simp: eq)
    qed
  qed
qed

lemma seg_extend_bound: "c < length ss \<Longrightarrow> seg_extend ss dir feature c < length ss"
proof (induction ss dir feature c rule: seg_extend.induct)
  case (1 ss dir feature c)
  then show ?case by (subst seg_extend.simps) (auto simp: Let_def)
qed

text \<open>Segments as runs of strokes, one after the other from stroke \<open>i\<close> on.\<close>

fun seg_tiles :: "'a stroke_scheme list \<Rightarrow> nat \<Rightarrow> segment list \<Rightarrow> bool" where
  "seg_tiles ss i [] = (length ss \<le> i + 2)"
| "seg_tiles ss i (g # gs) =
     (let n = nat (seg_bi_count g)
      in 3 \<le> n \<and> i + n \<le> length ss \<and> st_start_date g = st_start_date (ss ! i) \<and> st_start_price g = st_start_price (ss ! i)
         \<and> st_direction g = st_direction (ss ! i) \<and> st_end_date g = st_end_date (ss ! (i + n - 1))
         \<and> st_end_price g = st_end_price (ss ! (i + n - 1)) \<and> seg_tiles ss (i + n) gs)"

lemma segments_from_tiles: "seg_tiles ss i (segments_from ss i)"
proof (induction ss i rule: segments_from.induct)
  case (1 ss i)
  show ?case
  proof (cases "i + 2 < length ss")
    case True
    define c where "c = seg_end ss i"
    have c: "i + 2 \<le> c" "c < length ss"
      using True seg_extend_ge seg_extend_bound by (auto simp: c_def seg_end_def Let_def)
    then have n: "nat (int c - int i + 1) = c + 1 - i" "i + (c + 1 - i) = c + 1" by linarith+
    have rest: "seg_tiles ss (c + 1) (if length ss \<le> c + 1 then [] else segments_from ss (c + 1))"
      using 1 True by (simp add: c_def)
    from True have "segments_from ss i = \<lparr> st_start_date = st_start_date (ss ! i), st_end_date = st_end_date (ss ! c),
        st_start_price = st_start_price (ss ! i), st_end_price = st_end_price (ss ! c), st_direction = st_direction (ss ! i),
        seg_bi_count = int c - int i + 1 \<rparr> # (if length ss \<le> c + 1 then [] else segments_from ss (c + 1))"
      by (subst segments_from.simps) (simp add: Let_def c_def)
    with rest c n show ?thesis by (simp add: Let_def)
  next
    case False
    then show ?thesis by (subst segments_from.simps) simp
  qed
qed

section \<open>Properties\<close>

text \<open>Merging removes every inclusion: of two neighbouring merged bars one has both the strictly
  higher high and the strictly higher low, whatever rows, valid or not, went in.\<close>

theorem merged_bars_never_included:
  assumes "merge_rows T rows = Inr ms" and "Suc i < length ms"
  shows "moves_up (ms ! i) (ms ! Suc i) \<or> moves_down (ms ! i) (ms ! Suc i)"
proof -
  from assms(1) obtain d where "foldr_result (merge_row T) rows ([], 0) = Inr (rev ms, d)"
    by (auto simp: merge_rows_def split: prod.splits)
  from merge_rows_loop [OF this] have "merged_ok (rev ms)" by simp
  then have "moves_up (rev ms ! Suc j) (rev ms ! j) \<or> moves_down (rev ms ! Suc j) (rev ms ! j)" if "Suc j < length (rev ms)" for j
    using that by (rule merged_ok_nth)
  from rev_adjacent [of "rev ms" "\<lambda>a b. moves_up a b \<or> moves_down a b", OF this, of i] assms(2) show ?thesis by simp
qed

definition sample_text :: text_env where
  "sample_text = \<lparr> te_str = (\<lambda>v. case v of PStr s \<Rightarrow> s | _ \<Rightarrow> []), te_float = (\<lambda>_. None) \<rparr>"

definition sample_row :: "rat \<Rightarrow> rat \<Rightarrow> pyval" where
  "sample_row h l = PDict [(''date'', PStr ''2026-01-05''), (''high'', PFloat (Fin h)), (''low'', PFloat (Fin l))]"

definition sample_rows :: "pyval list" where
  "sample_rows = [sample_row 5 3, sample_row 6 2, sample_row 4 1, PDict [], sample_row 9 7]"

theorem merged_bars_never_included_witness:
  "\<exists>ms. merge_rows sample_text sample_rows = Inr ms \<and> length ms = 3 \<and> (moves_up (ms ! 1) (ms ! 2) \<or> moves_down (ms ! 1) (ms ! 2))"
proof -
  have "case merge_rows sample_text sample_rows of Inl _ \<Rightarrow> False | Inr ms \<Rightarrow> length ms = 3" by code_simp
  then obtain ms where ms: "merge_rows sample_text sample_rows = Inr ms" "length ms = 3" by (auto split: sum.splits)
  with merged_bars_never_included [OF ms(1), of 1] show ?thesis by (auto simp: numeral_eq_Suc)
qed

text \<open>C30: The fractals the strokes connect alternate between tops and bottoms, lie at least four merged
  bars apart, and every top is strictly above its neighbouring bottoms; each stroke runs between
  two consecutive ones, up from a bottom and down from a top, and starts where the previous one
  ended.\<close>

theorem strokes_alternate:
  fixes ms :: "merged list"
  defines "chosen \<equiv> chosen_fractals (fractals ms)"
  assumes "Suc i < length chosen"
  shows "opposes (chosen ! i) (chosen ! Suc i) \<and> length (strokes (fractals ms)) = length chosen - 1
    \<and> strokes (fractals ms) ! i = make_stroke (chosen ! i) (chosen ! Suc i)"
proof -
  have "chosen_ok (fold choose_fractal (fractals ms) [])"
    by (rule fold_choose_ok) (simp_all add: fractals_def sorted_fractals_from)
  from chosen_ok_nth [OF this] have "opposes (chosen ! i) (chosen ! Suc i)"
    using assms rev_adjacent [of "fold choose_fractal (fractals ms) []" opposes i] by (simp add: chosen_fractals_def)
  moreover have "length (strokes (fractals ms)) = length chosen - 1" by (simp add: strokes_def chosen_def Let_def)
  moreover have "strokes (fractals ms) ! i = make_stroke (chosen ! i) (chosen ! Suc i)"
    using assms(2) by (simp add: strokes_def chosen_def Let_def nth_tl)
  ultimately show ?thesis by blast
qed

definition zigzag :: "merged list" where
  "zigzag = map (\<lambda>p. new_merged ''2026-01-05'' (p + 1) p) [5, 4, 3, 4, 5, 6, 7, 6, 5]"

theorem strokes_alternate_witness:
  "length (chosen_fractals (fractals zigzag)) = 2
   \<and> opposes (chosen_fractals (fractals zigzag) ! 0) (chosen_fractals (fractals zigzag) ! 1)"
proof -
  have "length (chosen_fractals (fractals zigzag)) = 2" by code_simp
  with strokes_alternate [of 0 zigzag] show ?thesis by simp
qed

text \<open>C31: Every zone comes from a run of at least three consecutive strokes: its bounds are the lowest
  high and the highest low of the first three, with the lower bound strictly below the upper one
  before rounding, every stroke of the run overlaps it, and the stroke after the run, if there is one,
  does not. The runs of successive zones are disjoint and in order, and no zone is missed: three
  consecutive strokes that begin outside every run have no common stretch.\<close>

theorem zones_are_overlaps:
  "\<exists>ijs. list_all2 (\<lambda>z (a, b). zone_of ss a b z) (zhongshu ss) ijs \<and> sorted_wrt (\<lambda>(a, b) (c, d). b < c) ijs
     \<and> no_zone_outside ss 0 ijs"
proof -
  obtain ijs where "list_all2 (\<lambda>z (a, b). zone_of ss a b z \<and> 0 \<le> a) (zhongshu_from ss 0) ijs"
    "sorted_wrt (\<lambda>(a, b) (c, d). b < c) ijs" "no_zone_outside ss 0 ijs" using zhongshu_from_zones by blast
  then show ?thesis unfolding zhongshu_def by (intro exI [of _ ijs]) (auto elim!: list_all2_mono)
qed

text \<open>C32: Segments tile the strokes: each covers at least three consecutive strokes, starts with the
  first and ends with the last of them, the next segment starts with the next stroke, and fewer
  than three strokes are left over at the end.\<close>

theorem segments_tile_strokes:
  "seg_tiles ss 0 (segments ss)"
  unfolding segments_def by (rule segments_from_tiles)

end
