(* ===== verification/Chart_Tools.thy ===== *)
theory Chart_Tools
  imports Chan_Structure
begin

text \<open>
  Small chart readings: the setup counter of \<^verbatim>\<open>app/utils/td_sequential.py\<close> and the prior
  high/low range of \<^verbatim>\<open>app/utils/prior_range.py\<close>. A price series is the list of its binary64
  values, missing ones NaN.
\<close>

section \<open>Setup counts\<close>

text \<open>UTF-8 bytes of the labels.\<close>

definition dash :: string where "dash = [CHR 0xE2, CHR 0x80, CHR 0x94]"
definition down_mark :: string where "down_mark = [CHR 0xE2, CHR 0x86, CHR 0x93]"
definition turn_down :: string where
  "turn_down = [CHR 0xE4, CHR 0xB8, CHR 0x8B, CHR 0xE8, CHR 0xB7, CHR 0x8C, CHR 0xE5, CHR 0x8F, CHR 0x98, CHR 0xE7, CHR 0x9B, CHR 0x98]"
definition turn_up :: string where
  "turn_up = [CHR 0xE4, CHR 0xB8, CHR 0x8A, CHR 0xE6, CHR 0xB6, CHR 0xA8, CHR 0xE5, CHR 0x8F, CHR 0x98, CHR 0xE7, CHR 0x9B, CHR 0x98]"
definition rise_spent :: string where
  "rise_spent = [CHR 0xE4, CHR 0xB8, CHR 0x8A, CHR 0xE6, CHR 0xB6, CHR 0xA8, CHR 0xE8, CHR 0xA1, CHR 0xB0, CHR 0xE7, CHR 0xAB, CHR 0xAD]"
definition fall_spent :: string where
  "fall_spent = [CHR 0xE4, CHR 0xB8, CHR 0x8B, CHR 0xE8, CHR 0xB7, CHR 0x8C, CHR 0xE8, CHR 0xA1, CHR 0xB0, CHR 0xE7, CHR 0xAB, CHR 0xAD]"

record td_result =
  td_buy_count :: "int list"
  td_sell_count :: "int list"
  td_countdown :: int
  td_direction :: string
  td_label :: string
  td_sub_label :: string
  td_desc :: string

text \<open>One round of the loop: the counts appended for bar \<open>i\<close>, from the last appended ones.\<close>

definition td_bar :: "pyfloat list \<Rightarrow> nat \<Rightarrow> int \<times> int \<Rightarrow> int \<times> int" where
  "td_bar vs i prev =
     (if i < 4 \<or> vs ! i = NaN then (0, 0)
      else if vs ! (i - 4) = NaN then (0, 0)
      else if pf_less (vs ! i) (vs ! (i - 4)) then (fst prev + 1, 0)
      else if pf_less (vs ! (i - 4)) (vs ! i) then (0, snd prev + 1)
      else (0, 0))"

primrec td_counts :: "pyfloat list \<Rightarrow> nat \<Rightarrow> (int \<times> int) list" where
  "td_counts vs 0 = []"
| "td_counts vs (Suc i) =
     (let cs = td_counts vs i in cs @ [td_bar vs i (if cs = [] then (0, 0) else last cs)])"

text \<open>The last index whose count reaches the threshold, or \<open>-1\<close>.\<close>

definition last_trigger :: "int \<Rightarrow> int list \<Rightarrow> int" where
  "last_trigger n cs = fold (\<lambda>i t. if n \<le> cs ! i then int i else t) [0..<length cs] (-1)"

definition latest :: "int list \<Rightarrow> int" where
  "latest cs = (if cs = [] then 0 else last cs)"

text \<open>Direction, label, sub-label, description and the index they refer to.\<close>

definition td_classify :: "int \<Rightarrow> int list \<Rightarrow> int list \<Rightarrow> string \<times> string \<times> string \<times> string \<times> int" where
  "td_classify setup_length buys sells =
     (let bt = last_trigger setup_length buys; stt = last_trigger setup_length sells
      in if bt \<le> stt \<and> 0 \<le> stt then (''top'', ''TD9'', turn_down, rise_spent, stt)
         else if 0 \<le> bt then (''bottom'', ''TD9'', turn_up, fall_spent, bt)
         else if 0 < latest sells then (''top'', show_int (latest sells), '''', '''', int (length sells) - 1)
         else if 0 < latest buys then (''bottom'', show_int (latest buys), '''', '''', int (length buys) - 1)
         else (''none'', dash, '''', '''', -1))"

definition td_mark :: "int list \<Rightarrow> int list \<Rightarrow> string \<Rightarrow> int \<Rightarrow> string \<Rightarrow> string" where
  "td_mark buys sells direction trigger_idx label =
     (if direction \<in> {''top'', ''bottom''} \<and> trigger_idx = int (length buys) - 1
      then (if direction = ''top'' \<and> 1 < length sells \<and> latest sells < sells ! (length sells - 2) then label @ down_mark
            else if direction = ''bottom'' \<and> 1 < length buys \<and> latest buys < buys ! (length buys - 2) then label @ down_mark
            else label)
      else label)"

definition compute_td_setup :: "pyfloat list \<Rightarrow> int \<Rightarrow> td_result" where
  "compute_td_setup vs setup_length =
     (let counts = td_counts vs (length vs); buys = map fst counts; sells = map snd counts
      in case td_classify setup_length buys sells of (direction, label, sub_label, desc, trigger_idx) \<Rightarrow>
        \<lparr> td_buy_count = buys, td_sell_count = sells, td_countdown = max (latest buys) (latest sells),
          td_direction = direction, td_label = td_mark buys sells direction trigger_idx label,
          td_sub_label = sub_label, td_desc = desc \<rparr>)"

text \<open>
  The snapshot of a frame. \<open>to_numeric\<close> and \<open>sort_dates\<close> are pandas'
  \<^verbatim>\<open>to_numeric(errors="coerce")\<close> and \<^verbatim>\<open>sort_values("trade_date")\<close>; a frame is its column names
  and its rows.
\<close>

record frame =
  fr_columns :: "string list"
  fr_rows :: "(string \<times> pyval) list list"

definition td_dict :: "int \<Rightarrow> string \<Rightarrow> string \<Rightarrow> string \<Rightarrow> string \<Rightarrow> int \<Rightarrow> pyval" where
  "td_dict setup_length label direction sub desc countdown = PDict
     [(''label'', PStr label), (''direction'', PStr direction), (''sub_label'', PStr sub), (''desc'', PStr desc),
      (''countdown'', PInt countdown), (''setup_length'', PInt setup_length),
      (''definition_version'', PStr ''indicator-definitions-v1''),
      (''scope'', PStr ''setup_only_not_full_td_sequential''), (''actionable'', PBool False)]"

definition td_setup_snapshot ::
  "(pyval \<Rightarrow> pyfloat) \<Rightarrow> ((string \<times> pyval) list list \<Rightarrow> (string \<times> pyval) list list) \<Rightarrow> frame option \<Rightarrow> int \<Rightarrow> pyval" where
  "td_setup_snapshot to_numeric sort_dates fr setup_length =
     (case fr of
        None \<Rightarrow> td_dict setup_length dash ''none'' '''' '''' 0
      | Some f \<Rightarrow>
         (if fr_rows f = [] \<or> ''close'' \<notin> set (fr_columns f) then td_dict setup_length dash ''none'' '''' '''' 0
          else let rows = (if ''trade_date'' \<in> set (fr_columns f) then sort_dates (fr_rows f) else fr_rows f);
                   r = compute_td_setup (map (\<lambda>row. to_numeric (pget ''close'' (PDict row))) rows) setup_length
               in td_dict setup_length (td_label r) (td_direction r) (td_sub_label r) (td_desc r) (td_countdown r)))"

section \<open>Prior range\<close>

definition prior_bar :: "text_env \<Rightarrow> pyval \<Rightarrow> (string \<times> rat \<times> rat) option result" where
  "prior_bar T bar =
     bindr (chan_number T (pget ''high'' bar)) (\<lambda>high.
     bindr (chan_number T (pget ''low'' bar)) (\<lambda>low.
     let day = take 10 (te_str T (por (por (pget ''date'' bar) (pget ''trade_date'' bar)) (PStr [])))
     in Inr (case (high, low) of
          (Some h, Some l) \<Rightarrow> if h < l \<or> l \<le> 0 \<or> length day \<noteq> 10 then None else Some (day, h, l)
        | _ \<Rightarrow> None)))"

text \<open>\<^verbatim>\<open>max(sample, key=...)\<close> and \<^verbatim>\<open>min\<close> return the first extreme element.\<close>

fun first_max :: "('a \<Rightarrow> 'k::linorder) \<Rightarrow> 'a \<Rightarrow> 'a list \<Rightarrow> 'a" where
  "first_max key m [] = m"
| "first_max key m (x # xs) = first_max key (if key m < key x then x else m) xs"

fun first_min :: "('a \<Rightarrow> 'k::linorder) \<Rightarrow> 'a \<Rightarrow> 'a list \<Rightarrow> 'a" where
  "first_min key m [] = m"
| "first_min key m (x # xs) = first_min key (if key x < key m then x else m) xs"

definition last_n :: "int \<Rightarrow> 'a list \<Rightarrow> 'a list" where
  "last_n n xs = drop (length xs - nat n) xs"

text \<open>The label and the disclaimer are fixed texts; their bytes are arguments.\<close>

definition prior_high_low_range :: "text_env \<Rightarrow> string \<Rightarrow> string \<Rightarrow> pyval list \<Rightarrow> int \<Rightarrow> pyval result" where
  "prior_high_low_range T label disclaimer bars window =
     bindr (mapr (prior_bar T) bars) (\<lambda>parsed.
     let usable = List.map_filter (\<lambda>x. x) parsed; sample = last_n (max window 1) usable
     in if length sample < 5 then Inr PNone
        else let upper = first_max (\<lambda>(d, h, l). (h, d)) (hd sample) (tl sample);
                 lower = first_min (\<lambda>(d, h, l). (l, d)) (hd sample) (tl sample)
             in if fst (snd upper) \<le> snd (snd lower) then Inr PNone
                else Inr (PDict
                  [(''kind'', PStr ''prior_high_low''), (''qualified'', PBool False), (''actionable'', PBool False),
                   (''persisted'', PBool False), (''window'', PInt (int (length sample))),
                   (''origin_at'', PStr (fst (hd sample))), (''valid_until'', PStr (fst (last sample))),
                   (''upper'', PFloat (Fin (fst (snd upper)))), (''lower'', PFloat (Fin (snd (snd lower)))),
                   (''upper_date'', PStr (fst upper)), (''lower_date'', PStr (fst lower)),
                   (''label'', PStr label), (''disclaimer'', PStr disclaimer)]))"

section \<open>Setup counts are run lengths\<close>

text \<open>The length of the run of positions satisfying \<open>P\<close> that ends at position \<open>i\<close>.\<close>

primrec run_length :: "(nat \<Rightarrow> bool) \<Rightarrow> nat \<Rightarrow> int" where
  "run_length P 0 = (if P 0 then 1 else 0)"
| "run_length P (Suc i) = (if P (Suc i) then run_length P i + 1 else 0)"

definition falls :: "pyfloat list \<Rightarrow> nat \<Rightarrow> bool" where
  "falls vs i \<longleftrightarrow> 4 \<le> i \<and> pf_less (vs ! i) (vs ! (i - 4))"

definition rises :: "pyfloat list \<Rightarrow> nat \<Rightarrow> bool" where
  "rises vs i \<longleftrightarrow> 4 \<le> i \<and> pf_less (vs ! (i - 4)) (vs ! i)"

lemma pf_less_NaN [simp]: "\<not> pf_less NaN x" "\<not> pf_less x NaN"
  by (cases x; simp)+

lemma pf_less_asym: "pf_less x y \<Longrightarrow> \<not> pf_less y x"
  by (cases x; cases y) auto

lemma td_bar_runs:
  "td_bar vs i prev = (if falls vs i then fst prev + 1 else 0, if rises vs i then snd prev + 1 else 0)"
  by (auto simp: td_bar_def falls_def rises_def dest: pf_less_asym)

lemma td_counts_runs: "td_counts vs n = map (\<lambda>i. (run_length (falls vs) i, run_length (rises vs) i)) [0..<n]"
proof (induction n)
  case (Suc n)
  show ?case
  proof (cases n)
    case 0
    then show ?thesis by (simp add: td_bar_runs)
  next
    case (Suc m)
    have "last (td_counts vs n) = (run_length (falls vs) m, run_length (rises vs) m)" "td_counts vs n \<noteq> []"
      unfolding Suc.IH using Suc by (simp_all add: last_map)
    then have "td_counts vs (Suc n) = td_counts vs n @ [(run_length (falls vs) n, run_length (rises vs) n)]"
      using Suc by (simp add: Let_def td_bar_runs del: td_counts.simps(2)) (simp add: Let_def td_bar_runs)
    with Suc.IH show ?thesis by simp
  qed
qed simp

lemma run_length_nonneg: "0 \<le> run_length P i"
  by (induction i) auto

lemma run_length_pos: "0 < run_length P i \<longleftrightarrow> P i"
proof (cases i)
  case (Suc j)
  with run_length_nonneg [of P j] show ?thesis by auto
qed simp

lemma run_length_grows: "0 < run_length P (Suc i) \<Longrightarrow> run_length P i < run_length P (Suc i)"
  by (auto split: if_splits)

lemma last_trigger_hit:
  assumes "0 \<le> last_trigger n cs"
  shows "last_trigger n cs < int (length cs) \<and> n \<le> cs ! nat (last_trigger n cs)"
proof -
  let ?f = "\<lambda>i t. if n \<le> cs ! i then int i else t"
  have "fold ?f is t = t \<or> (\<exists>i \<in> set is. fold ?f is t = int i \<and> n \<le> cs ! i)" for "is" t
    by (induction "is" arbitrary: t) (auto split: if_splits)
  from this [of "[0..<length cs]" "-1"] assms show ?thesis by (auto simp: last_trigger_def)
qed

text \<open>The falling-back mark is asked for only where the last count has just grown.\<close>

lemma mark_unreachable:
  assumes "0 < latest cs" and "cs = map (run_length P) [0..<n]" and "1 < length cs"
  shows "\<not> latest cs < cs ! (length cs - 2)"
proof -
  from assms(2,3) obtain m where m: "n = Suc (Suc m)" by (cases n; cases "n - 1") auto
  with assms(1,2) have "0 < run_length P (Suc m)" by (simp add: latest_def)
  from run_length_grows [OF this] m assms(2) show ?thesis by (simp add: latest_def nth_append)
qed

lemma trigger_at_end:
  "last_trigger n cs = int (length cs) - 1 \<Longrightarrow> 1 \<le> n \<Longrightarrow> 0 \<le> last_trigger n cs \<Longrightarrow> 0 < latest cs"
  using last_trigger_hit [of n cs] by (cases cs rule: rev_cases) (auto simp: latest_def)

lemma td_classify_end:
  assumes "td_classify n buys sells = (dir, lab, sub, desc, t)" and "1 \<le> n" and "length buys = length sells"
    and "t = int (length buys) - 1"
  shows "(dir = ''top'' \<longrightarrow> 0 < latest sells) \<and> (dir = ''bottom'' \<longrightarrow> 0 < latest buys)"
  using assms trigger_at_end [of n buys] trigger_at_end [of n sells]
  by (auto simp: td_classify_def Let_def split: if_splits)

section \<open>Properties\<close>

text \<open>The setup counts are run lengths: the buy count of a bar is the number of consecutive bars,
  ending there, whose close is below the close four bars earlier, the sell count the same for
  above, with missing or equal prices breaking every run; they are never both positive, and the
  countdown is the larger of the last two.\<close>

theorem td_counts_are_runs:
  "td_buy_count (compute_td_setup vs n) = map (run_length (falls vs)) [0..<length vs]
   \<and> td_sell_count (compute_td_setup vs n) = map (run_length (rises vs)) [0..<length vs]
   \<and> (\<forall>i. run_length (falls vs) i = 0 \<or> run_length (rises vs) i = 0)
   \<and> td_countdown (compute_td_setup vs n) = (if vs = [] then 0
       else max (run_length (falls vs) (length vs - 1)) (run_length (rises vs) (length vs - 1)))"
proof -
  have "run_length (falls vs) i = 0 \<or> run_length (rises vs) i = 0" for i
    using run_length_pos [of "falls vs" i] run_length_pos [of "rises vs" i] run_length_nonneg [of _ i]
    by (auto simp: falls_def rises_def order_less_le dest: pf_less_asym)
  then show ?thesis
    by (auto simp: compute_td_setup_def Let_def td_counts_runs comp_def latest_def last_map split: prod.splits)
qed

text \<open>C34: for every positive threshold the label is one of the plain labels: the mark that the source
  adds when the latest count has fallen below the previous one is never added, since a positive
  latest count is always one more than the count before it.\<close>

theorem td_falling_mark_unreachable:
  assumes "1 \<le> n"
  shows "td_label (compute_td_setup vs n) \<in> {''TD9'', dash} \<union> range show_int"
proof -
  let ?b = "map (run_length (falls vs)) [0..<length vs]" and ?s = "map (run_length (rises vs)) [0..<length vs]"
  obtain dir lab sub desc t where c: "td_classify n ?b ?s = (dir, lab, sub, desc, t)" by (metis prod_cases5)
  have "td_mark ?b ?s dir t lab = lab"
    using td_classify_end [OF c assms] mark_unreachable [of ?s "rises vs" "length vs"] mark_unreachable [of ?b "falls vs" "length vs"]
    by (auto simp: td_mark_def)
  moreover have "lab \<in> {''TD9'', dash} \<union> range show_int"
    using c by (auto simp: td_classify_def Let_def split: if_splits)
  ultimately show ?thesis using c by (simp add: compute_td_setup_def Let_def td_counts_runs comp_def)
qed

theorem td_falling_mark_unreachable_witness:
  "td_sell_count (compute_td_setup [Fin 1, Fin 2, Fin 3, Fin 4, Fin 5, Fin 6, Fin 3] 2) = [0, 0, 0, 0, 1, 2, 0]
   \<and> td_label (compute_td_setup [Fin 1, Fin 2, Fin 3, Fin 4, Fin 5, Fin 6, Fin 3] 2) = ''TD9''
   \<and> td_label (compute_td_setup [Fin 1, Fin 2, Fin 3, Fin 4, Fin 5, Fin 6, Fin 3] 2) \<in> {''TD9'', dash} \<union> range show_int"
proof -
  have "td_sell_count (compute_td_setup [Fin 1, Fin 2, Fin 3, Fin 4, Fin 5, Fin 6, Fin 3] 2) = [0, 0, 0, 0, 1, 2, 0]"
    "td_label (compute_td_setup [Fin 1, Fin 2, Fin 3, Fin 4, Fin 5, Fin 6, Fin 3] 2) = ''TD9''" by code_simp+
  moreover have "(1 :: int) \<le> 2" by simp
  ultimately show ?thesis using td_falling_mark_unreachable by blast
qed

end
