(* ===== verification/Event_Execution.thy ===== *)
theory Event_Execution
  imports Chan_Structure
begin

text \<open>
  Fail-closed daily execution for strategy replay,
  \<^verbatim>\<open>app/services/constrained_event_execution.py\<close>, with the helpers it takes from
  \<^verbatim>\<open>app/services/backtest_service.py\<close>. Cash and prices are binary64 numbers with their
  rounding; share counts are integers, and their conversion to float saturates where Python
  raises beyond \<open>2 ^ 1024\<close>. A day is its day number; a frame is the list of its rows in index
  order, each with its day. A cell that numpy stores as \<^verbatim>\<open>np.bool_\<close> is \<open>PBool\<close>.
\<close>

section \<open>Float operations\<close>

fun pf_neg :: "pyfloat \<Rightarrow> pyfloat" where
  "pf_neg (Fin a) = Fin (- a)"
| "pf_neg PosInf = NegInf"
| "pf_neg NegInf = PosInf"
| "pf_neg NaN = NaN"

definition pf_sub :: "pyfloat \<Rightarrow> pyfloat \<Rightarrow> pyfloat" where
  "pf_sub a b = pf_add a (pf_neg b)"

text \<open>The sign of a number, for products and quotients with an infinity.\<close>

fun pf_sign :: "pyfloat \<Rightarrow> int" where
  "pf_sign (Fin a) = (if 0 < a then 1 else if a < 0 then -1 else 0)"
| "pf_sign PosInf = 1"
| "pf_sign NegInf = -1"
| "pf_sign NaN = 0"

definition pf_inf :: "int \<Rightarrow> pyfloat" where
  "pf_inf s = (if 0 < s then PosInf else if s < 0 then NegInf else NaN)"

definition pf_mul :: "pyfloat \<Rightarrow> pyfloat \<Rightarrow> pyfloat" where
  "pf_mul a b = (case (a, b) of
       (Fin x, Fin y) \<Rightarrow> to_float (x * y)
     | (NaN, _) \<Rightarrow> NaN
     | (_, NaN) \<Rightarrow> NaN
     | _ \<Rightarrow> pf_inf (pf_sign a * pf_sign b))"

text \<open>Division by zero raises in Python; the callers below only divide by positive numbers.\<close>

definition pf_div :: "pyfloat \<Rightarrow> pyfloat \<Rightarrow> pyfloat result" where
  "pf_div a b = (case (a, b) of
       (_, Fin y) \<Rightarrow> (if y = 0 then Inl ZeroDivisionError
          else Inr (case a of Fin x \<Rightarrow> to_float (x / y) | NaN \<Rightarrow> NaN | _ \<Rightarrow> pf_inf (pf_sign a * pf_sign b)))
     | (Fin _, PosInf) \<Rightarrow> Inr (Fin 0)
     | (Fin _, NegInf) \<Rightarrow> Inr (Fin 0)
     | _ \<Rightarrow> Inr NaN)"

text \<open>
  \<^verbatim>\<open>int(a // b)\<close>: the exact floor; CPython's result is the same for every quotient below \<open>2 ^ 52\<close>,
  far beyond a number of lots.
\<close>

definition pf_int_floordiv :: "pyfloat \<Rightarrow> pyfloat \<Rightarrow> int result" where
  "pf_int_floordiv a b = (case (a, b) of
       (Fin x, Fin y) \<Rightarrow> (if y = 0 then Inl ZeroDivisionError else Inr \<lfloor>x / y\<rfloor>)
     | (Fin x, PosInf) \<Rightarrow> Inr (if x < 0 then -1 else 0)
     | (Fin x, NegInf) \<Rightarrow> Inr (if 0 < x then -1 else 0)
     | (_, Fin y) \<Rightarrow> (if y = 0 then Inl ZeroDivisionError else Inl (ValueError ''cannot convert float NaN to integer''))
     | _ \<Rightarrow> Inl (ValueError ''cannot convert float NaN to integer''))"

definition pf_le :: "pyfloat \<Rightarrow> pyfloat \<Rightarrow> bool" where
  "pf_le a b \<longleftrightarrow> a \<noteq> NaN \<and> b \<noteq> NaN \<and> \<not> pf_less b a"

text \<open>\<^verbatim>\<open>max(a, b)\<close> and \<^verbatim>\<open>min(a, b)\<close> keep the first argument unless the second is strictly better.\<close>

definition pf_max :: "pyfloat \<Rightarrow> pyfloat \<Rightarrow> pyfloat" where
  "pf_max a b = (if pf_less a b then b else a)"

definition pf_min :: "pyfloat \<Rightarrow> pyfloat \<Rightarrow> pyfloat" where
  "pf_min a b = (if pf_less b a then b else a)"

definition pf_of_int :: "int \<Rightarrow> pyfloat" where
  "pf_of_int n = to_float (of_int n)"

definition pf_round :: "nat \<Rightarrow> pyfloat \<Rightarrow> pyfloat" where
  "pf_round n f = (case f of Fin r \<Rightarrow> Fin (py_round n r) | _ \<Rightarrow> f)"

section \<open>Data\<close>

type_synonym day = int
type_synonym cells = "(string \<times> pyval) list"
type_synonym daily_frame = "(day \<times> cells) list"

text \<open>Python's \<^verbatim>\<open>float\<close>, pandas' \<^verbatim>\<open>to_numeric\<close> and the built-in \<^verbatim>\<open>sum\<close> over floats are arguments.\<close>

record exec_env =
  ee_text :: text_env
  ee_to_numeric :: "pyval \<Rightarrow> pyfloat"
  ee_sum :: "pyfloat list \<Rightarrow> pyfloat"

record position =
  p_shares :: int
  p_average_cost :: pyfloat
  p_opened_index :: int

definition new_position :: position where
  "new_position = \<lparr> p_shares = 0, p_average_cost = Fin 0, p_opened_index = 0 \<rparr>"

datatype side = Buy | Sell

record blocked_order =
  b_day :: day
  b_code :: string
  b_side :: side
  b_reason :: string

record trade =
  t_day :: day
  t_code :: string
  t_side :: side
  t_shares :: int
  t_price :: pyfloat
  t_gross :: pyfloat
  t_commission :: pyfloat
  t_realized :: pyfloat

text \<open>The engine's lots and blocked orders with the caller's positions, cash and the day's trades.\<close>

record books =
  lots :: "(string \<times> (int \<times> int) list) list"
  blocked :: "blocked_order list"
  positions :: "(string \<times> position) list"
  cash :: pyfloat
  trades :: "trade list"

section \<open>Evidence\<close>

definition exec_finite :: "exec_env \<Rightarrow> pyval \<Rightarrow> pyfloat option result" where
  "exec_finite X v = (case v of PBool _ \<Rightarrow> Inr None
     | _ \<Rightarrow> bindr (py_float (ee_text X) v) (\<lambda>f. Inr (case f of Some (Fin r) \<Rightarrow> Some (Fin r) | _ \<Rightarrow> None)))"

definition verified :: "cells \<Rightarrow> string \<Rightarrow> bool" where
  "verified row field \<longleftrightarrow> pget field (PDict row) = PBool True"

definition verified_false :: "cells \<Rightarrow> string \<Rightarrow> bool" where
  "verified_false row field \<longleftrightarrow> pget field (PDict row) = PBool False"

definition rows_at :: "daily_frame \<Rightarrow> day \<Rightarrow> cells list" where
  "rows_at fr d = map snd (filter (\<lambda>(x, _). x = d) fr)"

definition is_blank_text :: "pyval \<Rightarrow> bool" where
  "is_blank_text v = (case v of PStr s \<Rightarrow> blank s | _ \<Rightarrow> True)"

text \<open>\<^verbatim>\<open>_row\<close>: the row, or the reason why there is none.\<close>

definition exec_row :: "exec_env \<Rightarrow> daily_frame option \<Rightarrow> day \<Rightarrow> side \<Rightarrow> (string + cells) result" where
  "exec_row X fr d sd = (case fr of None \<Rightarrow> Inr (Inl ''minute_or_daily_execution_bar_missing'')
     | Some f \<Rightarrow> (case rows_at f d of
         [] \<Rightarrow> Inr (Inl ''minute_or_daily_execution_bar_missing'')
       | [row] \<Rightarrow> bindr (exec_finite X (pget ''open'' (PDict row))) (\<lambda>op. Inr (
           if (case op of Some (Fin r) \<Rightarrow> r \<le> 0 | _ \<Rightarrow> True) \<or> \<not> verified row ''trade_activity_observed''
             then Inl ''suspended_or_unverified_trading_activity''
           else if \<not> verified row ''execution_price_pit_verified'' then Inl ''first_executable_price_pit_unverified''
           else if \<not> verified row ''price_limit_verified'' then Inl ''historical_price_limit_evidence_missing''
           else if sd = Buy \<and> \<not> verified_false row ''limit_up'' then Inl ''buy_blocked_at_limit_up_or_unknown''
           else if sd = Sell \<and> \<not> verified_false row ''limit_down'' then Inl ''sell_blocked_at_limit_down_or_unknown''
           else if \<not> verified row ''trading_unit_verified'' then Inl ''exchange_lot_unit_unverified''
           else Inr row))
       | _ \<Rightarrow> Inr (Inl ''duplicate_execution_timestamp'')))"

text \<open>\<^verbatim>\<open>RotationBacktestService._observed_close\<close> with \<^verbatim>\<open>before=True\<close>.\<close>

definition active_cell :: "pyval \<Rightarrow> bool" where
  "active_cell v \<longleftrightarrow> truthy v \<and> v \<noteq> PFloat NaN"

definition observed_close_before :: "exec_env \<Rightarrow> daily_frame \<Rightarrow> day \<Rightarrow> pyfloat option" where
  "observed_close_before X fr d =
     (if fr = [] \<or> \<not> phas ''trade_activity_observed'' (PDict (snd (hd fr))) then None
      else let history = filter (\<lambda>(x, _). x < d) fr;
               active = filter (\<lambda>(_, row). active_cell (pget ''trade_activity_observed'' (PDict row))) history;
               closes = map (\<lambda>(_, row). ee_to_numeric X (pget ''close'' (PDict row))) active
           in List.find (\<lambda>v. case v of Fin r \<Rightarrow> 0 < r | _ \<Rightarrow> False) (rev closes))"

definition commission :: "pyfloat \<Rightarrow> pyfloat \<Rightarrow> pyfloat \<Rightarrow> pyfloat" where
  "commission value rate minimum = (if pf_less (Fin 0) value then pf_max minimum (pf_mul value rate) else Fin 0)"

section \<open>Lots\<close>

definition get_lots :: "string \<Rightarrow> books \<Rightarrow> (int \<times> int) list" where
  "get_lots code b = (case map_of (lots b) code of None \<Rightarrow> [] | Some l \<Rightarrow> l)"

definition del_key :: "string \<Rightarrow> (string \<times> 'v) list \<Rightarrow> (string \<times> 'v) list" where
  "del_key k d = filter (\<lambda>(k', _). k' \<noteq> k) d"

definition block :: "day \<Rightarrow> string \<Rightarrow> side \<Rightarrow> string \<Rightarrow> books \<Rightarrow> books" where
  "block d code sd reason b = b\<lparr> blocked := blocked b @ [\<lparr> b_day = d, b_code = code, b_side = sd, b_reason = reason \<rparr>] \<rparr>"

text \<open>\<^verbatim>\<open>_available_to_sell\<close> records a missing lot list before it counts.\<close>

definition seed_lots :: "string \<Rightarrow> position \<Rightarrow> books \<Rightarrow> books" where
  "seed_lots code pos b = (if map_of (lots b) code = None
     then b\<lparr> lots := dict_set code [(p_opened_index pos, p_shares pos)] (lots b) \<rparr> else b)"

definition settled :: "int \<Rightarrow> (int \<times> int) list \<Rightarrow> int" where
  "settled day_index ls = sum_list (map snd (filter (\<lambda>(opened, _). opened < day_index) ls))"

fun consume :: "int \<Rightarrow> int \<Rightarrow> (int \<times> int) list \<Rightarrow> (int \<times> int) list \<times> int" where
  "consume day_index remaining [] = ([], remaining)"
| "consume day_index remaining ((opened, qty) # ls) =
     (let used = (if opened < day_index then min remaining qty else 0);
          (kept, rest) = consume day_index (remaining - used) ls
      in (if qty - used \<noteq> 0 then (opened, qty - used) # kept else kept, rest))"

definition consume_lots :: "string \<Rightarrow> int \<Rightarrow> int \<Rightarrow> books \<Rightarrow> books result" where
  "consume_lots code sold day_index b =
     (case consume day_index sold (get_lots code b) of (kept, remaining) \<Rightarrow>
        raise_if (remaining \<noteq> 0) (ValueError ''t_plus_one_lot_identity_mismatch'')
          (Inr (b\<lparr> lots := dict_set code kept (lots b) \<rparr>)))"

section \<open>A session\<close>

text \<open>\<^verbatim>\<open>float(self.config.get(key, default))\<close>.\<close>

definition cfg_float :: "exec_env \<Rightarrow> cells \<Rightarrow> string \<Rightarrow> rat \<Rightarrow> pyfloat result" where
  "cfg_float X m key dflt = (if phas key (PDict m)
     then bindr (py_float (ee_text X) (pget key (PDict m))) (\<lambda>f. case f of
            Some x \<Rightarrow> Inr x
          | None \<Rightarrow> Inl (if is_str (pget key (PDict m)) then ValueError ''could not convert to float'' else TypeError ''float''))
     else Inr (Fin (round64 dflt)))"

record session =
  s_day :: day
  s_index :: int
  s_targets :: "(string \<times> pyfloat) list"
  s_frames :: "(string \<times> daily_frame) list"
  s_rate :: pyfloat
  s_minimum :: pyfloat
  s_slip :: pyfloat
  s_lot :: int
  s_max_single :: pyfloat
  s_max_theme :: pyfloat
  s_opened :: "(string \<times> pyfloat) list"
  s_marks :: "(string \<times> pyfloat) list"
  s_equity :: pyfloat

definition lot_policy :: "cells \<Rightarrow> int result" where
  "lot_policy config = (case (if phas ''lot_size'' (PDict config) then pget ''lot_size'' (PDict config) else PInt 100) of
       PInt n \<Rightarrow> raise_if (n \<le> 0) (ValueError ''execution_lot_policy_invalid'') (Inr n)
     | _ \<Rightarrow> Inl (ValueError ''execution_lot_policy_invalid''))"

definition cost_invalid :: "pyfloat \<Rightarrow> pyfloat \<Rightarrow> pyfloat \<Rightarrow> bool" where
  "cost_invalid rate minimum slip \<longleftrightarrow>
     list_ex (\<lambda>v. \<not> pf_isfinite v \<or> pf_less v (Fin 0)) [rate, minimum, slip] \<or> pf_le (Fin 1) slip \<or> pf_le (Fin 1) rate"

definition unit_share :: "pyfloat \<Rightarrow> bool" where
  "unit_share v \<longleftrightarrow> pf_less (Fin 0) v \<and> pf_le v (Fin 1)"

definition exec_policy ::
  "exec_env \<Rightarrow> cells \<Rightarrow> cells \<Rightarrow> day \<Rightarrow> int \<Rightarrow> (string \<times> pyfloat) list \<Rightarrow> (string \<times> daily_frame) list \<Rightarrow> pyfloat
     \<Rightarrow> session result" where
  "exec_policy X config signal d di targets frames money =
     raise_if (\<not> pf_isfinite money \<or> pf_less money (Fin 0)) (ValueError ''cash_book_invalid'')
     (bindr (cfg_float X config ''commission_rate'' (2 / 10000)) (\<lambda>rate.
      bindr (cfg_float X config ''minimum_commission'' 5) (\<lambda>minimum.
      bindr (cfg_float X config ''slippage_rate'' (5 / 10000)) (\<lambda>slip.
      bindr (lot_policy config) (\<lambda>lot.
      raise_if (cost_invalid rate minimum slip) (ValueError ''execution_cost_policy_invalid'')
      (bindr (cfg_float X signal ''single_fund_target_cap'' (25 / 100)) (\<lambda>max_single.
       bindr (cfg_float X signal ''single_theme_target_cap'' (4 / 10)) (\<lambda>max_theme.
       raise_if (\<not> unit_share max_single \<or> \<not> unit_share max_theme) (ValueError ''portfolio_constraint_policy_invalid'')
       (Inr \<lparr> s_day = d, s_index = di, s_targets = targets, s_frames = frames, s_rate = rate, s_minimum = minimum,
              s_slip = slip, s_lot = lot, s_max_single = max_single, s_max_theme = max_theme,
              s_opened = [], s_marks = [], s_equity = Fin 0 \<rparr>)))))))))"

definition targets_invalid :: "exec_env \<Rightarrow> session \<Rightarrow> pyval \<Rightarrow> bool result" where
  "targets_invalid X S exposure_cap =
     bindr (exec_finite X exposure_cap) (\<lambda>cap. Inr (case cap of
         None \<Rightarrow> True
       | Some c \<Rightarrow> pf_less c (Fin 0) \<or> pf_less (Fin 1) c
           \<or> list_ex (\<lambda>(_, w). \<not> pf_isfinite w \<or> pf_less w (Fin 0) \<or> pf_less (s_max_single S) w) (s_targets S)
           \<or> pf_less (pf_add c (Fin (round64 (1 / 1000000000)))) (ee_sum X (map snd (s_targets S)))))"

text \<open>The opening price of a code on the day, when trading activity is verified.\<close>

definition positive_open :: "pyfloat option \<Rightarrow> pyfloat option" where
  "positive_open v = (case v of Some (Fin r) \<Rightarrow> if 0 < r then Some (Fin r) else None | _ \<Rightarrow> None)"

definition open_of :: "exec_env \<Rightarrow> day \<Rightarrow> daily_frame \<Rightarrow> pyfloat option result" where
  "open_of X d fr = (case rows_at fr d of
       [row] \<Rightarrow> (if verified row ''trade_activity_observed''
          then (if phas ''open'' (PDict row)
                then bindr (exec_finite X (pget ''open'' (PDict row))) (\<lambda>v. Inr (positive_open v))
                else Inl (KeyError ''open''))
          else Inr None)
     | _ \<Rightarrow> Inr None)"

definition opened_prices :: "exec_env \<Rightarrow> session \<Rightarrow> (string \<times> pyfloat) list result" where
  "opened_prices X S =
     bindr (mapr (\<lambda>(code, fr). bindr (open_of X (s_day S) fr) (\<lambda>v. Inr (map_option (\<lambda>x. (code, x)) v))) (s_frames S))
       (\<lambda>vs. Inr (List.map_filter (\<lambda>x. x) vs))"

definition mark_prices :: "exec_env \<Rightarrow> session \<Rightarrow> (string \<times> pyfloat) list" where
  "mark_prices X S = List.map_filter (\<lambda>(code, fr). map_option (\<lambda>v. (code, v)) (observed_close_before X fr (s_day S))) (s_frames S)"

definition price_of :: "session \<Rightarrow> string \<Rightarrow> pyfloat" where
  "price_of S code = (case map_of (s_opened S) code of Some v \<Rightarrow> v
     | None \<Rightarrow> (case map_of (s_marks S) code of Some v \<Rightarrow> v | None \<Rightarrow> Fin 0))"

text \<open>The day that ends the message of an unpriceable position is left out of the error value.\<close>

definition open_session :: "exec_env \<Rightarrow> session \<Rightarrow> books \<Rightarrow> session result" where
  "open_session X S b =
     bindr (opened_prices X S) (\<lambda>opened.
     let S1 = S\<lparr> s_opened := opened, s_marks := mark_prices X S \<rparr> in
     case List.find (\<lambda>(code, pos). 0 < p_shares pos \<and> map_of (s_opened S1) code = None \<and> map_of (s_marks S1) code = None) (positions b) of
       Some (code, _) \<Rightarrow> Inl (ValueError (''unpriceable_held_position:'' @ code))
     | None \<Rightarrow>
        (let equity = pf_add (cash b) (ee_sum X (map (\<lambda>(code, pos). pf_mul (pf_of_int (p_shares pos)) (price_of S1 code)) (positions b)))
         in raise_if (pf_le equity (Fin 0)) (ValueError ''portfolio_equity_invalid'') (Inr (S1\<lparr> s_equity := equity \<rparr>))))"

section \<open>Selling\<close>

definition sell_quantity :: "session \<Rightarrow> string \<Rightarrow> position \<Rightarrow> pyfloat \<Rightarrow> int result" where
  "sell_quantity S code pos price_open = (case map_of (s_targets S) code of
       None \<Rightarrow> Inr (p_shares pos)
     | Some w \<Rightarrow>
        (let excess = pf_max (Fin 0) (pf_sub (pf_mul (pf_of_int (p_shares pos)) price_open) (pf_mul (s_equity S) w))
         in bindr (pf_int_floordiv excess (pf_mul price_open (pf_of_int (s_lot S)))) (\<lambda>n.
              Inr (min (n * s_lot S) (p_shares pos)))))"

definition record_trade :: "session \<Rightarrow> string \<Rightarrow> side \<Rightarrow> int \<Rightarrow> pyfloat \<Rightarrow> pyfloat \<Rightarrow> pyfloat \<Rightarrow> books \<Rightarrow> books" where
  "record_trade S code sd n price fee realized b = b\<lparr> trades := trades b @
     [\<lparr> t_day = s_day S, t_code = code, t_side = sd, t_shares = n, t_price = pf_round 6 price,
        t_gross = pf_round 2 (pf_mul (pf_of_int n) price), t_commission = pf_round 2 fee, t_realized = pf_round 2 realized \<rparr>] \<rparr>"

definition take_shares :: "session \<Rightarrow> string \<Rightarrow> position \<Rightarrow> int \<Rightarrow> books \<Rightarrow> books result" where
  "take_shares S code pos n b =
     bindr (consume_lots code n (s_index S) b) (\<lambda>b1.
       Inr (if p_shares pos - n = 0
            then b1\<lparr> positions := del_key code (positions b1), lots := del_key code (lots b1) \<rparr>
            else b1\<lparr> positions := dict_set code (pos\<lparr> p_shares := p_shares pos - n \<rparr>) (positions b1) \<rparr>))"

definition sell_shares :: "session \<Rightarrow> string \<Rightarrow> position \<Rightarrow> pyfloat \<Rightarrow> int \<Rightarrow> books \<Rightarrow> books result" where
  "sell_shares S code pos price_open n b =
     (let price = pf_mul price_open (pf_sub (Fin 1) (s_slip S));
          gross = pf_mul price (pf_of_int n);
          fee = commission gross (s_rate S) (s_minimum S)
      in if pf_less gross fee then Inr (block (s_day S) code Sell ''fees_exceed_proceeds'' b)
         else bindr (take_shares S code pos n (b\<lparr> cash := pf_add (cash b) (pf_sub gross fee) \<rparr>)) (\<lambda>b1.
           Inr (record_trade S code Sell n price fee
             (pf_sub (pf_mul (pf_sub price (p_average_cost pos)) (pf_of_int n)) fee) b1)))"

definition sell_settled :: "session \<Rightarrow> string \<Rightarrow> position \<Rightarrow> pyfloat \<Rightarrow> int \<Rightarrow> books \<Rightarrow> books result" where
  "sell_settled S code pos price_open sell b =
     (let available = settled (s_index S) (get_lots code b);
          b1 = (if available < sell then block (s_day S) code Sell ''t_plus_one_unsettled_shares'' b else b);
          n = min sell available
      in if n = 0 then Inr b1 else sell_shares S code pos price_open n b1)"

definition sell_step :: "exec_env \<Rightarrow> session \<Rightarrow> string \<Rightarrow> books \<Rightarrow> books result" where
  "sell_step X S code b = (case map_of (positions b) code of
       None \<Rightarrow> Inr b
     | Some pos \<Rightarrow>
        (if p_shares pos \<le> 0 then Inr b
         else case map_of (s_opened S) code of
           None \<Rightarrow> Inr (block (s_day S) code Sell ''suspended_or_price_missing'' b)
         | Some price_open \<Rightarrow>
            bindr (sell_quantity S code pos price_open) (\<lambda>sell.
              if sell = 0 then Inr b
              else bindr (exec_row X (map_of (s_frames S) code) (s_day S) Sell) (\<lambda>row. case row of
                  Inl reason \<Rightarrow> Inr (block (s_day S) code Sell reason b)
                | Inr _ \<Rightarrow> sell_settled S code pos price_open sell (seed_lots code pos b)))))"

section \<open>Buying\<close>

definition pit_theme :: "cells \<Rightarrow> string option" where
  "pit_theme row = (if verified row ''theme_pit_verified'' then (case pget ''theme_l1_pit'' (PDict row) of
       PStr s \<Rightarrow> if blank s then None else Some s | _ \<Rightarrow> None) else None)"

type_synonym theme_values = "(string \<times> pyfloat) list"

definition theme_get :: "string \<Rightarrow> theme_values \<Rightarrow> pyfloat" where
  "theme_get t tv = (case map_of tv t of None \<Rightarrow> Fin 0 | Some v \<Rightarrow> v)"

definition held_theme :: "session \<Rightarrow> string \<times> position \<Rightarrow> theme_values \<times> bool \<Rightarrow> theme_values \<times> bool" where
  "held_theme S item st = (case (item, st) of ((code, pos), (tv, missing)) \<Rightarrow>
     (case (case map_of (s_frames S) code of Some fr \<Rightarrow> (case rows_at fr (s_day S) of [row] \<Rightarrow> pit_theme row | _ \<Rightarrow> None) | None \<Rightarrow> None) of
        None \<Rightarrow> (tv, True)
      | Some t \<Rightarrow> (dict_set t (pf_add (theme_get t tv) (pf_mul (pf_of_int (p_shares pos)) (price_of S code))) tv, missing)))"

text \<open>The point-in-time evidence of a buy: the reason that blocks it, or the theme.\<close>

definition premium_block :: "exec_env \<Rightarrow> cells \<Rightarrow> cells \<Rightarrow> string option result" where
  "premium_block X config row =
     bindr (exec_finite X (pget ''premium_rate'' (PDict row))) (\<lambda>premium. case premium of
         None \<Rightarrow> Inr (Some ''lof_qdii_premium_pit_missing'')
       | Some p \<Rightarrow>
          (if \<not> verified row ''premium_pit_verified'' then Inr (Some ''lof_qdii_premium_pit_missing'')
           else if pget ''premium_rate_unit'' (PDict row) \<noteq> PStr ''percent_points'' then Inr (Some ''lof_qdii_premium_unit_unverified'')
           else bindr (cfg_float X config ''max_abs_premium_pct'' 2) (\<lambda>limit.
             Inr (if pf_less limit (pf_max p (pf_neg p)) then Some ''lof_qdii_premium_limit'' else None))))"

definition buy_evidence :: "exec_env \<Rightarrow> cells \<Rightarrow> cells \<Rightarrow> (string + string) result" where
  "buy_evidence X config row = (case pit_theme row of
       None \<Rightarrow> Inr (Inl ''effective_dated_theme_missing'')
     | Some theme \<Rightarrow>
        (case (if verified row ''fund_kind_pit_verified'' then pget ''fund_kind_pit'' (PDict row) else PNone) of
           PStr kind \<Rightarrow>
            (if blank kind then Inr (Inl ''historical_fund_kind_unverified'')
             else case pget ''cross_border_fund'' (PDict row) of
               PBool cross \<Rightarrow>
                (if is_infix ''LOF'' (upper kind) \<or> is_infix ''QDII'' (upper kind) \<or> cross
                 then bindr (premium_block X config row) (\<lambda>why. Inr (case why of None \<Rightarrow> Inr theme | Some r \<Rightarrow> Inl r))
                 else Inr (Inr theme))
             | _ \<Rightarrow> Inr (Inl ''historical_cross_border_classification_missing''))
         | _ \<Rightarrow> Inr (Inl ''historical_fund_kind_unverified'')))"

text \<open>The loop that lowers an order by one lot until it can be paid.\<close>

function affordable :: "session \<Rightarrow> pyfloat \<Rightarrow> pyfloat \<Rightarrow> int \<Rightarrow> int" where
  "affordable S price money buy =
     (if buy \<le> 0 \<or> s_lot S \<le> 0 then buy
      else let gross = pf_mul (pf_of_int buy) price
           in if pf_le (pf_add gross (commission gross (s_rate S) (s_minimum S))) money then buy
              else affordable S price money (buy - s_lot S))"
  by pat_completeness auto
termination by (relation "measure (\<lambda>(_, _, _, n). nat n)") auto

declare affordable.simps [simp del]

definition held_position :: "string \<Rightarrow> books \<Rightarrow> position" where
  "held_position code b = (case map_of (positions b) code of None \<Rightarrow> new_position | Some p \<Rightarrow> p)"

definition book_buy :: "session \<Rightarrow> string \<Rightarrow> int \<Rightarrow> pyfloat \<Rightarrow> pyfloat \<Rightarrow> books \<Rightarrow> books" where
  "book_buy S code n price avg b =
     (let pos = held_position code b;
          gross = pf_mul (pf_of_int n) price;
          fee = commission gross (s_rate S) (s_minimum S);
          pos1 = \<lparr> p_shares = p_shares pos + n, p_average_cost = avg,
                   p_opened_index = (if p_shares pos = 0 then s_index S else p_opened_index pos) \<rparr>
      in record_trade S code Buy n price fee (Fin 0)
           (b\<lparr> cash := pf_sub (cash b) (pf_add gross fee), positions := dict_set code pos1 (positions b),
               lots := dict_set code (get_lots code b @ [(s_index S, n)]) (lots b) \<rparr>))"

definition add_shares :: "session \<Rightarrow> string \<Rightarrow> int \<Rightarrow> pyfloat \<Rightarrow> books \<Rightarrow> books result" where
  "add_shares S code n price b =
     (let pos = held_position code b;
          gross = pf_mul (pf_of_int n) price;
          old_cost = pf_mul (p_average_cost pos) (pf_of_int (p_shares pos))
      in bindr (pf_div (pf_add (pf_add old_cost gross) (commission gross (s_rate S) (s_minimum S))) (pf_of_int (p_shares pos + n)))
           (\<lambda>avg. Inr (book_buy S code n price avg b)))"

definition buy_priced ::
  "exec_env \<Rightarrow> cells \<Rightarrow> session \<Rightarrow> string \<Rightarrow> pyfloat \<Rightarrow> string \<Rightarrow> pyfloat \<Rightarrow> books \<times> theme_values \<Rightarrow> (books \<times> theme_values) result" where
  "buy_priced X signal S code weight theme price_open st = (case st of (b, tv) \<Rightarrow>
     (let held = p_shares (held_position code b);
          missing = pf_max (Fin 0) (pf_sub (pf_mul (s_equity S) weight) (pf_mul (pf_of_int held) price_open))
      in bindr (pf_div missing (s_equity S)) (\<lambda>share.
         bindr (cfg_float X signal ''small_add_threshold_weight_points'' (2 / 100)) (\<lambda>threshold.
           if pf_less share threshold then Inr (block (s_day S) code Buy ''turnover_hysteresis'' b, tv)
           else let room = pf_max (Fin 0) (pf_sub (pf_mul (s_equity S) (s_max_theme S)) (theme_get theme tv));
                    price = pf_mul price_open (pf_add (Fin 1) (s_slip S))
                in bindr (pf_int_floordiv (pf_min missing room) (pf_mul price (pf_of_int (s_lot S)))) (\<lambda>k.
                   let n = affordable S price (cash b) (k * s_lot S)
                   in if n = 0 then Inr (block (s_day S) code Buy ''lot_cash_or_theme_cap'' b, tv)
                      else bindr (add_shares S code n price b) (\<lambda>b1.
                        Inr (b1, dict_set theme (pf_add (theme_get theme tv) (pf_mul (pf_of_int n) price_open)) tv)))))))"

definition buy_step ::
  "exec_env \<Rightarrow> cells \<Rightarrow> cells \<Rightarrow> session \<Rightarrow> string \<times> pyfloat \<Rightarrow> books \<times> theme_values \<Rightarrow> (books \<times> theme_values) result" where
  "buy_step X config signal S target st = (case (target, st) of ((code, weight), (b, tv)) \<Rightarrow>
     (if pf_le weight (Fin 0) then Inr st
      else bindr (exec_row X (map_of (s_frames S) code) (s_day S) Buy) (\<lambda>row. case row of
          Inl reason \<Rightarrow> Inr (block (s_day S) code Buy reason b, tv)
        | Inr cells \<Rightarrow>
           bindr (buy_evidence X config cells) (\<lambda>ev. case ev of
               Inl reason \<Rightarrow> Inr (block (s_day S) code Buy reason b, tv)
             | Inr theme \<Rightarrow> (case map_of (s_opened S) code of
                  None \<Rightarrow> Inl (KeyError code)
                | Some price_open \<Rightarrow> buy_priced X signal S code weight theme price_open (b, tv))))))"

section \<open>Execution\<close>

fun weight_rank :: "string \<times> pyfloat \<Rightarrow> rat \<times> string" where
  "weight_rank (code, Fin w) = (- w, code)"
| "weight_rank (code, _) = (0, code)"

definition buy_all :: "exec_env \<Rightarrow> cells \<Rightarrow> cells \<Rightarrow> session \<Rightarrow> books \<Rightarrow> books result" where
  "buy_all X config signal S b =
     (case fold (held_theme S) (positions b) ([], False) of (tv, missing) \<Rightarrow>
        if missing
        then Inr (fold (\<lambda>(code, w). if pf_less (Fin 0) w then block (s_day S) code Buy ''held_theme_pit_missing'' else id) (s_targets S) b)
        else bindr (foldr_result (buy_step X config signal S) (sort_key weight_rank (s_targets S)) (b, tv)) (\<lambda>st. Inr (fst st)))"

definition execute ::
  "exec_env \<Rightarrow> cells \<Rightarrow> cells \<Rightarrow> day \<Rightarrow> int \<Rightarrow> (string \<times> pyfloat) list \<Rightarrow> (string \<times> daily_frame) list \<Rightarrow> pyval
     \<Rightarrow> books \<Rightarrow> books result" where
  "execute X config signal d di targets frames exposure_cap b0 =
     (let b = b0\<lparr> trades := [] \<rparr> in
      bindr (exec_policy X config signal d di targets frames (cash b)) (\<lambda>S.
      bindr (targets_invalid X S exposure_cap) (\<lambda>invalid.
        if invalid then Inr (fold (\<lambda>code. block d code Buy ''portfolio_exposure_or_single_cap_invalid'') (sort (map fst targets)) b)
        else bindr (open_session X S b) (\<lambda>S1.
             bindr (foldr_result (sell_step X S1) (sort (map fst (positions b))) b) (\<lambda>b1.
             buy_all X config signal S1 b1)))))"

text \<open>\<^verbatim>\<open>summary\<close>: the number of blocked orders by reason.\<close>

definition blocked_by_reason :: "books \<Rightarrow> (string \<times> nat) list" where
  "blocked_by_reason b = (let rs = map b_reason (blocked b)
     in map (\<lambda>r. (r, length (filter (\<lambda>x. x = r) rs))) (sort (remdups rs)))"

definition blocked_examples :: "books \<Rightarrow> blocked_order list" where
  "blocked_examples b = take 25 (blocked b)"

end
