(* ===== verification/Exec_Props.thy ===== *)
theory Exec_Props
  imports Event_Execution
begin

text \<open>
  What the replay engine guarantees about its books: cash is never negative, the lots of a
  position add up to its shares, only shares from earlier sessions are sold, and nothing is filled
  without the point-in-time evidence the source asks for.
\<close>

section \<open>Signs\<close>

definition not_neg :: "pyfloat \<Rightarrow> bool" where
  "not_neg x \<longleftrightarrow> \<not> pf_less x (Fin 0)"

lemma not_neg_simps [simp]:
  "not_neg (Fin r) \<longleftrightarrow> 0 \<le> r" "not_neg PosInf" "not_neg NaN" "\<not> not_neg NegInf"
  by (simp_all add: not_neg_def not_less)

lemma to_float_not_neg: "0 \<le> x \<Longrightarrow> not_neg (to_float x)"
  using round64_nonneg [of x] by (auto simp: to_float_def Let_def)

lemma pf_add_not_neg: "not_neg a \<Longrightarrow> not_neg b \<Longrightarrow> not_neg (pf_add a b)"
  by (cases a; cases b) (auto intro: to_float_not_neg)

lemma pf_sub_not_neg: "\<not> pf_less a b \<Longrightarrow> not_neg (pf_sub a b)"
  by (cases a; cases b) (auto simp: pf_sub_def intro: to_float_not_neg)

lemma pf_mul_not_neg: "not_neg a \<Longrightarrow> not_neg b \<Longrightarrow> not_neg (pf_mul a b)"
  by (cases a; cases b) (auto simp: pf_mul_def pf_inf_def intro: to_float_not_neg)

lemma pf_max_zero: "pf_max (Fin 0) x \<noteq> NaN \<and> not_neg (pf_max (Fin 0) x)"
  by (cases x) (auto simp: pf_max_def)

lemma pf_min_not_neg: "not_neg a \<Longrightarrow> not_neg b \<Longrightarrow> not_neg (pf_min a b)"
  by (simp add: pf_min_def)

lemma pf_of_int_not_neg: "0 \<le> n \<Longrightarrow> not_neg (pf_of_int n)"
  by (simp add: pf_of_int_def to_float_not_neg)

lemma floordiv_nonneg: "pf_int_floordiv a b = Inr k \<Longrightarrow> not_neg a \<Longrightarrow> not_neg b \<Longrightarrow> 0 \<le> k"
  by (cases a; cases b) (auto simp: pf_int_floordiv_def split: if_splits)

section \<open>Lots\<close>

definition lots_ok :: "int \<Rightarrow> (int \<times> int) list \<Rightarrow> bool" where
  "lots_ok di ls \<longleftrightarrow> (\<forall>(opened, q) \<in> set ls. 0 < q \<and> opened \<le> di)"

definition lot_total :: "(int \<times> int) list \<Rightarrow> int" where
  "lot_total ls = sum_list (map snd ls)"

lemma lots_ok_Cons [simp]: "lots_ok di ((opened, q) # ls) \<longleftrightarrow> 0 < q \<and> opened \<le> di \<and> lots_ok di ls"
  by (auto simp: lots_ok_def)

lemma lots_ok_Nil [simp]: "lots_ok di []"
  by (simp add: lots_ok_def)

lemma lots_ok_append [simp]: "lots_ok di (xs @ ys) \<longleftrightarrow> lots_ok di xs \<and> lots_ok di ys"
  by (auto simp: lots_ok_def)

lemma settled_Cons [simp]: "settled di ((opened, q) # ls) = (if opened < di then q else 0) + settled di ls"
  by (simp add: settled_def)

lemma settled_bounds: "lots_ok m ls \<Longrightarrow> 0 \<le> settled di ls \<and> settled di ls \<le> lot_total ls"
  by (induction ls) (auto simp: settled_def lot_total_def)

lemma lots_ok_mono: "lots_ok di ls \<Longrightarrow> di \<le> di' \<Longrightarrow> lots_ok di' ls"
  by (auto simp: lots_ok_def)

text \<open>Consuming takes exactly the asked shares when enough are settled, and none of the day's own.\<close>

lemma consume_ok:
  assumes "consume di n ls = (kept, rest)" and "lots_ok m ls" and "0 \<le> n" and "n \<le> settled di ls"
  shows "rest = 0 \<and> lots_ok m kept \<and> lot_total kept = lot_total ls - n
    \<and> filter (\<lambda>(opened, _). \<not> opened < di) kept = filter (\<lambda>(opened, _). \<not> opened < di) ls"
  using assms
proof (induction di n ls arbitrary: kept rest rule: consume.induct)
  case (1 di n)
  then show ?case by (simp add: settled_def lot_total_def)
next
  case (2 di n opened q ls)
  define used where "used = (if opened < di then min n q else 0)"
  obtain kept1 rest1 where c: "consume di (n - used) ls = (kept1, rest1)" by fastforce
  have u: "0 \<le> used" "used \<le> n" "used \<le> q" using "2.prems"(2,3) by (auto simp: used_def)
  have "n - used \<le> settled di ls"
    using "2.prems"(2,4) settled_bounds [of m ls di] by (auto simp: used_def min_def split: if_splits)
  with "2.IH" [OF used_def c] u "2.prems"(2)
  have ih: "rest1 = 0 \<and> lots_ok m kept1 \<and> lot_total kept1 = lot_total ls - (n - used)
    \<and> filter (\<lambda>(opened, _). \<not> opened < di) kept1 = filter (\<lambda>(opened, _). \<not> opened < di) ls" by simp
  from "2.prems"(1) c have k: "kept = (if q - used \<noteq> 0 then (opened, q - used) # kept1 else kept1)" "rest = rest1"
    by (auto simp: Let_def used_def)
  show ?case using ih k u "2.prems"(2) by (auto simp: lot_total_def used_def)
qed

section \<open>Books\<close>

definition holding_ok :: "int \<Rightarrow> position option \<Rightarrow> (int \<times> int) list option \<Rightarrow> bool" where
  "holding_ok di po lo = (case po of None \<Rightarrow> lo = None
     | Some pos \<Rightarrow> (\<exists>ls. lo = Some ls \<and> lots_ok di ls \<and> lot_total ls = p_shares pos \<and> 0 < p_shares pos))"

definition books_ok :: "int \<Rightarrow> books \<Rightarrow> bool" where
  "books_ok di b \<longleftrightarrow> distinct (map fst (positions b)) \<and>
     (\<forall>code. holding_ok di (map_of (positions b) code) (map_of (lots b) code))"

definition same_books :: "books \<Rightarrow> books \<Rightarrow> bool" where
  "same_books b b' \<longleftrightarrow> lots b' = lots b \<and> positions b' = positions b \<and> cash b' = cash b \<and> trades b' = trades b"

lemma same_books_refl [simp]: "same_books b b"
  by (simp add: same_books_def)

lemma same_books_block [simp]: "same_books b (block d code sd reason c) \<longleftrightarrow> same_books b c"
  by (simp add: same_books_def block_def)

lemma same_books_trans: "same_books a b \<Longrightarrow> same_books b c \<Longrightarrow> same_books a c"
  by (simp add: same_books_def)

lemma books_ok_same: "same_books b b' \<Longrightarrow> books_ok di b \<Longrightarrow> books_ok di b'"
  by (simp add: same_books_def books_ok_def)

lemma books_okD:
  "books_ok di b \<Longrightarrow> map_of (positions b) code = Some pos \<Longrightarrow>
     \<exists>ls. map_of (lots b) code = Some ls \<and> lots_ok di ls \<and> lot_total ls = p_shares pos \<and> 0 < p_shares pos"
  "books_ok di b \<Longrightarrow> map_of (positions b) code = None \<Longrightarrow> map_of (lots b) code = None"
  unfolding books_ok_def holding_ok_def by (force split: option.splits)+

text \<open>Rewriting one code's position and lots together keeps the books in order.\<close>

lemma books_ok_update:
  assumes "books_ok di b" and "distinct (map fst (positions b'))"
    and "\<And>c. c \<noteq> code \<Longrightarrow> map_of (positions b') c = map_of (positions b) c \<and> map_of (lots b') c = map_of (lots b) c"
    and "holding_ok di (map_of (positions b') code) (map_of (lots b') code)"
  shows "books_ok di b'"
  unfolding books_ok_def
proof (intro conjI allI)
  fix c
  show "holding_ok di (map_of (positions b') c) (map_of (lots b') c)"
    using assms by (cases "c = code") (auto simp: books_ok_def)
qed (rule assms(2))

lemma map_of_del_key: "map_of (del_key k d) c = (if c = k then None else map_of d c)"
  by (induction d) (auto simp: del_key_def)

lemma distinct_del_key: "distinct (map fst d) \<Longrightarrow> distinct (map fst (del_key k d))"
  unfolding del_key_def by (induction d) (auto simp: image_iff)

lemma seed_lots_id: "books_ok di b \<Longrightarrow> map_of (positions b) code = Some pos \<Longrightarrow> seed_lots code pos b = b"
  using books_okD(1) [of di b code pos] by (auto simp: seed_lots_def)

lemma books_frame [simp]:
  "get_lots code (b\<lparr> cash := x \<rparr>) = get_lots code b"
  "get_lots code (block d c sd reason b) = get_lots code b"
  "books_ok di (b\<lparr> cash := x \<rparr>) = books_ok di b"
  "books_ok di (b\<lparr> trades := ts \<rparr>) = books_ok di b"
  "books_ok di (block d c sd reason b) = books_ok di b"
  by (simp_all add: get_lots_def block_def books_ok_def)

section \<open>Selling\<close>

definition others_kept :: "string \<Rightarrow> books \<Rightarrow> books \<Rightarrow> bool" where
  "others_kept code b b' \<longleftrightarrow> (\<forall>c. c \<noteq> code \<longrightarrow> map_of (positions b') c = map_of (positions b) c
     \<and> map_of (lots b') c = map_of (lots b) c)"

lemma take_shares_ok:
  assumes ok: "books_ok di b" and di: "s_index S = di" and pos: "map_of (positions b) code = Some pos"
    and n: "0 < n" "n \<le> settled di (get_lots code b)"
  obtains b' where "take_shares S code pos n b = Inr b'" "books_ok di b'" "cash b' = cash b" "trades b' = trades b"
    "others_kept code b b'"
proof -
  from books_okD(1) [OF ok pos] obtain ls where ls: "map_of (lots b) code = Some ls" "lots_ok di ls"
    "lot_total ls = p_shares pos" "0 < p_shares pos" by auto
  have gl: "get_lots code b = ls" using ls(1) by (simp add: get_lots_def)
  obtain kept rest where c: "consume di n ls = (kept, rest)" by fastforce
  from consume_ok [OF c ls(2)] n gl have k: "rest = 0" "lots_ok di kept" "lot_total kept = p_shares pos - n"
    using ls(3) by auto
  let ?b1 = "b\<lparr> lots := dict_set code kept (lots b) \<rparr>"
  define b' where "b' = (if p_shares pos - n = 0
            then ?b1\<lparr> positions := del_key code (positions ?b1), lots := del_key code (lots ?b1) \<rparr>
            else ?b1\<lparr> positions := dict_set code (pos\<lparr> p_shares := p_shares pos - n \<rparr>) (positions ?b1) \<rparr>)"
  have run: "take_shares S code pos n b = Inr b'"
    using c k(1) di gl by (simp add: take_shares_def consume_lots_def b'_def)
  have le: "n \<le> p_shares pos" using n(2) gl settled_bounds [OF ls(2), of di] ls(3) by simp
  have kept: "others_kept code b b'" by (simp add: others_kept_def b'_def map_of_del_key map_of_dict_set)
  have "distinct (map fst (positions b'))"
    using ok by (simp add: b'_def books_ok_def distinct_del_key distinct_dict_set)
  moreover have "holding_ok di (map_of (positions b') code) (map_of (lots b') code)"
    using k le by (simp add: b'_def holding_ok_def map_of_del_key map_of_dict_set)
  ultimately have "books_ok di b'" using ok kept by (intro books_ok_update [of di b b' code]) (auto simp: others_kept_def)
  with run kept show ?thesis by (intro that [of b']) (auto simp: b'_def)
qed

definition session_ok :: "session \<Rightarrow> bool" where
  "session_ok S \<longleftrightarrow> 0 < s_lot S \<and> not_neg (s_slip S) \<and> (\<forall>c p. map_of (s_opened S) c = Some p \<longrightarrow> not_neg p)"

lemma sell_quantity_nonneg:
  assumes "sell_quantity S code pos p = Inr n" and "session_ok S" and "not_neg p" and "0 < p_shares pos"
  shows "0 \<le> n"
proof (cases "map_of (s_targets S) code")
  case None
  with assms show ?thesis by (simp add: sell_quantity_def)
next
  case (Some w)
  let ?excess = "pf_max (Fin 0) (pf_sub (pf_mul (pf_of_int (p_shares pos)) p) (pf_mul (s_equity S) w))"
  from assms(1) Some obtain k where k: "pf_int_floordiv ?excess (pf_mul p (pf_of_int (s_lot S))) = Inr k"
    "n = min (k * s_lot S) (p_shares pos)" by (auto simp: sell_quantity_def Let_def)
  have "not_neg (pf_mul p (pf_of_int (s_lot S)))"
    using assms(2,3) by (intro pf_mul_not_neg pf_of_int_not_neg) (auto simp: session_ok_def)
  with pf_max_zero have "0 \<le> k" by (intro floordiv_nonneg [OF k(1)]) auto
  with k(2) assms(2,4) show ?thesis by (simp add: session_ok_def)
qed

definition sell_trade_ok :: "exec_env \<Rightarrow> session \<Rightarrow> books \<Rightarrow> trade \<Rightarrow> bool" where
  "sell_trade_ok X S b t \<longleftrightarrow> t_side t = Sell \<and> 0 < t_shares t \<and> t_shares t \<le> settled (s_index S) (get_lots (t_code t) b)
     \<and> (\<exists>row. exec_row X (map_of (s_frames S) (t_code t)) (s_day S) Sell = Inr (Inr row))"

lemma sell_shares_cases:
  assumes "sell_shares S code pos p n b = Inr b'" and ok: "books_ok (s_index S) b"
    and pos: "map_of (positions b) code = Some pos" and n: "0 < n" "n \<le> settled (s_index S) (get_lots code b)"
    and cash: "not_neg (cash b)"
  obtains (idle) "same_books b b'"
  | (sold) t where "trades b' = trades b @ [t]" "t_code t = code" "t_side t = Sell" "t_shares t = n"
      "books_ok (s_index S) b'" "not_neg (cash b')" "others_kept code b b'"
proof -
  define price where "price = pf_mul p (pf_sub (Fin 1) (s_slip S))"
  define gross where "gross = pf_mul price (pf_of_int n)"
  define fee where "fee = commission gross (s_rate S) (s_minimum S)"
  show ?thesis
  proof (cases "pf_less gross fee")
    case True
    with assms(1) show ?thesis by (intro idle) (auto simp: sell_shares_def Let_def price_def gross_def fee_def)
  next
    case False
    let ?b0 = "b\<lparr> cash := pf_add (cash b) (pf_sub gross fee) \<rparr>"
    have "books_ok (s_index S) ?b0" "map_of (positions ?b0) code = Some pos" "n \<le> settled (s_index S) (get_lots code ?b0)"
      using ok pos n(2) by simp_all
    then obtain b1 where b1: "take_shares S code pos n ?b0 = Inr b1" "books_ok (s_index S) b1" "cash b1 = cash ?b0"
      "trades b1 = trades ?b0" "others_kept code ?b0 b1" using n(1) by (elim take_shares_ok [of _ ?b0 S code pos n]) auto
    from assms(1) False b1(1) have b': "b' = record_trade S code Sell n price fee
        (pf_sub (pf_mul (pf_sub price (p_average_cost pos)) (pf_of_int n)) fee) b1"
      by (simp add: sell_shares_def Let_def price_def gross_def fee_def)
    have "not_neg (cash b1)" using cash False b1(3) by (simp add: pf_add_not_neg pf_sub_not_neg)
    with b' b1 show ?thesis by (intro sold) (auto simp: record_trade_def others_kept_def)
  qed
qed

lemma sell_step_cases:
  assumes "sell_step X S code b = Inr b'" and ok: "books_ok (s_index S) b" and S: "session_ok S" and cash: "not_neg (cash b)"
  obtains (idle) "same_books b b'"
  | (sold) t where "trades b' = trades b @ [t]" "t_code t = code" "sell_trade_ok X S b t"
      "books_ok (s_index S) b'" "not_neg (cash b')" "others_kept code b b'"
proof (cases "map_of (positions b) code")
  case None
  with assms(1) show ?thesis by (intro idle) (simp add: sell_step_def)
next
  case pos: (Some pos)
  show ?thesis
  proof (cases "map_of (s_opened S) code")
    case None
    with assms(1) pos show ?thesis by (intro idle) (auto simp: sell_step_def split: if_splits)
  next
    case (Some p)
    have shares: "0 < p_shares pos" using books_okD(1) [OF ok pos] by auto
    from assms(1) pos Some shares obtain sell where q: "sell_quantity S code pos p = Inr sell"
      by (auto simp: sell_step_def)
    show ?thesis
    proof (cases "\<exists>row. sell \<noteq> 0 \<and> exec_row X (map_of (s_frames S) code) (s_day S) Sell = Inr (Inr row)")
      case False
      show ?thesis
      proof (cases "sell = 0")
        case True
        with assms(1) pos Some shares q show ?thesis by (intro idle) (simp add: sell_step_def)
      next
        case nz: False
        with assms(1) pos Some shares q obtain r where r: "exec_row X (map_of (s_frames S) code) (s_day S) Sell = Inr r"
          by (auto simp: sell_step_def)
        with False nz obtain reason where "r = Inl reason" by (cases r) auto
        with assms(1) pos Some shares q nz r show ?thesis by (intro idle) (auto simp: sell_step_def)
      qed
    next
      case True
      then obtain row where row: "sell \<noteq> 0" "exec_row X (map_of (s_frames S) code) (s_day S) Sell = Inr (Inr row)" by auto
      have run: "sell_settled S code pos p sell b = Inr b'"
        using assms(1) pos Some shares q row seed_lots_id [OF ok pos] by (simp add: sell_step_def)
      have "0 \<le> sell" using sell_quantity_nonneg [OF q S _ shares] S Some by (auto simp: session_ok_def)
      define avail where "avail = settled (s_index S) (get_lots code b)"
      define b1 where "b1 = (if avail < sell then block (s_day S) code Sell ''t_plus_one_unsettled_shares'' b else b)"
      have b1: "same_books b b1" "books_ok (s_index S) b1" "get_lots code b1 = get_lots code b"
        using ok by (auto simp: b1_def)
      from books_okD(1) [OF ok pos] have "0 \<le> avail" using settled_bounds by (auto simp: avail_def get_lots_def)
      show ?thesis
      proof (cases "min sell avail = 0")
        case True
        with run b1(1) show ?thesis by (intro idle) (simp add: sell_settled_def Let_def avail_def b1_def)
      next
        case False
        with run have sh: "sell_shares S code pos p (min sell avail) b1 = Inr b'"
          by (simp add: sell_settled_def Let_def avail_def b1_def)
        have prem: "map_of (positions b1) code = Some pos" "0 < min sell avail" "min sell avail \<le> settled (s_index S) (get_lots code b1)"
          "not_neg (cash b1)"
          using pos b1(1,3) \<open>0 \<le> sell\<close> \<open>0 \<le> avail\<close> False cash by (auto simp: same_books_def avail_def)
        from sh b1(2) prem show ?thesis
        proof (cases rule: sell_shares_cases)
          case idle
          with b1(1) same_books_trans show ?thesis by (intro that(1)) blast
        next
          case (sold t)
          with b1 prem row(2) show ?thesis
            by (intro that(2) [of t]) (auto simp: sell_trade_ok_def same_books_def others_kept_def)
        qed
      qed
    qed
  qed
qed

lemma sell_trade_ok_kept:
  "others_kept code b b1 \<Longrightarrow> t_code t \<noteq> code \<Longrightarrow> sell_trade_ok X S b1 t \<Longrightarrow> sell_trade_ok X S b t"
  by (simp add: sell_trade_ok_def others_kept_def get_lots_def)

lemma same_books_others: "same_books b b' \<Longrightarrow> others_kept code b b'"
  by (simp add: same_books_def others_kept_def)

lemma sell_loop:
  assumes "foldr_result (sell_step X S) codes b = Inr b'" and "distinct codes" and "books_ok (s_index S) b"
    and "session_ok S" and "not_neg (cash b)"
  shows "books_ok (s_index S) b' \<and> not_neg (cash b')
    \<and> (\<exists>ts. trades b' = trades b @ ts \<and> (\<forall>t \<in> set ts. sell_trade_ok X S b t \<and> t_code t \<in> set codes))"
  using assms
proof (induction codes arbitrary: b)
  case (Cons code codes)
  from Cons.prems(1) obtain b1 where b1: "sell_step X S code b = Inr b1" "foldr_result (sell_step X S) codes b1 = Inr b'" by auto
  have mid: "books_ok (s_index S) b1 \<and> not_neg (cash b1) \<and> others_kept code b b1
      \<and> (\<exists>ts. trades b1 = trades b @ ts \<and> (\<forall>t \<in> set ts. sell_trade_ok X S b t \<and> t_code t = code))"
    using b1(1) Cons.prems(3,4,5)
  proof (cases rule: sell_step_cases)
    case idle
    with Cons.prems(3,5) books_ok_same same_books_others show ?thesis
      by (auto simp: same_books_def intro!: exI [of _ "[]"])
  qed auto
  from Cons.IH [OF b1(2)] Cons.prems(2,4) mid obtain ts where ts: "books_ok (s_index S) b'" "not_neg (cash b')"
    "trades b' = trades b1 @ ts" "\<forall>t \<in> set ts. sell_trade_ok X S b1 t \<and> t_code t \<in> set codes" by auto
  have "sell_trade_ok X S b t \<and> t_code t \<in> set codes" if "t \<in> set ts" for t
  proof -
    have "t_code t \<noteq> code" using that ts(4) Cons.prems(2) by auto
    with that ts(4) mid sell_trade_ok_kept show ?thesis by blast
  qed
  moreover obtain ts0 where "trades b1 = trades b @ ts0" "\<forall>t \<in> set ts0. sell_trade_ok X S b t \<and> t_code t = code"
    using mid by blast
  ultimately show ?case using ts(1-3) by (intro conjI exI [of _ "ts0 @ ts"]) auto
qed simp

section \<open>Buying\<close>

lemma affordable_ok:
  assumes "0 \<le> n" and "s_lot S dvd n" and "0 < s_lot S"
  shows "0 \<le> affordable S price money n \<and> (affordable S price money n \<noteq> 0 \<longrightarrow>
     pf_le (pf_add (pf_mul (pf_of_int (affordable S price money n)) price)
       (commission (pf_mul (pf_of_int (affordable S price money n)) price) (s_rate S) (s_minimum S))) money)"
  using assms
proof (induction S price money n rule: affordable.induct)
  case (1 S price money n)
  let ?g = "pf_mul (pf_of_int n) price"
  show ?case
  proof (cases "n = 0 \<or> pf_le (pf_add ?g (commission ?g (s_rate S) (s_minimum S))) money")
    case True
    with "1.prems" have "affordable S price money n = n" by (subst affordable.simps) (auto simp: Let_def)
    with True "1.prems" show ?thesis by auto
  next
    case False
    with "1.prems" have eq: "affordable S price money n = affordable S price money (n - s_lot S)"
      by (subst affordable.simps) (simp add: Let_def)
    have "s_lot S \<le> n" using "1.prems" False by (intro zdvd_imp_le) auto
    with "1.prems" False have "0 \<le> n - s_lot S" "s_lot S dvd n - s_lot S" by simp_all
    with "1.IH" False "1.prems" eq show ?thesis by simp
  qed
qed

definition buy_trade_ok :: "exec_env \<Rightarrow> cells \<Rightarrow> session \<Rightarrow> trade \<Rightarrow> bool" where
  "buy_trade_ok X config S t \<longleftrightarrow> t_side t = Buy \<and> 0 < t_shares t
     \<and> (\<exists>row theme. exec_row X (map_of (s_frames S) (t_code t)) (s_day S) Buy = Inr (Inr row) \<and> buy_evidence X config row = Inr (Inr theme))"

lemma add_shares_ok:
  assumes "add_shares S code n price b = Inr b'" and ok: "books_ok (s_index S) b" and "0 < n"
    and pay: "pf_le (pf_add (pf_mul (pf_of_int n) price) (commission (pf_mul (pf_of_int n) price) (s_rate S) (s_minimum S))) (cash b)"
  shows "books_ok (s_index S) b' \<and> not_neg (cash b') \<and> (\<exists>t. trades b' = trades b @ [t] \<and> t_code t = code \<and> t_side t = Buy \<and> t_shares t = n)"
proof -
  let ?g = "pf_mul (pf_of_int n) price"
  let ?fee = "commission ?g (s_rate S) (s_minimum S)"
  let ?pos = "held_position code b"
  from assms(1) obtain avg where "b' = book_buy S code n price avg b" by (auto simp: add_shares_def Let_def)
  note b' = this [unfolded book_buy_def Let_def]
  have "lots_ok (s_index S) (get_lots code b) \<and> lot_total (get_lots code b) = p_shares ?pos \<and> 0 \<le> p_shares ?pos"
    using books_okD [OF ok, of code]
    by (cases "map_of (positions b) code") (auto simp: held_position_def new_position_def get_lots_def lot_total_def)
  with \<open>0 < n\<close> have hold: "holding_ok (s_index S) (map_of (positions b') code) (map_of (lots b') code)"
    by (auto simp: b' record_trade_def map_of_dict_set holding_ok_def lot_total_def)
  have "books_ok (s_index S) b'"
  proof (rule books_ok_update [OF ok _ _ hold])
    show "distinct (map fst (positions b'))" using ok by (simp add: b' record_trade_def books_ok_def distinct_dict_set)
  qed (simp add: b' record_trade_def map_of_dict_set)
  moreover have "not_neg (cash b')" using pay by (auto simp: b' record_trade_def pf_le_def intro: pf_sub_not_neg)
  ultimately show ?thesis by (simp add: b' record_trade_def)
qed

lemma buy_priced_ok:
  assumes "buy_priced X signal S code w theme p (b, tv) = Inr (b', tv')" and ok: "books_ok (s_index S) b" "not_neg (cash b)"
    and S: "session_ok S" and p: "not_neg p"
  shows "books_ok (s_index S) b' \<and> not_neg (cash b')
    \<and> (trades b' = trades b \<or> (\<exists>t. trades b' = trades b @ [t] \<and> t_code t = code \<and> t_side t = Buy \<and> 0 < t_shares t))"
proof (cases "\<exists>reason. b' = block (s_day S) code Buy reason b")
  case True
  with ok show ?thesis by (auto simp: block_def books_ok_def)
next
  case False
  define missing where "missing = pf_max (Fin 0) (pf_sub (pf_mul (s_equity S) w)
    (pf_mul (pf_of_int (p_shares (held_position code b))) p))"
  define room where "room = pf_max (Fin 0) (pf_sub (pf_mul (s_equity S) (s_max_theme S)) (theme_get theme tv))"
  define price where "price = pf_mul p (pf_add (Fin 1) (s_slip S))"
  from assms(1) False obtain k where k: "pf_int_floordiv (pf_min missing room) (pf_mul price (pf_of_int (s_lot S))) = Inr k"
    "affordable S price (cash b) (k * s_lot S) \<noteq> 0" "add_shares S code (affordable S price (cash b) (k * s_lot S)) price b = Inr b'"
    by (auto simp: buy_priced_def Let_def missing_def room_def price_def split: if_splits)
  have lot: "0 < s_lot S" using S by (simp add: session_ok_def)
  have "not_neg price" using p S by (auto simp: price_def session_ok_def intro!: pf_mul_not_neg pf_add_not_neg)
  moreover have "not_neg (pf_min missing room)" using pf_max_zero by (simp add: missing_def room_def pf_min_not_neg)
  ultimately have "0 \<le> k" using lot by (intro floordiv_nonneg [OF k(1)]) (auto intro!: pf_mul_not_neg pf_of_int_not_neg)
  then have af: "0 \<le> k * s_lot S" "s_lot S dvd k * s_lot S" using lot by simp_all
  from affordable_ok [OF af lot, of price "cash b"] k(2) have "0 < affordable S price (cash b) (k * s_lot S)"
    and pay: "pf_le (pf_add (pf_mul (pf_of_int (affordable S price (cash b) (k * s_lot S))) price)
       (commission (pf_mul (pf_of_int (affordable S price (cash b) (k * s_lot S))) price) (s_rate S) (s_minimum S))) (cash b)" by auto
  from add_shares_ok [OF k(3) ok(1) this] this(1) show ?thesis by auto
qed

lemma buy_step_ok:
  assumes "buy_step X config signal S target (b, tv) = Inr (b', tv')" and ok: "books_ok (s_index S) b" "not_neg (cash b)"
    and S: "session_ok S"
  shows "books_ok (s_index S) b' \<and> not_neg (cash b')
    \<and> (trades b' = trades b \<or> (\<exists>t. trades b' = trades b @ [t] \<and> buy_trade_ok X config S t))"
proof -
  obtain code w where target: "target = (code, w)" by fastforce
  have idle: ?thesis if "same_books b b'"
    using that ok books_ok_same [OF that ok(1)] by (simp add: same_books_def)
  show ?thesis
  proof (cases "pf_le w (Fin 0)")
    case True
    with assms(1) target idle show ?thesis by (simp add: buy_step_def)
  next
    case pos: False
    with assms(1) target obtain row where row: "exec_row X (map_of (s_frames S) code) (s_day S) Buy = Inr row"
      by (auto simp: buy_step_def)
    show ?thesis
    proof (cases row)
      case (Inl reason)
      with assms(1) target pos row have "b' = block (s_day S) code Buy reason b" by (simp add: buy_step_def)
      with idle show ?thesis by simp
    next
      case (Inr cells)
      with assms(1) target pos row obtain ev where ev: "buy_evidence X config cells = Inr ev" by (auto simp: buy_step_def)
      show ?thesis
      proof (cases ev)
        case reason: (Inl reason)
        with assms(1) target pos row Inr ev have "b' = block (s_day S) code Buy reason b" by (simp add: buy_step_def)
        with idle show ?thesis by simp
      next
        case theme: (Inr theme)
        with assms(1) target pos row Inr ev obtain p where p: "map_of (s_opened S) code = Some p"
          "buy_priced X signal S code w theme p (b, tv) = Inr (b', tv')"
          by (cases "map_of (s_opened S) code") (simp_all add: buy_step_def)
        have "not_neg p" using S p(1) by (auto simp: session_ok_def)
        from buy_priced_ok [OF p(2) ok S this] row Inr ev theme show ?thesis by (auto simp: buy_trade_ok_def)
      qed
    qed
  qed
qed

lemma buy_loop:
  assumes "foldr_result (buy_step X config signal S) targets (b, tv) = Inr st" and "books_ok (s_index S) b" "not_neg (cash b)"
    and "session_ok S"
  shows "books_ok (s_index S) (fst st) \<and> not_neg (cash (fst st))
    \<and> (\<exists>ts. trades (fst st) = trades b @ ts \<and> (\<forall>t \<in> set ts. buy_trade_ok X config S t))"
  using assms(1)
proof (rule foldr_result_invariant)
  show "books_ok (s_index S) (fst (b, tv)) \<and> not_neg (cash (fst (b, tv)))
    \<and> (\<exists>ts. trades (fst (b, tv)) = trades b @ ts \<and> (\<forall>t \<in> set ts. buy_trade_ok X config S t))"
    using assms(2,3) by (auto intro!: exI [of _ "[]"])
next
  fix target s s'
  assume "buy_step X config signal S target s = Inr s'"
  moreover obtain b1 tv1 b2 tv2 where "s = (b1, tv1)" "s' = (b2, tv2)" by fastforce
  moreover assume "books_ok (s_index S) (fst s) \<and> not_neg (cash (fst s))
    \<and> (\<exists>ts. trades (fst s) = trades b @ ts \<and> (\<forall>t \<in> set ts. buy_trade_ok X config S t))"
  ultimately have step: "books_ok (s_index S) b2" "not_neg (cash b2)"
      "trades b2 = trades b1 \<or> (\<exists>t. trades b2 = trades b1 @ [t] \<and> buy_trade_ok X config S t)"
    and "\<exists>ts. trades b1 = trades b @ ts \<and> (\<forall>t \<in> set ts. buy_trade_ok X config S t)"
    using buy_step_ok [of X config signal S target b1 tv1 b2 tv2] assms(4) by auto
  then have "\<exists>ts. trades b2 = trades b @ ts \<and> (\<forall>t \<in> set ts. buy_trade_ok X config S t)" by force
  with step \<open>s' = (b2, tv2)\<close> show "books_ok (s_index S) (fst s') \<and> not_neg (cash (fst s'))
    \<and> (\<exists>ts. trades (fst s') = trades b @ ts \<and> (\<forall>t \<in> set ts. buy_trade_ok X config S t))" by simp
qed

lemma same_books_fold_block:
  "same_books b (fold (\<lambda>(code, w). if P w then block d code sd reason else id) ts b)"
  "same_books b (fold (\<lambda>code. block d code sd reason) cs b)"
proof -
  have "same_books b (fold (\<lambda>(code, w). if P w then block d code sd reason else id) ts c)" if "same_books b c" for c
    using that by (induction ts arbitrary: c) auto
  then show "same_books b (fold (\<lambda>(code, w). if P w then block d code sd reason else id) ts b)" by simp
  have "same_books b (fold (\<lambda>code. block d code sd reason) cs c)" if "same_books b c" for c
    using that by (induction cs arbitrary: c) auto
  then show "same_books b (fold (\<lambda>code. block d code sd reason) cs b)" by simp
qed

lemma buy_all_ok:
  assumes "buy_all X config signal S b = Inr b'" and "books_ok (s_index S) b" "not_neg (cash b)" and "session_ok S"
  shows "books_ok (s_index S) b' \<and> not_neg (cash b')
    \<and> (\<exists>ts. trades b' = trades b @ ts \<and> (\<forall>t \<in> set ts. buy_trade_ok X config S t))"
proof -
  obtain tv missing where f: "fold (held_theme S) (positions b) ([], False) = (tv, missing)" by fastforce
  show ?thesis
  proof (cases missing)
    case True
    with assms(1) f have "same_books b b'" using same_books_fold_block(1) by (auto simp: buy_all_def)
    with assms(2,3) books_ok_same show ?thesis by (auto simp: same_books_def intro!: exI [of _ "[]"])
  next
    case False
    with assms(1) f obtain st where "foldr_result (buy_step X config signal S) (sort_key weight_rank (s_targets S)) (b, tv) = Inr st"
      "b' = fst st" by (auto simp: buy_all_def)
    with buy_loop [OF this(1) assms(2-4)] show ?thesis by simp
  qed
qed

section \<open>Sessions\<close>

lemma exec_policy_Inr:
  assumes "exec_policy X config signal d di targets frames money = Inr S"
  shows "not_neg money \<and> 0 < s_lot S \<and> not_neg (s_slip S) \<and> s_index S = di \<and> s_day S = d \<and> s_frames S = frames"
  using assms
  by (auto simp: exec_policy_def lot_policy_def cost_invalid_def not_neg_def split: pyval.splits if_splits)

lemma positive_open_pos: "positive_open v = Some p \<Longrightarrow> not_neg p"
  by (auto simp: positive_open_def split: option.splits pyfloat.splits if_splits)

lemma open_of_pos: "open_of X d fr = Inr (Some p) \<Longrightarrow> not_neg p"
  by (auto simp: open_of_def dest: positive_open_pos split: list.splits if_splits)

lemma opened_prices_pos:
  assumes "opened_prices X S = Inr ps" and "map_of ps c = Some p"
  shows "not_neg p"
proof -
  from assms(1) obtain vs where vs: "mapr (\<lambda>(code, fr). bindr (open_of X (s_day S) fr) (\<lambda>v. Inr (map_option (\<lambda>x. (code, x)) v))) (s_frames S) = Inr vs"
    and ps: "ps = List.map_filter (\<lambda>x. x) vs" by (auto simp: opened_prices_def)
  from map_of_SomeD [OF assms(2)] ps have "Some (c, p) \<in> set vs" by (auto simp: List.map_filter_def)
  from list_all2_ex_left [OF vs [unfolded mapr_Inr_iff] this] obtain code fr
    where "bindr (open_of X (s_day S) fr) (\<lambda>v. Inr (map_option (\<lambda>x. (code, x)) v)) = Inr (Some (c, p))" by auto
  then show ?thesis by (auto dest: open_of_pos)
qed

lemma open_session_Inr:
  assumes "open_session X S b = Inr S1" and "0 < s_lot S" and "not_neg (s_slip S)"
  shows "session_ok S1 \<and> s_index S1 = s_index S \<and> s_day S1 = s_day S \<and> s_frames S1 = s_frames S"
proof -
  from assms(1) obtain ps where ps: "opened_prices X S = Inr ps"
    "\<exists>e. S1 = S\<lparr> s_opened := ps, s_marks := mark_prices X S, s_equity := e \<rparr>"
    by (auto simp: open_session_def Let_def split: option.splits)
  then show ?thesis using assms(2,3) opened_prices_pos by (auto simp: session_ok_def)
qed

lemma execute_cases:
  assumes run: "execute X config signal d di targets frames cap b0 = Inr b" and "books_ok di b0"
  obtains (blocked) "same_books (b0\<lparr> trades := [] \<rparr>) b" "not_neg (cash b0)"
  | (ran) S b1 where "s_day S = d" "s_index S = di" "s_frames S = frames" "session_ok S" "not_neg (cash b0)"
      "foldr_result (sell_step X S) (sort (map fst (positions b0))) (b0\<lparr> trades := [] \<rparr>) = Inr b1"
      "buy_all X config signal S b1 = Inr b"
proof -
  from run obtain S inv where S: "exec_policy X config signal d di targets frames (cash b0) = Inr S"
    "targets_invalid X S cap = Inr inv" by (auto simp: execute_def Let_def)
  note pol = exec_policy_Inr [OF S(1)]
  show ?thesis
  proof (cases inv)
    case True
    with run S same_books_fold_block(2) pol show ?thesis by (intro blocked) (auto simp: execute_def Let_def)
  next
    case False
    with run S obtain S1 b1 where b1: "open_session X S (b0\<lparr> trades := [] \<rparr>) = Inr S1"
      "foldr_result (sell_step X S1) (sort (map fst (positions b0))) (b0\<lparr> trades := [] \<rparr>) = Inr b1"
      "buy_all X config signal S1 b1 = Inr b" by (auto simp: execute_def Let_def)
    from open_session_Inr [OF b1(1)] pol b1(2,3) show ?thesis by (intro ran) auto
  qed
qed

lemma execute_trades:
  assumes run: "execute X config signal d di targets frames cap b0 = Inr b" and ok: "books_ok di b0"
  shows "books_ok di b \<and> not_neg (cash b) \<and> (\<exists>S. s_day S = d \<and> s_index S = di \<and> s_frames S = frames
    \<and> (\<forall>t \<in> set (trades b). sell_trade_ok X S b0 t \<or> buy_trade_ok X config S t))"
  using run ok
proof (cases rule: execute_cases)
  case blocked
  with ok books_ok_same [OF blocked(1)]
  have "books_ok di b" "not_neg (cash b)" "trades b = []" by (auto simp: same_books_def)
  moreover obtain S :: session where "s_day S = d" "s_index S = di" "s_frames S = frames"
    by (meson session.select_convs(1,2,4))
  ultimately show ?thesis by auto
next
  case (ran S b1)
  let ?b = "b0\<lparr> trades := [] \<rparr>"
  have "distinct (sort (map fst (positions b0)))" using ok by (simp add: books_ok_def)
  with sell_loop [OF ran(6)] ran ok obtain ts where 1: "books_ok di b1" "not_neg (cash b1)" "trades b1 = ts"
    "\<forall>t \<in> set ts. sell_trade_ok X S ?b t" by auto
  from buy_all_ok [OF ran(7)] 1 ran obtain us where 2: "books_ok di b" "not_neg (cash b)" "trades b = ts @ us"
    "\<forall>t \<in> set us. buy_trade_ok X config S t" by auto
  have "sell_trade_ok X S ?b t = sell_trade_ok X S b0 t" for t by (simp add: sell_trade_ok_def get_lots_def)
  with 1 2 ran show ?thesis by auto
qed

text \<open>A session that sells one settled position and buys another fund.\<close>

definition demo_env :: exec_env where
  "demo_env = \<lparr> ee_text = \<lparr> te_str = (\<lambda>_. ''''), te_float = (\<lambda>_. None) \<rparr>,
     ee_to_numeric = (\<lambda>v. case v of PFloat f \<Rightarrow> f | _ \<Rightarrow> NaN), ee_sum = (\<lambda>xs. fold (\<lambda>x a. pf_add a x) xs (Fin 0)) \<rparr>"

definition demo_row :: "rat \<Rightarrow> cells" where
  "demo_row p = [(''open'', PFloat (Fin p)), (''close'', PFloat (Fin p)), (''trade_activity_observed'', PBool True),
     (''execution_price_pit_verified'', PBool True), (''price_limit_verified'', PBool True), (''limit_up'', PBool False),
     (''limit_down'', PBool False), (''trading_unit_verified'', PBool True), (''theme_pit_verified'', PBool True),
     (''theme_l1_pit'', PStr ''bank''), (''fund_kind_pit_verified'', PBool True), (''fund_kind_pit'', PStr ''ETF''),
     (''cross_border_fund'', PBool False)]"

definition demo_books :: books where
  "demo_books = \<lparr> lots = [(''510300'', [(1, 300)])], blocked = [],
     positions = [(''510300'', \<lparr> p_shares = 300, p_average_cost = Fin 2, p_opened_index = 1 \<rparr>)], cash = Fin 1000, trades = [] \<rparr>"

definition demo_frames :: "(string \<times> daily_frame) list" where
  "demo_frames = [(''510300'', [(20, demo_row 4)]), (''588000'', [(20, demo_row 1)])]"

definition demo_config :: cells where
  "demo_config = [(''slippage_rate'', PFloat (Fin 0)), (''commission_rate'', PFloat (Fin 0)), (''minimum_commission'', PFloat (Fin 0))]"

definition demo_signal :: cells where
  "demo_signal = [(''single_fund_target_cap'', PFloat (Fin 1)), (''single_theme_target_cap'', PFloat (Fin 1)),
     (''small_add_threshold_weight_points'', PFloat (Fin 0))]"

definition demo_result :: "books result" where
  "demo_result = execute demo_env demo_config demo_signal 20 2 [(''588000'', Fin (1 / 4))] demo_frames (PFloat (Fin 1)) demo_books"

definition demo_after :: books where
  "demo_after = projr demo_result"

section \<open>Properties\<close>

text \<open>C35: a session of the replay engine keeps the books in order. When every held position has exactly
  the lots that add up to its shares before the session, so it has after it, whatever was sold, bought or
  blocked, every lot is positive and no later than the session's day, and the cash is not negative.\<close>

theorem exec_books_balance:
  assumes "execute X config signal d di targets frames cap b0 = Inr b" and "books_ok di b0"
  shows "books_ok di b \<and> \<not> pf_less (cash b) (Fin 0)"
  using execute_trades [OF assms] by (simp add: not_neg_def)

text \<open>
  The evidence of a fill, cell by cell of the frame's row and independently of the engine's own checks:
  the only row of the day opens at a finite positive price, and every flag the point-in-time rules ask for
  is a plain True, the limit flag of the side a plain False.
\<close>

definition flag_set :: "cells \<Rightarrow> string \<Rightarrow> bool" where
  "flag_set row field \<longleftrightarrow> pget field (PDict row) = PBool True"

definition number_cell :: "exec_env \<Rightarrow> cells \<Rightarrow> string \<Rightarrow> rat \<Rightarrow> bool" where
  "number_cell X row field r \<longleftrightarrow> (\<forall>b. pget field (PDict row) \<noteq> PBool b)
     \<and> py_float (ee_text X) (pget field (PDict row)) = Inr (Some (Fin r))"

definition tradable_row :: "exec_env \<Rightarrow> (string \<times> daily_frame) list \<Rightarrow> string \<Rightarrow> day \<Rightarrow> side \<Rightarrow> cells \<Rightarrow> bool" where
  "tradable_row X frames code d sd row \<longleftrightarrow>
     (\<exists>f. map_of frames code = Some f \<and> [r. (x, r) \<leftarrow> f, x = d] = [row]) \<and> (\<exists>price > 0. number_cell X row ''open'' price)
     \<and> flag_set row ''trade_activity_observed'' \<and> flag_set row ''execution_price_pit_verified''
     \<and> flag_set row ''price_limit_verified'' \<and> flag_set row ''trading_unit_verified''
     \<and> pget (case sd of Buy \<Rightarrow> ''limit_up'' | Sell \<Rightarrow> ''limit_down'') (PDict row) = PBool False"

text \<open>A purchase also has an effective-dated theme and fund kind and a cross-border class, and a fund
  that may trade at a premium has one, in percent points, within the configured bound.\<close>

definition premium_within :: "exec_env \<Rightarrow> cells \<Rightarrow> cells \<Rightarrow> bool" where
  "premium_within X config row \<longleftrightarrow> (\<exists>premium bound. number_cell X row ''premium_rate'' premium
     \<and> flag_set row ''premium_pit_verified'' \<and> pget ''premium_rate_unit'' (PDict row) = PStr ''percent_points''
     \<and> cfg_float X config ''max_abs_premium_pct'' 2 = Inr bound \<and> \<not> pf_less bound (Fin \<bar>premium\<bar>))"

definition buyable_row :: "exec_env \<Rightarrow> cells \<Rightarrow> cells \<Rightarrow> bool" where
  "buyable_row X config row \<longleftrightarrow> (\<exists>theme kind cross.
     flag_set row ''theme_pit_verified'' \<and> pget ''theme_l1_pit'' (PDict row) = PStr theme \<and> \<not> blank theme
     \<and> flag_set row ''fund_kind_pit_verified'' \<and> pget ''fund_kind_pit'' (PDict row) = PStr kind \<and> \<not> blank kind
     \<and> pget ''cross_border_fund'' (PDict row) = PBool cross
     \<and> (is_infix ''LOF'' (upper kind) \<or> is_infix ''QDII'' (upper kind) \<or> cross \<longrightarrow> premium_within X config row))"

lemma exec_finite_cell:
  assumes "exec_finite X (pget field (PDict row)) = Inr (Some p)"
  shows "\<exists>r. p = Fin r \<and> number_cell X row field r"
proof -
  let ?v = "pget field (PDict row)"
  from assms have nb: "?v \<noteq> PBool b" for b by (auto simp: exec_finite_def simp del: pget.simps)
  with assms have "bindr (py_float (ee_text X) ?v) (\<lambda>f. Inr (case f of Some (Fin r) \<Rightarrow> Some (Fin r) | _ \<Rightarrow> None)) = Inr (Some p)"
    by (cases ?v) (simp_all add: exec_finite_def del: pget.simps)
  then obtain f where f: "py_float (ee_text X) ?v = Inr f" "(case f of Some (Fin r) \<Rightarrow> Some (Fin r) | _ \<Rightarrow> None) = Some p"
    by (auto simp del: pget.simps)
  from f(2) obtain r where "f = Some (Fin r)" "p = Fin r" by (auto split: option.splits pyfloat.splits)
  with f(1) nb show ?thesis by (simp add: number_cell_def del: pget.simps)
qed

lemma exec_row_tradable:
  assumes "exec_row X (map_of frames code) d sd = Inr (Inr row)"
  shows "tradable_row X frames code d sd row"
proof -
  from assms obtain f where f: "map_of frames code = Some f" "rows_at f d = [row]"
    by (auto simp: exec_row_def simp del: pget.simps split: option.splits list.splits if_splits sum.splits)
  with assms obtain op where op: "exec_finite X (pget ''open'' (PDict row)) = Inr op"
    by (cases "exec_finite X (pget ''open'' (PDict row))") (simp_all add: exec_row_def del: pget.simps)
  note row = assms [unfolded exec_row_def f(1), simplified f(2) op option.case list.case bindr_simps]
  from row obtain r where r: "op = Some (Fin r)" "0 < r"
    by (auto simp del: pget.simps split: option.splits pyfloat.splits if_splits)
  have "[r. (x, r) \<leftarrow> f, x = d] = rows_at f d" by (induction f) (auto simp: rows_at_def)
  with f have one: "\<exists>f. map_of frames code = Some f \<and> [r. (x, r) \<leftarrow> f, x = d] = [row]" by auto
  from exec_finite_cell [OF op [unfolded r(1)]] r(2) have "\<exists>price > 0. number_cell X row ''open'' price" by auto
  with one row r show ?thesis
    by (cases sd) (auto simp: tradable_row_def flag_set_def verified_def verified_false_def simp del: pget.simps split: if_splits)
qed

lemma premium_block_within:
  assumes "premium_block X config row = Inr None"
  shows "premium_within X config row"
proof -
  from assms obtain p where p: "exec_finite X (pget ''premium_rate'' (PDict row)) = Inr (Some p)"
    by (fastforce simp: premium_block_def simp del: pget.simps split: option.splits)
  note run = assms [unfolded premium_block_def p bindr_simps, simplified option.case]
  from run have flags: "verified row ''premium_pit_verified''" "pget ''premium_rate_unit'' (PDict row) = PStr ''percent_points''"
    by (auto simp del: pget.simps split: if_splits)
  with run obtain bound where bound: "cfg_float X config ''max_abs_premium_pct'' 2 = Inr bound"
    "\<not> pf_less bound (pf_max p (pf_neg p))"
    by (cases "cfg_float X config ''max_abs_premium_pct'' 2") (simp_all del: pget.simps split: if_splits)
  from exec_finite_cell [OF p] obtain r where r: "p = Fin r" "number_cell X row ''premium_rate'' r" by blast
  have "pf_max p (pf_neg p) = Fin \<bar>r\<bar>" by (auto simp: r(1) pf_max_def)
  with flags bound r(2) show ?thesis unfolding premium_within_def flag_set_def verified_def by auto
qed

lemma buy_evidence_buyable: "buy_evidence X config row = Inr (Inr theme) \<Longrightarrow> buyable_row X config row"
  by (auto simp: buy_evidence_def buyable_row_def pit_theme_def flag_set_def verified_def simp del: pget.simps
      split: option.splits pyval.splits if_splits sum.splits intro: premium_block_within)

text \<open>C36: nothing is filled without evidence. Every trade of a session is on the one row of its fund and
  day, which opens at a positive price with observed trading, verified price, price limits and trading
  unit and no limit move against the side. A sale is of at most the shares whose lots were opened on an
  earlier day; a purchase has an effective-dated theme, a fund kind, a cross-border class, and for a LOF,
  QDII or cross-border fund a verified premium in percent points within the configured bound.\<close>

theorem exec_fills_are_verified:
  assumes "execute X config signal d di targets frames cap b0 = Inr b" and "books_ok di b0" and "t \<in> set (trades b)"
  shows "0 < t_shares t \<and> (\<exists>row. tradable_row X frames (t_code t) d (t_side t) row \<and>
    (case t_side t of Sell \<Rightarrow> t_shares t \<le> sum_list [n. (opened, n) \<leftarrow> get_lots (t_code t) b0, opened < di]
     | Buy \<Rightarrow> buyable_row X config row))"
proof -
  have days: "settled di ls = sum_list [n. (opened, n) \<leftarrow> ls, opened < di]" for ls
    by (induction ls) (auto simp: settled_def)
  from execute_trades [OF assms(1,2)] assms(3) obtain S where S: "s_day S = d" "s_index S = di" "s_frames S = frames"
    "sell_trade_ok X S b0 t \<or> buy_trade_ok X config S t" by auto
  from S(4) show ?thesis
  proof
    assume "sell_trade_ok X S b0 t"
    with S(1-3) show ?thesis by (auto simp: sell_trade_ok_def days dest: exec_row_tradable)
  next
    assume "buy_trade_ok X config S t"
    with S(1-3) show ?thesis by (auto simp: buy_trade_ok_def dest: exec_row_tradable buy_evidence_buyable)
  qed
qed

lemma demo_run: "(case demo_result of Inl e \<Rightarrow> [] | Inr b \<Rightarrow> map (\<lambda>t. (t_code t, t_side t, t_shares t)) (trades b))
    = [(''510300'', Sell, 300), (''588000'', Buy, 500)]"
  by code_simp

lemma demo_inr: "demo_result = Inr demo_after"
proof (cases demo_result)
  case (Inl e)
  show ?thesis using demo_run by (simp add: Inl)
next
  case (Inr b)
  show ?thesis unfolding demo_after_def Inr by simp
qed

lemma demo_books_ok: "books_ok 2 demo_books"
  by (auto simp: books_ok_def holding_ok_def demo_books_def lots_ok_def lot_total_def)

theorem exec_books_balance_witness:
  "demo_result = Inr demo_after \<and> books_ok 2 demo_books \<and> books_ok 2 demo_after \<and> \<not> pf_less (cash demo_after) (Fin 0)"
  using exec_books_balance [OF demo_inr [unfolded demo_result_def] demo_books_ok] demo_inr demo_books_ok by simp

theorem exec_fills_are_verified_witness:
  "\<exists>t u. trades demo_after = [t, u] \<and> t_side t = Sell \<and> t_side u = Buy \<and> t_shares t = 300 \<and> t_code u = ''588000''
     \<and> 300 \<le> sum_list [n. (opened, n) \<leftarrow> get_lots (t_code t) demo_books, opened < 2]
     \<and> (\<exists>row. tradable_row demo_env demo_frames ''588000'' 20 Buy row \<and> buyable_row demo_env demo_config row)"
proof -
  have "map (\<lambda>t. (t_code t, t_side t, t_shares t)) (trades demo_after) = [(''510300'', Sell, 300), (''588000'', Buy, 500)]"
    using demo_run by (simp add: demo_inr)
  then obtain t u where t: "trades demo_after = [t, u]" "t_side t = Sell" "t_shares t = 300" "t_side u = Buy" "t_code u = ''588000''"
    by auto
  from exec_fills_are_verified [OF demo_inr [unfolded demo_result_def] demo_books_ok, of t]
    exec_fills_are_verified [OF demo_inr [unfolded demo_result_def] demo_books_ok, of u] t
  show ?thesis by auto
qed

end
