(* ===== verification/Display_Store.thy ===== *)
theory Display_Store
  imports Shadow_Chunks
begin

text \<open>
  The generation store on the receiving side, \<^verbatim>\<open>LocalDisplayStore\<close> of
  \<^verbatim>\<open>app/workspace/local_display_read.py\<close>: immutable bundle files, the pointers
  \<^verbatim>\<open>latest.json\<close> and \<^verbatim>\<open>previous.json\<close>, bounded acceptance history, eviction and the rollback of
  a publication that fails on the way.

  A store is the list of the files of its directory; the rest of the synchronisation domain is a
  \<open>sync_domain\<close>, whose budget the store's files are charged to. \<^verbatim>\<open>json.loads\<close> is an argument, and so
  is, for one publication, which of its numbered file writes fail with an OSError: 0 the bundle,
  1 \<^verbatim>\<open>previous.json\<close>, 2 \<^verbatim>\<open>latest.json\<close>, 3 and 4 the two pointers in the rollback. A write that
  fails leaves the file as it was, since the temporary file is only renamed when it is complete.
  An item order of a dict is not observable, so the pointer is built in the order of its text.
\<close>

section \<open>Names\<close>

definition all_digits :: "string \<Rightarrow> bool" where
  "all_digits s \<longleftrightarrow> s \<noteq> [] \<and> list_all is_digit s"

text \<open>\<^verbatim>\<open>FILE_RE.fullmatch(name)\<close> and its two groups.\<close>

definition file_re :: "string \<Rightarrow> (string \<times> string) option" where
  "file_re name =
     (let mid = drop 7 (take (length name - 5) name);
          k = length mid - 17;
          sq = take k mid;
          h = drop (k + 1) mid
      in if starts_with ''bundle_'' name \<and> ends_with ''.json'' name \<and> 18 \<le> length mid \<and> mid ! k = CHR ''_''
            \<and> all_digits sq \<and> hd sq \<noteq> CHR ''0'' \<and> hex_string 16 h
         then Some (sq, h) else None)"

definition bundle_file :: "int \<Rightarrow> string \<Rightarrow> string" where
  "bundle_file sequence identity = ''bundle_'' @ show_int sequence @ ''_'' @ take 16 identity @ ''.json''"

text \<open>\<^verbatim>\<open>s.strip()\<close> on ASCII white space.\<close>

definition strip :: "string \<Rightarrow> string" where
  "strip s = rev (dropWhile is_space (rev (dropWhile is_space s)))"

definition gen_hash_re :: "string \<Rightarrow> bool" where
  "gen_hash_re s \<longleftrightarrow> 16 \<le> length s \<and> length s \<le> 64 \<and> list_all is_hex s"

section \<open>State\<close>

record store_env =
  sv_env :: py_env
  sv_loads :: "string \<Rightarrow> pyval option"

record display_store =
  st_files :: "(string \<times> fentry) list"
  st_max_bytes :: int
  st_max_generations :: int
  st_own_domain :: bool
  st_domain :: sync_domain

definition new_store :: "bool \<Rightarrow> int \<Rightarrow> int \<Rightarrow> sync_domain option \<Rightarrow> display_store result" where
  "new_store link cap gens domain =
     raise_if link (ValueError ''symlink store rejected'')
     (raise_if (cap \<le> 0) (ValueError ''invalid store budget'')
     (raise_if (gens < 2 \<or> 100 < gens) (ValueError ''invalid max_generations'')
     (bindr (case domain of Some d \<Rightarrow> Inr d | None \<Rightarrow> new_domain cap) (\<lambda>d.
       Inr \<lparr> st_files = [], st_max_bytes = cap, st_max_generations = gens, st_own_domain = (domain = None), st_domain = d \<rparr>))))"

definition latest_link :: string where "latest_link = ''latest.json''"
definition previous_link :: string where "previous_link = ''previous.json''"

definition sfile :: "string \<Rightarrow> display_store \<Rightarrow> fentry option" where
  "sfile n st = map_of (st_files st) n"

definition is_link :: "string \<Rightarrow> display_store \<Rightarrow> bool" where
  "is_link n st = (case sfile n st of Some f \<Rightarrow> is_flink f | None \<Rightarrow> False)"

definition put_file :: "string \<Rightarrow> string \<Rightarrow> display_store \<Rightarrow> display_store" where
  "put_file n data st = st\<lparr> st_files := dict_set n (FRegular data) (st_files st) \<rparr>"

definition unlink :: "string \<Rightarrow> display_store \<Rightarrow> display_store" where
  "unlink n st = st\<lparr> st_files := filter (\<lambda>(k, _). k \<noteq> n) (st_files st) \<rparr>"

text \<open>The domain as \<^verbatim>\<open>used_bytes\<close> sees it, with the files of the store counted.\<close>

definition file_bytes :: "display_store \<Rightarrow> int" where
  "file_bytes st = sum_list (map (\<lambda>(_, f). int (length (fbytes f))) (st_files st))"

definition charged :: "display_store \<Rightarrow> sync_domain" where
  "charged st = (st_domain st)\<lparr> outside_bytes := outside_bytes (st_domain st) + file_bytes st,
     outside_link := (outside_link (st_domain st) \<or> list_ex (\<lambda>(_, f). is_flink f) (st_files st)) \<rparr>"

section \<open>Reading\<close>

text \<open>What a bundle file must hold: the value and its identity.\<close>

definition check_bundle :: "store_env \<Rightarrow> string \<times> string \<Rightarrow> string \<Rightarrow> (pyval \<times> string) option" where
  "check_bundle V groups raw = (case sv_loads V raw of
       None \<Rightarrow> None
     | Some v \<Rightarrow>
        (if \<not> verify_bundle_integrity (sv_env V) v None then None
         else case digest (sv_env V) (pget ''manifest'' v) of
           Inl _ \<Rightarrow> None
         | Inr identity \<Rightarrow>
            (if show_int (as_int (pget ''sequence'' (pget ''manifest'' v))) \<noteq> fst groups \<or> take 16 identity \<noteq> snd groups
             then None else Some (v, identity))))"

definition expect :: "string option \<Rightarrow> (pyval \<times> string) option \<Rightarrow> pyval option" where
  "expect expected_id r = (case r of None \<Rightarrow> None
     | Some (v, identity) \<Rightarrow> if expected_id \<noteq> None \<and> expected_id \<noteq> Some identity then None else Some v)"

text \<open>\<^verbatim>\<open>_load_file\<close> without its cache.\<close>

definition load_file :: "store_env \<Rightarrow> display_store \<Rightarrow> string \<Rightarrow> string option \<Rightarrow> pyval option" where
  "load_file V st name expected_id = (case file_re name of None \<Rightarrow> None
     | Some groups \<Rightarrow> (case sfile name st of
         Some (FRegular raw) \<Rightarrow>
           if st_max_bytes st < int (length raw) then None else expect expected_id (check_bundle V groups raw)
       | _ \<Rightarrow> None))"

text \<open>
  \<^verbatim>\<open>_load_file\<close> as written, with the process-wide cache. A key is the path with the file's
  device, inode, size and times, one stamp here. The oldest entry is at the head.
\<close>

type_synonym bundle_cache = "((string \<times> int) \<times> (pyval \<times> string)) list"

definition cache_put :: "nat \<Rightarrow> string \<times> int \<Rightarrow> pyval \<times> string \<Rightarrow> bundle_cache \<Rightarrow> bundle_cache" where
  "cache_put cap key entry c = (if cap = 0 then c
     else let c1 = filter (\<lambda>(k, _). fst k \<noteq> fst key) c @ [(key, entry)] in drop (length c1 - cap) c1)"

definition cache_touch :: "string \<times> int \<Rightarrow> pyval \<times> string \<Rightarrow> bundle_cache \<Rightarrow> bundle_cache" where
  "cache_touch key entry c = filter (\<lambda>(k, _). k \<noteq> key) c @ [(key, entry)]"

definition load_file_cached ::
  "store_env \<Rightarrow> nat \<Rightarrow> (string \<Rightarrow> int) \<Rightarrow> display_store \<Rightarrow> string \<Rightarrow> string option \<Rightarrow> bundle_cache \<Rightarrow> bundle_cache \<times> pyval option" where
  "load_file_cached V cap stamp st name expected_id c = (case file_re name of None \<Rightarrow> (c, None)
     | Some groups \<Rightarrow> (case sfile name st of
         Some (FRegular raw) \<Rightarrow>
           if st_max_bytes st < int (length raw) then (c, None)
           else let key = (name, stamp name) in
             (case (if cap = 0 then None else map_of c key) of
                Some entry \<Rightarrow> (cache_touch key entry c, expect expected_id (Some entry))
              | None \<Rightarrow> (case check_bundle V groups raw of
                   None \<Rightarrow> (c, None)
                 | Some entry \<Rightarrow> (cache_put cap key entry c, expect expected_id (Some entry))))
       | _ \<Rightarrow> (c, None)))"

section \<open>Pointers\<close>

type_synonym acceptance = "(int \<times> string) list"

definition acceptance_limit :: nat where "acceptance_limit = 256"
definition acceptance_version :: pyval where "acceptance_version = PStr ''local-acceptance-v1''"

definition record_of :: "pyval \<Rightarrow> (int \<times> string) option" where
  "record_of r = (case r of
       PDict d \<Rightarrow> if set (map fst d) \<noteq> {''sequence'', ''bundle_id''} then None
         else (case (pget ''sequence'' r, pget ''bundle_id'' r) of
            (PInt n, PStr i) \<Rightarrow> if hex_string 64 i then Some (n, i) else None
          | _ \<Rightarrow> None)
     | _ \<Rightarrow> None)"

text \<open>The loop over the records, with the sequence of the one before.\<close>

fun history_from :: "int \<Rightarrow> pyval list \<Rightarrow> acceptance result" where
  "history_from prev [] = Inr []"
| "history_from prev (r # rs) = (case record_of r of
       None \<Rightarrow> Inl (ValueError ''invalid acceptance identity'')
     | Some (n, i) \<Rightarrow> raise_if (n \<le> prev) (ValueError ''invalid acceptance identity'')
         (bindr (history_from n rs) (\<lambda>h. Inr ((n, i) # h))))"

definition acceptance_history :: "pyval \<Rightarrow> acceptance result" where
  "acceptance_history pointer =
     (if \<not> phas ''sequence'' pointer then Inl (KeyError ''sequence'')
      else if \<not> phas ''bundle_id'' pointer then Inl (KeyError ''bundle_id'')
      else case pget ''sequence'' pointer of
        PInt n \<Rightarrow>
         (if n \<le> 0 then Inl (ValueError ''invalid acceptance sequence'')
          else if \<not> phas ''acceptance_history_version'' pointer \<and> \<not> phas ''accepted'' pointer
          then Inr [(n, as_text (pget ''bundle_id'' pointer))]
          else if pget ''acceptance_history_version'' pointer \<noteq> acceptance_version
          then Inl (ValueError ''invalid acceptance history version'')
          else case pget ''accepted'' pointer of
            PList rs \<Rightarrow>
             (if rs = [] \<or> acceptance_limit < length rs then Inl (ValueError ''invalid acceptance history'')
              else bindr (history_from 0 rs) (\<lambda>h.
                raise_if (fst (last h) \<noteq> n \<or> PStr (snd (last h)) \<noteq> pget ''bundle_id'' pointer)
                  (ValueError ''acceptance history does not match pointer'') (Inr h)))
          | _ \<Rightarrow> Inl (ValueError ''invalid acceptance history''))
      | _ \<Rightarrow> Inl (ValueError ''invalid acceptance sequence''))"

definition pointer_ok :: "store_env \<Rightarrow> display_store \<Rightarrow> pyval \<Rightarrow> bool" where
  "pointer_ok V st pointer = (case (pget ''bundle_file'' pointer, pget ''bundle_id'' pointer) of
       (PStr name, PStr identity) \<Rightarrow>
         file_re name \<noteq> None \<and> hex_string 64 identity
         \<and> (case load_file V st name (Some identity) of None \<Rightarrow> False
            | Some v \<Rightarrow> list_all (\<lambda>key. pget key pointer = pget key (pget ''manifest'' v)) [''sequence'', ''generated_at'', ''expires_at''])
         \<and> \<not> isl (acceptance_history pointer)
     | _ \<Rightarrow> False)"

definition load_pointer :: "store_env \<Rightarrow> display_store \<Rightarrow> string \<Rightarrow> pyval option" where
  "load_pointer V st path = (case sfile path st of
       Some (FRegular raw) \<Rightarrow>
         (if 65536 < int (length raw) then None
          else case sv_loads V raw of
            Some pointer \<Rightarrow> if is_dict pointer \<and> pointer_ok V st pointer then Some pointer else None
          | None \<Rightarrow> None)
     | _ \<Rightarrow> None)"

definition pointer_seq :: "pyval \<Rightarrow> int" where
  "pointer_seq p = as_int (pget ''sequence'' p)"

definition pointer_file :: "pyval \<Rightarrow> string" where
  "pointer_file p = as_text (pget ''bundle_file'' p)"

section \<open>The budget\<close>

definition bundle_names :: "display_store \<Rightarrow> string list" where
  "bundle_names st = filter (\<lambda>n. file_re n \<noteq> None) (map fst (st_files st))"

definition file_sequence :: "string \<Rightarrow> nat" where
  "file_sequence name = (case file_re name of None \<Rightarrow> 0
     | Some (sq, _) \<Rightarrow> foldl (\<lambda>a c. a * 10 + (of_char c - 48)) 0 sq)"

definition previous_pointer :: "store_env \<Rightarrow> display_store \<Rightarrow> pyval option result" where
  "previous_pointer V st = (case sfile previous_link st of None \<Rightarrow> Inr None
     | Some _ \<Rightarrow> (case load_pointer V st previous_link of
         None \<Rightarrow> Inl (ValueError ''invalid previous generation pointer'') | Some p \<Rightarrow> Inr (Some p)))"

definition pointers :: "pyval option \<Rightarrow> pyval option \<Rightarrow> pyval list" where
  "pointers current previous = List.map_filter (\<lambda>x. x) [current, previous]"

definition cutoff :: "pyval list \<Rightarrow> int" where
  "cutoff ps = (case map pointer_seq ps of [] \<Rightarrow> 0 | x # xs \<Rightarrow> fold min xs x)"

definition reclaimable :: "store_env \<Rightarrow> display_store \<Rightarrow> string \<Rightarrow> pyval list \<Rightarrow> string list" where
  "reclaimable V st target ps = sort_key file_sequence
     (filter (\<lambda>n. n \<noteq> target \<and> n \<notin> set (map pointer_file ps)
        \<and> (case load_file V st n None of None \<Rightarrow> False | Some v \<Rightarrow> pointer_seq (pget ''manifest'' v) < cutoff ps)) (bundle_names st))"

definition file_size :: "display_store \<Rightarrow> string \<Rightarrow> int" where
  "file_size st n = (case sfile n st of None \<Rightarrow> 0 | Some f \<Rightarrow> int (length (fbytes f)))"

text \<open>The eviction loop: the evicted names, and the total that is left.\<close>

fun evict_loop :: "display_store \<Rightarrow> int \<Rightarrow> int \<Rightarrow> int \<Rightarrow> string list \<Rightarrow> string list \<times> int" where
  "evict_loop st cap tot count [] = ([], tot)"
| "evict_loop st cap tot count (n # ns) =
     (if tot \<le> cap \<and> count \<le> st_max_generations st then ([], tot)
      else case evict_loop st cap (tot - file_size st n) (count - 1) ns of (es, t) \<Rightarrow> (n # es, t))"

definition budget_plan :: "store_env \<Rightarrow> display_store \<Rightarrow> string \<Rightarrow> int \<Rightarrow> pyval option \<Rightarrow> int \<Rightarrow> string list result" where
  "budget_plan V st target len current extra =
     raise_if (list_ex (\<lambda>n. is_link n st) (bundle_names st)) (ValueError ''symlink generation rejected'')
     (bindr (previous_pointer V st) (\<lambda>previous.
      bindr (used_bytes (charged st)) (\<lambda>used.
      let count = int (length (bundle_names st)) + (if sfile target st = None then 1 else 0);
          cap = max_bytes (st_domain st)
      in case evict_loop st cap (used + held_bytes (st_domain st) + extra) count (reclaimable V st target (pointers current previous)) of
           (es, left) \<Rightarrow> raise_if (st_max_bytes st < len \<or> cap < left) (ValueError ''store capacity exceeded'') (Inr es))))"

section \<open>Publishing\<close>

definition store_reserve :: "int \<Rightarrow> display_store \<Rightarrow> unit result" where
  "store_reserve extra st = reserve extra (charged st)"

text \<open>\<^verbatim>\<open>_atomic(path, data)\<close>; \<open>fault\<close> says that this write fails.\<close>

definition atomic_store :: "bool \<Rightarrow> string \<Rightarrow> string \<Rightarrow> display_store \<Rightarrow> display_store \<times> unit result" where
  "atomic_store fault path data st = (case store_reserve (int (length data)) st of
       Inl e \<Rightarrow> (st, Inl e)
     | Inr _ \<Rightarrow> if fault then (st, Inl (OSError ''write'')) else (put_file path data st, Inr ()))"

definition receipt :: "string \<Rightarrow> int \<Rightarrow> string \<Rightarrow> string \<Rightarrow> pyval" where
  "receipt received_at sequence identity status = PDict [(''bundle_id'', PStr identity), (''manifest_hash'', PStr identity),
     (''status'', PStr status), (''sequence'', PInt sequence), (''received_at'', PStr received_at)]"

text \<open>The checks before anything is written: the current pointer and the proven acceptances.\<close>

definition publish_current :: "store_env \<Rightarrow> display_store \<Rightarrow> string \<Rightarrow> pyval option result" where
  "publish_current V st target =
     raise_if (is_link target st \<or> is_link latest_link st \<or> is_link previous_link st)
       (ValueError ''symlink publication path rejected'')
     (case sfile latest_link st of
        None \<Rightarrow> raise_if (sfile previous_link st \<noteq> None)
          (ValueError ''latest generation pointer missing from established store'') (Inr None)
      | Some _ \<Rightarrow> (case load_pointer V st latest_link of
          None \<Rightarrow> Inl (ValueError ''invalid latest generation pointer'') | Some p \<Rightarrow> Inr (Some p)))"

definition publish_history :: "store_env \<Rightarrow> display_store \<Rightarrow> pyval option \<Rightarrow> acceptance result" where
  "publish_history V st current = (case current of None \<Rightarrow> Inr []
     | Some cur \<Rightarrow> bindr (acceptance_history cur) (\<lambda>history.
         if \<not> phas ''acceptance_history_version'' cur \<and> sfile previous_link st \<noteq> None
         then (case load_pointer V st previous_link of
                 None \<Rightarrow> Inl (ValueError ''invalid previous generation pointer'')
               | Some previous \<Rightarrow> Inr (if pointer_seq previous < pointer_seq cur
                   then (pointer_seq previous, as_text (pget ''bundle_id'' previous)) # history else history))
         else Inr history))"

text \<open>What one publication works with.\<close>

record publication =
  pb_bundle :: pyval
  pb_manifest :: display_manifest
  pb_identity :: string
  pb_data :: string
  pb_received :: string

definition pb_target :: "publication \<Rightarrow> string" where
  "pb_target P = bundle_file (m_sequence (pb_manifest P)) (pb_identity P)"

definition pb_receipt :: "publication \<Rightarrow> string \<Rightarrow> pyval" where
  "pb_receipt P status = receipt (pb_received P) (m_sequence (pb_manifest P)) (pb_identity P) status"

text \<open>A lower sequence: only an accepted identity is restored, and no pointer moves.\<close>

definition restore_old ::
  "store_env \<Rightarrow> (nat \<Rightarrow> bool) \<Rightarrow> publication \<Rightarrow> pyval \<Rightarrow> acceptance \<Rightarrow> display_store \<Rightarrow> display_store \<times> pyval result" where
  "restore_old V fails P cur history st =
     (if (m_sequence (pb_manifest P), pb_identity P) \<notin> set history
      then (st, Inl (ValueError ''historical identity was not accepted or proof was pruned''))
      else if sfile (pb_target P) st \<noteq> None
      then (st, if load_file V st (pb_target P) (Some (pb_identity P)) = None
                then Inl (ValueError ''immutable bundle collision'') else Inr (pb_receipt P ''already_accepted''))
      else case budget_plan V st (pb_target P) (int (length (pb_data P))) (Some cur) (int (length (pb_data P))) of
        Inl e \<Rightarrow> (st, Inl e)
      | Inr es \<Rightarrow>
         (let st1 = fold unlink es st
          in case store_reserve (int (length (pb_data P))) st1 of
            Inl e \<Rightarrow> (st1, Inl e)
          | Inr _ \<Rightarrow> (case atomic_store (fails 0) (pb_target P) (pb_data P) st1 of
              (st2, Inl (OSError t)) \<Rightarrow> (unlink (pb_target P) st2, Inl (OSError t))
            | (st2, Inl e) \<Rightarrow> (st2, Inl e)
            | (st2, Inr _) \<Rightarrow> (st2, Inr (pb_receipt P ''already_accepted'')))))"

definition record_val :: "int \<times> string \<Rightarrow> pyval" where
  "record_val r = PDict [(''bundle_id'', PStr (snd r)), (''sequence'', PInt (fst r))]"

definition last_n_records :: "acceptance \<Rightarrow> acceptance" where
  "last_n_records h = drop (length h - acceptance_limit) h"

definition new_pointer :: "publication \<Rightarrow> acceptance \<Rightarrow> pyval" where
  "new_pointer P history = PDict
     [(''accepted'', PList (map record_val (last_n_records (history @ [(m_sequence (pb_manifest P), pb_identity P)])))),
      (''acceptance_history_version'', acceptance_version), (''bundle_file'', PStr (pb_target P)),
      (''bundle_id'', PStr (pb_identity P)), (''expires_at'', pget ''expires_at'' (pget ''manifest'' (pb_bundle P))),
      (''generated_at'', pget ''generated_at'' (pget ''manifest'' (pb_bundle P))), (''sequence'', PInt (m_sequence (pb_manifest P)))]"

text \<open>The rollback of one pointer to the bytes it had.\<close>

definition restore_pointer :: "bool \<Rightarrow> string \<Rightarrow> string option \<Rightarrow> display_store \<Rightarrow> display_store \<times> unit result" where
  "restore_pointer fault path payload st = (case payload of
       None \<Rightarrow> (unlink path st, Inr ())
     | Some old \<Rightarrow> (case sfile path st of
         Some f \<Rightarrow> if fbytes f = old then (st, Inr ()) else atomic_store fault path old st
       | None \<Rightarrow> atomic_store fault path old st))"

definition roll_back ::
  "(nat \<Rightarrow> bool) \<Rightarrow> string option \<Rightarrow> string option \<Rightarrow> bool \<Rightarrow> string \<Rightarrow> py_error \<Rightarrow> display_store \<Rightarrow> display_store \<times> pyval result" where
  "roll_back fails old_previous old_latest created target e st =
     (case restore_pointer (fails 3) previous_link old_previous st of
        (st1, Inl e1) \<Rightarrow> (st1, Inl e1)
      | (st1, Inr _) \<Rightarrow> (case restore_pointer (fails 4) latest_link old_latest st1 of
          (st2, Inl e2) \<Rightarrow> (st2, Inl e2)
        | (st2, Inr _) \<Rightarrow> (if created then unlink target st2 else st2, Inl e)))"

text \<open>The three writes of an activation.\<close>

definition write_bundle :: "(nat \<Rightarrow> bool) \<Rightarrow> bool \<Rightarrow> publication \<Rightarrow> display_store \<Rightarrow> display_store \<times> unit result" where
  "write_bundle fails created P st =
     (if created then atomic_store (fails 0) (pb_target P) (pb_data P) st else (st, Inr ()))"

definition write_previous :: "(nat \<Rightarrow> bool) \<Rightarrow> string option \<Rightarrow> display_store \<Rightarrow> display_store \<times> unit result" where
  "write_previous fails cur_data st =
     (case cur_data of None \<Rightarrow> (st, Inr ()) | Some c \<Rightarrow> atomic_store (fails 1) previous_link c st)"

definition write_generation ::
  "(nat \<Rightarrow> bool) \<Rightarrow> bool \<Rightarrow> publication \<Rightarrow> string option \<Rightarrow> string \<Rightarrow> display_store \<Rightarrow> display_store \<times> unit result" where
  "write_generation fails created P cur_data pointer_data st =
     (case write_bundle fails created P st of
        (st1, Inl e) \<Rightarrow> (st1, Inl e)
      | (st1, Inr _) \<Rightarrow> (case write_previous fails cur_data st1 of
          (st2, Inl e) \<Rightarrow> (st2, Inl e)
        | (st2, Inr _) \<Rightarrow> atomic_store (fails 2) latest_link pointer_data st2))"

fun is_os_error :: "py_error \<Rightarrow> bool" where
  "is_os_error (OSError _) = True"
| "is_os_error _ = False"

definition bytes_of :: "string \<Rightarrow> display_store \<Rightarrow> string option" where
  "bytes_of n st = map_option fbytes (sfile n st)"

definition opt_length :: "string option \<Rightarrow> int" where
  "opt_length t = (case t of None \<Rightarrow> 0 | Some c \<Rightarrow> int (length c))"

definition activate ::
  "store_env \<Rightarrow> (nat \<Rightarrow> bool) \<Rightarrow> publication \<Rightarrow> pyval option \<Rightarrow> string option \<Rightarrow> string \<Rightarrow> display_store \<Rightarrow> display_store \<times> pyval result" where
  "activate V fails P current cur_data pointer_data st =
     (let created = (sfile (pb_target P) st = None);
          extra = (if created then int (length (pb_data P)) else 0) + int (length pointer_data) + opt_length cur_data
      in case budget_plan V st (pb_target P) (int (length (pb_data P))) current extra of
        Inl e \<Rightarrow> (st, Inl e)
      | Inr es \<Rightarrow>
         (let st1 = fold unlink es st
          in case store_reserve extra st1 of
            Inl e \<Rightarrow> (st1, Inl e)
          | Inr _ \<Rightarrow> (case write_generation fails created P cur_data pointer_data st1 of
              (st2, Inl e) \<Rightarrow>
                if is_os_error e then roll_back fails (bytes_of previous_link st) (bytes_of latest_link st) created (pb_target P) e st2
                else (st2, Inl e)
            | (st2, Inr _) \<Rightarrow> (st2, Inr (pb_receipt P ''accepted'')))))"

definition activate_new ::
  "store_env \<Rightarrow> (nat \<Rightarrow> bool) \<Rightarrow> int \<Rightarrow> publication \<Rightarrow> pyval option \<Rightarrow> acceptance \<Rightarrow> display_store \<Rightarrow> display_store \<times> pyval result" where
  "activate_new V fails now P current history st =
     (if \<not> verify_bundle_integrity (sv_env V) (pb_bundle P) (Some now)
      then (st, Inl (ValueError ''bundle expired or generated in future''))
      else if (case bytes_of (pb_target P) st of Some b \<Rightarrow> b \<noteq> pb_data P | None \<Rightarrow> False)
      then (st, Inl (ValueError ''immutable bundle collision''))
      else case bindr (canonical (sv_env V) (new_pointer P history)) (\<lambda>pd.
             raise_if (65536 < int (length pd)) (ValueError ''acceptance history exceeds pointer limit'')
             (case current of None \<Rightarrow> Inr (pd, None) | Some c \<Rightarrow> bindr (canonical (sv_env V) c) (\<lambda>cd. Inr (pd, Some cd)))) of
        Inl e \<Rightarrow> (st, Inl e)
      | Inr (pd, cd) \<Rightarrow> activate V fails P current cd pd st)"

definition decide ::
  "store_env \<Rightarrow> (nat \<Rightarrow> bool) \<Rightarrow> int \<Rightarrow> publication \<Rightarrow> display_store \<Rightarrow> display_store \<times> pyval result" where
  "decide V fails now P st =
     (case bindr (publish_current V st (pb_target P)) (\<lambda>current.
           bindr (publish_history V st current) (\<lambda>history. Inr (current, history))) of
        Inl e \<Rightarrow> (st, Inl e)
      | Inr (current, history) \<Rightarrow>
         (case current of
            None \<Rightarrow> activate_new V fails now P None history st
          | Some cur \<Rightarrow>
             (if m_sequence (pb_manifest P) < pointer_seq cur then restore_old V fails P cur history st
              else if m_sequence (pb_manifest P) = pointer_seq cur
              then (st, if PStr (pb_identity P) = pget ''bundle_id'' cur then Inr (pb_receipt P ''already_accepted'')
                        else Inl (ValueError ''bundle sequence already accepted with different identity''))
              else activate_new V fails now P (Some cur) history st)))"

text \<open>\<open>busy k\<close>: the publish lock is taken at try \<open>k\<close>, of twenty-one.\<close>

definition publication_of :: "store_env \<Rightarrow> string \<Rightarrow> pyval \<Rightarrow> publication result" where
  "publication_of V received bundle =
     raise_if (\<not> is_dict bundle) (ValueError ''invalid bundle'')
     (bindr (validate_bundle_manifest (sv_env V) (pget_default ''manifest'' (PDict []) bundle)) (\<lambda>manifest.
      raise_if (\<not> verify_bundle_integrity (sv_env V) bundle None) (ValueError ''bundle parts integrity verification failed'')
      (bindr (digest (sv_env V) (pget ''manifest'' bundle)) (\<lambda>identity.
       bindr (canonical (sv_env V) bundle) (\<lambda>data.
       Inr \<lparr> pb_bundle = bundle, pb_manifest = manifest, pb_identity = identity, pb_data = data, pb_received = received \<rparr>)))))"

definition publish_unlocked ::
  "store_env \<Rightarrow> (nat \<Rightarrow> bool) \<Rightarrow> (nat \<Rightarrow> bool) \<Rightarrow> int \<Rightarrow> string \<Rightarrow> pyval \<Rightarrow> display_store \<Rightarrow> display_store \<times> pyval result" where
  "publish_unlocked V busy fails now received bundle st = (case publication_of V received bundle of
       Inl e \<Rightarrow> (st, Inl e)
     | Inr P \<Rightarrow> if list_all busy [0..<21] then (st, Inl (ValueError ''publish lock contention timeout''))
                 else decide V fails now P st)"

text \<open>\<^verbatim>\<open>publish\<close>: the domain's writer lock is taken around it, unless thread \<open>me\<close> already holds it.\<close>

definition publish ::
  "store_env \<Rightarrow> nat \<Rightarrow> (nat \<Rightarrow> bool) \<Rightarrow> (nat \<Rightarrow> bool) \<Rightarrow> (nat \<Rightarrow> bool) \<Rightarrow> int \<Rightarrow> string \<Rightarrow> pyval \<Rightarrow> display_store
     \<Rightarrow> display_store \<times> pyval result" where
  "publish V me domain_busy busy fails now received bundle st0 =
     (let st = (if st_own_domain st0 then st0\<lparr> st_domain := (st_domain st0)\<lparr> max_bytes := st_max_bytes st0 \<rparr> \<rparr> else st0)
      in if depth (st_domain st) \<noteq> 0 \<and> owner (st_domain st) = Some me
         then publish_unlocked V busy fails now received bundle st
         else if root_link (st_domain st) then (st, Inl (ValueError ''unsafe sync domain root''))
         else case acquire_loop domain_busy 0 of
           Inl e \<Rightarrow> (st, Inl e)
         | Inr _ \<Rightarrow> publish_unlocked V busy fails now received bundle st)"

section \<open>Loading a generation\<close>

definition alias_match :: "store_env \<Rightarrow> display_store \<Rightarrow> bool \<Rightarrow> bool \<Rightarrow> string \<Rightarrow> string \<Rightarrow> pyval option" where
  "alias_match V st seq_alias hash_alias text name = (case file_re name of None \<Rightarrow> None
     | Some (sq, h) \<Rightarrow>
        (if \<not> ((seq_alias \<and> sq = text) \<or> (hash_alias \<and> h = lower (take 16 text))) then None
         else case load_file V st name None of None \<Rightarrow> None
           | Some v \<Rightarrow> (case digest (sv_env V) (pget ''manifest'' v) of Inl _ \<Rightarrow> None
               | Inr identity \<Rightarrow>
                  if (seq_alias \<and> show_int (pointer_seq (pget ''manifest'' v)) = text) \<or> (hash_alias \<and> starts_with (lower text) identity)
                  then Some v else None)))"

definition load_bundle :: "store_env \<Rightarrow> display_store \<Rightarrow> pyval \<Rightarrow> pyval option" where
  "load_bundle V st generation = (case generation of
       PNone \<Rightarrow> (case load_pointer V st latest_link of None \<Rightarrow> None
          | Some p \<Rightarrow> load_file V st (pointer_file p) (Some (as_text (pget ''bundle_id'' p))))
     | _ \<Rightarrow>
        (let text = (case generation of PInt n \<Rightarrow> show_int n | PStr s \<Rightarrow> strip s | _ \<Rightarrow> []);
             seq_alias = all_digits text;
             hash_alias = ((case generation of PInt _ \<Rightarrow> False | _ \<Rightarrow> True) \<and> gen_hash_re text)
         in if \<not> seq_alias \<and> \<not> hash_alias then None
            else (case List.map_filter (alias_match V st seq_alias hash_alias text) (map fst (st_files st)) of
                [v] \<Rightarrow> Some v | _ \<Rightarrow> None)))"

end
