(* ===== verification/Store_Props.thy ===== *)
theory Store_Props
  imports Display_Store Display_Props
begin

text \<open>
  What the generation store guarantees: a published bundle is read back, the pointers survive a
  publication that fails, accepted sequences grow, and the cache never changes an answer.
\<close>

section \<open>Names\<close>

lemma digit_char_is_digit: "n < 10 \<Longrightarrow> is_digit (digit_char n)"
  by (auto simp: is_digit_def digit_char_def less_eq_char_def)

lemma show_nat_all_digits: "list_all is_digit (show_nat n)"
proof (induction n rule: show_nat.induct)
  case (1 n)
  then show ?case by (subst show_nat.simps) (simp add: digit_char_is_digit)
qed

lemma show_nat_hd: "0 < n \<Longrightarrow> hd (show_nat n) \<noteq> CHR ''0''"
proof (induction n rule: show_nat.induct)
  case (1 n)
  show ?case
  proof (cases "n < 10")
    case True
    have "digit_char n \<noteq> digit_char 0" using True 1(2) digit_char_inj [of n 0] by auto
    moreover have "digit_char 0 = CHR ''0''" by code_simp
    ultimately show ?thesis using True by (subst show_nat.simps) simp
  next
    case False
    with 1 show ?thesis by (subst show_nat.simps) simp
  qed
qed

lemma starts_with_append [simp]: "starts_with p (p @ s)"
  by (simp add: starts_with_def)

lemma ends_with_middle: "ends_with p (a @ b @ p)"
  by (simp add: ends_with_def)

lemma drop_take_middle: "length a = 7 \<Longrightarrow> length c = 5 \<Longrightarrow> drop 7 (take (length (a @ b @ c) - 5) (a @ b @ c)) = b"
  by simp

lemma file_re_bundle_file:
  assumes "0 < n" and "hex_string 64 identity"
  shows "file_re (bundle_file n identity) = Some (show_int n, take 16 identity)"
proof -
  have d: "show_int n = show_nat (nat n)" "all_digits (show_int n)" "hd (show_int n) \<noteq> CHR ''0''" "1 \<le> length (show_int n)"
    using assms(1) show_nat_all_digits show_nat_hd [of "nat n"]
    by (auto simp: show_int_def all_digits_def Suc_le_eq)
  have h: "hex_string 16 (take 16 identity)" "length (take 16 identity) = 16" "length identity = 64"
    using assms(2) by (auto simp: hex_string_def list_all_iff dest: in_set_takeD)
  let ?mid = "show_int n @ CHR ''_'' # take 16 identity"
  have name: "bundle_file n identity = ''bundle_'' @ ?mid @ ''.json''" by (simp add: bundle_file_def)
  have mid: "drop 7 (take (length (bundle_file n identity) - 5) (bundle_file n identity)) = ?mid"
    unfolding name by (rule drop_take_middle) simp_all
  have k: "length ?mid - 17 = length (show_int n)" "18 \<le> length ?mid" using h(2) d(4) by simp_all
  have ends: "starts_with ''bundle_'' (bundle_file n identity)" "ends_with ''.json'' (bundle_file n identity)"
    unfolding name by (rule starts_with_append, rule ends_with_middle)
  show ?thesis unfolding file_re_def Let_def mid k(1) using d h k(2) ends by simp
qed

section \<open>Publications\<close>

lemma verify_drop_now: "verify_bundle_integrity E b (Some t) \<Longrightarrow> verify_bundle_integrity E b None"
  by (auto simp: verify_bundle_integrity_def split: pyval.splits sum.splits)

lemma validate_sequence:
  assumes "validate_bundle_manifest E m = Inr r"
  shows "pget ''sequence'' m = PInt (m_sequence r)" and "0 < m_sequence r"
  using assms unfolding validate_bundle_manifest_def by (auto split: if_splits pyval.splits)

definition hex_digests :: "store_env \<Rightarrow> bool" where
  "hex_digests V \<longleftrightarrow> (\<forall>t. hex_string 64 (sha256_hex (sv_env V) t))"

lemma digest_hex: "hex_digests V \<Longrightarrow> digest (sv_env V) v = Inr h \<Longrightarrow> hex_string 64 h"
  by (auto simp: digest_def hex_digests_def)

definition genuine :: "store_env \<Rightarrow> publication \<Rightarrow> bool" where
  "genuine V P \<longleftrightarrow> verify_bundle_integrity (sv_env V) (pb_bundle P) None
     \<and> digest (sv_env V) (pget ''manifest'' (pb_bundle P)) = Inr (pb_identity P)
     \<and> canonical (sv_env V) (pb_bundle P) = Inr (pb_data P)
     \<and> pget ''sequence'' (pget ''manifest'' (pb_bundle P)) = PInt (m_sequence (pb_manifest P)) \<and> 0 < m_sequence (pb_manifest P)"

lemma pget_phas: "pget k v \<noteq> PNone \<Longrightarrow> phas k v"
  by (cases v) (auto split: option.splits)

lemma publication_of_genuine:
  assumes "publication_of V received bundle = Inr P"
  shows "genuine V P \<and> pb_bundle P = bundle"
proof -
  from assms obtain m where v: "validate_bundle_manifest (sv_env V) (pget_default ''manifest'' (PDict []) bundle) = Inr m"
    and P: "verify_bundle_integrity (sv_env V) bundle None" "digest (sv_env V) (pget ''manifest'' bundle) = Inr (pb_identity P)"
      "canonical (sv_env V) bundle = Inr (pb_data P)" "pb_manifest P = m" "pb_bundle P = bundle"
    by (auto simp: publication_of_def)
  have "pget_default ''manifest'' (PDict []) bundle = pget ''manifest'' bundle"
    using P(1) pget_phas [of "''manifest''" "bundle"] by (cases "pget ''manifest'' bundle") (auto simp: verify_bundle_integrity_def pget_default_def)
  with v P validate_sequence show ?thesis by (auto simp: genuine_def)
qed

lemma target_re: "genuine V P \<Longrightarrow> hex_digests V \<Longrightarrow> file_re (pb_target P) = Some (show_int (m_sequence (pb_manifest P)), take 16 (pb_identity P))"
  unfolding pb_target_def by (rule file_re_bundle_file) (auto simp: genuine_def intro: digest_hex)

lemma load_published:
  assumes "genuine V P" and "hex_digests V" and "sv_loads V (pb_data P) = Some (pb_bundle P)"
    and "sfile (pb_target P) st = Some (FRegular (pb_data P))" and "int (length (pb_data P)) \<le> st_max_bytes st"
  shows "load_file V st (pb_target P) (Some (pb_identity P)) = Some (pb_bundle P)"
  using assms target_re [OF assms(1,2)] by (simp add: load_file_def check_bundle_def genuine_def expect_def)

section \<open>Acceptance histories\<close>

fun increasing :: "int \<Rightarrow> acceptance \<Rightarrow> bool" where
  "increasing prev [] = True"
| "increasing prev ((n, i) # h) = (prev < n \<and> hex_string 64 i \<and> increasing n h)"

lemma record_of_val: "hex_string 64 i \<Longrightarrow> record_of (record_val (n, i)) = Some (n, i)"
  by (auto simp: record_of_def record_val_def)

lemma history_from_vals: "increasing prev h \<Longrightarrow> history_from prev (map record_val h) = Inr h"
  by (induction prev h rule: increasing.induct) (auto simp: record_of_val raise_if_def)

lemma history_from_increasing: "history_from prev rs = Inr h \<Longrightarrow> increasing prev h \<and> length h = length rs"
proof (induction prev rs arbitrary: h rule: history_from.induct)
  case (2 prev r rs)
  then obtain n i h' where "record_of r = Some (n, i)" "prev < n" "history_from n rs = Inr h'" "h = (n, i) # h'"
    by (auto split: option.splits)
  moreover have "hex_string 64 i" using calculation(1) by (auto simp: record_of_def split: pyval.splits if_splits)
  ultimately show ?case using "2.IH" by auto
qed simp

lemma increasing_weaken: "increasing n h \<Longrightarrow> m \<le> n \<Longrightarrow> increasing m h"
  by (cases h) auto

lemma increasing_append:
  "increasing prev (h @ [(n, i)]) \<longleftrightarrow> increasing prev h \<and> (if h = [] then prev else fst (last h)) < n \<and> hex_string 64 i"
  by (induction prev h rule: increasing.induct) auto

lemma increasing_drop: "increasing prev h \<Longrightarrow> increasing prev (drop k h)"
proof (induction prev h arbitrary: k rule: increasing.induct)
  case (2 prev n i h)
  have "increasing prev (drop j h)" for j using 2 increasing_weaken [of n "drop j h" prev] by simp
  with 2 show ?case by (cases k) simp_all
qed simp

text \<open>The history of a valid pointer, and that of a new pointer.\<close>

lemma acceptance_history_ok:
  assumes "acceptance_history p = Inr h" and "pget ''bundle_id'' p = PStr i" and "hex_string 64 i"
  shows "increasing 0 h \<and> h \<noteq> [] \<and> fst (last h) = pointer_seq p"
proof -
  obtain n where n: "pget ''sequence'' p = PInt n"
    using assms(1) by (auto simp: acceptance_history_def split: if_splits pyval.splits)
  then have pos: "0 < n" using assms(1) by (auto simp: acceptance_history_def split: if_splits)
  show ?thesis
  proof (cases "\<not> phas ''acceptance_history_version'' p \<and> \<not> phas ''accepted'' p")
    case True
    with assms n pos show ?thesis by (auto simp: acceptance_history_def pointer_seq_def split: if_splits)
  next
    case False
    with assms n pos obtain rs where "rs \<noteq> []" "history_from 0 rs = Inr h" "fst (last h) = n"
      by (auto simp: acceptance_history_def split: if_splits pyval.splits)
    then show ?thesis using history_from_increasing [of 0 rs h] n by (auto simp: pointer_seq_def)
  qed
qed

lemma new_pointer_history:
  assumes "increasing 0 h" and "h = [] \<or> fst (last h) < m_sequence (pb_manifest P)" and "0 < m_sequence (pb_manifest P)"
    and "hex_string 64 (pb_identity P)"
  shows "acceptance_history (new_pointer P h) = Inr (last_n_records (h @ [(m_sequence (pb_manifest P), pb_identity P)]))"
proof -
  let ?h = "h @ [(m_sequence (pb_manifest P), pb_identity P)]"
  have inc: "increasing 0 (last_n_records ?h)"
    unfolding last_n_records_def using assms by (intro increasing_drop) (auto simp: increasing_append)
  have len: "last_n_records ?h \<noteq> []" "length (last_n_records ?h) \<le> acceptance_limit"
    by (auto simp: last_n_records_def acceptance_limit_def)
  have "last (last_n_records ?h) = (m_sequence (pb_manifest P), pb_identity P)"
    unfolding last_n_records_def by (subst last_drop) (auto simp: acceptance_limit_def)
  with inc len assms(3) show ?thesis
    by (simp add: acceptance_history_def new_pointer_def history_from_vals raise_if_def not_less)
qed

section \<open>Files\<close>

lemma sfile_put [simp]: "sfile n (put_file m d st) = (if n = m then Some (FRegular d) else sfile n st)"
  by (simp add: sfile_def put_file_def map_of_dict_set)

lemma sfile_unlink [simp]: "sfile n (unlink m st) = (if n = m then None else sfile n st)"
  by (simp add: sfile_def unlink_def map_of_filter_key)

lemma sfile_fold_unlink [simp]: "sfile n (fold unlink es st) = (if n \<in> set es then None else sfile n st)"
  by (induction es arbitrary: st) auto

lemma store_frame [simp]:
  "st_max_bytes (put_file n d st) = st_max_bytes st" "st_domain (put_file n d st) = st_domain st"
  "st_max_bytes (unlink n st) = st_max_bytes st" "st_domain (unlink n st) = st_domain st"
  by (simp_all add: put_file_def unlink_def)

lemma store_frame_fold [simp]:
  "st_max_bytes (fold unlink es st) = st_max_bytes st" "st_domain (fold unlink es st) = st_domain st"
  by (induction es arbitrary: st) auto

lemma bytes_of_eq: "bytes_of n st = (case sfile n st of None \<Rightarrow> None | Some f \<Rightarrow> Some (fbytes f))"
  by (simp add: bytes_of_def map_option_case)

text \<open>What the store and its domain use, and that no link is among them.\<close>

definition dom_used :: "display_store \<Rightarrow> int" where
  "dom_used st = outside_bytes (st_domain st) + sum_list (map (\<lambda>(_, e). entry_size e) (entries (st_domain st))) + file_bytes st"

definition dom_safe :: "display_store \<Rightarrow> bool" where
  "dom_safe st \<longleftrightarrow> \<not> (root_link (st_domain st) \<or> chunks_link (st_domain st) \<or> outside_link (st_domain st)
     \<or> list_ex (\<lambda>(_, e). entry_link e) (entries (st_domain st)) \<or> list_ex (\<lambda>(_, f). is_flink f) (st_files st))"

lemma used_charged: "used_bytes (charged st) = (if dom_safe st then Inr (dom_used st) else Inl (ValueError ''unsafe sync domain path''))"
  by (auto simp: used_bytes_def charged_def dom_safe_def dom_used_def raise_if_def)

lemma charged_frame [simp]:
  "held_bytes (charged st) = held_bytes (st_domain st)" "max_bytes (charged st) = max_bytes (st_domain st)"
  by (simp_all add: charged_def)

lemma store_reserve_iff:
  "store_reserve extra st = Inr () \<longleftrightarrow>
     0 \<le> extra \<and> dom_safe st \<and> dom_used st + held_bytes (st_domain st) + extra \<le> max_bytes (st_domain st)"
  by (auto simp: store_reserve_def reserve_Inr_iff used_charged)

lemma store_reserve_mono: "store_reserve a st = Inr () \<Longrightarrow> 0 \<le> b \<Longrightarrow> b \<le> a \<Longrightarrow> store_reserve b st = Inr ()"
  by (simp add: store_reserve_iff)

lemma file_size_nonneg: "0 \<le> file_size st n"
  by (simp add: file_size_def split: option.splits)

lemma file_bytes_put: "file_bytes (put_file n d st) = file_bytes st + int (length d) - file_size st n"
  by (simp add: file_bytes_def put_file_def sum_dict_set file_size_def sfile_def split: option.splits)

lemma dom_used_put: "dom_used (put_file n d st) = dom_used st + int (length d) - file_size st n"
  by (simp add: dom_used_def file_bytes_put)

lemma dom_safe_put: "dom_safe st \<Longrightarrow> dom_safe (put_file n d st)"
  by (auto simp: dom_safe_def put_file_def list_ex_iff dest!: in_dict_setD)

lemma put_keeps_reserve:
  assumes "store_reserve extra st = Inr ()" and "int (length d) \<le> extra"
  shows "store_reserve (extra - int (length d)) (put_file n d st) = Inr ()"
  using assms file_size_nonneg [of st n] by (auto simp: store_reserve_iff dom_safe_put dom_used_put)

lemma atomic_reserved:
  assumes "store_reserve extra st = Inr ()" and "int (length d) \<le> extra"
  shows "atomic_store fault n d st = (if fault then (st, Inl (OSError ''write'')) else (put_file n d st, Inr ()))"
  using store_reserve_mono [OF assms(1), of "int (length d)"] assms(2) by (simp add: atomic_store_def)

lemma atomic_result:
  assumes "atomic_store fault n d st = (st', r)"
  shows "(st' = st \<and> isl r) \<or> (st' = put_file n d st \<and> r = Inr ())"
proof (cases "store_reserve (int (length d)) st")
  case (Inl e)
  have "(st, Inl e) = (st', r)" using assms by (simp add: atomic_store_def Inl)
  then show ?thesis by auto
next
  case (Inr u)
  have "(if fault then (st, Inl (OSError ''write'')) else (put_file n d st, Inr ())) = (st', r)"
    using assms by (simp add: atomic_store_def Inr)
  then show ?thesis by (auto split: if_splits)
qed

section \<open>Eviction\<close>

lemma link_names: "file_re latest_link = None" "file_re previous_link = None" "latest_link \<noteq> previous_link"
  by (code_simp, code_simp, code_simp)

lemma evict_loop_subset: "evict_loop st cap t c ns = (es, left) \<Longrightarrow> set es \<subseteq> set ns"
  by (induction st cap t c ns arbitrary: es left rule: evict_loop.induct) (fastforce split: if_splits prod.splits)+

lemma budget_plan_Inr:
  assumes "budget_plan V st target len current extra = Inr es"
  shows "len \<le> st_max_bytes st" and "target \<notin> set es" and "latest_link \<notin> set es" and "previous_link \<notin> set es"
    and "current = Some cur \<Longrightarrow> pointer_file cur \<notin> set es"
proof -
  define count where "count = int (length (bundle_names st)) + (if sfile target st = None then 1 else 0)"
  define cap where "cap = max_bytes (st_domain st)"
  from assms obtain previous used where prev: "previous_pointer V st = Inr previous" and
    ev: "(case evict_loop st cap (used + held_bytes (st_domain st) + extra) count (reclaimable V st target (pointers current previous)) of
           (es, left) \<Rightarrow> raise_if (st_max_bytes st < len \<or> cap < left) (ValueError ''store capacity exceeded'') (Inr es)) = Inr es"
    by (auto simp: budget_plan_def Let_def count_def cap_def)
  then obtain left where "evict_loop st cap (used + held_bytes (st_domain st) + extra) count
      (reclaimable V st target (pointers current previous)) = (es, left)" and len: "len \<le> st_max_bytes st"
    by (auto simp: not_less split: prod.splits)
  then have es: "set es \<subseteq> set (reclaimable V st target (pointers current previous))" by (intro evict_loop_subset)
  have sub: "file_re n \<noteq> None \<and> n \<noteq> target \<and> n \<notin> set (map pointer_file (pointers current previous))" if "n \<in> set es" for n
    using es that by (auto simp: reclaimable_def bundle_names_def)
  show "len \<le> st_max_bytes st" by (rule len)
  show "target \<notin> set es" using sub by blast
  show "latest_link \<notin> set es" "previous_link \<notin> set es" using sub link_names by blast+
  show "pointer_file cur \<notin> set es" if "current = Some cur"
  proof
    assume "pointer_file cur \<in> set es"
    then have "pointer_file cur \<notin> set (map pointer_file (pointers current previous))" using sub by blast
    with that show False by (simp add: pointers_def List.map_filter_def)
  qed
qed

section \<open>Writing a generation\<close>

text \<open>The files of the store after the bundle, after the previous pointer and after the latest pointer.\<close>

definition with_bundle :: "bool \<Rightarrow> publication \<Rightarrow> display_store \<Rightarrow> display_store" where
  "with_bundle created P st = (if created then put_file (pb_target P) (pb_data P) st else st)"

definition with_previous :: "string option \<Rightarrow> display_store \<Rightarrow> display_store" where
  "with_previous cd st = (case cd of None \<Rightarrow> st | Some c \<Rightarrow> put_file previous_link c st)"

definition writes_size :: "bool \<Rightarrow> publication \<Rightarrow> string option \<Rightarrow> string \<Rightarrow> int" where
  "writes_size created P cd pd = (if created then int (length (pb_data P)) else 0) + int (length pd) + opt_length cd"

lemma opt_length_nonneg: "0 \<le> opt_length t"
  by (simp add: opt_length_def split: option.splits)

lemma write_bundle_reserved:
  assumes "store_reserve (writes_size created P cd pd) st = Inr ()"
  shows "write_bundle fails created P st =
      (if created \<and> fails 0 then (st, Inl (OSError ''write'')) else (with_bundle created P st, Inr ()))"
    and "store_reserve (int (length pd) + opt_length cd) (with_bundle created P st) = Inr ()"
proof -
  have le: "created \<Longrightarrow> int (length (pb_data P)) \<le> writes_size created P cd pd"
    using opt_length_nonneg [of cd] by (simp add: writes_size_def)
  show "write_bundle fails created P st =
      (if created \<and> fails 0 then (st, Inl (OSError ''write'')) else (with_bundle created P st, Inr ()))"
    using atomic_reserved [OF assms le] by (simp add: write_bundle_def with_bundle_def)
  show "store_reserve (int (length pd) + opt_length cd) (with_bundle created P st) = Inr ()"
    using put_keeps_reserve [OF assms le, of "pb_target P"] assms by (cases created) (simp_all add: with_bundle_def writes_size_def)
qed

lemma write_previous_reserved:
  assumes "store_reserve (int (length pd) + opt_length cd) st = Inr ()"
  shows "write_previous fails cd st =
      (if cd \<noteq> None \<and> fails 1 then (st, Inl (OSError ''write'')) else (with_previous cd st, Inr ()))"
    and "store_reserve (int (length pd)) (with_previous cd st) = Inr ()"
proof -
  show "write_previous fails cd st =
      (if cd \<noteq> None \<and> fails 1 then (st, Inl (OSError ''write'')) else (with_previous cd st, Inr ()))"
  proof (cases cd)
    case (Some c)
    then have "int (length c) \<le> int (length pd) + opt_length cd" by (simp add: opt_length_def)
    from atomic_reserved [OF assms this] Some show ?thesis by (simp add: write_previous_def with_previous_def)
  qed (simp add: write_previous_def with_previous_def)
  show "store_reserve (int (length pd)) (with_previous cd st) = Inr ()"
  proof (cases cd)
    case (Some c)
    then have "int (length c) \<le> int (length pd) + opt_length cd" by (simp add: opt_length_def)
    from put_keeps_reserve [OF assms this] Some show ?thesis by (simp add: with_previous_def opt_length_def)
  qed (use assms in \<open>simp add: with_previous_def opt_length_def\<close>)
qed

text \<open>Where the writes can stop once their space is reserved, and always by an OSError.\<close>

lemma write_generation_cases:
  assumes run: "write_generation fails created P cd pd st = (st', r)"
    and res: "store_reserve (writes_size created P cd pd) st = Inr ()"
  obtains (untouched) "st' = st" "r = Inl (OSError ''write'')"
  | (previous) "st' = with_bundle created P st" "r = Inl (OSError ''write'')"
  | (latest) "st' = with_previous cd (with_bundle created P st)" "r = Inl (OSError ''write'')"
  | (all) "st' = put_file latest_link pd (with_previous cd (with_bundle created P st))" "r = Inr ()"
proof -
  note b = write_bundle_reserved [OF res] and p = write_previous_reserved [OF write_bundle_reserved(2) [OF res]]
  note l = atomic_reserved [OF p(2) order_refl, of "fails 2" latest_link]
  let ?st1 = "with_bundle created P st"
  have run2: "(case write_previous fails cd ?st1 of (st2, Inl e) \<Rightarrow> (st2, Inl e)
      | (st2, Inr _) \<Rightarrow> atomic_store (fails 2) latest_link pd st2) = (st', r)" if "\<not> (created \<and> fails 0)"
    using run that by (simp add: write_generation_def b(1) del: de_Morgan_conj)
  have run3: "atomic_store (fails 2) latest_link pd (with_previous cd ?st1) = (st', r)"
    if "\<not> (created \<and> fails 0)" "\<not> (cd \<noteq> None \<and> fails 1)"
    using run2 [OF that(1)] unfolding p(1) if_not_P [OF that(2)] by simp
  show ?thesis
  proof (cases "created \<and> fails 0")
    case True
    have "(st, Inl (OSError ''write'')) = (st', r)" using run unfolding write_generation_def b(1) if_P [OF True] by simp
    then show ?thesis by (intro untouched) auto
  next
    case no0: False
    show ?thesis
    proof (cases "cd \<noteq> None \<and> fails 1")
      case True
      have "(?st1, Inl (OSError ''write'')) = (st', r)" using run2 [OF no0] unfolding p(1) if_P [OF True] by simp
      then show ?thesis by (intro previous) auto
    next
      case False
      from run3 [OF no0 False] show ?thesis unfolding l by (cases "fails 2") (auto intro: latest all)
    qed
  qed
qed

section \<open>Rolling back\<close>

lemma restore_same:
  assumes "bytes_of path st = payload" and "is_link path st = False"
  shows "\<exists>st'. restore_pointer fault path payload st = (st', Inr ()) \<and> (\<forall>n. sfile n st' = sfile n st)"
  using assms by (auto simp: restore_pointer_def bytes_of_eq is_link_def split: option.splits)

lemma regular_bytes: "\<not> is_link n st \<Longrightarrow> map_option FRegular (bytes_of n st) = sfile n st"
  by (auto simp: is_link_def bytes_of_eq split: option.splits elim: is_flink.elims)

lemma restore_previous:
  assumes "store_reserve (opt_length payload) st = Inr ()" and "\<not> fault" and "\<not> is_link path st"
  shows "\<exists>st'. restore_pointer fault path payload st = (st', Inr ()) \<and> (\<forall>n. n \<noteq> path \<longrightarrow> sfile n st' = sfile n st)
    \<and> sfile path st' = map_option FRegular payload"
proof (cases payload)
  case None
  then show ?thesis by (auto simp: restore_pointer_def bytes_of_eq)
next
  case (Some old)
  have "atomic_store fault path old st = (put_file path old st, Inr ())"
    using atomic_reserved [OF assms(1), of old] assms(2) Some by (simp add: opt_length_def)
  with Some show ?thesis using regular_bytes [OF assms(3)] by (auto simp: restore_pointer_def bytes_of_eq split: option.splits)
qed

text \<open>After a failed write the roll back gives every reader the store as it was, apart from evicted files.\<close>

definition like_before :: "string \<Rightarrow> bool \<Rightarrow> display_store \<Rightarrow> display_store \<Rightarrow> bool" where
  "like_before target created st st' \<longleftrightarrow> sfile latest_link st' = sfile latest_link st
     \<and> sfile previous_link st' = sfile previous_link st
     \<and> (\<forall>n. n \<noteq> latest_link \<longrightarrow> n \<noteq> previous_link \<longrightarrow> (created \<longrightarrow> n \<noteq> target) \<longrightarrow> sfile n st' = sfile n st)"

lemma rolled_back:
  assumes res: "store_reserve (writes_size created P cd pd) st = Inr ()"
    and gen: "write_generation fails created P cd pd st = (st1, Inl e)"
    and links: "\<not> is_link latest_link st" "\<not> is_link previous_link st"
    and tgt: "pb_target P \<noteq> latest_link" "pb_target P \<noteq> previous_link"
    and rb: "roll_back fails (bytes_of previous_link st) (bytes_of latest_link st) created (pb_target P) e' st1 = (st', r)"
    and "\<not> fails 3"
  shows "like_before (pb_target P) created st st' \<and> r = Inl e' \<and> (created \<longrightarrow> sfile (pb_target P) st' = None)"
proof -
  let ?b = "with_bundle created P st"
  have same_b: "sfile latest_link ?b = sfile latest_link st" "sfile previous_link ?b = sfile previous_link st"
    using tgt by (auto simp: with_bundle_def)
  have resb: "store_reserve (int (length pd) + opt_length cd) ?b = Inr ()" by (rule write_bundle_reserved(2) [OF res])
  have sizes: "opt_length (bytes_of previous_link st) = file_size ?b previous_link"
    using same_b(2) by (simp add: file_size_def bytes_of_eq opt_length_def split: option.splits)
  have prev_res: "cd \<noteq> None \<Longrightarrow> store_reserve (opt_length (bytes_of previous_link st)) (with_previous cd ?b) = Inr ()"
    using resb unfolding sizes by (auto simp: store_reserve_iff with_previous_def dom_used_put dom_safe_put file_size_nonneg opt_length_def)
  have restored: "\<exists>st2. restore_pointer (fails 3) previous_link (bytes_of previous_link st) st1 = (st2, Inr ())
      \<and> sfile previous_link st2 = sfile previous_link st \<and> sfile latest_link st2 = sfile latest_link st
      \<and> (\<forall>n. n \<noteq> previous_link \<longrightarrow> sfile n st2 = sfile n st1)"
    using gen res
  proof (cases rule: write_generation_cases)
    case untouched
    then show ?thesis using restore_same [of previous_link st "bytes_of previous_link st" "fails 3"] links(2)
      by (auto simp: bytes_of_eq)
  next
    case previous
    have "bytes_of previous_link ?b = bytes_of previous_link st" "\<not> is_link previous_link ?b"
      using same_b links(2) by (simp_all add: bytes_of_eq is_link_def)
    then show ?thesis using restore_same [of previous_link ?b "bytes_of previous_link st" "fails 3"] previous(1) same_b
      by (auto simp: bytes_of_eq)
  next
    case latest
    show ?thesis
    proof (cases "cd = None")
      case True
      with latest have "st1 = ?b" by (simp add: with_previous_def)
      moreover have "bytes_of previous_link ?b = bytes_of previous_link st" "\<not> is_link previous_link ?b"
        using same_b links(2) by (simp_all add: bytes_of_eq is_link_def)
      ultimately show ?thesis using restore_same [of previous_link ?b "bytes_of previous_link st" "fails 3"] same_b
        by (auto simp: bytes_of_eq)
    next
      case False
      have "sfile latest_link st1 = sfile latest_link st"
        using latest(1) same_b(1) link_names(3) by (auto simp: with_previous_def split: option.splits)
      moreover have "\<not> is_link previous_link (with_previous cd ?b)" using False by (auto simp: is_link_def with_previous_def)
      from restore_previous [OF prev_res [OF False] \<open>\<not> fails 3\<close> this] obtain st2
        where "restore_pointer (fails 3) previous_link (bytes_of previous_link st) st1 = (st2, Inr ())"
          "\<forall>n. n \<noteq> previous_link \<longrightarrow> sfile n st2 = sfile n st1" "sfile previous_link st2 = sfile previous_link st"
        unfolding latest(1) [symmetric] regular_bytes [OF links(2)] by blast
      ultimately show ?thesis using link_names(3) by auto
    qed
  qed auto
  then obtain st2 where st2: "restore_pointer (fails 3) previous_link (bytes_of previous_link st) st1 = (st2, Inr ())"
    "sfile previous_link st2 = sfile previous_link st" "sfile latest_link st2 = sfile latest_link st"
    "\<And>n. n \<noteq> previous_link \<Longrightarrow> sfile n st2 = sfile n st1" by blast
  have "bytes_of latest_link st2 = bytes_of latest_link st" "is_link latest_link st2 = False"
    using st2(3) links(1) by (simp_all add: bytes_of_eq is_link_def)
  then obtain st3 where st3: "restore_pointer (fails 4) latest_link (bytes_of latest_link st) st2 = (st3, Inr ())"
    "\<And>n. sfile n st3 = sfile n st2" using restore_same by blast
  have fin: "st' = (if created then unlink (pb_target P) st3 else st3)" "r = Inl e'"
    using rb st2(1) st3(1) by (auto simp: roll_back_def)
  have others: "sfile n st1 = sfile n st" if "n \<noteq> latest_link" "n \<noteq> previous_link" "created \<longrightarrow> n \<noteq> pb_target P" for n
    using gen res by (cases rule: write_generation_cases) (use that in \<open>auto simp: with_bundle_def with_previous_def split: option.splits\<close>)
  show ?thesis unfolding like_before_def fin using st2 st3(2) others tgt
    by (auto simp: bytes_of_eq)
qed

section \<open>Activation\<close>

lemma atomic_limits [simp]:
  "st_max_bytes (fst (atomic_store fault n d st)) = st_max_bytes st"
  by (cases "atomic_store fault n d st") (use atomic_result in fastforce)

lemma restore_limits: "st_max_bytes (fst (restore_pointer fault n payload st)) = st_max_bytes st"
  by (simp add: restore_pointer_def split: option.splits)

lemma roll_back_limits:
  "st_max_bytes (fst (roll_back fails p l created target e st)) = st_max_bytes st"
proof -
  obtain st1 r1 where 1: "restore_pointer (fails 3) previous_link p st = (st1, r1)" by fastforce
  obtain st2 r2 where 2: "restore_pointer (fails 4) latest_link l st1 = (st2, r2)" by fastforce
  have "st_max_bytes st1 = st_max_bytes st" "st_max_bytes st2 = st_max_bytes st1"
    using restore_limits [of "fails 3" previous_link p st] restore_limits [of "fails 4" latest_link l st1] 1 2 by simp_all
  with 1 2 show ?thesis by (simp add: roll_back_def split: sum.splits)
qed

lemma write_generation_limits:
  assumes "write_generation fails created P cd pd st = (st', r)" and "store_reserve (writes_size created P cd pd) st = Inr ()"
  shows "st_max_bytes st' = st_max_bytes st"
  using assms by (cases rule: write_generation_cases) (auto simp: with_bundle_def with_previous_def split: option.splits)

text \<open>The three ways an activation can go.\<close>

lemma activate_cases:
  assumes "activate V fails P current cd pd st = (st', r)"
  obtains (planned) e where "st' = st" "r = Inl e"
  | (reserved) es e where "budget_plan V st (pb_target P) (int (length (pb_data P))) current
        (writes_size (sfile (pb_target P) st = None) P cd pd) = Inr es" "st' = fold unlink es st" "r = Inl e"
  | (written) es st1 r1 where "budget_plan V st (pb_target P) (int (length (pb_data P))) current
        (writes_size (sfile (pb_target P) st = None) P cd pd) = Inr es"
      "store_reserve (writes_size (sfile (pb_target P) st = None) P cd pd) (fold unlink es st) = Inr ()"
      "write_generation fails (sfile (pb_target P) st = None) P cd pd (fold unlink es st) = (st1, r1)"
      "(st', r) = (case r1 of Inl e \<Rightarrow> if is_os_error e then roll_back fails (bytes_of previous_link st) (bytes_of latest_link st)
          (sfile (pb_target P) st = None) (pb_target P) e st1 else (st1, Inl e) | Inr _ \<Rightarrow> (st1, Inr (pb_receipt P ''accepted'')))"
proof -
  let ?c = "sfile (pb_target P) st = None"
  let ?x = "writes_size ?c P cd pd"
  note act = assms [unfolded activate_def Let_def, folded writes_size_def]
  show ?thesis
  proof (cases "budget_plan V st (pb_target P) (int (length (pb_data P))) current ?x")
    case (Inl e)
    have "(st, Inl e) = (st', r)" using act unfolding Inl by simp
    then show ?thesis by (intro planned [of e]) auto
  next
    case plan: (Inr es)
    show ?thesis
    proof (cases "store_reserve ?x (fold unlink es st)")
      case (Inl e)
      have "(fold unlink es st, Inl e) = (st', r)" using act unfolding plan sum.case Inl by simp
      then show ?thesis by (intro reserved [OF plan, of e]) auto
    next
      case (Inr u)
      obtain st1 r1 where w: "write_generation fails ?c P cd pd (fold unlink es st) = (st1, r1)" by fastforce
      have "(st', r) = (case r1 of Inl e \<Rightarrow> if is_os_error e then roll_back fails (bytes_of previous_link st) (bytes_of latest_link st)
          ?c (pb_target P) e st1 else (st1, Inl e) | Inr _ \<Rightarrow> (st1, Inr (pb_receipt P ''accepted'')))"
        using act unfolding plan sum.case Inr w prod.case by (cases r1) simp_all
      with plan Inr w show ?thesis by (intro written) simp_all
    qed
  qed
qed

text \<open>A failed activation: pointers and the current generation stay.\<close>

definition reads_kept :: "pyval option \<Rightarrow> display_store \<Rightarrow> display_store \<Rightarrow> bool" where
  "reads_kept current st st' \<longleftrightarrow> sfile latest_link st' = sfile latest_link st \<and> sfile previous_link st' = sfile previous_link st
     \<and> st_max_bytes st' = st_max_bytes st
     \<and> (\<forall>cur. current = Some cur \<longrightarrow> file_re (pointer_file cur) \<noteq> None \<longrightarrow> sfile (pointer_file cur) st \<noteq> None
          \<longrightarrow> sfile (pointer_file cur) st' = sfile (pointer_file cur) st)"

lemma reads_kept_refl [simp]: "reads_kept current st st"
  by (simp add: reads_kept_def)

lemma evicted_kept:
  assumes "budget_plan V st target len current extra = Inr es"
  shows "reads_kept current st (fold unlink es st)"
  using budget_plan_Inr [OF assms] by (auto simp: reads_kept_def)

lemma activate_failed:
  assumes "activate V fails P current cd pd st = (st', Inl e)" and "\<not> fails 3"
    and links: "\<not> is_link latest_link st" "\<not> is_link previous_link st" and tgt: "file_re (pb_target P) \<noteq> None"
  shows "reads_kept current st st'"
  using assms(1)
proof (cases rule: activate_cases)
  case (reserved es e')
  then show ?thesis using evicted_kept by blast
next
  case (written es st1 r1)
  let ?c = "sfile (pb_target P) st = None"
  let ?s = "fold unlink es st"
  have ev: "reads_kept current st ?s" by (rule evicted_kept [OF written(1)])
  have sl: "\<not> is_link latest_link ?s" "\<not> is_link previous_link ?s" "bytes_of previous_link ?s = bytes_of previous_link st"
    "bytes_of latest_link ?s = bytes_of latest_link st"
    using ev links unfolding reads_kept_def is_link_def bytes_of_eq by simp_all
  have tg: "pb_target P \<noteq> latest_link" "pb_target P \<noteq> previous_link" using tgt link_names by metis+
  obtain e1 where r1: "r1 = Inl e1" using written(4) by (cases r1) auto
  have "is_os_error e1" using written(3) written(2) by (cases rule: write_generation_cases) (auto simp: r1)
  with written(4) r1 have rb: "roll_back fails (bytes_of previous_link ?s) (bytes_of latest_link ?s) ?c (pb_target P) e1 st1 = (st', Inl e)"
    by (simp add: sl)
  from rolled_back [OF written(2) written(3)[unfolded r1] sl(1,2) tg rb \<open>\<not> fails 3\<close>]
  have lb: "like_before (pb_target P) ?c ?s st'" by blast
  have "st_max_bytes st' = st_max_bytes ?s"
    using roll_back_limits [of fails "bytes_of previous_link ?s" "bytes_of latest_link ?s" ?c "pb_target P" e1 st1] rb
      write_generation_limits [OF written(3,2)] by simp
  with lb ev link_names show ?thesis unfolding reads_kept_def like_before_def by (metis (no_types, lifting))
qed simp

section \<open>Readers\<close>

lemma load_file_cong:
  "sfile n st' = sfile n st \<Longrightarrow> st_max_bytes st' = st_max_bytes st \<Longrightarrow> load_file V st' n i = load_file V st n i"
  unfolding load_file_def by (simp only:)

lemma load_pointer_SomeD:
  assumes "load_pointer V st path = Some p"
  obtains raw name identity v where "sfile path st = Some (FRegular raw)" "sv_loads V raw = Some p" "pointer_ok V st p"
    "pget ''bundle_file'' p = PStr name" "pget ''bundle_id'' p = PStr identity" "hex_string 64 identity"
    "load_file V st name (Some identity) = Some v" "file_re name \<noteq> None" "sfile name st \<noteq> None"
proof -
  obtain raw where raw: "sfile path st = Some (FRegular raw)" "sv_loads V raw = Some p" "pointer_ok V st p"
    using assms by (auto simp: load_pointer_def split: option.splits fentry.splits if_splits)
  obtain name identity where n: "pget ''bundle_file'' p = PStr name" "pget ''bundle_id'' p = PStr identity"
    using raw(3) by (auto simp: pointer_ok_def split: pyval.splits)
  with raw(3) obtain v where v: "load_file V st name (Some identity) = Some v" "file_re name \<noteq> None" "hex_string 64 identity"
    by (auto simp: pointer_ok_def split: option.splits)
  then have "sfile name st \<noteq> None" by (auto simp: load_file_def split: option.splits)
  with raw n v that show ?thesis by blast
qed

lemma pointer_ok_kept:
  assumes "pget ''bundle_file'' p = PStr name" and "sfile name st' = sfile name st" and "st_max_bytes st' = st_max_bytes st"
  shows "pointer_ok V st' p = pointer_ok V st p"
  using load_file_cong [OF assms(2,3), of V] assms(1) by (simp add: pointer_ok_def split: pyval.splits)

lemma load_bundle_kept:
  assumes cur: "publish_current V st target = Inr current" and kept: "reads_kept current st st'"
  shows "load_bundle V st' PNone = load_bundle V st PNone"
proof (cases current)
  case None
  then have "sfile latest_link st = None" using cur by (auto simp: publish_current_def split: option.splits)
  with kept show ?thesis by (simp add: reads_kept_def load_bundle_def load_pointer_def)
next
  case (Some p)
  then have lp: "load_pointer V st latest_link = Some p" using cur by (auto simp: publish_current_def split: option.splits)
  from lp obtain raw name identity v where p: "sfile latest_link st = Some (FRegular raw)" "sv_loads V raw = Some p"
    "pget ''bundle_file'' p = PStr name" "file_re name \<noteq> None" "sfile name st \<noteq> None" by (rule load_pointer_SomeD)
  have fl: "pointer_file p = name" using p(3) by (simp add: pointer_file_def)
  with kept Some p have same: "sfile name st' = sfile name st" "st_max_bytes st' = st_max_bytes st" "sfile latest_link st' = sfile latest_link st"
    by (auto simp: reads_kept_def)
  from lp same(3) p pointer_ok_kept [OF p(3) same(1,2)] have "load_pointer V st' latest_link = Some p"
    by (simp add: load_pointer_def split: if_splits)
  with lp fl load_file_cong [OF same(1,2)] show ?thesis by (simp add: load_bundle_def)
qed

lemma restore_old_kept:
  assumes "restore_old V fails P cur history st = (st', r)" and tgt: "file_re (pb_target P) \<noteq> None"
  shows "reads_kept (Some cur) st st'"
proof (cases "st' = st")
  case False
  then obtain es where es: "sfile (pb_target P) st = None"
      "budget_plan V st (pb_target P) (int (length (pb_data P))) (Some cur) (int (length (pb_data P))) = Inr es"
    using assms(1) by (auto simp: restore_old_def split: if_splits sum.splits)
  let ?s = "fold unlink es st"
  have tg: "pb_target P \<noteq> latest_link" "pb_target P \<noteq> previous_link" using tgt link_names by metis+
  obtain st2 r2 where a: "atomic_store (fails 0) (pb_target P) (pb_data P) ?s = (st2, r2)" by fastforce
  have "st' \<in> {st, ?s, st2, unlink (pb_target P) st2}"
    using assms(1) es a by (auto simp: restore_old_def Let_def split: if_splits sum.splits py_error.splits)
  with False atomic_result [OF a] have "st' \<in> {?s, put_file (pb_target P) (pb_data P) ?s, unlink (pb_target P) ?s,
      unlink (pb_target P) (put_file (pb_target P) (pb_data P) ?s)}" by auto
  then show ?thesis using evicted_kept [OF es(2)] es(1) tg by (auto simp: reads_kept_def)
qed simp

lemma decide_failed:
  assumes run: "decide V fails now P st = (st', Inl e)" and "\<not> fails 3" and tgt: "file_re (pb_target P) \<noteq> None"
  shows "load_bundle V st' PNone = load_bundle V st PNone"
proof (cases "st' = st")
  case False
  then obtain current history where ch: "publish_current V st (pb_target P) = Inr current"
      "publish_history V st current = Inr history"
    using run by (auto simp: decide_def bindr_def split: sum.splits)
  have links: "\<not> is_link latest_link st" "\<not> is_link previous_link st" using ch(1) by (auto simp: publish_current_def)
  have new: "reads_kept current st st'" if act: "activate_new V fails now P current history st = (st', Inl e)"
  proof -
    obtain cd pd where run1: "activate V fails P current cd pd st = (st', Inl e)"
      using act False by (auto simp: activate_new_def split: if_splits sum.splits prod.splits)
    show ?thesis by (rule activate_failed [OF run1 \<open>\<not> fails 3\<close> links tgt])
  qed
  have "reads_kept current st st'"
    using run ch new restore_old_kept [OF _ tgt, of V fails _ history st st'] False
    by (cases current) (auto simp: decide_def split: if_splits)
  from load_bundle_kept [OF ch(1) this] show ?thesis .
qed simp

section \<open>Accepted generations\<close>

lemma activate_accepted:
  assumes act: "activate V fails P current cd pd st = (st', Inr r)"
    and old: "case bytes_of (pb_target P) st of Some b \<Rightarrow> b = pb_data P | None \<Rightarrow> True" and link: "\<not> is_link (pb_target P) st"
    and tgt: "file_re (pb_target P) \<noteq> None"
  shows "r = pb_receipt P ''accepted'' \<and> sfile latest_link st' = Some (FRegular pd) \<and> sfile (pb_target P) st' = Some (FRegular (pb_data P))
    \<and> int (length (pb_data P)) \<le> st_max_bytes st' \<and> st_max_bytes st' = st_max_bytes st
    \<and> (\<forall>c. cd = Some c \<longrightarrow> sfile previous_link st' = Some (FRegular c))"
  using act
proof (cases rule: activate_cases)
  case (written es st1 r1)
  let ?c = "sfile (pb_target P) st = None"
  have tg: "pb_target P \<noteq> latest_link" "pb_target P \<noteq> previous_link" using tgt link_names by metis+
  note plan = budget_plan_Inr [OF written(1)]
  have "r1 = Inr ()"
  proof (cases r1)
    case (Inl e)
    with written(4) have "(st', Inr r) = (if is_os_error e then roll_back fails (bytes_of previous_link st) (bytes_of latest_link st)
          ?c (pb_target P) e st1 else (st1, Inl e))" by simp
    then show ?thesis by (auto simp: roll_back_def split: if_splits prod.splits sum.splits)
  qed simp
  with written(3,2) have st1: "st1 = put_file latest_link pd (with_previous cd (with_bundle ?c P (fold unlink es st)))"
    by (cases rule: write_generation_cases) simp_all
  have st': "st' = st1" "r = pb_receipt P ''accepted''" using written(4) \<open>r1 = Inr ()\<close> by simp_all
  have "sfile (pb_target P) (with_bundle ?c P (fold unlink es st)) = Some (FRegular (pb_data P))"
    using plan(2) old regular_bytes [OF link] by (auto simp: with_bundle_def split: option.splits)
  then have "sfile (pb_target P) st1 = Some (FRegular (pb_data P))"
    unfolding st1 using tg by (auto simp: with_previous_def split: option.splits)
  moreover have "st_max_bytes st1 = st_max_bytes st" by (auto simp: st1 with_bundle_def with_previous_def split: option.splits)
  ultimately show ?thesis using st' plan(1) link_names(3) by (auto simp: st1 with_previous_def)
qed simp_all

lemma publish_history_ok:
  assumes h: "publish_history V st current = Inr h" and cur: "publish_current V st target = Inr current"
  shows "increasing 0 h \<and> (case current of None \<Rightarrow> h = [] | Some c \<Rightarrow> h \<noteq> [] \<and> fst (last h) = pointer_seq c)"
proof (cases current)
  case None
  with h show ?thesis by (simp add: publish_history_def)
next
  case (Some c)
  then have lp: "load_pointer V st latest_link = Some c" using cur by (auto simp: publish_current_def split: option.splits)
  obtain i where i: "pget ''bundle_id'' c = PStr i" "hex_string 64 i" using lp by (rule load_pointer_SomeD)
  from h Some obtain h0 where h0: "acceptance_history c = Inr h0" by (auto simp: publish_history_def)
  note ok = acceptance_history_ok [OF h0 i]
  show ?thesis
  proof (cases "h = h0")
    case False
    with h Some h0 obtain p where p: "load_pointer V st previous_link = Some p" "pointer_seq p < pointer_seq c"
      "h = (pointer_seq p, as_text (pget ''bundle_id'' p)) # h0" "\<not> phas ''acceptance_history_version'' c"
      by (auto simp: publish_history_def split: if_splits option.splits)
    obtain j where j: "pget ''bundle_id'' p = PStr j" "hex_string 64 j" "pointer_ok V st p" using p(1) by (rule load_pointer_SomeD)
    then have "\<not> isl (acceptance_history p)" by (auto simp: pointer_ok_def split: pyval.splits)
    then obtain hp where "acceptance_history p = Inr hp" by (cases "acceptance_history p") auto
    then have pos: "0 < pointer_seq p" by (auto simp: acceptance_history_def pointer_seq_def split: if_splits pyval.splits)
    have "h0 = [(pointer_seq c, i)]" using h0 p(4) i pget_phas [of "''acceptance_history_version''" c]
      by (auto simp: acceptance_history_def acceptance_version_def pointer_seq_def split: if_splits pyval.splits)
    with p(2,3) pos j i Some show ?thesis by simp
  qed (use ok Some in simp)
qed

text \<open>The pointer a publication writes, and that the parser gives a value back from its canonical text.\<close>

definition written_pointer :: "store_env \<Rightarrow> string \<Rightarrow> pyval \<Rightarrow> display_store \<Rightarrow> pyval" where
  "written_pointer V received bundle st = (case publication_of V received bundle of
       Inl _ \<Rightarrow> PNone
     | Inr P \<Rightarrow> (case bindr (publish_current V st (pb_target P)) (publish_history V st) of
         Inl _ \<Rightarrow> PNone | Inr h \<Rightarrow> new_pointer P h))"

definition parses :: "store_env \<Rightarrow> pyval \<Rightarrow> bool" where
  "parses V v = (case canonical (sv_env V) v of Inl _ \<Rightarrow> False | Inr t \<Rightarrow> sv_loads V t = Some v)"

lemma load_new_generation:
  assumes gen: "genuine V P" "hex_digests V" "parses V (pb_bundle P)"
    and hist: "increasing 0 h" "h = [] \<or> fst (last h) < m_sequence (pb_manifest P)"
    and ptr: "canonical (sv_env V) (new_pointer P h) = Inr pd" "int (length pd) \<le> 65536" "parses V (new_pointer P h)"
    and st: "sfile latest_link st = Some (FRegular pd)" "sfile (pb_target P) st = Some (FRegular (pb_data P))"
      "int (length (pb_data P)) \<le> st_max_bytes st"
  shows "load_bundle V st PNone = Some (pb_bundle P)"
proof -
  have hex: "hex_string 64 (pb_identity P)" using gen(1,2) digest_hex by (auto simp: genuine_def)
  have "sv_loads V (pb_data P) = Some (pb_bundle P)" using gen by (auto simp: genuine_def parses_def)
  from load_published [OF gen(1,2) this st(2,3)]
  have lf: "load_file V st (pb_target P) (Some (pb_identity P)) = Some (pb_bundle P)" .
  have fields: "pget ''bundle_file'' (new_pointer P h) = PStr (pb_target P)" "pget ''bundle_id'' (new_pointer P h) = PStr (pb_identity P)"
    "pget ''sequence'' (new_pointer P h) = PInt (m_sequence (pb_manifest P))" "is_dict (new_pointer P h)"
    "pget ''generated_at'' (new_pointer P h) = pget ''generated_at'' (pget ''manifest'' (pb_bundle P))"
    "pget ''expires_at'' (new_pointer P h) = pget ''expires_at'' (pget ''manifest'' (pb_bundle P))"
    by (simp_all add: new_pointer_def)
  have seq: "0 < m_sequence (pb_manifest P)" "pget ''sequence'' (pget ''manifest'' (pb_bundle P)) = PInt (m_sequence (pb_manifest P))"
    using gen(1) by (simp_all add: genuine_def)
  have "pointer_ok V st (new_pointer P h)"
    using lf hex fields seq target_re [OF gen(1,2)] new_pointer_history [OF hist seq(1) hex] by (simp add: pointer_ok_def)
  moreover have "sv_loads V pd = Some (new_pointer P h)" using ptr by (simp add: parses_def)
  ultimately have "load_pointer V st latest_link = Some (new_pointer P h)"
    using st(1) ptr(2) fields(4) by (simp add: load_pointer_def)
  with lf fields show ?thesis by (simp add: load_bundle_def pointer_file_def)
qed

lemma accepted_status: "pget ''status'' (pb_receipt P s) = PStr s"
  by (simp add: pb_receipt_def receipt_def)

lemma restore_old_status: "restore_old V fails P cur h st = (st', Inr r) \<Longrightarrow> r = pb_receipt P ''already_accepted''"
  by (auto simp: restore_old_def Let_def split: if_splits sum.splits prod.splits py_error.splits)

lemma decide_accepted:
  assumes run: "decide V fails now P st = (st', Inr r)" and acc: "pget ''status'' r = PStr ''accepted''"
    and gen: "genuine V P" "hex_digests V" "parses V (pb_bundle P)"
    and ptr: "\<And>current h. publish_current V st (pb_target P) = Inr current \<Longrightarrow> publish_history V st current = Inr h \<Longrightarrow> parses V (new_pointer P h)"
  shows "load_bundle V st' PNone = Some (pb_bundle P)"
proof -
  obtain current h where ch: "publish_current V st (pb_target P) = Inr current" "publish_history V st current = Inr h"
    using run by (auto simp: decide_def bindr_def split: sum.splits)
  have new: "activate_new V fails now P current h st = (st', Inr r)"
    and later: "\<And>c. current = Some c \<Longrightarrow> pointer_seq c < m_sequence (pb_manifest P)"
    using run ch acc accepted_status [of P "''already_accepted''"] restore_old_status [of V fails P _ h st st' r]
    by (cases current; auto simp: decide_def split: if_splits)+
  have ok: "\<not> (case bytes_of (pb_target P) st of Some b \<Rightarrow> b \<noteq> pb_data P | None \<Rightarrow> False)"
    using new by (auto simp: activate_new_def split: if_splits)
  obtain pd cd where pd: "canonical (sv_env V) (new_pointer P h) = Inr pd" "int (length pd) \<le> 65536"
      "activate V fails P current cd pd st = (st', Inr r)"
    using new by (auto simp: activate_new_def not_less split: if_splits sum.splits prod.splits option.splits)
  have tgt: "file_re (pb_target P) \<noteq> None" using target_re [OF gen(1,2)] by simp
  have "\<not> is_link (pb_target P) st" using ch(1) by (auto simp: publish_current_def)
  from activate_accepted [OF pd(3) _ this tgt] ok
  have st': "sfile latest_link st' = Some (FRegular pd)" "sfile (pb_target P) st' = Some (FRegular (pb_data P))"
    "int (length (pb_data P)) \<le> st_max_bytes st'" by (auto split: option.splits)
  have "increasing 0 h" "h = [] \<or> fst (last h) < m_sequence (pb_manifest P)"
    using publish_history_ok [OF ch(2,1)] later by (auto split: option.splits)
  from load_new_generation [OF gen this pd(1,2) ptr [OF ch] st'] show ?thesis .
qed

section \<open>The whole publication\<close>

lemma domain_frame [simp]:
  "sfile n (st\<lparr> st_domain := d \<rparr>) = sfile n st" "is_link n (st\<lparr> st_domain := d \<rparr>) = is_link n st"
  by (simp_all add: sfile_def is_link_def)

lemma load_file_domain [simp]: "load_file V (st\<lparr> st_domain := d \<rparr>) n i = load_file V st n i"
  by (rule load_file_cong) simp_all

lemma pointer_ok_domain [simp]: "pointer_ok V (st\<lparr> st_domain := d \<rparr>) p = pointer_ok V st p"
  unfolding pointer_ok_def load_file_domain by (rule refl)

lemma load_pointer_domain [simp]: "load_pointer V (st\<lparr> st_domain := d \<rparr>) n = load_pointer V st n"
  unfolding load_pointer_def pointer_ok_domain domain_frame by (rule refl)

lemma publish_domain [simp]:
  "publish_current V (st\<lparr> st_domain := d \<rparr>) t = publish_current V st t"
  "publish_history V (st\<lparr> st_domain := d \<rparr>) c = publish_history V st c"
  "load_bundle V (st\<lparr> st_domain := d \<rparr>) PNone = load_bundle V st PNone"
  unfolding publish_current_def publish_history_def load_bundle_def load_pointer_domain load_file_domain domain_frame by simp_all

lemma publish_cases:
  assumes "publish V me dbusy busy fails now received bundle st = (st', r)"
  obtains (refused) d e where "st' = st\<lparr> st_domain := d \<rparr>" "r = Inl e"
  | (decided) d P where "publication_of V received bundle = Inr P" "decide V fails now P (st\<lparr> st_domain := d \<rparr>) = (st', r)"
proof -
  obtain d where d: "(if st_own_domain st then st\<lparr> st_domain := (st_domain st)\<lparr> max_bytes := st_max_bytes st \<rparr> \<rparr> else st) = st\<lparr> st_domain := d \<rparr>"
    by (cases "st_own_domain st") (force, metis display_store.surjective display_store.update_convs(5))
  have "(\<exists>e. st' = st\<lparr> st_domain := d \<rparr> \<and> r = Inl e) \<or> publish_unlocked V busy fails now received bundle (st\<lparr> st_domain := d \<rparr>) = (st', r)"
    using assms unfolding publish_def Let_def d by (auto split: if_splits sum.splits)
  moreover have "(\<exists>e. st' = st\<lparr> st_domain := d \<rparr> \<and> r = Inl e)
      \<or> (\<exists>P. publication_of V received bundle = Inr P \<and> decide V fails now P (st\<lparr> st_domain := d \<rparr>) = (st', r))"
    if "publish_unlocked V busy fails now received bundle (st\<lparr> st_domain := d \<rparr>) = (st', r)"
    using that unfolding publish_unlocked_def by (auto split: if_splits sum.splits)
  ultimately show ?thesis using refused decided by blast
qed

text \<open>C12: a publication that fails, at any check or at any of its file writes, is invisible to readers: the
  latest generation they load is the one they loaded before, provided the one write of the rollback that
  restores the previous pointer succeeds.\<close>

theorem failed_publication_invisible:
  assumes "publish V me dbusy busy fails now received bundle st = (st', Inl e)" and "hex_digests V" and "\<not> fails 3"
  shows "load_bundle V st' PNone = load_bundle V st PNone"
  using assms(1)
proof (cases rule: publish_cases)
  case (decided d P)
  have "file_re (pb_target P) \<noteq> None" using target_re publication_of_genuine [OF decided(1)] assms(2) by auto
  from decide_failed [OF decided(2) assms(3) this] show ?thesis by simp
qed simp

text \<open>C11: an accepted publication is read back: when a publication is accepted, loading the latest
  generation gives exactly the published bundle, whatever the store held before and whatever was evicted.
  The parser is assumed to give back the two published values from their canonical texts, and digests to be
  64 lower case hexadecimal digits.\<close>

theorem accepted_publication_roundtrip:
  assumes "publish V me dbusy busy fails now received bundle st = (st', Inr r)" and "pget ''status'' r = PStr ''accepted''"
    and "hex_digests V" and "parses V bundle" and "parses V (written_pointer V received bundle st)"
  shows "load_bundle V st' PNone = Some bundle"
  using assms(1)
proof (cases rule: publish_cases)
  case (decided d P)
  note P = publication_of_genuine [OF decided(1)]
  have "parses V (new_pointer P h)" if "publish_current V st (pb_target P) = Inr current" "publish_history V st current = Inr h" for current h
    using assms(5) that decided(1) by (simp add: written_pointer_def)
  with decide_accepted [OF decided(2) assms(2)] P assms(3,4) show ?thesis by simp
qed simp

section \<open>The cache\<close>

text \<open>\<open>content\<close> gives the bytes a file had under a stamp; what is cached was checked on them.\<close>

definition cached_ok :: "store_env \<Rightarrow> (string \<times> int \<Rightarrow> string) \<Rightarrow> (string \<times> int) \<times> (pyval \<times> string) \<Rightarrow> bool" where
  "cached_ok V content x = (case file_re (fst (fst x)) of None \<Rightarrow> False
     | Some groups \<Rightarrow> check_bundle V groups (content (fst x)) = Some (snd x))"

definition cache_ok :: "store_env \<Rightarrow> (string \<times> int \<Rightarrow> string) \<Rightarrow> bundle_cache \<Rightarrow> bool" where
  "cache_ok V content c \<longleftrightarrow> list_all (cached_ok V content) c"

text \<open>C13: the cache never changes an answer. As long as a file's identity stamp determines its bytes, loading
  through the cache returns what checking the file afresh returns, the cache stays consistent, and it keeps at
  most as many bundles as it may.\<close>

theorem cached_load_is_load:
  assumes "cache_ok V content c" and "\<And>raw. sfile name st = Some (FRegular raw) \<Longrightarrow> content (name, stamp name) = raw"
    and "length c \<le> cap"
  shows "snd (load_file_cached V cap stamp st name i c) = load_file V st name i
    \<and> cache_ok V content (fst (load_file_cached V cap stamp st name i c))
    \<and> length (fst (load_file_cached V cap stamp st name i c)) \<le> cap"
proof (cases "\<exists>groups raw. file_re name = Some groups \<and> sfile name st = Some (FRegular raw) \<and> \<not> st_max_bytes st < int (length raw)")
  case False
  then show ?thesis using assms by (auto simp: load_file_cached_def load_file_def split: option.splits fentry.splits)
next
  case True
  then obtain groups raw where f: "file_re name = Some groups" "sfile name st = Some (FRegular raw)"
    "\<not> st_max_bytes st < int (length raw)" by blast
  let ?key = "(name, stamp name)"
  have raw: "content ?key = raw" using assms(2) f(2) by blast
  show ?thesis
  proof (cases "if cap = 0 then None else map_of c ?key")
    case (Some entry)
    then have mem: "(?key, entry) \<in> set c" by (auto split: if_splits dest: map_of_SomeD)
    with assms(1) have "cached_ok V content (?key, entry)" by (auto simp: cache_ok_def list_all_iff)
    with f(1) raw have "check_bundle V groups raw = Some entry" by (simp add: cached_ok_def)
    moreover have "length (filter (\<lambda>(k, _). k \<noteq> ?key) c) < length c" using mem by (intro length_filter_less) auto
    moreover have "cache_ok V content (cache_touch ?key entry c)" using assms(1) mem by (auto simp: cache_ok_def cache_touch_def list_all_iff)
    ultimately show ?thesis using Some f assms(3) by (simp add: load_file_cached_def load_file_def Let_def cache_touch_def)
  next
    case None
    show ?thesis
    proof (cases "check_bundle V groups raw")
      case miss: None
      show ?thesis using assms f miss by (simp only: load_file_cached_def load_file_def option.case fentry.case Let_def None if_False) (simp add: expect_def)
    next
      case (Some entry)
      then have "cached_ok V content (?key, entry)" using f(1) raw by (simp add: cached_ok_def)
      then have "cache_ok V content (cache_put cap ?key entry c)" using assms(1)
        by (auto simp: cache_ok_def cache_put_def Let_def list_all_iff dest!: in_set_dropD)
      moreover have "length (cache_put cap ?key entry c) \<le> cap" using assms(3) by (auto simp: cache_put_def Let_def)
      ultimately show ?thesis using f Some
        by (simp only: load_file_cached_def load_file_def option.case fentry.case Let_def None if_False) simp
    qed
  qed
qed

section \<open>Witnesses\<close>

definition empty_store :: display_store where
  "empty_store = \<lparr> st_files = [], st_max_bytes = 100000, st_max_generations = 20, st_own_domain = True,
     st_domain = \<lparr> entries = [], root_link = False, chunks_link = False, outside_bytes = 0, outside_link = False,
       max_bytes = 100000, depth = 0, held_bytes = 0, owner = None \<rparr> \<rparr>"

definition small_bundle :: pyval where
  "small_bundle = PDict [
     (''manifest'', PDict [(''actionable'', PBool False), (''code_sha'', PStr ''abcdef1''), (''config_hash'', PStr sample_hash),
        (''contract_version'', PStr ''local-display-v2''), (''expires_at'', PStr ''T1''), (''generated_at'', PStr ''T0''),
        (''parts_hashes'', PDict [(''charts'', PStr sample_hash), (''details'', PStr sample_hash), (''overview'', PStr sample_hash),
           (''sectors'', PStr sample_hash)]), (''sequence'', PInt 7), (''universe'', PList [PStr ''510300.SH''])]),
     (''parts'', PDict [(''charts'', PDict []), (''details'', PDict []), (''overview'', PDict []), (''sectors'', PDict [])])]"

definition small_pointer :: pyval where
  "small_pointer = PDict [(''accepted'', PList [PDict [(''bundle_id'', PStr sample_hash), (''sequence'', PInt 7)]]),
     (''acceptance_history_version'', PStr ''local-acceptance-v1''), (''bundle_file'', PStr ''bundle_7_aaaaaaaaaaaaaaaa.json''),
     (''bundle_id'', PStr sample_hash), (''expires_at'', PStr ''T1''), (''generated_at'', PStr ''T0''), (''sequence'', PInt 7)]"

text \<open>A parser for just these two texts, told apart by their third character.\<close>

definition sample_store_env :: store_env where
  "sample_store_env = \<lparr> sv_env = sample_env, sv_loads = (\<lambda>t. Some (if t ! 2 = CHR ''a'' then small_pointer else small_bundle)) \<rparr>"

definition sample_publish :: "(nat \<Rightarrow> bool) \<Rightarrow> display_store \<times> pyval result" where
  "sample_publish fails = publish sample_store_env 1 (\<lambda>_. False) (\<lambda>_. False) fails (shanghai_instant 20000 (hhmm 10 0)) ''T0'' small_bundle empty_store"

lemma sample_hex: "hex_digests sample_store_env"
proof -
  have "hex_string 64 sample_hash" by code_simp
  then show ?thesis by (simp add: hex_digests_def sample_store_env_def sample_env_def)
qed

lemma sample_parses: "parses sample_store_env small_bundle"
  "parses sample_store_env (written_pointer sample_store_env ''T0'' small_bundle empty_store)"
  by (code_simp, code_simp)

lemma sample_accepted: "(case snd (sample_publish (\<lambda>_. False)) of Inl e \<Rightarrow> PNone | Inr r \<Rightarrow> pget ''status'' r) = PStr ''accepted''"
  by code_simp

theorem accepted_publication_roundtrip_witness:
  "load_bundle sample_store_env (fst (sample_publish (\<lambda>_. False))) PNone = Some small_bundle"
proof -
  obtain st' r where run: "sample_publish (\<lambda>_. False) = (st', r)" by fastforce
  obtain v where v: "r = Inr v"
  proof (cases r)
    case (Inl e)
    show ?thesis using sample_accepted by (simp add: run Inl)
  qed
  have "pget ''status'' v = PStr ''accepted''" using sample_accepted by (simp add: run v)
  from accepted_publication_roundtrip [OF run [unfolded sample_publish_def v] this sample_hex sample_parses] show ?thesis by (simp add: run)
qed

lemma sample_fails: "(case snd (sample_publish (\<lambda>k. k = 2)) of Inl e \<Rightarrow> is_os_error e | Inr r \<Rightarrow> False)"
  by code_simp

theorem failed_publication_invisible_witness:
  "isl (snd (sample_publish (\<lambda>k. k = 2)))
    \<and> load_bundle sample_store_env (fst (sample_publish (\<lambda>k. k = 2))) PNone = load_bundle sample_store_env empty_store PNone"
proof -
  obtain st' r where run: "sample_publish (\<lambda>k. k = 2) = (st', r)" by fastforce
  obtain e where e: "r = Inl e"
  proof (cases r)
    case (Inr v)
    show ?thesis using sample_fails by (simp add: run Inr)
  qed
  from failed_publication_invisible [OF run [unfolded sample_publish_def e] sample_hex] show ?thesis by (simp add: run e)
qed

definition small_text :: string where
  "small_text = projr (canonical sample_env small_bundle)"

definition sample_name :: string where
  "sample_name = bundle_file 7 sample_hash"

definition sample_full_store :: display_store where
  "sample_full_store = put_file sample_name small_text empty_store"

theorem cached_load_is_load_witness:
  "snd (load_file_cached sample_store_env 2 (\<lambda>_. 0) sample_full_store sample_name None []) = load_file sample_store_env sample_full_store sample_name None
    \<and> length (fst (load_file_cached sample_store_env 2 (\<lambda>_. 0) sample_full_store sample_name None [])) \<le> 2"
proof -
  have "cache_ok sample_store_env (\<lambda>_. small_text) []" by (simp add: cache_ok_def)
  moreover have "small_text = raw" if "sfile sample_name sample_full_store = Some (FRegular raw)" for raw
    using that by (simp add: sample_full_store_def)
  ultimately show ?thesis
    using cached_load_is_load [of sample_store_env "\<lambda>_. small_text" "[]" sample_name sample_full_store "\<lambda>_. 0" 2 None] by simp
qed

end
