(* ===== verification/Display_Reader.thy ===== *)
theory Display_Reader
  imports Store_Props
begin

text \<open>
  What the page asks of a stored generation: \<^verbatim>\<open>LocalDisplayReader\<close> and the freshness
  functions of \<^verbatim>\<open>app/workspace/local_display_read.py\<close>.

  A reader is a store with the identity of the running code; every read takes the clock, in
  microseconds, as an argument. A generation is what the caller passes: nothing, a number or a
  text. Views whose keys are fixed are records; those that spread a published dict over their own
  keys are values. A published value comes out of JSON, so it holds no datetime object, and the
  read path never writes: a copy is the value itself.
\<close>

section \<open>Python on published values\<close>

text \<open>\<^verbatim>\<open>v.get(k, dflt)\<close> of a value that need not be a dict.\<close>

definition getd :: "string \<Rightarrow> pyval \<Rightarrow> pyval \<Rightarrow> pyval result" where
  "getd k dflt v = (if is_dict v then Inr (pget_default k dflt v) else Inl (AttributeError ''get''))"

text \<open>\<^verbatim>\<open>{**v, **new}\<close>.\<close>

definition spread :: "pyval \<Rightarrow> (string \<times> pyval) list \<Rightarrow> pyval result" where
  "spread v new = (case v of PDict d \<Rightarrow> Inr (PDict (dict_update new d)) | _ \<Rightarrow> Inl (TypeError ''not a mapping''))"

text \<open>\<^verbatim>\<open>for x in v\<close>.\<close>

fun py_iter :: "pyval \<Rightarrow> pyval list result" where
  "py_iter (PList xs) = Inr xs"
| "py_iter (PDict d) = Inr (map (\<lambda>(k, _). PStr k) d)"
| "py_iter (PStr s) = Inr (map (\<lambda>c. PStr [c]) s)"
| "py_iter _ = Inl (TypeError ''not iterable'')"

text \<open>\<^verbatim>\<open>dict(v)\<close> of a dict, or of pairs with text keys.\<close>

definition pair_of :: "pyval \<Rightarrow> (string \<times> pyval) result" where
  "pair_of v = bindr (py_iter v) (\<lambda>xs. case xs of
       [PStr k, x] \<Rightarrow> Inr (k, x)
     | [_, _] \<Rightarrow> Inl (TypeError ''key is not a text'')
     | _ \<Rightarrow> Inl (ValueError ''dictionary update sequence''))"

definition py_dict :: "pyval \<Rightarrow> pyval result" where
  "py_dict v = (case v of PDict d \<Rightarrow> Inr v
     | _ \<Rightarrow> bindr (py_iter v) (\<lambda>xs. bindr (mapr pair_of xs) (\<lambda>ps. Inr (PDict (dict_update ps [])))))"

text \<open>\<^verbatim>\<open>xs[a:b]\<close>: a negative bound counts from the end.\<close>

definition slice_bound :: "int \<Rightarrow> int \<Rightarrow> nat" where
  "slice_bound len a = nat (if a < 0 then max 0 (a + len) else min a len)"

definition py_slice :: "int \<Rightarrow> int \<Rightarrow> 'a list \<Rightarrow> 'a list" where
  "py_slice a b xs = (let i = slice_bound (int (length xs)) a; j = slice_bound (int (length xs)) b
     in take (j - i) (drop i xs))"

definition slice_from :: "int \<Rightarrow> 'a list \<Rightarrow> 'a list" where
  "slice_from a xs = drop (slice_bound (int (length xs)) a) xs"

fun py_len :: "pyval \<Rightarrow> int result" where
  "py_len (PList xs) = Inr (int (length xs))"
| "py_len (PDict d) = Inr (int (length d))"
| "py_len (PStr s) = Inr (int (length s))"
| "py_len _ = Inl (TypeError ''object has no len()'')"

text \<open>\<^verbatim>\<open>v[a:]\<close> and \<^verbatim>\<open>v[:b]\<close> of a value.\<close>

fun val_from :: "int \<Rightarrow> pyval \<Rightarrow> pyval result" where
  "val_from a (PList xs) = Inr (PList (slice_from a xs))"
| "val_from a (PStr s) = Inr (PStr (slice_from a s))"
| "val_from a _ = Inl (TypeError ''not subscriptable'')"

fun val_upto :: "int \<Rightarrow> pyval \<Rightarrow> pyval result" where
  "val_upto b (PList xs) = Inr (PList (py_slice 0 b xs))"
| "val_upto b (PStr s) = Inr (PStr (py_slice 0 b s))"
| "val_upto b _ = Inl (TypeError ''not subscriptable'')"

text \<open>\<^verbatim>\<open>n == v\<close> for an int: a bool and a float are numbers too.\<close>

fun int_eq :: "int \<Rightarrow> pyval \<Rightarrow> bool" where
  "int_eq n (PInt m) = (n = m)"
| "int_eq n (PBool b) = (n = (if b then 1 else 0))"
| "int_eq n (PFloat (Fin r)) = (of_int n = r)"
| "int_eq n _ = False"

text \<open>\<^verbatim>\<open>repr\<close> and \<^verbatim>\<open>str\<close>; a text is its UTF-8 bytes, those above 127 printed as they are.\<close>

definition quote_of :: "string \<Rightarrow> char" where
  "quote_of s = (if CHR 0x27 \<in> set s \<and> CHR 0x22 \<notin> set s then CHR 0x22 else CHR 0x27)"

definition repr_char :: "char \<Rightarrow> char \<Rightarrow> string" where
  "repr_char q c =
     (let n = of_char c :: nat
      in if c = q \<or> c = CHR 0x5C then [CHR 0x5C, c]
         else if n = 10 then [CHR 0x5C, CHR ''n''] else if n = 13 then [CHR 0x5C, CHR ''r'']
         else if n = 9 then [CHR 0x5C, CHR ''t'']
         else if n < 32 \<or> n = 127 then [CHR 0x5C, CHR ''x'', hex_digit (n div 16), hex_digit (n mod 16)]
         else [c])"

definition str_repr :: "string \<Rightarrow> string" where
  "str_repr s = quote_of s # concat (map (repr_char (quote_of s)) s) @ [quote_of s]"

fun float_text :: "py_env \<Rightarrow> pyfloat \<Rightarrow> string" where
  "float_text E PosInf = ''inf''"
| "float_text E NegInf = ''-inf''"
| "float_text E NaN = ''nan''"
| "float_text E (Fin r) = float_repr E (Fin r)"

fun py_repr :: "py_env \<Rightarrow> pyval \<Rightarrow> string"
and repr_items :: "py_env \<Rightarrow> (string \<times> pyval) list \<Rightarrow> string list"
and repr_list :: "py_env \<Rightarrow> pyval list \<Rightarrow> string list" where
  "py_repr E PNone = ''None''"
| "py_repr E (PBool b) = (if b then ''True'' else ''False'')"
| "py_repr E (PInt n) = show_int n"
| "py_repr E (PFloat f) = float_text E f"
| "py_repr E (PStr s) = str_repr s"
| "py_repr E (PList xs) = ''['' @ join '', '' (repr_list E xs) @ '']''"
| "py_repr E (PDict d) = ''{'' @ join '', '' (repr_items E d) @ ''}''"
| "repr_items E [] = []"
| "repr_items E ((k, v) # d) = (str_repr k @ '': '' @ py_repr E v) # repr_items E d"
| "repr_list E [] = []"
| "repr_list E (v # vs) = py_repr E v # repr_list E vs"

definition py_str :: "py_env \<Rightarrow> pyval \<Rightarrow> string" where
  "py_str E v = (case v of PStr s \<Rightarrow> s | _ \<Rightarrow> py_repr E v)"

text \<open>
  \<^verbatim>\<open>isoformat()\<close> of an aware UTC time: the inverse of the day number by the steps of
  \<^verbatim>\<open>datetime\<close>, cycles of 400, 100, 4 years and 1 year, then the month.
\<close>

fun month_of :: "int \<Rightarrow> int list \<Rightarrow> int \<Rightarrow> int \<times> int" where
  "month_of y [] n = (12, n + 1)"
| "month_of y (m # ms) n = (if n < days_in_month y m then (m, n + 1) else month_of y ms (n - days_in_month y m))"

definition civil :: "int \<Rightarrow> int \<times> int \<times> int" where
  "civil day =
     (let n = day + 719162; a = n mod 146097; b = a mod 36524; c = b mod 1461; d = c mod 365;
          n100 = a div 36524; n1 = c div 365;
          y = n div 146097 * 400 + n100 * 100 + b div 1461 * 4 + n1 + 1
      in if n1 = 4 \<or> n100 = 4 then (y - 1, 12, 31) else (y, month_of y [1..12] d))"

definition zero_pad :: "nat \<Rightarrow> int \<Rightarrow> string" where
  "zero_pad w n = replicate (w - length (show_int n)) (CHR ''0'') @ show_int n"

definition iso_utc :: "int \<Rightarrow> string" where
  "iso_utc t =
     (let us = t mod 1000000; secs = t div 1000000; s = secs mod 86400
      in case civil (secs div 86400) of (y, m, d) \<Rightarrow>
           zero_pad 4 y @ ''-'' @ zero_pad 2 m @ ''-'' @ zero_pad 2 d @ ''T''
           @ zero_pad 2 (s div 3600) @ '':'' @ zero_pad 2 (s div 60 mod 60) @ '':'' @ zero_pad 2 (s mod 60)
           @ (if us = 0 then [] else ''.'' @ zero_pad 6 us) @ ''+00:00'')"

section \<open>Freshness\<close>

definition consumer_version :: pyval where "consumer_version = PStr ''local-display-consumer-v1''"
definition contract_version :: pyval where "contract_version = PStr ''local-display-v2''"
definition quote_max_age :: int where "quote_max_age = 600 * 1000000"
definition research_horizons :: "int list" where "research_horizons = [1, 3, 7, 20, 60]"

definition input_observation_metadata :: "pyval \<Rightarrow> (string \<times> pyval) list result" where
  "input_observation_metadata manifest = bindr (getd ''input_observation'' PNone manifest) (\<lambda>observation.
     Inr (if is_dict observation then [(''input_observation'', observation)] else []))"

definition bundle_expired :: "py_env \<Rightarrow> int \<Rightarrow> pyval option \<Rightarrow> bool option" where
  "bundle_expired E now bundle_v = (case bundle_v of None \<Rightarrow> None
     | Some b \<Rightarrow> if \<not> truthy b then None
         else (case bindr (pindex b ''manifest'') (\<lambda>m. bindr (pindex m ''expires_at'') (parse_iso E)) of
             Inr t \<Rightarrow> Some (t \<le> now) | Inl _ \<Rightarrow> Some True))"

definition bundle_is_stale :: "py_env \<Rightarrow> int \<Rightarrow> pyval option \<Rightarrow> bool" where
  "bundle_is_stale E now bundle_v = (case bundle_v of None \<Rightarrow> True
     | Some b \<Rightarrow> if \<not> truthy b then True
         else truthy (pget ''historical_identity'' b) \<or> bundle_expired E now (Some b) = Some True)"

definition quote_source_time :: "py_env \<Rightarrow> pyval \<Rightarrow> int option" where
  "quote_source_time E raw = (case pget ''source_time'' raw of
       PStr s \<Rightarrow> (case parse_iso E (PStr s) of Inr t \<Rightarrow> Some t | Inl _ \<Rightarrow> None)
     | _ \<Rightarrow> None)"

definition quote_too_old :: "py_env \<Rightarrow> int \<Rightarrow> pyval \<Rightarrow> bool" where
  "quote_too_old E now raw = (case quote_source_time E raw of None \<Rightarrow> True
     | Some t \<Rightarrow> now - t < 0 \<or> quote_max_age < now - t)"

definition quote_display_state :: "py_env \<Rightarrow> bool \<Rightarrow> int \<Rightarrow> pyval \<Rightarrow> pyval result" where
  "quote_display_state E lapsed now raw =
     (let observed = (pget ''status'' raw = PStr ''observed'');
          stale = (lapsed \<or> (observed \<and> quote_too_old E now raw))
      in spread raw
           [(''status'', if stale then PStr ''stale'' else pget_default ''status'' (PStr ''missing'') raw),
            (''is_realtime'', PBool (truthy (pget ''is_realtime'' raw) \<and> observed \<and> \<not> stale)),
            (''actionable'', PBool False)])"

section \<open>The reader\<close>

record display_reader =
  rd_env :: store_env
  rd_store :: display_store
  rd_code_sha :: "string option"
  rd_config_hash :: "string option"

definition text_eq :: "pyval \<Rightarrow> string option \<Rightarrow> bool" where
  "text_eq v t = (v = (case t of None \<Rightarrow> PNone | Some s \<Rightarrow> PStr s))"

definition identity_matched :: "display_reader \<Rightarrow> pyval \<Rightarrow> bool" where
  "identity_matched R manifest \<longleftrightarrow> text_eq (pget ''code_sha'' manifest) (rd_code_sha R)
     \<and> text_eq (pget ''config_hash'' manifest) (rd_config_hash R)
     \<and> rd_code_sha R \<notin> {None, Some []} \<and> rd_config_hash R \<notin> {None, Some []}"

definition read_bundle :: "display_reader \<Rightarrow> pyval \<Rightarrow> pyval option result" where
  "read_bundle R generation = (case load_bundle (rd_env R) (rd_store R) generation of
       None \<Rightarrow> Inr None
     | Some b \<Rightarrow>
        (if rd_code_sha R = None then Inr (Some b)
         else bindr (getd ''manifest'' (PDict []) b) (\<lambda>manifest.
           raise_if (\<not> is_dict manifest) (AttributeError ''get'')
           (if identity_matched R manifest then Inr (Some b)
            else if generation = PNone then Inr None
            else bindr (spread b [(''historical_identity'', PBool True)]) (\<lambda>h. Inr (Some h))))))"

text \<open>\<^verbatim>\<open>if not bundle\<close>, then \<^verbatim>\<open>bundle.get("manifest", {})\<close> and one of the parts.\<close>

definition on_generation :: "display_reader \<Rightarrow> pyval \<Rightarrow> 'a result \<Rightarrow> (pyval \<Rightarrow> 'a result) \<Rightarrow> 'a result" where
  "on_generation R generation absent k = bindr (read_bundle R generation) (\<lambda>b. case b of
       None \<Rightarrow> absent
     | Some v \<Rightarrow> if truthy v then k v else absent)"

definition bundle_manifest :: "pyval \<Rightarrow> pyval result" where
  "bundle_manifest b = getd ''manifest'' (PDict []) b"

definition part_of :: "string \<Rightarrow> pyval \<Rightarrow> pyval \<Rightarrow> pyval result" where
  "part_of name dflt b = bindr (getd ''parts'' (PDict []) b) (getd name dflt)"

section \<open>The overview\<close>

record overview_view =
  ov_rows :: "pyval list"
  ov_count :: int
  ov_as_of :: pyval
  ov_generated_at :: pyval
  ov_offset :: int
  ov_limit :: int
  ov_themes :: "string list"
  ov_snapshot_id :: pyval
  ov_contains_mock :: pyval
  ov_sector_timing :: pyval
  ov_generation :: pyval
  ov_is_stale :: bool
  ov_observation :: "(string \<times> pyval) list"

text \<open>
  \<^verbatim>\<open>read_model_version\<close>, \<^verbatim>\<open>research_source\<close>, \<^verbatim>\<open>index_history_available\<close> and
  \<^verbatim>\<open>consumer_contract_version\<close> are the same constants in both branches. Without a generation the
  rest of the answer is constant too, no row and stale, but for the time it is given.
\<close>

datatype overview_answer =
    GenerationUnavailable (answer_as_of: string)
  | Overview (answer_view: overview_view)

definition in_theme :: "string \<Rightarrow> pyval \<Rightarrow> bool" where
  "in_theme theme row \<longleftrightarrow> pget ''theme_l1'' row = PStr theme \<or> pget ''theme_l2'' row = PStr theme"

definition theme_rows :: "string option \<Rightarrow> pyval list \<Rightarrow> pyval list" where
  "theme_rows theme rows = (if theme \<in> {None, Some []} then rows else filter (in_theme (the theme)) rows)"

definition row_themes :: "py_env \<Rightarrow> pyval list \<Rightarrow> string list" where
  "row_themes E rows = sort (remdups (map (\<lambda>r. py_str E (pget ''theme_l1'' r)) (filter (\<lambda>r. truthy (pget ''theme_l1'' r)) rows)))"

definition overview_of :: "py_env \<Rightarrow> int \<Rightarrow> int \<Rightarrow> int \<Rightarrow> string option \<Rightarrow> pyval \<Rightarrow> overview_view result" where
  "overview_of E now off top_n theme b =
     bindr (bundle_manifest b) (\<lambda>manifest.
     bindr (part_of ''overview'' (PDict []) b) (\<lambda>ov.
     bindr (getd ''rows'' (PList []) ov) (\<lambda>rv.
     bindr (py_iter rv) (\<lambda>rs.
     bindr (mapr py_dict rs) (\<lambda>dicts.
     let rows = theme_rows theme dicts
     in bindr (input_observation_metadata manifest) (\<lambda>observation.
        Inr \<lparr> ov_rows = py_slice off (off + top_n) rows, ov_count = int (length rows), ov_as_of = pget ''generated_at'' ov,
              ov_generated_at = pget ''generated_at'' manifest, ov_offset = off, ov_limit = top_n,
              ov_themes = row_themes E rows, ov_snapshot_id = pget ''snapshot_id'' ov,
              ov_contains_mock = pget_default ''contains_mock'' (PBool False) ov,
              ov_sector_timing = pget_default ''sector_timing'' (PDict []) ov,
              ov_generation = pget ''sequence'' manifest, ov_is_stale = bundle_is_stale E now (Some b),
              ov_observation = observation \<rparr>))))))"

definition read_overview ::
  "display_reader \<Rightarrow> int \<Rightarrow> int \<Rightarrow> int \<Rightarrow> int \<Rightarrow> string option \<Rightarrow> pyval \<Rightarrow> overview_answer result" where
  "read_overview R now horizon off top_n theme generation =
     raise_if (horizon \<notin> set research_horizons) (ValueError ''unsupported horizon'')
     (on_generation R generation (Inr (GenerationUnavailable (iso_utc now)))
        (\<lambda>b. bindr (overview_of (sv_env (rd_env R)) now off top_n theme b) (\<lambda>v. Inr (Overview v))))"

section \<open>The decision board\<close>

text \<open>The label of a row without a grade, in UTF-8.\<close>

definition anomaly_label :: string where
  "anomaly_label = [CHR 0xE6, CHR 0x95, CHR 0xB0, CHR 0xE6, CHR 0x8D, CHR 0xAE, CHR 0xE5, CHR 0xBC, CHR 0x82, CHR 0xE5, CHR 0xB8, CHR 0xB8]"

definition board_row :: "int \<Rightarrow> pyval \<Rightarrow> pyval \<Rightarrow> pyval result" where
  "board_row horizon captured row =
     raise_if (\<not> is_dict row) (TypeError ''not a mapping'')
     (bindr (getd (show_int horizon) PNone (por (pget ''forecasts'' row) (PDict []))) (\<lambda>forecast.
      spread row
        [(''forecast'', forecast),
         (''grade'', if int_eq horizon captured then pget_default ''grade'' (PStr anomaly_label) row else PStr anomaly_label),
         (''grade_reason'', if int_eq horizon captured then pget ''grade_reason'' row
                            else PStr ''selected_horizon_grade_not_published'')]))"

text \<open>\<^verbatim>\<open>counts[g] = counts.get(g, 0) + 1\<close>: a list or a dict is no key.\<close>

definition count_grade :: "pyval \<Rightarrow> (pyval \<times> int) list \<Rightarrow> (pyval \<times> int) list result" where
  "count_grade row counts =
     (let g = pget_default ''grade'' (PStr anomaly_label) row
      in raise_if (is_list g \<or> is_dict g) (TypeError ''unhashable type'')
         (Inr (dict_set g ((case map_of counts g of None \<Rightarrow> 0 | Some n \<Rightarrow> n) + 1) counts)))"

record board_view =
  bv_snapshot_id :: pyval
  bv_generated_at :: pyval
  bv_target_trade_date :: pyval
  bv_generation :: pyval
  bv_selected_horizon :: int
  bv_decision_horizon :: pyval
  bv_horizons :: "int list"
  bv_stale :: bool
  bv_historical :: bool
  bv_counts :: "(pyval \<times> int) list"
  bv_rows :: "pyval list"
  bv_sector_timing :: pyval
  bv_observation :: "(string \<times> pyval) list"

text \<open>
  \<open>bv_stale\<close> is each of the three \<^verbatim>\<open>freshness\<close> texts and \<open>bv_historical\<close> the \<^verbatim>\<open>read_contract\<close>;
  \<^verbatim>\<open>as_of\<close> repeats \<^verbatim>\<open>generated_at\<close>, and the version texts and the three flags of a research
  board are constants.
\<close>

definition trade_date_of :: "pyval \<Rightarrow> pyval \<Rightarrow> pyval result" where
  "trade_date_of ov generated = (let date = pget ''target_trade_date'' ov
     in if \<not> truthy date \<and> truthy generated then val_upto 10 generated else Inr date)"

definition board_of :: "py_env \<Rightarrow> int \<Rightarrow> int \<Rightarrow> string option \<Rightarrow> pyval \<Rightarrow> board_view option result" where
  "board_of E now horizon snapshot_id b =
     bindr (bundle_manifest b) (\<lambda>manifest.
     bindr (part_of ''overview'' (PDict []) b) (\<lambda>ov.
     bindr (getd ''snapshot_id'' PNone ov) (\<lambda>sid.
     if snapshot_id \<noteq> None \<and> Some (py_str E sid) \<noteq> snapshot_id then Inr None
     else let captured = pget_default ''horizon'' (PInt 1) ov
     in bindr (py_iter (pget_default ''rows'' (PList []) ov)) (\<lambda>rs.
        bindr (mapr (board_row horizon captured) rs) (\<lambda>rows.
        bindr (getd ''generated_at'' PNone manifest) (\<lambda>mg.
        let generated = por (pget ''generated_at'' ov) mg
        in bindr (trade_date_of ov generated) (\<lambda>date.
           bindr (foldr_result count_grade rows []) (\<lambda>counts.
           bindr (input_observation_metadata manifest) (\<lambda>observation.
           Inr (Some \<lparr> bv_snapshot_id = por sid (PStr (py_str E (pget ''sequence'' manifest))), bv_generated_at = generated,
                 bv_target_trade_date = date, bv_generation = pget ''sequence'' manifest, bv_selected_horizon = horizon,
                 bv_decision_horizon = captured, bv_horizons = research_horizons, bv_stale = bundle_is_stale E now (Some b),
                 bv_historical = truthy (pget ''historical_identity'' b), bv_counts = counts, bv_rows = rows,
                 bv_sector_timing = pget_default ''sector_timing'' (PDict []) ov, bv_observation = observation \<rparr>))))))))))"

definition read_decision_board ::
  "display_reader \<Rightarrow> int \<Rightarrow> int \<Rightarrow> string option \<Rightarrow> pyval \<Rightarrow> board_view option result" where
  "read_decision_board R now horizon snapshot_id generation =
     raise_if (horizon \<notin> set research_horizons) (ValueError ''unsupported horizon'')
     (on_generation R generation (Inr None) (board_of (sv_env (rd_env R)) now horizon snapshot_id))"

section \<open>One instrument\<close>

definition detail_hidden :: "string list" where
  "detail_hidden = [''avg_cost'', ''trades'', ''account_id'', ''input_observation'']"

definition clean_detail :: "py_env \<Rightarrow> bool \<Rightarrow> int \<Rightarrow> (string \<times> pyval) list \<Rightarrow> (string \<times> pyval) list result" where
  "clean_detail E stale now detail =
     (let clean = filter (\<lambda>(k, _). k \<notin> set detail_hidden) detail
      in case map_of clean ''quote'' of
           Some (PDict q) \<Rightarrow> bindr (quote_display_state E stale now (PDict q)) (\<lambda>shown. Inr (dict_set ''quote'' shown clean))
         | _ \<Rightarrow> Inr clean)"

definition detail_of :: "py_env \<Rightarrow> int \<Rightarrow> string \<Rightarrow> pyval \<Rightarrow> pyval option result" where
  "detail_of E now code b =
     bindr (part_of ''details'' (PDict []) b) (\<lambda>details.
     bindr (getd (upper code) PNone details) (\<lambda>detail.
     if \<not> truthy detail then Inr None
     else case detail of
       PDict d \<Rightarrow>
        (let stale = bundle_is_stale E now (Some b)
         in bindr (clean_detail E stale now d) (\<lambda>clean.
            bindr (bundle_manifest b) (\<lambda>manifest.
            bindr (getd ''sequence'' PNone manifest) (\<lambda>sequence.
            bindr (input_observation_metadata manifest) (\<lambda>observation.
            Inr (Some (PDict (dict_update
              ([(''generation'', sequence), (''is_stale'', PBool stale), (''research_source'', PStr ''local_bundle''),
                (''consumer_contract_version'', consumer_version), (''read_model_version'', contract_version)] @ observation) clean))))))))
     | _ \<Rightarrow> Inl (AttributeError ''items'')))"

definition read_instrument_detail :: "display_reader \<Rightarrow> int \<Rightarrow> string \<Rightarrow> pyval \<Rightarrow> pyval option result" where
  "read_instrument_detail R now code generation =
     on_generation R generation (Inr None) (detail_of (sv_env (rd_env R)) now code)"

section \<open>Charts\<close>

definition chart_copy :: "string \<Rightarrow> string \<Rightarrow> pyval \<Rightarrow> pyval \<Rightarrow> pyval option result" where
  "chart_copy code interval chart b =
     (if interval = ''1d'' then Inr (Some chart)
      else bindr (part_of ''chart_periods'' (PDict []) b) (\<lambda>periods.
        bindr (getd (upper code) (PDict []) periods) (\<lambda>p.
        bindr (getd interval PNone p) (\<lambda>c. Inr (if is_dict c then Some c else None)))))"

definition last_bars :: "int \<Rightarrow> pyval \<Rightarrow> pyval result" where
  "last_bars top_n bars = bindr (py_len bars) (\<lambda>n. if top_n < n then val_from (- top_n) bars else Inr bars)"

definition captured_check :: "py_env \<Rightarrow> string option \<Rightarrow> pyval \<Rightarrow> unit result" where
  "captured_check E as_of captured = (case as_of of None \<Rightarrow> Inr ()
     | Some t \<Rightarrow> bindr (parse_iso E (PStr t)) (\<lambda>a. bindr (parse_iso E captured) (\<lambda>c.
         raise_if (a \<noteq> c) (ValueError ''generation_time_mismatch'') (Inr ()))))"

definition chart_of :: "py_env \<Rightarrow> string \<Rightarrow> string \<Rightarrow> int \<Rightarrow> string option \<Rightarrow> pyval \<Rightarrow> pyval option result" where
  "chart_of E code interval top_n as_of b =
     bindr (part_of ''charts'' (PDict []) b) (\<lambda>charts.
     bindr (getd (upper code) PNone charts) (\<lambda>chart.
     if \<not> truthy chart then Inr None
     else bindr (py_dict chart) (\<lambda>copy.
       bindr (bundle_manifest b) (\<lambda>manifest.
       bindr (getd ''generated_at'' PNone manifest) (\<lambda>captured.
       bindr (captured_check E as_of captured) (\<lambda>_.
       bindr (chart_copy code interval copy b) (\<lambda>c. case c of
         None \<Rightarrow> Inr None
       | Some view \<Rightarrow>
           bindr (last_bars top_n (pget_default ''bars'' (PList []) view)) (\<lambda>bars.
           bindr (spread view [(''interval'', PStr interval), (''bars'', bars), (''generation'', pget ''sequence'' manifest),
             (''read_model_version'', contract_version)]) (\<lambda>r. Inr (Some r))))))))))"

definition read_chart_data ::
  "display_reader \<Rightarrow> string \<Rightarrow> string \<Rightarrow> int \<Rightarrow> pyval \<Rightarrow> string option \<Rightarrow> pyval option result" where
  "read_chart_data R code interval top_n generation as_of =
     raise_if (interval \<notin> {''1d'', ''1w'', ''1mo''}) (ValueError ''unsupported_chart_interval'')
     (on_generation R generation (Inr None) (chart_of (sv_env (rd_env R)) code interval top_n as_of))"

section \<open>Sectors\<close>

definition panel_metadata :: "py_env \<Rightarrow> int \<Rightarrow> pyval option \<Rightarrow> (string \<times> pyval) list result" where
  "panel_metadata E now b =
     bindr (case b of None \<Rightarrow> Inr PNone
       | Some v \<Rightarrow> if truthy v then bindr (pindex v ''manifest'') (\<lambda>m. pindex m ''sequence'') else Inr PNone) (\<lambda>sequence.
     Inr [(''generation'', sequence), (''research_source'', PStr ''local_bundle''),
          (''consumer_contract_version'', consumer_version), (''is_stale'', PBool (bundle_is_stale E now b)),
          (''actionable'', PBool False)])"

definition board_of_row :: "pyval \<Rightarrow> pyval result" where
  "board_of_row row = spread row
     [(''sector_pct_change'', pget ''pct_change'' row),
      (''source_as_of'', por (pget ''source_as_of'' row) (pget ''trade_date'' row)),
      (''breadth'', por (pget ''breadth'' row)
         (PDict [(''up'', pget ''up_count'' row), (''down'', pget ''down_count'' row),
                 (''flat'', pget ''flat_count'' row), (''total'', pget ''total_count'' row)]))]"

definition sectors_of :: "py_env \<Rightarrow> int \<Rightarrow> pyval \<Rightarrow> (string \<times> pyval) list result" where
  "sectors_of E now b =
     bindr (part_of ''sectors'' (PDict []) b) (\<lambda>part.
     bindr (getd ''sectors'' (PList []) part) (\<lambda>rows.
     bindr (panel_metadata E now (Some b)) (\<lambda>meta.
     bindr (py_iter rows) (\<lambda>rs.
     bindr (mapr board_of_row rs) (\<lambda>boards.
     Inr (dict_update
       ([(''sectors'', rows), (''boards'', PList boards),
         (''available'', PBool (pget ''availability'' part \<noteq> PStr ''unavailable'' \<and> truthy rows)),
         (''availability'', pget_default ''availability'' (PStr (if truthy rows then ''available'' else ''unavailable'')) part)]
        @ map (\<lambda>k. (k, pget k part))
            (filter (\<lambda>k. phas k part) [''reason'', ''refreshed_at'', ''refreshed_in_slot'', ''source_as_of''])) meta))))))"

definition read_sectors :: "display_reader \<Rightarrow> int \<Rightarrow> pyval \<Rightarrow> (string \<times> pyval) list result" where
  "read_sectors R now generation = on_generation R generation
     (bindr (panel_metadata (sv_env (rd_env R)) now None) (\<lambda>meta. Inr (meta @
        [(''sectors'', PList []), (''boards'', PList []), (''available'', PBool False), (''availability'', PStr ''unavailable''),
         (''reason'', PStr ''local_display_generation_unavailable'')])))
     (sectors_of (sv_env (rd_env R)) now)"

section \<open>Market context\<close>

definition read_market_context :: "display_reader \<Rightarrow> pyval \<Rightarrow> pyval list option result" where
  "read_market_context R generation = on_generation R generation (Inr None) (\<lambda>b.
     bindr (part_of ''market_context'' PNone b) (\<lambda>part.
     if \<not> truthy part then Inr None
     else bindr (getd ''items'' PNone part) (\<lambda>its.
       Inr (case its of PList (x # xs) \<Rightarrow> Some (x # xs) | _ \<Rightarrow> None))))"

record context_view =
  cv_items :: "pyval list"
  cv_available :: bool
  cv_availability :: pyval
  cv_reason :: pyval
  cv_source_as_of :: pyval
  cv_refreshed_at :: pyval
  cv_refreshed_in_slot :: pyval
  cv_generation :: pyval
  cv_requested :: pyval
  cv_generated_at :: pyval
  cv_expires_at :: pyval
  cv_read_at :: string
  cv_is_stale :: bool
  cv_is_expired :: "bool option"
  cv_historical :: bool

text \<open>\<^verbatim>\<open>as_of\<close> repeats \<^verbatim>\<open>generated_at\<close>; the versions and the research flags are constants.\<close>

definition context_items :: "pyval \<Rightarrow> pyval list result" where
  "context_items part = (if \<not> is_dict part then Inr []
     else bindr (py_iter (pget_default ''items'' (PList []) part)) (\<lambda>xs. Inr (filter is_dict xs)))"

definition context_state :: "pyval \<Rightarrow> pyval list \<Rightarrow> pyval \<times> pyval" where
  "context_state part its =
     (if \<not> is_dict part then (PStr ''unpublished'', PStr ''market_context_not_published'')
      else (por (pget ''availability'' part) (PStr (if its \<noteq> [] then ''available'' else ''unavailable'')),
            por (pget ''reason'' part) (if its \<noteq> [] then PNone else PStr ''market_context_empty'')))"

text \<open>\<open>availability not in {...}\<close> hashes the value first.\<close>

definition context_view_of ::
  "py_env \<Rightarrow> int \<Rightarrow> pyval \<Rightarrow> pyval option \<Rightarrow> pyval \<Rightarrow> pyval \<Rightarrow> pyval list \<Rightarrow> pyval \<times> pyval \<Rightarrow> context_view result" where
  "context_view_of E now generation b manifest part its state =
     raise_if (its \<noteq> [] \<and> (is_list (fst state) \<or> is_dict (fst state))) (TypeError ''unhashable type'')
     (let historical = (case b of None \<Rightarrow> False | Some v \<Rightarrow> truthy v \<and> truthy (pget ''historical_identity'' v))
      in Inr \<lparr> cv_items = its,
           cv_available = (its \<noteq> [] \<and> fst state \<notin> {PStr ''unavailable'', PStr ''unpublished''}),
           cv_availability = fst state, cv_reason = snd state,
           cv_source_as_of = pget ''source_as_of'' part, cv_refreshed_at = pget ''refreshed_at'' part,
           cv_refreshed_in_slot = pget ''refreshed_in_slot'' part,
           cv_generation = pget ''sequence'' manifest, cv_requested = generation,
           cv_generated_at = pget ''generated_at'' manifest, cv_expires_at = pget ''expires_at'' manifest,
           cv_read_at = iso_utc now, cv_is_stale = (b = None \<or> historical \<or> bundle_expired E now b = Some True),
           cv_is_expired = bundle_expired E now b, cv_historical = historical \<rparr>)"

definition read_market_context_view :: "display_reader \<Rightarrow> int \<Rightarrow> pyval \<Rightarrow> context_view result" where
  "read_market_context_view R now generation = on_generation R generation
     (context_view_of (sv_env (rd_env R)) now generation None (PDict []) PNone []
        (PStr ''unavailable'', PStr (if generation \<noteq> PNone then ''local_display_generation_unavailable'' else ''local_bundle_unavailable'')))
     (\<lambda>b. bindr (bundle_manifest b) (\<lambda>manifest.
        raise_if (\<not> is_dict manifest) (AttributeError ''get'')
        (bindr (part_of ''market_context'' PNone b) (\<lambda>part.
         bindr (context_items part) (\<lambda>its.
         context_view_of (sv_env (rd_env R)) now generation (Some b) manifest part its (context_state part its))))))"

end
