(* ===== verification/Reader_Props.thy ===== *)
theory Reader_Props
  imports Display_Reader
begin

text \<open>
  What a page can rely on. The reader's promises rest on one law of the store it reads from, that
  every generation it hands out passed the contract: the locale \<open>verified_source\<close> states it, the
  reader's lemmas are proved inside it, and the store's \<open>load_bundle\<close> provides it.
\<close>

section \<open>Dicts under the privacy scan\<close>

lemma dict_set_subset: "set (dict_set k v d) \<subseteq> insert (k, v) (set d)"
  by (auto dest: in_dict_setD)

lemma dict_update_subset: "set (dict_update new d) \<subseteq> set new \<union> set d"
  unfolding dict_update_def
proof (induction new arbitrary: d)
  case (Cons kv new)
  from Cons [of "dict_set (fst kv) (snd kv) d"] dict_set_subset [of "fst kv" "snd kv" d] show ?case
    by (cases kv) auto
qed simp

lemma scan_update:
  "scan_items new \<Longrightarrow> scan_items d \<Longrightarrow> scan_items (dict_update new d)"
  using dict_update_subset [of new d] by (auto simp: scan_items_iff)

lemma scan_set: "scan_items [(k, v)] \<Longrightarrow> scan_items d \<Longrightarrow> scan_items (dict_set k v d)"
  using scan_update [of "[(k, v)]" d] by (simp add: dict_update_def)

lemma scan_append [simp]: "scan_items (a @ b) \<longleftrightarrow> scan_items a \<and> scan_items b"
  by (auto simp: scan_items_iff)

lemma scan_filter: "scan_items d \<Longrightarrow> scan_items (filter P d)"
  by (auto simp: scan_items_iff)

lemma scan_lookup: "scan_items d \<Longrightarrow> map_of d k = Some v \<Longrightarrow> scan_deep v"
  by (force simp: scan_items_iff dest: map_of_SomeD)

lemma scan_pget: "scan_deep v \<Longrightarrow> scan_deep (pget k v)"
  by (cases v) (auto split: option.splits dest: scan_lookup)

lemma scan_getd: "getd k dflt v = Inr w \<Longrightarrow> scan_deep v \<Longrightarrow> scan_deep dflt \<Longrightarrow> scan_deep w"
  by (auto simp: getd_def pget_default_def scan_pget split: if_splits)

lemma scan_spread: "spread v new = Inr w \<Longrightarrow> scan_deep v \<Longrightarrow> scan_items new \<Longrightarrow> scan_deep w"
  by (auto simp: spread_def scan_update split: pyval.splits)

section \<open>The source of generations\<close>

locale verified_source =
  fixes E :: py_env and load :: "pyval \<Rightarrow> pyval option"
  assumes load_verified: "load g = Some b \<Longrightarrow> verify_bundle_integrity E b None"
begin

lemma source_shape:
  assumes "load g = Some b"
  obtains d m parts manifest where "b = PDict d" "pget ''manifest'' b = PDict m" "pget ''parts'' b = PDict parts"
    "validate_bundle_manifest E (PDict m) = Inr manifest" "parts_shape_ok parts" "scan_deep b"
    "check_charts E (m_universe manifest) (m_generated_at manifest) (the (as_dict (pget ''charts'' (PDict parts))))"
    "check_details (m_universe manifest) (the (as_dict (pget ''details'' (PDict parts))))"
proof (rule verify_bundleD [OF load_verified [OF assms]])
  fix m parts manifest h
  assume *: "pget ''manifest'' b = PDict m" "pget ''parts'' b = PDict parts" "validate_bundle_manifest E (PDict m) = Inr manifest"
    "parts_shape_ok parts" "scan_deep b"
    "check_charts E (m_universe manifest) (m_generated_at manifest) (the (as_dict (pget ''charts'' (PDict parts))))"
    "check_details (m_universe manifest) (the (as_dict (pget ''details'' (PDict parts))))"
  from *(1) obtain d where "b = PDict d" by (cases b) simp_all
  with * that show thesis by blast
qed

lemma source_optional:
  assumes "load g = Some b" "pget ''parts'' b = PDict parts" "pget ''manifest'' b = PDict m"
    "validate_bundle_manifest E (PDict m) = Inr manifest"
  shows "phas ''market_context'' (PDict parts) \<Longrightarrow> check_market_context (pget ''market_context'' (PDict parts))"
    and "check_period_charts E (m_universe manifest) (m_generated_at manifest) (pget_default ''chart_periods'' (PDict []) (PDict parts))"
  using load_verified [OF assms(1)] assms(2-4)
  by (auto simp: verify_bundle_integrity_def simp del: pget.simps phas.simps split: pyval.splits sum.splits)

end

lemma load_file_verified: "load_file V st n i = Some b \<Longrightarrow> verify_bundle_integrity (sv_env V) b None"
  by (auto simp: load_file_def expect_def check_bundle_def split: option.splits fentry.splits if_splits sum.splits)

lemma alias_match_verified: "alias_match V st a h t n = Some b \<Longrightarrow> verify_bundle_integrity (sv_env V) b None"
  by (auto simp: alias_match_def split: option.splits if_splits sum.splits dest: load_file_verified)

lemma load_bundle_verified: "load_bundle V st g = Some b \<Longrightarrow> verify_bundle_integrity (sv_env V) b None"
proof -
  have single: "verify_bundle_integrity (sv_env V) b None"
    if "(case List.map_filter (alias_match V st a h t) ns of [v] \<Rightarrow> Some v | _ \<Rightarrow> None) = Some b" for a h t ns
  proof -
    from that have "List.map_filter (alias_match V st a h t) ns = [b]" by (auto split: list.splits)
    then have "b \<in> set (List.map_filter (alias_match V st a h t) ns)" by simp
    then show ?thesis by (auto simp: List.map_filter_def dest: alias_match_verified)
  qed
  assume "load_bundle V st g = Some b"
  then show ?thesis
    by (auto simp: load_bundle_def Let_def split: pyval.splits option.splits if_splits intro: single dest: load_file_verified)
qed

interpretation stored: verified_source "sv_env V" "load_bundle V st" for V st
  by unfold_locales (rule load_bundle_verified)

section \<open>Served generations\<close>

text \<open>What the reader hands to its views: a verified generation, marked when it is not of the running identity.\<close>

definition marked :: "display_reader \<Rightarrow> pyval \<Rightarrow> pyval \<Rightarrow> pyval \<Rightarrow> bool" where
  "marked R g b0 b \<longleftrightarrow>
     (b = b0 \<and> (rd_code_sha R = None \<or> identity_matched R (pget ''manifest'' b0)))
     \<or> (g \<noteq> PNone \<and> spread b0 [(''historical_identity'', PBool True)] = Inr b)"

lemma pget_default_manifest: "pget ''manifest'' v = PDict m \<Longrightarrow> pget_default ''manifest'' x v = PDict m"
  by (cases v) (auto simp: pget_default_def split: option.splits)

lemma read_bundle_cases:
  "read_bundle R g = Inr None \<or>
   (\<exists>b b0. read_bundle R g = Inr (Some b) \<and> load_bundle (rd_env R) (rd_store R) g = Some b0 \<and> marked R g b0 b)"
proof (cases "load_bundle (rd_env R) (rd_store R) g")
  case (Some b)
  obtain d m where b: "b = PDict d" "pget ''manifest'' b = PDict m" by (rule stored.source_shape [OF Some])
  have "getd ''manifest'' (PDict []) b = Inr (PDict m)"
    using b(1) pget_default_manifest [OF b(2)] by (simp add: getd_def)
  then show ?thesis
    using b by (auto simp: read_bundle_def Some marked_def spread_def dict_update_def raise_if_def simp del: pget.simps)
qed (simp add: read_bundle_def)

lemma pget_spread: "spread v new = Inr w \<Longrightarrow> k \<notin> set (map fst new) \<Longrightarrow> pget k w = pget k v"
proof -
  assume k: "k \<notin> set (map fst new)"
  then have none: "map_of (rev new) k = None" by (simp add: map_of_eq_None_iff)
  assume "spread v new = Inr w"
  then show ?thesis by (auto simp: spread_def map_of_dict_update none split: pyval.splits)
qed

lemma marked_facts:
  assumes "marked R g b0 b" "b0 = PDict d0" "d0 \<noteq> []" "scan_deep b0"
  shows "is_dict b" "truthy b" "scan_deep b" "k \<noteq> ''historical_identity'' \<Longrightarrow> pget k b = pget k b0"
proof -
  have "scan_items [(''historical_identity'', PBool True)]" by code_simp
  moreover have "dict_set ''historical_identity'' (PBool True) d0 \<noteq> []" using assms(3) by (cases d0) (auto split: if_splits)
  ultimately show "is_dict b" "truthy b" "scan_deep b"
    using assms by (auto simp: marked_def spread_def dict_update_def intro: scan_set simp del: scan_items.simps)
  show "pget k b = pget k b0" if "k \<noteq> ''historical_identity''"
    using assms(1) that pget_spread [of b0 "[(''historical_identity'', PBool True)]" b k] by (auto simp: marked_def)
qed

lemma on_generation_simps:
  "read_bundle R g = Inr None \<Longrightarrow> on_generation R g a k = a"
  "read_bundle R g = Inr (Some b) \<Longrightarrow> truthy b \<Longrightarrow> on_generation R g a k = k b"
  by (simp_all add: on_generation_def)

lemma on_generation_cases:
  obtains (absent) "read_bundle R g = Inr None"
  | (served) b0 b d m parts manifest where "read_bundle R g = Inr (Some b)" "truthy b"
      "load_bundle (rd_env R) (rd_store R) g = Some b0" "marked R g b0 b"
      "b = PDict d" "scan_deep b" "pget ''manifest'' b = PDict m" "pget ''parts'' b = PDict parts"
      "pget ''manifest'' b0 = PDict m" "pget ''parts'' b0 = PDict parts"
      "validate_bundle_manifest (sv_env (rd_env R)) (PDict m) = Inr manifest" "parts_shape_ok parts"
      "check_charts (sv_env (rd_env R)) (m_universe manifest) (m_generated_at manifest) (the (as_dict (pget ''charts'' (PDict parts))))"
      "check_details (m_universe manifest) (the (as_dict (pget ''details'' (PDict parts))))"
  using read_bundle_cases [of R g]
proof (elim disjE exE conjE)
  assume "read_bundle R g = Inr None"
  then show thesis by (rule absent)
next
  fix b b0 assume r: "read_bundle R g = Inr (Some b)" and l: "load_bundle (rd_env R) (rd_store R) g = Some b0" and mk: "marked R g b0 b"
  show thesis
  proof (rule stored.source_shape [OF l])
    fix d m parts manifest
    assume s: "b0 = PDict d" "pget ''manifest'' b0 = PDict m" "pget ''parts'' b0 = PDict parts"
      "validate_bundle_manifest (sv_env (rd_env R)) (PDict m) = Inr manifest" "parts_shape_ok parts" "scan_deep b0"
      "check_charts (sv_env (rd_env R)) (m_universe manifest) (m_generated_at manifest) (the (as_dict (pget ''charts'' (PDict parts))))"
      "check_details (m_universe manifest) (the (as_dict (pget ''details'' (PDict parts))))"
    have "d \<noteq> []" using s(1,2) by auto
    note f = marked_facts [OF mk s(1) this s(6)]
    from f(1) obtain d' where b: "b = PDict d'" by (cases b) simp_all
    show thesis by (rule served [OF r f(2) l mk b f(3) _ _ s(2,3,4,5,7,8)]) (use f(4) s(2,3) in simp_all)
  qed
qed

section \<open>Detail pages\<close>

lemma scan_observation:
  "input_observation_metadata m = Inr ob \<Longrightarrow> scan_deep m \<Longrightarrow> scan_items ob"
proof -
  assume "input_observation_metadata m = Inr ob" "scan_deep m"
  then obtain v where v: "scan_deep v" and ob: "ob = (if is_dict v then [(''input_observation'', v)] else [])"
    by (auto simp: input_observation_metadata_def dest: scan_getd)
  have "public_field (''input_observation'', v)" by (simp add: public_field_def) code_simp
  with v ob show ?thesis by (simp add: scan_items_iff)
qed

lemma scan_quote: "quote_display_state E stale now (PDict q) = Inr w \<Longrightarrow> scan_items q \<Longrightarrow> scan_deep w"
proof -
  assume w: "quote_display_state E stale now (PDict q) = Inr w" and q: "scan_items q"
  have pub: "public_field (''status'', x)" "public_field (''is_realtime'', x)" "public_field (''actionable'', PBool False)" for x
    by (simp_all add: public_field_def) (code_simp+)
  have "scan_deep (pget_default ''status'' (PStr ''missing'') (PDict q))"
    using scan_pget [of "PDict q"] q by (simp add: pget_default_def)
  then have new: "scan_items [(''status'', if b then PStr ''stale'' else pget_default ''status'' (PStr ''missing'') (PDict q)),
      (''is_realtime'', PBool r), (''actionable'', PBool False)]" for b r
    using pub by (simp add: scan_items_iff)
  from w obtain b r where "spread (PDict q) [(''status'', if b then PStr ''stale'' else pget_default ''status'' (PStr ''missing'') (PDict q)),
      (''is_realtime'', PBool r), (''actionable'', PBool False)] = Inr w"
    unfolding quote_display_state_def Let_def by blast
  from scan_spread [OF this _ new] q show ?thesis by simp
qed

lemma scan_clean: "clean_detail E stale now d = Inr c \<Longrightarrow> scan_items d \<Longrightarrow> scan_items c"
proof -
  assume c: "clean_detail E stale now d = Inr c" and d: "scan_items d"
  let ?f = "filter (\<lambda>(k, _). k \<notin> set detail_hidden) d"
  have f: "scan_items ?f" using d by (rule scan_filter)
  have pub: "public_field (''quote'', x)" for x by (simp add: public_field_def) code_simp
  show ?thesis
  proof (cases "map_of ?f ''quote''")
    case None
    with c f show ?thesis by (simp add: clean_detail_def)
  next
    case (Some v)
    with c f scan_lookup [OF f Some] show ?thesis
      by (cases v) (auto simp: clean_detail_def scan_items_iff pub dest!: in_dict_setD dest: scan_quote)
  qed
qed

lemma part_of_parts: "b = PDict d \<Longrightarrow> pget ''parts'' b = PDict parts \<Longrightarrow> part_of k dflt b = Inr (pget_default k dflt (PDict parts))"
  by (auto simp: part_of_def getd_def pget_default_def split: option.splits)

lemma part_of_required:
  assumes "b = PDict d" "pget ''parts'' b = PDict parts" "parts_shape_ok parts" "k \<in> set required_parts"
  obtains x where "part_of k dflt b = Inr (PDict x)" "pget k (PDict parts) = PDict x"
proof -
  have "is_dict (pget k (PDict parts))" using assms(3,4) by (auto simp: parts_shape_ok_def list_all_iff)
  then obtain x where x: "pget k (PDict parts) = PDict x" by (cases "pget k (PDict parts)") simp_all
  moreover have "part_of k dflt b = Inr (PDict x)"
    using part_of_parts [OF assms(1,2)] x pget_phas [of k "PDict parts"] by (simp add: pget_default_def)
  ultimately show ?thesis using that by blast
qed

lemma bundle_manifest_eq: "b = PDict d \<Longrightarrow> pget ''manifest'' b = PDict m \<Longrightarrow> bundle_manifest b = Inr (PDict m)"
  using pget_default_manifest by (simp add: bundle_manifest_def getd_def)

lemma observation_total: "\<exists>ob. input_observation_metadata (PDict m) = Inr ob \<and> set (map fst ob) \<subseteq> {''input_observation''}"
  by (auto simp: input_observation_metadata_def getd_def split: if_splits)

lemma clean_total: "\<exists>c. clean_detail E stale now d = Inr c"
  by (auto simp: clean_detail_def quote_display_state_def spread_def Let_def split: option.splits pyval.splits)

definition detail_page :: "int \<Rightarrow> bool \<Rightarrow> (string \<times> pyval) list \<Rightarrow> (string \<times> pyval) list \<Rightarrow> pyval \<Rightarrow> pyval" where
  "detail_page n stale clean ob sequence = PDict (dict_update
     ([(''generation'', sequence), (''is_stale'', PBool stale), (''research_source'', PStr ''local_bundle''),
       (''consumer_contract_version'', consumer_version), (''read_model_version'', contract_version)] @ ob) clean)"

lemma detail_of_cases:
  assumes "b = PDict d" "pget ''manifest'' b = PDict m" "pget ''parts'' b = PDict parts" "parts_shape_ok parts"
    "check_details u (the (as_dict (pget ''details'' (PDict parts))))"
  obtains (missing) "detail_of E now code b = Inr None"
  | (page) det c ob where "pget (upper code) (pget ''details'' (PDict parts)) = PDict det"
      "clean_detail E (bundle_is_stale E now (Some b)) now det = Inr c" "input_observation_metadata (PDict m) = Inr ob"
      "set (map fst ob) \<subseteq> {''input_observation''}"
      "detail_of E now code b = Inr (Some (detail_page now (bundle_is_stale E now (Some b)) c ob (pget ''sequence'' (PDict m))))"
proof -
  obtain x where x: "part_of ''details'' (PDict []) b = Inr (PDict x)" "pget ''details'' (PDict parts) = PDict x"
    by (rule part_of_required [OF assms(1,3,4), of "''details''" "PDict []"]) (simp add: required_parts_def)
  let ?v = "pget (upper code) (PDict x)"
  have get: "getd (upper code) PNone (PDict x) = Inr ?v"
    by (simp add: getd_def pget_default_def split: option.splits)
  show thesis
  proof (cases "truthy ?v")
    case False
    then have "detail_of E now code b = Inr None" by (simp add: detail_of_def x(1) get del: pget.simps)
    then show thesis by (rule missing)
  next
    case True
    then obtain w where w: "map_of x (upper code) = Some w" "?v = w" by (auto split: option.splits)
    have "is_dict w" using assms(5) map_of_SomeD [OF w(1)] by (auto simp: check_details_def x(2) list_all_iff simp del: pget.simps)
    then obtain det where det: "?v = PDict det" using w(2) by (cases w) simp_all
    obtain c where c: "clean_detail E (bundle_is_stale E now (Some b)) now det = Inr c" using clean_total by blast
    obtain ob where ob: "input_observation_metadata (PDict m) = Inr ob" "set (map fst ob) \<subseteq> {''input_observation''}"
      using observation_total by blast
    have seq: "getd ''sequence'' PNone (PDict m) = Inr (pget ''sequence'' (PDict m))"
      by (simp add: getd_def pget_default_def split: option.splits)
    have t: "truthy (PDict det)" using True det by simp
    have "detail_of E now code b = Inr (Some (detail_page now (bundle_is_stale E now (Some b)) c ob (pget ''sequence'' (PDict m))))"
      using t unfolding detail_of_def x(1) bindr_simps get det bundle_manifest_eq [OF assms(1,2)]
      by (simp add: c ob seq detail_page_def del: pget.simps truthy.simps)
    then show thesis using page [of det c ob] det c ob x(2) by simp
  qed
qed

lemma scan_page: "scan_items c \<Longrightarrow> scan_items ob \<Longrightarrow> scan_deep q \<Longrightarrow> scan_deep (detail_page n stale c ob q)"
proof -
  assume *: "scan_items c" "scan_items ob" "scan_deep q"
  have "public_field (''generation'', x)" "public_field (''is_stale'', x)" "public_field (''research_source'', x)"
    "public_field (''consumer_contract_version'', x)" "public_field (''read_model_version'', x)" for x
    by (simp_all add: public_field_def) (code_simp+)
  with *(3) have "scan_items [(''generation'', q), (''is_stale'', PBool stale), (''research_source'', PStr ''local_bundle''),
       (''consumer_contract_version'', consumer_version), (''read_model_version'', contract_version)]"
    by (simp add: scan_items_iff consumer_version_def contract_version_def)
  with * show ?thesis unfolding detail_page_def scan_deep.simps by (intro scan_update) (simp_all only: scan_append)
qed

lemma page_fields:
  assumes "set (map fst ob) \<subseteq> {''input_observation''}"
  shows "pget ''generation'' (detail_page n stale c ob q) = q" "pget ''is_stale'' (detail_page n stale c ob q) = PBool stale"
    "pget ''quote'' (detail_page n stale c ob q) = pget ''quote'' (PDict c)"
proof -
  have "map_of (rev ob) k = None" if "k \<noteq> ''input_observation''" for k
    using assms that by (auto simp: map_of_eq_None_iff)
  then show "pget ''generation'' (detail_page n stale c ob q) = q" "pget ''is_stale'' (detail_page n stale c ob q) = PBool stale"
    "pget ''quote'' (detail_page n stale c ob q) = pget ''quote'' (PDict c)"
    by (simp_all add: detail_page_def map_of_dict_update map_add_def)
qed

text \<open>C14: a detail page the reader serves, for any stored generation and any identity of the running
  code, has no private key and no actionable flag at any depth; it names the sequence of the verified
  generation it was read from, and without a requested generation that one is of the running identity.\<close>

theorem served_detail_is_public:
  assumes "read_instrument_detail R now code g = Inr (Some v)"
  shows "scan_deep v \<and> (\<exists>b. load_bundle (rd_env R) (rd_store R) g = Some b
     \<and> pget ''generation'' v = pget ''sequence'' (pget ''manifest'' b)
     \<and> (g = PNone \<and> rd_code_sha R \<noteq> None \<longrightarrow> identity_matched R (pget ''manifest'' b)))"
proof (cases rule: on_generation_cases [of R g])
  case absent
  with assms show ?thesis by (simp add: read_instrument_detail_def on_generation_simps)
next
  case (served b0 b d m parts manifest)
  let ?E = "sv_env (rd_env R)"
  from assms have v: "detail_of ?E now code b = Inr (Some v)"
    by (simp only: read_instrument_detail_def on_generation_simps(2) [OF served(1,2)])
  show ?thesis
  proof (rule detail_of_cases [OF served(5,7,8,12,14), of ?E now code])
    assume "detail_of ?E now code b = Inr None"
    with v show ?thesis by simp
  next
    fix det c ob
    assume det: "pget (upper code) (pget ''details'' (PDict parts)) = PDict det"
      and c: "clean_detail ?E (bundle_is_stale ?E now (Some b)) now det = Inr c"
      and ob: "input_observation_metadata (PDict m) = Inr ob" "set (map fst ob) \<subseteq> {''input_observation''}"
      and page: "detail_of ?E now code b = Inr (Some (detail_page now (bundle_is_stale ?E now (Some b)) c ob (pget ''sequence'' (PDict m))))"
    from page v have eq: "v = detail_page now (bundle_is_stale ?E now (Some b)) c ob (pget ''sequence'' (PDict m))" by simp
    have pm: "scan_deep (PDict parts)" "scan_deep (PDict m)" using scan_pget [OF served(6)] served(7,8) by metis+
    then have "scan_deep (PDict det)" using det scan_pget by metis
    then have "scan_deep v" unfolding eq
      by (intro scan_page scan_clean [OF c] scan_observation [OF ob(1)] scan_pget) (use pm in simp_all)
    moreover have "identity_matched R (pget ''manifest'' b0)" if "g = PNone" "rd_code_sha R \<noteq> None"
      using served(4) that by (simp add: marked_def)
    ultimately show ?thesis using served(3,9) page_fields(1) [OF ob(2)] by (auto simp: eq simp del: pget.simps)
  qed
qed

section \<open>Freshness\<close>

lemma pindex_pget: "pindex d k = Inr v \<Longrightarrow> pget k d = v"
  by (auto simp: pindex_def split: pyval.splits option.splits)

lemma not_stale:
  assumes "\<not> bundle_is_stale E now (Some b)"
  obtains e where "\<not> truthy (pget ''historical_identity'' b)" "parse_iso E (pget ''expires_at'' (pget ''manifest'' b)) = Inr e" "now < e"
proof -
  from assms have h: "\<not> truthy (pget ''historical_identity'' b)" and t: "truthy b" and x: "bundle_expired E now (Some b) \<noteq> Some True"
    by (auto simp: bundle_is_stale_def split: if_splits)
  from t x obtain e m w where "pindex b ''manifest'' = Inr m" "pindex m ''expires_at'' = Inr w" "parse_iso E w = Inr e" "now < e"
    by (auto simp: bundle_expired_def split: sum.splits if_splits)
  then show ?thesis using that h pindex_pget by blast
qed

lemma quote_shown:
  assumes "quote_display_state E stale now (PDict q) = Inr (PDict w)" "map_of w ''is_realtime'' = Some (PBool True)"
  shows "\<not> stale" "map_of w ''status'' = Some (PStr ''observed'')" "\<not> quote_too_old E now (PDict q)" "map_of w ''source_time'' = map_of q ''source_time''"
  using assms by (auto simp: quote_display_state_def Let_def spread_def map_of_dict_update map_add_def pget_default_def
      split: if_splits option.splits)

lemma realtime_clean:
  assumes c: "clean_detail E stale now d = Inr c" and real: "pget ''is_realtime'' (pget ''quote'' (PDict c)) = PBool True"
  obtains t where "\<not> stale" "pget ''status'' (pget ''quote'' (PDict c)) = PStr ''observed''"
    "parse_iso E (pget ''source_time'' (pget ''quote'' (PDict c))) = Inr t" "t \<le> now" "now - t \<le> quote_max_age"
proof (cases "map_of (filter (\<lambda>(k, _). k \<notin> set detail_hidden) d) ''quote''")
  case None
  then have "map_of c ''quote'' = None" using c by (simp add: clean_detail_def)
  with real show thesis by simp
next
  case (Some v)
  show thesis
  proof (cases v)
    case (PDict q)
    from c Some PDict obtain w where w: "quote_display_state E stale now (PDict q) = Inr (PDict w)" "map_of c ''quote'' = Some (PDict w)"
      by (auto simp: clean_detail_def map_of_dict_set quote_display_state_def spread_def Let_def)
    have r: "map_of w ''is_realtime'' = Some (PBool True)" using real w(2) by (simp split: option.splits)
    note q = quote_shown [OF w(1) r]
    from q(3) obtain t where t: "quote_source_time E (PDict q) = Some t" "t \<le> now" "now - t \<le> quote_max_age"
      by (auto simp: quote_too_old_def split: option.splits)
    then have "parse_iso E (pget ''source_time'' (PDict w)) = Inr t"
      using q(4) by (auto simp: quote_source_time_def split: pyval.splits option.splits sum.splits)
    with that t q w(2) show thesis by simp
  qed (use c real Some in \<open>simp_all add: clean_detail_def\<close>)
qed

text \<open>C15: a quote is served as real time only when its status is observed and its source time is at
  most ten minutes before the read and not after it, and the generation it comes from has not expired
  and is of the running identity.\<close>

theorem realtime_quote_is_fresh:
  assumes "read_instrument_detail R now code g = Inr (Some v)" and "pget ''is_realtime'' (pget ''quote'' v) = PBool True"
  shows "\<exists>b t e. load_bundle (rd_env R) (rd_store R) g = Some b
     \<and> parse_iso (sv_env (rd_env R)) (pget ''expires_at'' (pget ''manifest'' b)) = Inr e \<and> now < e
     \<and> (rd_code_sha R \<noteq> None \<longrightarrow> identity_matched R (pget ''manifest'' b))
     \<and> pget ''status'' (pget ''quote'' v) = PStr ''observed''
     \<and> parse_iso (sv_env (rd_env R)) (pget ''source_time'' (pget ''quote'' v)) = Inr t
     \<and> t \<le> now \<and> now - t \<le> 600 * 1000000"
proof (cases rule: on_generation_cases [of R g])
  case absent
  with assms show ?thesis by (simp add: read_instrument_detail_def on_generation_simps)
next
  case (served b0 b d m parts manifest)
  let ?E = "sv_env (rd_env R)"
  from assms have v: "detail_of ?E now code b = Inr (Some v)"
    by (simp only: read_instrument_detail_def on_generation_simps(2) [OF served(1,2)])
  show ?thesis
  proof (rule detail_of_cases [OF served(5,7,8,12,14), of ?E now code])
    assume "detail_of ?E now code b = Inr None"
    with v show ?thesis by simp
  next
    fix det c ob
    assume c: "clean_detail ?E (bundle_is_stale ?E now (Some b)) now det = Inr c" and ob: "set (map fst ob) \<subseteq> {''input_observation''}"
      and page: "detail_of ?E now code b = Inr (Some (detail_page now (bundle_is_stale ?E now (Some b)) c ob (pget ''sequence'' (PDict m))))"
    from page v have "v = detail_page now (bundle_is_stale ?E now (Some b)) c ob (pget ''sequence'' (PDict m))" by simp
    then have qv: "pget ''quote'' v = pget ''quote'' (PDict c)" using page_fields(3) [OF ob] by simp
    obtain t where t: "\<not> bundle_is_stale ?E now (Some b)" "pget ''status'' (pget ''quote'' v) = PStr ''observed''"
      "parse_iso ?E (pget ''source_time'' (pget ''quote'' v)) = Inr t" "t \<le> now" "now - t \<le> quote_max_age"
      using realtime_clean [OF c assms(2) [unfolded qv]] unfolding qv by blast
    obtain e where e: "\<not> truthy (pget ''historical_identity'' b)" "parse_iso ?E (pget ''expires_at'' (pget ''manifest'' b)) = Inr e" "now < e"
      by (rule not_stale [OF t(1)])
    have "\<not> spread b0 [(''historical_identity'', PBool True)] = Inr b"
      using e(1) by (auto simp: spread_def dict_update_def map_of_dict_set split: pyval.splits)
    with served(4) have "rd_code_sha R \<noteq> None \<longrightarrow> identity_matched R (pget ''manifest'' b0)" by (auto simp: marked_def)
    with served(3,7,9) e t show ?thesis unfolding quote_max_age_def by metis
  qed
qed

section \<open>Totality\<close>

lemma published_bars:
  assumes "validate_public_chart E chart code (Some t) partial iv = Inr ()"
  obtains d xs where "chart = PDict d" "pget_default ''bars'' (PList []) chart = PList xs"
proof -
  from validate_public_chartD [OF assms] obtain d where d: "chart = PDict d" by (cases chart) simp_all
  from validate_public_chart_series [OF assms] obtain c bars where
    "validate_series (Some c) partial (pget_default ''bars'' (PList []) chart) = Inr bars" by blast
  from series_public [OF this] d that show ?thesis by blast
qed

lemma getd_dict: "getd k dflt (PDict d) = Inr (pget_default k dflt (PDict d))"
  by (simp add: getd_def)

lemma last_bars_list: "last_bars n (PList xs) = Inr (PList (if n < int (length xs) then slice_from (- n) xs else xs))"
  by (simp add: last_bars_def)

lemma slice_from_length: "0 < n \<Longrightarrow> n < int (length xs) \<Longrightarrow> int (length (slice_from (- n) xs)) = n"
  by (simp add: slice_from_def slice_bound_def)

text \<open>The period chart of a code, if there is one, is a validated chart.\<close>

lemma period_chart:
  assumes "check_period_charts E u t v"
  obtains p where "v = PDict p"
    "\<And>code iv. \<exists>q. pget_default code (PDict []) v = PDict q
       \<and> (is_dict (pget_default iv PNone (PDict q)) \<longrightarrow>
           validate_public_chart E (pget_default iv PNone (PDict q)) (Some code) (Some t) True iv = Inr ())"
proof -
  from assms obtain p where p: "v = PDict p" by (cases v) (simp_all add: check_period_charts_def)
  have "\<exists>q. pget_default code (PDict []) v = PDict q
       \<and> (is_dict (pget_default iv PNone (PDict q)) \<longrightarrow>
           validate_public_chart E (pget_default iv PNone (PDict q)) (Some code) (Some t) True iv = Inr ())" for code iv
  proof (cases "map_of p code")
    case None
    then show ?thesis by (simp add: p pget_default_def)
  next
    case (Some w)
    from bspec [OF assms [unfolded check_period_charts_def p pyval.case list_all_iff] map_of_SomeD [OF Some]]
    obtain q where q: "w = PDict q" "\<forall>(i, c) \<in> set q. validate_public_chart E c (Some code) (Some t) True i = Inr ()"
      by (cases w) auto
    then show ?thesis using Some
      by (auto simp: p pget_default_def split: option.splits dest: map_of_SomeD)
  qed
  with p that show ?thesis by blast
qed

lemma chart_copy_validated:
  assumes "part_of ''chart_periods'' (PDict []) b = Inr v" "check_period_charts E u t v"
    and "validate_public_chart E chart (Some (upper code)) (Some t) True ''1d'' = Inr ()"
  obtains "chart_copy code iv chart b = Inr None"
  | c where "chart_copy code iv chart b = Inr (Some c)" "validate_public_chart E c (Some (upper code)) (Some t) True iv = Inr ()"
proof (cases "iv = ''1d''")
  case True
  with assms(3) that(2) show thesis by (simp add: chart_copy_def)
next
  case False
  from period_chart [OF assms(2)] obtain p q where p: "v = PDict p" "pget_default (upper code) (PDict []) v = PDict q"
    "is_dict (pget_default iv PNone (PDict q)) \<longrightarrow> validate_public_chart E (pget_default iv PNone (PDict q)) (Some (upper code)) (Some t) True iv = Inr ()"
    by metis
  with False have "chart_copy code iv chart b = Inr (if is_dict (pget_default iv PNone (PDict q)) then Some (pget_default iv PNone (PDict q)) else None)"
    by (simp add: chart_copy_def assms(1) getd_dict)
  with that p(3) show thesis by (cases "is_dict (pget_default iv PNone (PDict q))") simp_all
qed

lemma chart_of_total:
  assumes b: "b = PDict d" "pget ''manifest'' b = PDict m" "pget ''parts'' b = PDict parts" "parts_shape_ok parts"
    and charts: "check_charts E (m_universe manifest) (m_generated_at manifest) (the (as_dict (pget ''charts'' (PDict parts))))"
    and periods: "check_period_charts E (m_universe manifest) (m_generated_at manifest) (pget_default ''chart_periods'' (PDict []) (PDict parts))"
  obtains (missing) "chart_of E code iv n None b = Inr None"
  | (window) c xs where "chart_of E code iv n None b = Inr (Some c)"
      "pget ''bars'' c = PList (if n < int (length xs) then slice_from (- n) xs else xs)"
proof -
  obtain x where x: "part_of ''charts'' (PDict []) b = Inr (PDict x)" "pget ''charts'' (PDict parts) = PDict x"
    by (rule part_of_required [OF b(1,3,4), of "''charts''" "PDict []"]) (simp add: required_parts_def)
  note p = part_of_parts [OF b(1,3), of "''chart_periods''" "PDict []"]
  let ?v = "pget_default (upper code) PNone (PDict x)"
  show thesis
  proof (cases "truthy ?v")
    case False
    then have "chart_of E code iv n None b = Inr None" by (simp add: chart_of_def x(1) getd_dict)
    then show thesis by (rule missing)
  next
    case True
    then obtain w where w: "map_of x (upper code) = Some w" "?v = w" by (cases "map_of x (upper code)") (auto simp: pget_default_def)
    have "validate_public_chart E w (Some (upper code)) (Some (m_generated_at manifest)) True ''1d'' = Inr ()"
      using charts map_of_SomeD [OF w(1)] by (auto simp: check_charts_def x(2) list_all_iff simp del: pget.simps)
    note valid = this
    then obtain cd where wd: "w = PDict cd" by (rule published_bars)
    have run: "chart_of E code iv n None b = bindr (chart_copy code iv w b) (\<lambda>c. case c of
         None \<Rightarrow> Inr None
       | Some view \<Rightarrow>
           bindr (last_bars n (pget_default ''bars'' (PList []) view)) (\<lambda>bars.
           bindr (spread view [(''interval'', PStr iv), (''bars'', bars), (''generation'', pget ''sequence'' (PDict m)),
             (''read_model_version'', contract_version)]) (\<lambda>r. Inr (Some r))))"
      using True w(2) unfolding chart_of_def x(1) bindr_simps getd_dict bundle_manifest_eq [OF b(1,2)]
      by (simp add: wd py_dict_def captured_check_def del: pget.simps truthy.simps)
    show thesis
    proof (rule chart_copy_validated [OF p periods valid, of iv])
      assume "chart_copy code iv w b = Inr None"
      with run show thesis by (intro missing) simp
    next
      fix c assume c: "chart_copy code iv w b = Inr (Some c)"
        "validate_public_chart E c (Some (upper code)) (Some (m_generated_at manifest)) True iv = Inr ()"
      from c(2) obtain e xs where e: "c = PDict e" "pget_default ''bars'' (PList []) c = PList xs" by (rule published_bars)
      show thesis
        using run by (intro window [of _ xs]) (auto simp: c(1) e last_bars_list spread_def e(2) [unfolded e(1)] map_of_dict_update)
    qed
  qed
qed

lemma context_total:
  assumes "phas ''market_context'' (PDict parts) \<Longrightarrow> check_market_context (pget ''market_context'' (PDict parts))"
  obtains its s where "context_items (pget ''market_context'' (PDict parts)) = Inr its"
    "context_state (pget ''market_context'' (PDict parts)) its = s" "is_str (fst s)"
proof -
  let ?p = "pget ''market_context'' (PDict parts)"
  have "\<exists>its. context_items ?p = Inr its \<and> is_str (fst (context_state ?p its))"
  proof (cases "is_dict ?p")
    case False
    then show ?thesis by (simp add: context_items_def context_state_def)
  next
    case True
    have "phas ''market_context'' (PDict parts)" using True by (intro pget_phas) (auto simp del: pget.simps)
    from assms [OF this] obtain xs where xs: "pget ''items'' ?p = PList xs"
      and av: "phas ''availability'' ?p \<longrightarrow> is_str (pget ''availability'' ?p)"
      unfolding check_market_context_def by (cases "pget ''items'' ?p"; cases "pget ''availability'' ?p") auto
    have "pget_default ''items'' (PList []) ?p = PList xs" using xs pget_phas [of "''items''" ?p] by (simp add: pget_default_def)
    moreover have "is_str (por (pget ''availability'' ?p) (PStr t))" for t
      using av pget_phas [of "''availability''" ?p] by (cases "pget ''availability'' ?p = PNone") (auto simp: por_def)
    ultimately show ?thesis using True by (simp add: context_items_def context_state_def del: pget.simps)
  qed
  with that show ?thesis by blast
qed

lemma reads_total:
  assumes "iv \<in> {''1d'', ''1w'', ''1mo''}" and "0 < n"
  shows "(\<exists>r. read_instrument_detail R now code g = Inr r)
     \<and> (\<exists>c. read_market_context_view R now g = Inr c)
     \<and> (\<exists>r. read_chart_data R code iv n g None = Inr r
          \<and> (\<forall>c. r = Some c \<longrightarrow> (\<exists>xs. pget ''bars'' c = PList xs \<and> int (length xs) \<le> n)))"
proof (cases rule: on_generation_cases [of R g])
  case absent
  with assms show ?thesis
    by (simp add: read_instrument_detail_def read_market_context_view_def read_chart_data_def context_view_of_def
        on_generation_simps Let_def raise_if_def)
next
  case (served b0 b d m parts manifest)
  let ?E = "sv_env (rd_env R)"
  note run = on_generation_simps(2) [OF served(1,2)]
  note opt = stored.source_optional [OF served(3,10,9,11)]
  have "\<exists>r. read_instrument_detail R now code g = Inr r" unfolding read_instrument_detail_def run
    by (rule detail_of_cases [OF served(5,7,8,12,14), of ?E now code]) blast+
  moreover have "\<exists>c. read_market_context_view R now g = Inr c"
  proof (rule context_total [OF opt(1)])
    fix its s assume c: "context_items (pget ''market_context'' (PDict parts)) = Inr its"
      "context_state (pget ''market_context'' (PDict parts)) its = s" "is_str (fst s)"
    have part: "part_of ''market_context'' PNone b = Inr (pget ''market_context'' (PDict parts))"
      using part_of_parts [OF served(5,8)] by (simp add: pget_default_def split: option.splits)
    from c(3) have "\<not> is_list (fst s)" "\<not> is_dict (fst s)" by (cases "fst s"; simp)+
    then show ?thesis unfolding read_market_context_view_def run bundle_manifest_eq [OF served(5,7)]
      by (simp add: part c(1,2) context_view_of_def Let_def del: pget.simps)
  qed
  moreover have "\<exists>r. read_chart_data R code iv n g None = Inr r
          \<and> (\<forall>c. r = Some c \<longrightarrow> (\<exists>xs. pget ''bars'' c = PList xs \<and> int (length xs) \<le> n))"
  proof (rule chart_of_total [OF served(5,7,8,12,13) opt(2), of code iv n])
    assume "chart_of ?E code iv n None b = Inr None"
    with assms(1) show ?thesis unfolding read_chart_data_def run by (auto simp: raise_if_def)
  next
    fix c xs assume "chart_of ?E code iv n None b = Inr (Some c)"
      "pget ''bars'' c = PList (if n < int (length xs) then slice_from (- n) xs else xs)"
    with assms slice_from_length [OF assms(2), of xs] show ?thesis unfolding read_chart_data_def run by (auto simp: raise_if_def)
  qed
  ultimately show ?thesis by blast
qed

text \<open>An \<^verbatim>\<open>as_of\<close> can only refuse a chart: it is compared with the generation's time and then dropped.\<close>

lemma chart_as_of: "chart_of E code iv n as_of b = chart_of E code iv n None b \<or> (\<exists>e. chart_of E code iv n as_of b = Inl e)"
proof -
  have "captured_check E None c = Inr ()" for c by (simp add: captured_check_def)
  moreover have "(\<exists>e. captured_check E as_of c = Inl e) \<or> captured_check E as_of c = Inr ()" for c
    by (cases "captured_check E as_of c") auto
  ultimately show ?thesis unfolding chart_of_def by (auto simp: bindr_def split: sum.splits)
qed

lemma read_chart_as_of:
  "iv \<in> {''1d'', ''1w'', ''1mo''} \<Longrightarrow> read_chart_data R code iv n g as_of = read_chart_data R code iv n g None
    \<or> (\<exists>e. read_chart_data R code iv n g as_of = Inl e)"
  using chart_as_of [of "sv_env (rd_env R)" code iv n as_of]
  by (cases rule: on_generation_cases [of R g]) (auto simp: read_chart_data_def on_generation_simps raise_if_def)

text \<open>C16: no stored generation can make a page raise. Detail and market context reads of any store, any
  generation and any code return a view or nothing, because what reaches them passed the contract. A chart
  read with a positive limit and no as_of returns a view with at most that many bars, or nothing, when its
  interval is one of the three, and is refused with unsupported_chart_interval otherwise; with an as_of it
  returns the same or raises.\<close>

theorem validated_reads_never_raise:
  assumes "0 < n"
  shows "(\<exists>r. read_instrument_detail R now code g = Inr r)
     \<and> (\<exists>c. read_market_context_view R now g = Inr c)
     \<and> (if iv \<in> {''1d'', ''1w'', ''1mo''}
         then (\<exists>r. read_chart_data R code iv n g None = Inr r
            \<and> (\<forall>c. r = Some c \<longrightarrow> (\<exists>xs. pget ''bars'' c = PList xs \<and> int (length xs) \<le> n)))
         else read_chart_data R code iv n g None = Inl (ValueError ''unsupported_chart_interval''))
     \<and> (read_chart_data R code iv n g as_of = read_chart_data R code iv n g None
        \<or> (\<exists>e. read_chart_data R code iv n g as_of = Inl e))"
proof (cases "iv \<in> {''1d'', ''1w'', ''1mo''}")
  case False
  then have "read_chart_data R code iv n g t = Inl (ValueError ''unsupported_chart_interval'')" for t
    by (simp add: read_chart_data_def)
  with False reads_total [OF _ assms, of "''1d''" R now code g] show ?thesis by simp
next
  case True
  with reads_total [OF True assms, of R now code g] read_chart_as_of [OF True, of R code n g as_of] show ?thesis by simp
qed

section \<open>The board\<close>

definition counted :: "(pyval \<times> int) list \<Rightarrow> int" where
  "counted c = sum_list (map snd c)"

lemma count_grade_adds: "count_grade row c = Inr c' \<Longrightarrow> distinct (map fst c) \<Longrightarrow> distinct (map fst c') \<and> counted c' = counted c + 1"
  by (auto simp: count_grade_def Let_def counted_def distinct_dict_set sum_dict_set split: option.splits)

lemma board_counts_total: "foldr_result count_grade rows c = Inr c' \<Longrightarrow> distinct (map fst c) \<Longrightarrow> counted c' = counted c + int (length rows)"
  by (induction rows arbitrary: c) (auto dest!: count_grade_adds)

text \<open>A grade is published for one horizon; on the others every row of the board is a data anomaly.\<close>

lemma other_horizon_ungraded:
  "board_row h captured row = Inr r \<Longrightarrow> \<not> int_eq h captured \<Longrightarrow> pget ''grade'' r = PStr anomaly_label"
  by (cases row) (auto simp: board_row_def spread_def map_of_dict_update map_add_def raise_if_def)

section \<open>Witnesses\<close>

definition page_bundle :: pyval where
  "page_bundle = PDict [
     (''manifest'', PDict [(''actionable'', PBool False), (''code_sha'', PStr ''abcdef1''), (''config_hash'', PStr sample_hash),
        (''contract_version'', PStr ''local-display-v2''), (''expires_at'', PStr ''T1''), (''generated_at'', PStr ''T0''),
        (''parts_hashes'', PDict [(''charts'', PStr sample_hash), (''details'', PStr sample_hash), (''overview'', PStr sample_hash),
           (''sectors'', PStr sample_hash)]), (''sequence'', PInt 7), (''universe'', PList [PStr ''510300.SH''])]),
     (''parts'', PDict [(''charts'', PDict []),
        (''details'', PDict [(''510300.SH'', PDict [(''quote'', PDict [(''status'', PStr ''observed''), (''source_time'', PStr ''T0''),
            (''is_realtime'', PBool True)])])]), (''overview'', PDict []), (''sectors'', PDict [])])]"

definition page_env :: store_env where
  "page_env = \<lparr> sv_env = sample_env, sv_loads = (\<lambda>t. if t = ''p'' then Some small_pointer else Some page_bundle) \<rparr>"

definition page_reader :: display_reader where
  "page_reader = \<lparr> rd_env = page_env,
     rd_store = empty_store\<lparr> st_files := [(''latest.json'', FRegular ''p''), (''bundle_7_aaaaaaaaaaaaaaaa.json'', FRegular ''b'')] \<rparr>,
     rd_code_sha = Some ''abcdef1'', rd_config_hash = Some sample_hash \<rparr>"

definition page_time :: int where
  "page_time = shanghai_instant 20000 (hhmm 9 38)"

definition shown_page :: pyval where
  "shown_page = (case read_instrument_detail page_reader page_time ''510300.sh'' PNone of Inr (Some v) \<Rightarrow> v | _ \<Rightarrow> PNone)"

lemma page_read: "read_instrument_detail page_reader page_time ''510300.sh'' PNone = Inr (Some shown_page)"
  by code_simp

theorem served_detail_is_public_witness:
  "scan_deep shown_page \<and> (\<exists>b. load_bundle page_env (rd_store page_reader) PNone = Some b
     \<and> pget ''generation'' shown_page = pget ''sequence'' (pget ''manifest'' b) \<and> identity_matched page_reader (pget ''manifest'' b))"
  using served_detail_is_public [OF page_read] by (simp add: page_reader_def del: pget.simps)

theorem realtime_quote_is_fresh_witness:
  "\<exists>b t e. load_bundle page_env (rd_store page_reader) PNone = Some b
     \<and> parse_iso sample_env (pget ''expires_at'' (pget ''manifest'' b)) = Inr e \<and> page_time < e
     \<and> parse_iso sample_env (pget ''source_time'' (pget ''quote'' shown_page)) = Inr t \<and> t \<le> page_time \<and> page_time - t \<le> 600 * 1000000"
proof -
  have real: "pget ''is_realtime'' (pget ''quote'' shown_page) = PBool True" by code_simp
  have env: "rd_env page_reader = page_env" "sv_env page_env = sample_env" by (simp_all add: page_reader_def page_env_def)
  from realtime_quote_is_fresh [OF page_read real, unfolded env] show ?thesis by blast
qed

theorem validated_reads_never_raise_witness:
  "(\<exists>c. read_market_context_view page_reader page_time PNone = Inr c) \<and> (\<exists>r. read_chart_data page_reader ''510300.SH'' ''1w'' 5 PNone None = Inr r)"
  using validated_reads_never_raise [of 5 page_reader page_time "''510300.SH''" PNone "''1w''" None] by auto

end
