(* ===== verification/Shadow_Store.thy ===== *)
theory Shadow_Store
  imports Display_Reader
begin

text \<open>
  The first bundle contract, \<^verbatim>\<open>app/workspace/shadow_bundle.py\<close>: public values, making and validating a
  bundle of three blobs, and \<^verbatim>\<open>ShadowStore\<close> with its content-addressed manifests and blobs, its two
  pointers and its collector.

  A directory is the list of its entries with their modification times. \<^verbatim>\<open>json.loads\<close> is an argument,
  and so are the texts of the times a bundle is made with and the time \<open>stamp\<close> a written file gets. The
  writes of one publication are taken in the order board, charts, market, manifest, and do not fail.
\<close>

section \<open>Public values\<close>

definition shadow_forbidden :: "string list" where
  "shadow_forbidden = [''holdings'', ''accounts'', ''cookie'', ''cookies'', ''token'', ''password'', ''authorization'', ''user_id'', ''account_id'']"

definition safety_flags :: "(string \<times> pyval) list" where
  "safety_flags = [(''actionable'', PBool False), (''research_only'', PBool True), (''qualified'', PBool False),
     (''qualification'', PStr ''UNKNOWN''), (''calibration_status'', PStr ''not_calibrated'')]"

definition public_keys :: "(string \<times> pyval) list \<Rightarrow> unit result" where
  "public_keys d =
     raise_if (\<not> list_all (\<lambda>(k, v). map_of d k \<in> {None, Some v}) safety_flags) (ValueError ''unsafe nested safety flag'')
     (raise_if (list_ex (\<lambda>(k, _). lower k \<in> set shadow_forbidden) d) (ValueError ''private fields prohibited'') (Inr ()))"

fun public_only :: "pyval \<Rightarrow> unit result"
and public_items :: "(string \<times> pyval) list \<Rightarrow> unit result"
and public_list :: "pyval list \<Rightarrow> unit result" where
  "public_only (PDict d) = bindr (public_keys d) (\<lambda>_. public_items d)"
| "public_only (PList xs) = public_list xs"
| "public_only _ = Inr ()"
| "public_items [] = Inr ()"
| "public_items ((k, v) # d) = bindr (public_only v) (\<lambda>_. public_items d)"
| "public_list [] = Inr ()"
| "public_list (v # vs) = bindr (public_only v) (\<lambda>_. public_list vs)"

section \<open>Bundles\<close>

definition shadow_contract :: pyval where "shadow_contract = PStr ''shadow-display-v1''"
definition shadow_parts :: "string list" where "shadow_parts = [''board'', ''charts'', ''market'']"

definition make_bundle ::
  "py_env \<Rightarrow> pyval \<Rightarrow> pyval \<Rightarrow> pyval \<Rightarrow> pyval \<Rightarrow> string \<Rightarrow> string \<Rightarrow> pyval \<Rightarrow> pyval \<Rightarrow> pyval result" where
  "make_bundle E board charts market sequence generated_at expires_at code_sha config_hash =
     (let blobs = [(''board'', board), (''charts'', charts), (''market'', market)]
      in bindr (mapr (\<lambda>(k, v). bindr (digest E v) (\<lambda>h. Inr (k, PStr h))) blobs) (\<lambda>parts.
         Inr (PDict [(''manifest'', PDict [(''supported_intervals'', PList [PStr ''1d'']), (''producer_id'', PStr ''local-research''),
             (''permission_scope'', PStr ''WRITE_ONLY_SHADOW''), (''source_snapshot_time'', PStr generated_at),
             (''contract'', shadow_contract), (''sequence'', sequence), (''generated_at'', PStr generated_at),
             (''expires_at'', PStr expires_at), (''code_sha'', code_sha), (''config_hash'', config_hash), (''parts'', PDict parts),
             (''research_only'', PBool True), (''actionable'', PBool False)]), (''blobs'', PDict blobs)])))"

definition manifest_keys :: "string list" where
  "manifest_keys = [''supported_intervals'', ''producer_id'', ''permission_scope'', ''source_snapshot_time'', ''contract'', ''sequence'',
     ''generated_at'', ''expires_at'', ''code_sha'', ''config_hash'', ''parts'', ''research_only'', ''actionable'']"

definition row_keys :: "string list" where
  "row_keys = [''ts_code'', ''name'', ''kind'', ''grade'', ''grade_reason'', ''freshness'', ''data_status'', ''price'', ''price_basis'',
     ''theme_l1'', ''theme_l2'', ''research_only'', ''actionable'']"

definition same_keys :: "string list \<Rightarrow> pyval \<Rightarrow> bool" where
  "same_keys ks v \<longleftrightarrow> set (pkeys v) = set ks"

definition subset_keys :: "string list \<Rightarrow> pyval \<Rightarrow> bool" where
  "subset_keys ks v \<longleftrightarrow> set (pkeys v) \<subseteq> set ks"

text \<open>The identity, order and freshness of the manifest; the result is the time of generation.\<close>

definition validate_times :: "py_env \<Rightarrow> int \<Rightarrow> pyval \<Rightarrow> int result" where
  "validate_times E now m =
     bindr (timestamp E (pget ''generated_at'' m)) (\<lambda>generated.
     bindr (timestamp E (pget ''expires_at'' m)) (\<lambda>expires.
     raise_if (pget ''supported_intervals'' m \<noteq> PList [PStr ''1d'']) (ValueError ''unsupported interval contract'')
     (if pget ''producer_id'' m \<noteq> PStr ''local-research'' \<or> pget ''permission_scope'' m \<noteq> PStr ''WRITE_ONLY_SHADOW''
      then Inl (ValueError ''producer source contract'')
      else bindr (timestamp E (pget ''source_snapshot_time'' m)) (\<lambda>source.
        raise_if (source \<noteq> generated) (ValueError ''producer source contract'')
        (raise_if (now < generated \<or> expires \<le> now \<or> expires \<le> generated \<or> 7200 * 1000000 < expires - generated)
          (ValueError ''invalid freshness'') (Inr generated))))))"

definition validate_head :: "py_env \<Rightarrow> string \<Rightarrow> string \<Rightarrow> int \<Rightarrow> pyval \<Rightarrow> int result" where
  "validate_head E sha h now m =
     raise_if (\<not> same_keys manifest_keys m \<or> pget ''contract'' m \<noteq> shadow_contract) (ValueError ''contract mismatch'')
     (raise_if (pget ''code_sha'' m \<noteq> PStr sha \<or> pget ''config_hash'' m \<noteq> PStr h) (ValueError ''runtime identity mismatch'')
     (raise_if (\<not> hex_string 40 sha \<or> \<not> hex_string 64 h) (ValueError ''invalid identity'')
     (raise_if (case pget ''sequence'' m of PInt n \<Rightarrow> n < 1 | _ \<Rightarrow> True) (ValueError ''invalid sequence'')
     (bindr (validate_times E now m) (\<lambda>generated.
      raise_if (pget ''research_only'' m \<noteq> PBool True \<or> pget ''actionable'' m \<noteq> PBool False) (ValueError ''shadow safety contract'')
        (Inr generated))))))"

definition validate_parts :: "py_env \<Rightarrow> pyval \<Rightarrow> pyval \<Rightarrow> unit result" where
  "validate_parts E m blobs =
     raise_if (\<not> same_keys shadow_parts (pget ''parts'' m) \<or> \<not> same_keys shadow_parts blobs) (ValueError ''incomplete bundle'')
     (foldr_result (\<lambda>k _. if \<not> is_dict (pget k blobs) then Inl (ValueError ''blob integrity'')
        else bindr (digest E (pget k blobs)) (\<lambda>d. raise_if (PStr d \<noteq> pget k (pget ''parts'' m)) (ValueError ''blob integrity'') (Inr ())))
      shadow_parts ())"

text \<open>The board; the result is the codes of its rows. A code that cannot be hashed raises in \<^verbatim>\<open>set(codes)\<close>.\<close>

definition validate_board :: "py_env \<Rightarrow> int \<Rightarrow> pyval \<Rightarrow> string list result" where
  "validate_board E generated board = (case pget ''rows'' board of
       PList rows \<Rightarrow>
         raise_if (\<not> list_all (\<lambda>r. is_dict r \<and> subset_keys row_keys r) rows) (ValueError ''nonpublic row fields'')
         (raise_if (\<not> subset_keys [''rows'', ''snapshot_id'', ''generated_at'', ''contains_mock'', ''actionable''] board)
           (ValueError ''nonpublic board fields'')
         (bindr (if truthy (pget ''generated_at'' board)
                 then bindr (timestamp E (pget ''generated_at'' board)) (\<lambda>t.
                   raise_if (t \<noteq> generated) (ValueError ''board source time mismatch'') (Inr ())) else Inr ()) (\<lambda>_.
          let codes = map (pget ''ts_code'') rows
          in raise_if (list_ex (\<lambda>c. is_list c \<or> is_dict c) codes) (TypeError ''unhashable type'')
             (raise_if (\<not> distinct codes \<or> \<not> list_all (\<lambda>c. case c of PStr s \<Rightarrow> code_re s | _ \<Rightarrow> False) codes)
               (ValueError ''invalid board universe'') (Inr (map as_text codes))))))
     | _ \<Rightarrow> Inl (ValueError ''board rows required''))"

definition iso_day :: "int \<Rightarrow> string" where
  "iso_day day = (case civil day of (y, m, d) \<Rightarrow> zero_pad 4 y @ ''-'' @ zero_pad 2 m @ ''-'' @ zero_pad 2 d)"

definition shadow_chart_ok :: "py_env \<Rightarrow> int \<Rightarrow> string \<times> pyval \<Rightarrow> unit result" where
  "shadow_chart_ok E generated cc =
     bindr (validate_public_chart E (snd cc) (Some (fst cc)) (Some generated) False ''1d'') (\<lambda>_.
     bindr (py_iter (pget_default ''bars'' (PList []) (snd cc))) (\<lambda>bars.
     bindr (py_iter (pget_default ''research_bars'' (PList []) (snd cc))) (\<lambda>rbars.
     raise_if (\<not> list_all (\<lambda>bar. case pget ''date'' bar of PStr s \<Rightarrow> take 10 s \<le> iso_day (local_date generated) | _ \<Rightarrow> False) (bars @ rbars))
       (ValueError ''chart from future'') (Inr ()))))"

definition reference_time_ok :: "py_env \<Rightarrow> int \<Rightarrow> pyval \<Rightarrow> unit result" where
  "reference_time_ok E generated r = (if truthy (pget ''source_timestamp'' r)
     then bindr (timestamp E (pget ''source_timestamp'' r)) (\<lambda>t. raise_if (generated < t) (ValueError ''market from future'') (Inr ()))
     else Inr ())"

definition validate_market :: "py_env \<Rightarrow> int \<Rightarrow> pyval \<Rightarrow> unit result" where
  "validate_market E generated market =
     raise_if (\<not> same_keys [''references''] market) (ValueError ''nonpublic market fields'')
     (bindr (py_iter (pget ''references'' market)) (\<lambda>refs.
      raise_if (\<not> list_all (\<lambda>r. is_dict r \<and> subset_keys [''id'', ''source'', ''source_timestamp'', ''reason''] r) refs)
        (ValueError ''nonpublic market fields'')
      (bindr (foldr_result (\<lambda>r _. reference_time_ok E generated r) refs ()) (\<lambda>_.
       raise_if (\<not> is_list (pget ''references'' market)) (ValueError ''market references required'') (Inr ())))))"

definition shadow_validate :: "py_env \<Rightarrow> string \<Rightarrow> string \<Rightarrow> int \<Rightarrow> pyval \<Rightarrow> pyval result" where
  "shadow_validate E sha h now bundle_v =
     bindr (canonical E bundle_v) (\<lambda>_.
     bindr (public_only bundle_v) (\<lambda>_.
     raise_if (\<not> is_dict bundle_v \<or> \<not> same_keys [''manifest'', ''blobs''] bundle_v) (ValueError ''invalid envelope'')
     (let m = pget ''manifest'' bundle_v; blobs = pget ''blobs'' bundle_v
      in raise_if (\<not> is_dict m \<or> \<not> is_dict blobs \<or> \<not> is_dict (pget ''parts'' m)) (ValueError ''invalid manifest'')
         (bindr (validate_head E sha h now m) (\<lambda>generated.
          bindr (validate_parts E m blobs) (\<lambda>_.
          bindr (validate_board E generated (pget ''board'' blobs)) (\<lambda>codes.
          raise_if (set (pkeys (pget ''charts'' blobs)) \<noteq> set codes) (ValueError ''chart universe mismatch'')
          (bindr (foldr_result (\<lambda>cc _. shadow_chart_ok E generated cc) (the (as_dict (pget ''charts'' blobs))) ()) (\<lambda>_.
           bindr (validate_market E generated (pget ''market'' blobs)) (\<lambda>_. Inr m))))))))))"

section \<open>The store\<close>

type_synonym shadow_dir = "(string \<times> (fentry \<times> int)) list"

record shadow_store =
  sh_code_sha :: string
  sh_config_hash :: string
  sh_max_bytes :: int
  sh_max_generations :: int
  sh_root_link :: bool
  sh_dir_link :: bool
  sh_locked :: bool
  sh_latest :: "string option"
  sh_previous :: "string option"
  sh_manifests :: shadow_dir
  sh_blobs :: shadow_dir
  sh_other_bytes :: int

definition sdir_bytes :: "shadow_dir \<Rightarrow> int" where
  "sdir_bytes d = sum_list (map (\<lambda>(_, f, _). int (length (fbytes f))) d)"

definition shadow_used :: "shadow_store \<Rightarrow> int" where
  "shadow_used st = sdir_bytes (sh_manifests st) + sdir_bytes (sh_blobs st) + opt_length (sh_latest st) + opt_length (sh_previous st) + sh_other_bytes st"

definition loads_or :: "store_env \<Rightarrow> string \<Rightarrow> pyval result" where
  "loads_or V raw = (case sv_loads V raw of None \<Rightarrow> Inl (ValueError ''invalid JSON'') | Some v \<Rightarrow> Inr v)"

definition read_entry :: "string \<Rightarrow> shadow_dir \<Rightarrow> string result" where
  "read_entry n d = (case map_of d n of None \<Rightarrow> Inl (OSError ''No such file'') | Some (f, _) \<Rightarrow> Inr (fbytes f))"

section \<open>The collector\<close>

text \<open>What one pointer file protects, and what one manifest refers to.\<close>

definition pointer_id :: "store_env \<Rightarrow> string option \<Rightarrow> pyval list result" where
  "pointer_id V p = (case p of None \<Rightarrow> Inr []
     | Some raw \<Rightarrow> bindr (loads_or V raw) (\<lambda>v. bindr (pindex v ''bundle_id'') (\<lambda>i.
         raise_if (is_list i \<or> is_dict i) (TypeError ''unhashable type'') (Inr [i]))))"

definition protected_ids :: "store_env \<Rightarrow> shadow_store \<Rightarrow> pyval list result" where
  "protected_ids V st = bindr (pointer_id V (sh_latest st)) (\<lambda>a. bindr (pointer_id V (sh_previous st)) (\<lambda>b. Inr (a @ b)))"

definition parts_of :: "store_env \<Rightarrow> string \<Rightarrow> pyval list result" where
  "parts_of V raw = bindr (loads_or V raw) (\<lambda>v. bindr (pindex v ''parts'') (\<lambda>p. case p of
       PDict d \<Rightarrow> raise_if (list_ex (\<lambda>(_, x). is_list x \<or> is_dict x) d) (TypeError ''unhashable type'') (Inr (map snd d))
     | _ \<Rightarrow> Inl (AttributeError ''values'')))"

definition referenced :: "store_env \<Rightarrow> shadow_store \<Rightarrow> pyval list result" where
  "referenced V st = bindr (mapr (\<lambda>(n, f, _). parts_of V (fbytes f)) (filter (\<lambda>(n, _). hex_string 64 n) (sh_manifests st)))
     (\<lambda>ps. Inr (concat ps))"

definition removable :: "pyval list \<Rightarrow> string \<times> (fentry \<times> int) \<Rightarrow> bool" where
  "removable keep e \<longleftrightarrow> hex_string 64 (fst e) \<and> PStr (fst e) \<notin> set keep \<and> \<not> is_flink (fst (snd e))"

definition gc_blobs :: "store_env \<Rightarrow> shadow_store \<Rightarrow> shadow_store \<times> unit result" where
  "gc_blobs V st = (case referenced V st of Inl e \<Rightarrow> (st, Inl e)
     | Inr refs \<Rightarrow> (st\<lparr> sh_blobs := filter (\<lambda>e. \<not> removable refs e) (sh_blobs st) \<rparr>, Inr ()))"

definition newest_first :: "shadow_dir \<Rightarrow> shadow_dir" where
  "newest_first d = sort_key (\<lambda>(_, _, t). - t) d"

fun keep_newest :: "int \<Rightarrow> pyval list \<Rightarrow> string list \<Rightarrow> pyval list" where
  "keep_newest cap keep [] = keep"
| "keep_newest cap keep (n # ns) =
     keep_newest cap (if int (length keep) < cap \<and> PStr n \<notin> set keep then PStr n # keep else keep) ns"

definition drop_manifest :: "string \<Rightarrow> shadow_store \<Rightarrow> shadow_store" where
  "drop_manifest n st = st\<lparr> sh_manifests := filter (\<lambda>(k, _). k \<noteq> n) (sh_manifests st) \<rparr>"

text \<open>The second loop, from the oldest, until the bytes fit.\<close>

fun shrink :: "store_env \<Rightarrow> int \<Rightarrow> pyval list \<Rightarrow> string list \<Rightarrow> shadow_store \<Rightarrow> shadow_store \<times> unit result" where
  "shrink V required protected [] st = (st, Inr ())"
| "shrink V required protected (n # ns) st =
     (if shadow_used st + required \<le> sh_max_bytes st then (st, Inr ())
      else case map_of (sh_manifests st) n of
        None \<Rightarrow> shrink V required protected ns st
      | Some e \<Rightarrow>
          if removable protected (n, e)
          then (case gc_blobs V (drop_manifest n st) of
                  (st1, Inl x) \<Rightarrow> (st1, Inl x)
                | (st1, Inr _) \<Rightarrow> shrink V required protected ns st1)
          else shrink V required protected ns st)"

definition shadow_gc :: "store_env \<Rightarrow> int \<Rightarrow> shadow_store \<Rightarrow> shadow_store \<times> unit result" where
  "shadow_gc V required st =
     (case protected_ids V st of
        Inl e \<Rightarrow> (st, Inl e)
      | Inr protected \<Rightarrow>
         (let ms = newest_first (sh_manifests st);
              keep = keep_newest (sh_max_generations st) (remdups protected) (map fst ms)
          in case gc_blobs V (st\<lparr> sh_manifests := filter (\<lambda>e. \<not> removable keep e) (sh_manifests st) \<rparr>) of
               (st1, Inl e) \<Rightarrow> (st1, Inl e)
             | (st1, Inr _) \<Rightarrow> shrink V required protected (rev (map fst ms)) st1))"

section \<open>Publishing and reading\<close>

text \<open>\<^verbatim>\<open>n <= v\<close> for an int and a stored value.\<close>

fun int_le :: "int \<Rightarrow> pyval \<Rightarrow> bool result" where
  "int_le n (PInt m) = Inr (n \<le> m)"
| "int_le n (PBool b) = Inr (n \<le> (if b then 1 else 0))"
| "int_le n (PFloat (Fin r)) = Inr (of_int n \<le> r)"
| "int_le n (PFloat PosInf) = Inr True"
| "int_le n (PFloat _) = Inr False"
| "int_le n _ = Inl (TypeError ''not supported between instances'')"

text \<open>The pointer before the publication, after the check that the new bundle follows it.\<close>

definition follow :: "store_env \<Rightarrow> pyval \<Rightarrow> shadow_store \<Rightarrow> pyval result" where
  "follow V m st = (case sh_latest st of None \<Rightarrow> Inr PNone
     | Some raw \<Rightarrow> bindr (loads_or V raw) (\<lambda>previous. bindr (pindex previous ''bundle_id'') (\<lambda>i. case i of
         PStr name \<Rightarrow> bindr (read_entry name (sh_manifests st)) (\<lambda>text. bindr (loads_or V text) (\<lambda>old.
           bindr (pindex old ''sequence'') (\<lambda>s. bindr (int_le (as_int (pget ''sequence'' m)) s) (\<lambda>replay.
           raise_if replay (ValueError ''replay or out-of-order'')
           (bindr (timestamp (sv_env V) (pget ''generated_at'' m)) (\<lambda>g. bindr (pindex old ''generated_at'') (\<lambda>og.
            bindr (timestamp (sv_env V) og) (\<lambda>o_gen.
            raise_if (g < o_gen) (ValueError ''replay or out-of-order'') (Inr previous)))))))))
       | _ \<Rightarrow> Inl (TypeError ''unsupported operand''))))"

text \<open>The blobs by name, and the manifest's name and text.\<close>

definition blob_writes :: "store_env \<Rightarrow> pyval \<Rightarrow> pyval \<Rightarrow> (string \<times> string) list result" where
  "blob_writes V m blobs = bindr (mapr (\<lambda>k. bindr (canonical (sv_env V) (pget k blobs)) (\<lambda>t.
       Inr (as_text (pget k (pget ''parts'' m)), t))) shadow_parts) (\<lambda>ws. Inr (dict_update ws []))"

definition collides :: "shadow_dir \<Rightarrow> string \<times> string \<Rightarrow> bool" where
  "collides d w \<longleftrightarrow> (case map_of d (fst w) of None \<Rightarrow> False | Some (f, _) \<Rightarrow> fbytes f \<noteq> snd w)"

definition write_new :: "int \<Rightarrow> string \<times> string \<Rightarrow> shadow_dir \<Rightarrow> shadow_dir" where
  "write_new stamp w d = (if map_of d (fst w) = None then d @ [(fst w, FRegular (snd w), stamp)] else d)"

definition missing_bytes :: "shadow_dir \<Rightarrow> (string \<times> string) list \<Rightarrow> int" where
  "missing_bytes d ws = sum_list (map (\<lambda>w. if map_of d (fst w) = None then int (length (snd w)) else 0) ws)"

definition write_pointers :: "store_env \<Rightarrow> pyval \<Rightarrow> string \<Rightarrow> shadow_store \<Rightarrow> shadow_store \<times> unit result" where
  "write_pointers V previous ident st =
     (case (if truthy previous then bindr (canonical (sv_env V) previous) (\<lambda>t. Inr (Some t)) else Inr (sh_previous st)) of
        Inl e \<Rightarrow> (st, Inl e)
      | Inr p \<Rightarrow> (case canonical (sv_env V) (PDict [(''bundle_id'', PStr ident)]) of
          Inl e \<Rightarrow> (st\<lparr> sh_previous := p \<rparr>, Inl e)
        | Inr t \<Rightarrow> (st\<lparr> sh_previous := p, sh_latest := Some t \<rparr>, Inr ())))"

definition activate_shadow ::
  "store_env \<Rightarrow> int \<Rightarrow> pyval \<Rightarrow> string \<Rightarrow> (string \<times> string) list \<Rightarrow> string \<Rightarrow> shadow_store \<Rightarrow> shadow_store \<times> pyval result" where
  "activate_shadow V stamp previous ident ws text st =
     (case shadow_gc V 0 st of
        (st1, Inl e) \<Rightarrow> (st1, Inl e)
      | (st1, Inr _) \<Rightarrow>
         (let st2 = st1\<lparr> sh_blobs := fold (write_new stamp) ws (sh_blobs st1),
                         sh_manifests := write_new stamp (ident, text) (sh_manifests st1) \<rparr>
          in case write_pointers V previous ident st2 of
               (st3, Inl e) \<Rightarrow> (st3, Inl e)
             | (st3, Inr _) \<Rightarrow> (case shadow_gc V 0 st3 of
                 (st4, Inl e) \<Rightarrow> (st4, Inl e)
               | (st4, Inr _) \<Rightarrow> (st4, Inr (PDict [(''bundle_id'', PStr ident)])))))"

definition publish_locked_shadow ::
  "store_env \<Rightarrow> int \<Rightarrow> pyval \<Rightarrow> pyval \<Rightarrow> shadow_store \<Rightarrow> shadow_store \<times> pyval result" where
  "publish_locked_shadow V stamp m blobs st =
     (case bindr (follow V m st) (\<lambda>previous. bindr (digest (sv_env V) m) (\<lambda>ident. bindr (canonical (sv_env V) m) (\<lambda>text.
           bindr (blob_writes V m blobs) (\<lambda>ws.
           raise_if (list_ex (collides (sh_blobs st)) ws \<or> collides (sh_manifests st) (ident, text)) (ValueError ''content collision'')
             (Inr (previous, ident, text, ws)))))) of
        Inl e \<Rightarrow> (st, Inl e)
      | Inr (previous, ident, text, ws) \<Rightarrow>
         (let needed = sum_list (map (\<lambda>w. int (length (snd w))) ws) + int (length text) + 1024
          in case shadow_gc V needed st of
               (st1, Inl e) \<Rightarrow> (st1, Inl e)
             | (st1, Inr _) \<Rightarrow>
                if sh_max_bytes st1 < shadow_used st1 + missing_bytes (sh_blobs st1) ws + missing_bytes (sh_manifests st1) [(ident, text)] + 1024
                then (st1, Inl (ValueError ''store capacity exceeded''))
                else activate_shadow V stamp previous ident ws text st1))"

definition shadow_publish :: "store_env \<Rightarrow> int \<Rightarrow> int \<Rightarrow> pyval \<Rightarrow> shadow_store \<Rightarrow> shadow_store \<times> pyval result" where
  "shadow_publish V now stamp bundle_v st =
     (case shadow_validate (sv_env V) (sh_code_sha st) (sh_config_hash st) now bundle_v of
        Inl e \<Rightarrow> (st, Inl e)
      | Inr m \<Rightarrow>
         if sh_root_link st then (st, Inl (ValueError ''symlink store''))
         else if sh_locked st then (st, Inl (ValueError ''publisher busy''))
         else if sh_dir_link st then (st, Inl (ValueError ''symlink directory''))
         else publish_locked_shadow V stamp m (pget ''blobs'' bundle_v) st)"

definition read_blob :: "store_env \<Rightarrow> shadow_store \<Rightarrow> string \<times> pyval \<Rightarrow> (string \<times> pyval) result" where
  "read_blob V st kv = (case snd kv of
       PStr h \<Rightarrow> raise_if (fst kv \<notin> set shadow_parts \<or> \<not> hex_string 64 h) (ValueError ''invalid blob reference'')
         (bindr (read_entry h (sh_blobs st)) (\<lambda>t. bindr (loads_or V t) (\<lambda>v. Inr (fst kv, v))))
     | _ \<Rightarrow> Inl (ValueError ''invalid blob reference''))"

definition read_generation :: "store_env \<Rightarrow> int \<Rightarrow> shadow_store \<Rightarrow> pyval \<Rightarrow> pyval result" where
  "read_generation V now st i = (case i of
       PStr ident \<Rightarrow>
         raise_if (\<not> hex_string 64 ident) (ValueError ''invalid bundle id'')
         (bindr (read_entry ident (sh_manifests st)) (\<lambda>raw. bindr (loads_or V raw) (\<lambda>m.
          bindr (digest (sv_env V) m) (\<lambda>d. raise_if (d \<noteq> ident) (ValueError ''manifest integrity'')
          (bindr (pindex m ''parts'') (\<lambda>p. case p of
             PDict parts \<Rightarrow> bindr (mapr (read_blob V st) parts) (\<lambda>bs.
               bindr (shadow_validate (sv_env V) (sh_code_sha st) (sh_config_hash st) now
                        (PDict [(''manifest'', m), (''blobs'', PDict bs)])) (\<lambda>_.
               spread m (bs @ [(''bundle_id'', PStr ident), (''shadow'', PBool True)])))
           | _ \<Rightarrow> Inl (AttributeError ''items'')))))))
     | _ \<Rightarrow> Inl (ValueError ''invalid bundle id''))"

definition shadow_read :: "store_env \<Rightarrow> int \<Rightarrow> pyval \<Rightarrow> shadow_store \<Rightarrow> pyval result" where
  "shadow_read V now bundle_id st =
     bindr (if bundle_id \<noteq> PNone then Inr bundle_id
            else case sh_latest st of None \<Rightarrow> Inl (OSError ''No such file'')
              | Some raw \<Rightarrow> bindr (loads_or V raw) (\<lambda>v. pindex v ''bundle_id'')) (read_generation V now st)"

end
