(* ===== verification/Shadow_Props.thy ===== *)
theory Shadow_Props
  imports Shadow_Store
begin

text \<open>
  The collector of the first store only removes what no reader is meant to find: whatever it does, also
  when it stops with an exception, the generations its two pointers name are read as before.
\<close>

section \<open>Kept generations\<close>

definition refs_of :: "store_env \<Rightarrow> string \<Rightarrow> shadow_store \<Rightarrow> string set" where
  "refs_of V i st = {h. \<exists>f t m d. map_of (sh_manifests st) i = Some (f, t) \<and> loads_or V (fbytes f) = Inr m
     \<and> pindex m ''parts'' = Inr (PDict d) \<and> PStr h \<in> snd ` set d}"

text \<open>The frame of a collection, and what it keeps of the generations it protects.\<close>

definition kept :: "store_env \<Rightarrow> pyval list \<Rightarrow> shadow_store \<Rightarrow> shadow_store \<Rightarrow> bool" where
  "kept V P st st' \<longleftrightarrow> sh_latest st' = sh_latest st \<and> sh_previous st' = sh_previous st
     \<and> sh_code_sha st' = sh_code_sha st \<and> sh_config_hash st' = sh_config_hash st
     \<and> (\<forall>i. PStr i \<in> set P \<longrightarrow> map_of (sh_manifests st') i = map_of (sh_manifests st) i)
     \<and> (\<forall>i h. PStr i \<in> set P \<longrightarrow> hex_string 64 i \<longrightarrow> h \<in> refs_of V i st \<longrightarrow> map_of (sh_blobs st') h = map_of (sh_blobs st) h)"

lemma kept_refl [simp]: "kept V P st st"
  by (simp add: kept_def)

lemma kept_trans: "kept V P a b \<Longrightarrow> kept V P b c \<Longrightarrow> kept V P a c"
  unfolding kept_def refs_of_def by auto

lemma kept_subset: "kept V P a b \<Longrightarrow> set Q \<subseteq> set P \<Longrightarrow> kept V Q a b"
  unfolding kept_def by blast

lemma map_of_filter_kept: "(\<And>v. (k, v) \<in> set d \<Longrightarrow> Q (k, v)) \<Longrightarrow> map_of (filter Q d) k = map_of d k"
  by (induction d) auto

lemma referenced_refs:
  assumes "referenced V st = Inr refs" "hex_string 64 i" "h \<in> refs_of V i st"
  shows "PStr h \<in> set refs"
proof -
  from assms(3) obtain f t m d where e: "map_of (sh_manifests st) i = Some (f, t)" "loads_or V (fbytes f) = Inr m"
    "pindex m ''parts'' = Inr (PDict d)" "PStr h \<in> snd ` set d"
    unfolding refs_of_def by blast
  then have mem: "(i, f, t) \<in> set (filter (\<lambda>(n, _). hex_string 64 n) (sh_manifests st))"
    using assms(2) by (auto dest: map_of_SomeD)
  from assms(1) obtain pss where p: "refs = concat pss"
    "list_all2 (\<lambda>x y. (\<lambda>(n, f, _). parts_of V (fbytes f)) x = Inr y) (filter (\<lambda>(n, _). hex_string 64 n) (sh_manifests st)) pss"
    by (auto simp: referenced_def mapr_Inr_iff)
  from list_all2_left [OF p(2) mem] obtain ps where ps: "ps \<in> set pss" "parts_of V (fbytes f) = Inr ps" by auto
  from ps(2) e have "ps = map snd d" by (simp add: parts_of_def raise_if_def split: if_splits)
  with ps(1) e(4) show ?thesis unfolding p(1) by (metis UN_I list.set_map set_concat)
qed

lemma gc_blobs_kept: "kept V P st (fst (gc_blobs V st))"
proof (cases "referenced V st")
  case (Inr refs)
  have "map_of (filter (\<lambda>e. \<not> removable refs e) (sh_blobs st)) h = map_of (sh_blobs st) h"
    if "hex_string 64 i" "h \<in> refs_of V i st" for i h
    by (rule map_of_filter_kept) (use referenced_refs [OF Inr that] in \<open>simp add: removable_def\<close>)
  then show ?thesis by (auto simp: gc_blobs_def Inr kept_def)
qed (simp add: gc_blobs_def)

lemma gc_blobs_manifests: "sh_manifests (fst (gc_blobs V st)) = sh_manifests st"
  by (simp add: gc_blobs_def split: sum.splits)

lemma manifests_kept:
  "(\<And>i. PStr i \<in> set P \<Longrightarrow> map_of ms i = map_of (sh_manifests st) i) \<Longrightarrow> kept V P st (st\<lparr> sh_manifests := ms \<rparr>)"
  by (simp add: kept_def)

lemma drop_manifest_kept: "removable P (n, e) \<Longrightarrow> kept V P st (drop_manifest n st)"
  unfolding drop_manifest_def by (rule manifests_kept, rule map_of_filter_kept) (auto simp: removable_def)

lemma gc_drop_kept:
  assumes "removable P (n, e)" "gc_blobs V (drop_manifest n st) = (st1, r)"
  shows "kept V P st st1"
  using kept_trans [OF drop_manifest_kept [OF assms(1)] gc_blobs_kept] assms(2) by (metis fst_conv)

lemma shrink_kept: "kept V P st (fst (shrink V required P ns st))"
proof (induction ns arbitrary: st)
  case (Cons n ns)
  show ?case
  proof (cases "shadow_used st + required \<le> sh_max_bytes st")
    case False
    show ?thesis
    proof (cases "map_of (sh_manifests st) n")
      case None
      with False Cons.IH show ?thesis by simp
    next
      case (Some e)
      obtain st1 r where g: "gc_blobs V (drop_manifest n st) = (st1, r)" by fastforce
      have "kept V P st (fst (shrink V required P ns st1))" "kept V P st st1" if "removable P (n, e)"
        using gc_drop_kept [OF that g] kept_trans Cons.IH by blast+
      with False Some g Cons.IH show ?thesis by (cases r) auto
    qed
  qed simp
qed simp

lemma keep_newest_superset: "set keep \<subseteq> set (keep_newest cap keep ns)"
  by (induction ns arbitrary: keep) (simp, force)

lemma shadow_gc_stopped: "protected_ids V st = Inl e \<Longrightarrow> shadow_gc V required st = (st, Inl e)"
  by (simp add: shadow_gc_def)

lemma shadow_gc_kept:
  assumes "protected_ids V st = Inr P"
  shows "kept V P st (fst (shadow_gc V required st))"
proof -
  define ns where "ns = map fst (newest_first (sh_manifests st))"
  define keep where "keep = keep_newest (sh_max_generations st) (remdups P) ns"
  define st0 where "st0 = st\<lparr> sh_manifests := filter (\<lambda>e. \<not> removable keep e) (sh_manifests st) \<rparr>"
  obtain st1 r where g: "gc_blobs V st0 = (st1, r)" by fastforce
  have "set P \<subseteq> set keep" using keep_newest_superset [of "remdups P"] by (simp add: keep_def)
  then have "kept V P st st0"
    unfolding st0_def by (intro manifests_kept map_of_filter_kept) (auto simp: removable_def)
  from kept_trans [OF this, of st1] have k: "kept V P st st1" using gc_blobs_kept [of V P st0] g by simp
  have "shadow_gc V required st = (case gc_blobs V st0 of (st1, Inl e) \<Rightarrow> (st1, Inl e)
      | (st1, Inr _) \<Rightarrow> shrink V required P (rev ns) st1)"
    unfolding shadow_gc_def assms Let_def st0_def keep_def ns_def by simp
  with g k kept_trans [OF k shrink_kept] show ?thesis by (cases r) auto
qed

section \<open>Reading after a collection\<close>

lemma read_blob_cong:
  "(\<And>h. v = PStr h \<Longrightarrow> map_of (sh_blobs st') h = map_of (sh_blobs st) h) \<Longrightarrow> read_blob V st' (k, v) = read_blob V st (k, v)"
  by (cases v) (simp_all add: read_blob_def read_entry_def)

lemma read_generation_kept:
  assumes "kept V P st st'" "i \<in> set P"
  shows "read_generation V now st' i = read_generation V now st i"
proof (cases "\<exists>ident. i = PStr ident \<and> hex_string 64 ident")
  case True
  then obtain ident where i: "i = PStr ident" "hex_string 64 ident" by auto
  from assms i have ids: "sh_code_sha st' = sh_code_sha st" "sh_config_hash st' = sh_config_hash st"
    "map_of (sh_manifests st') ident = map_of (sh_manifests st) ident"
    and blobs: "\<And>h. h \<in> refs_of V ident st \<Longrightarrow> map_of (sh_blobs st') h = map_of (sh_blobs st) h"
    unfolding kept_def by auto
  have bs: "mapr (read_blob V st') parts = mapr (read_blob V st) parts"
    if "map_of (sh_manifests st) ident = Some (f, t)" "loads_or V (fbytes f) = Inr m" "pindex m ''parts'' = Inr (PDict parts)" for f t m parts
  proof (rule mapr_cong)
    fix kv assume "kv \<in> set parts"
    with that have "h \<in> refs_of V ident st" if "snd kv = PStr h" for h
      using that unfolding refs_of_def by (force intro!: image_eqI [of _ snd kv])
    then show "read_blob V st' kv = read_blob V st kv"
      using blobs by (cases kv) (auto intro: read_blob_cong)
  qed simp
  show ?thesis
  proof (cases "map_of (sh_manifests st) ident")
    case None
    then show ?thesis by (simp add: read_generation_def i ids read_entry_def)
  next
    case (Some e)
    obtain f t where e: "e = (f, t)" by fastforce
    show ?thesis
    proof (cases "loads_or V (fbytes f)")
      case (Inr m)
      show ?thesis
      proof (cases "\<exists>parts. pindex m ''parts'' = Inr (PDict parts)")
        case True
        then obtain parts where p: "pindex m ''parts'' = Inr (PDict parts)" by auto
        show ?thesis
          by (simp add: read_generation_def i ids read_entry_def Some e Inr p bs [OF Some [unfolded e] Inr p])
      next
        case False
        then show ?thesis
          by (cases "pindex m ''parts''") (auto simp: read_generation_def i ids read_entry_def Some e Inr split: pyval.splits)
      qed
    qed (simp add: read_generation_def i ids read_entry_def Some e)
  qed
next
  case False
  then show ?thesis by (cases i) (auto simp: read_generation_def)
qed

lemma shadow_read_kept:
  assumes "protected_ids V st = Inr P" "i \<in> set P \<or> i = PNone"
  shows "shadow_read V now i (fst (shadow_gc V required st)) = shadow_read V now i st"
proof -
  note k = shadow_gc_kept [OF assms(1), of required]
  have latest: "sh_latest (fst (shadow_gc V required st)) = sh_latest st" using k by (simp add: kept_def)
  show ?thesis
  proof (cases "i = PNone")
    case False
    with assms(2) show ?thesis by (simp add: shadow_read_def read_generation_kept [OF k])
  next
    case True
    show ?thesis
    proof (cases "sh_latest st")
      case None
      with True latest show ?thesis by (simp add: shadow_read_def)
    next
      case (Some raw)
      from assms(1) Some obtain v j where v: "loads_or V raw = Inr v" "pindex v ''bundle_id'' = Inr j" "j \<in> set P"
        by (auto simp: protected_ids_def pointer_id_def)
      with True Some latest show ?thesis by (simp add: shadow_read_def read_generation_kept [OF k v(3)])
    qed
  qed
qed

text \<open>What a pointer file names, whatever the collector makes of it: the bundle id of its JSON text.\<close>

definition named_by :: "store_env \<Rightarrow> string option \<Rightarrow> pyval list" where
  "named_by V p = (case p of None \<Rightarrow> []
     | Some raw \<Rightarrow> (case sv_loads V raw of None \<Rightarrow> [] | Some v \<Rightarrow> [pget ''bundle_id'' v]))"

lemma pointer_id_named: "pointer_id V p = Inr ids \<Longrightarrow> ids = named_by V p"
  by (auto simp: pointer_id_def named_by_def loads_or_def pindex_def split: option.splits pyval.splits)

lemma protected_ids_named: "protected_ids V st = Inr P \<Longrightarrow> P = named_by V (sh_latest st) @ named_by V (sh_previous st)"
  by (auto simp: protected_ids_def dest!: pointer_id_named)

text \<open>C23: a collection, for any number of bytes asked for and also when it stops with an exception, changes
  neither pointer, and the latest generation and every generation that latest.json or previous.json
  names are read afterwards as before.\<close>

theorem collection_keeps_pointed:
  "sh_latest (fst (shadow_gc V required st)) = sh_latest st \<and> sh_previous (fst (shadow_gc V required st)) = sh_previous st
   \<and> list_all (\<lambda>i. shadow_read V now i (fst (shadow_gc V required st)) = shadow_read V now i st)
       (PNone # named_by V (sh_latest st) @ named_by V (sh_previous st))"
proof (cases "protected_ids V st")
  case (Inl e)
  then show ?thesis by (simp add: shadow_gc_stopped list_all_iff)
next
  case (Inr P)
  have "list_all (\<lambda>i. shadow_read V now i (fst (shadow_gc V required st)) = shadow_read V now i st) (PNone # P)"
    unfolding list_all_iff using shadow_read_kept [OF Inr] by auto
  moreover from shadow_gc_kept [OF Inr] have "sh_latest (fst (shadow_gc V required st)) = sh_latest st"
    "sh_previous (fst (shadow_gc V required st)) = sh_previous st" by (auto simp: kept_def)
  ultimately show ?thesis by (simp add: protected_ids_named [OF Inr])
qed

end
