(* ===== verification/Signal_Grade.thy ===== *)
theory Signal_Grade
  imports Event_Execution Display_Contract
begin

text \<open>
  Indicator states and research grades: \<^verbatim>\<open>app/utils/indicator_state.py\<close>, \<^verbatim>\<open>app/utils/numbers.py\<close>
  and \<^verbatim>\<open>assign_grade\<close>, \<^verbatim>\<open>classify_row\<close> of \<^verbatim>\<open>app/services/signal_grade_service.py\<close>. Input values
  are the stored JSON values; every number read from them is finite or missing. A Chinese display
  label is the constructor it stands for; where the label is determined by the kind it is left out.
  \<^verbatim>\<open>int(text)\<close> and \<^verbatim>\<open>float(text)\<close> are arguments; a value neither of them accepts raises one ValueError.
\<close>

section \<open>Numbers\<close>

record grade_env =
  ge_text :: text_env
  ge_int :: "string \<Rightarrow> int option"

definition finite_or_none :: "grade_env \<Rightarrow> pyval \<Rightarrow> rat option result" where
  "finite_or_none G v = bindr (py_float (ge_text G) v) (\<lambda>f. Inr (case f of Some (Fin r) \<Rightarrow> Some r | _ \<Rightarrow> None))"

definition fld :: "grade_env \<Rightarrow> pyval \<Rightarrow> string \<Rightarrow> rat option result" where
  "fld G values key = finite_or_none G (pget key values)"

definition float_of :: "grade_env \<Rightarrow> pyval \<Rightarrow> pyfloat result" where
  "float_of G v = bindr (py_float (ge_text G) v) (\<lambda>f. case f of Some x \<Rightarrow> Inr x
     | None \<Rightarrow> Inl (ValueError ''could not convert to float''))"

definition py_int :: "grade_env \<Rightarrow> pyval \<Rightarrow> int result" where
  "py_int G v = (case v of
       PBool b \<Rightarrow> Inr (if b then 1 else 0)
     | PInt n \<Rightarrow> Inr n
     | PFloat (Fin r) \<Rightarrow> Inr (if 0 \<le> r then \<lfloor>r\<rfloor> else - \<lfloor>- r\<rfloor>)
     | PFloat NaN \<Rightarrow> Inl (ValueError ''cannot convert float NaN to integer'')
     | PFloat _ \<Rightarrow> Inl OverflowError
     | PStr s \<Rightarrow> (case ge_int G s of Some n \<Rightarrow> Inr n | None \<Rightarrow> Inl (ValueError ''invalid literal for int()''))
     | _ \<Rightarrow> Inl (TypeError ''int() argument''))"

text \<open>\<^verbatim>\<open>format(x, ".nf")\<close>: the exact decimal expansion rounded half to even.\<close>

definition pad_left :: "nat \<Rightarrow> string \<Rightarrow> string" where
  "pad_left n s = replicate (n - length s) (CHR ''0'') @ s"

definition fmt_fixed :: "nat \<Rightarrow> rat \<Rightarrow> string" where
  "fmt_fixed n r = (let k = nat \<bar>round_half_even (r * 10 ^ n)\<bar>
     in (if r < 0 then ''-'' else []) @ show_nat (k div 10 ^ n)
        @ (if n = 0 then [] else ''.'' @ pad_left n (show_nat (k mod 10 ^ n))))"

section \<open>Volume\<close>

datatype volume_kind = VolUnknown | VolExpand | VolContract | VolFlat

record volume_state =
  v_kind :: volume_kind
  v_ratio :: "rat option"

definition classify_volume :: "rat option \<Rightarrow> pyfloat \<Rightarrow> pyfloat \<Rightarrow> volume_state" where
  "classify_volume volume_ratio expand contract = (case volume_ratio of
       None \<Rightarrow> \<lparr> v_kind = VolUnknown, v_ratio = None \<rparr>
     | Some r \<Rightarrow> \<lparr> v_kind = (if pf_le expand (Fin r) then VolExpand else if pf_le (Fin r) contract then VolContract else VolFlat),
                   v_ratio = Some (py_round 2 r) \<rparr>)"

section \<open>Moving averages\<close>

datatype ma_kind = MaUnknown | MaBull | MaBear | MaMixed
datatype arrow_dir = ArrowUnknown | ArrowUp | ArrowDown

record ma_state =
  ma_kind_of :: ma_kind
  ma_arrows :: "(nat \<times> arrow_dir) list"
  ma_text :: string

definition ma_known :: "rat option \<Rightarrow> rat \<Rightarrow> rat \<Rightarrow> rat \<Rightarrow> rat \<Rightarrow> ma_state" where
  "ma_known close m5 m10 m20 m30 =
     \<lparr> ma_kind_of = (if m5 > m10 \<and> m10 > m20 \<and> m20 > m30 then MaBull
         else if m5 < m10 \<and> m10 < m20 \<and> m20 < m30 then MaBear else MaMixed),
       ma_arrows = map (\<lambda>(w, cur). (w, case close of None \<Rightarrow> ArrowUnknown
           | Some c \<Rightarrow> if cur \<le> c then ArrowUp else ArrowDown)) [(5, m5), (10, m10), (20, m20), (30, m30)],
       ma_text = ''MA5='' @ fmt_fixed 2 m5 @ '' MA20='' @ fmt_fixed 2 m20 \<rparr>"

definition classify_ma :: "grade_env \<Rightarrow> pyval \<Rightarrow> ma_state result" where
  "classify_ma G values =
     bindr (mapr (\<lambda>w. fld G values (''ma'' @ w)) [''5'', ''10'', ''20'', ''30'']) (\<lambda>mas.
       case mas of
         [Some m5, Some m10, Some m20, Some m30] \<Rightarrow>
           bindr (fld G values ''close'') (\<lambda>close. Inr (ma_known close m5 m10 m20 m30))
       | _ \<Rightarrow> Inr \<lparr> ma_kind_of = MaUnknown, ma_arrows = [], ma_text = [] \<rparr>)"

section \<open>MACD\<close>

datatype macd_kind = MacdUnknown | MacdDeath | MacdGold | MacdApproachDeath | MacdApproachGold | MacdBullCont | MacdBearCont

text \<open>\<open>mc_above\<close>: the two labels of a golden cross and of a continued rise differ by the sign of DIF.\<close>

record macd_state =
  mc_kind :: macd_kind
  mc_above :: bool
  mc_dif :: "rat option"
  mc_dea :: "rat option"

definition crossed_down :: "rat option \<Rightarrow> rat option \<Rightarrow> rat \<Rightarrow> rat \<Rightarrow> bool" where
  "crossed_down prev_dif prev_dea dif dea = (case (prev_dif, prev_dea) of (Some a, Some b) \<Rightarrow> b \<le> a \<and> dif < dea | _ \<Rightarrow> False)"

definition crossed_up :: "rat option \<Rightarrow> rat option \<Rightarrow> rat \<Rightarrow> rat \<Rightarrow> bool" where
  "crossed_up prev_dif prev_dea dif dea = (case (prev_dif, prev_dea) of (Some a, Some b) \<Rightarrow> a \<le> b \<and> dea < dif | _ \<Rightarrow> False)"

definition opt_holds :: "('a \<Rightarrow> bool) \<Rightarrow> 'a option \<Rightarrow> bool" where
  "opt_holds p x = (case x of None \<Rightarrow> False | Some a \<Rightarrow> p a)"

definition macd_kind_of :: "rat option \<Rightarrow> rat option \<Rightarrow> rat option \<Rightarrow> rat \<Rightarrow> rat \<Rightarrow> rat \<Rightarrow> pyfloat \<Rightarrow> macd_kind" where
  "macd_kind_of prev_hist prev_dif prev_dea dif dea hist approach =
     (let shrinking = opt_holds (\<lambda>p. 0 < hist \<and> hist < p) prev_hist;
          expanding = opt_holds (\<lambda>p. hist < 0 \<and> p < hist) prev_hist
      in if crossed_down prev_dif prev_dea dif dea \<or> (hist < 0 \<and> dif < dea \<and> opt_holds (\<lambda>p. 0 \<le> p) prev_hist) then MacdDeath
         else if crossed_up prev_dif prev_dea dif dea \<or> (0 < hist \<and> dea < dif \<and> opt_holds (\<lambda>p. p \<le> 0) prev_hist) then MacdGold
         else if 0 < hist \<and> (shrinking \<or> (0 < hist \<and> pf_le (Fin hist) approach \<and> dea < dif)) then MacdApproachDeath
         else if hist < 0 \<and> (expanding \<or> (pf_le (Fin \<bar>hist\<bar>) approach \<and> dif < dea)) then MacdApproachGold
         else if 0 < hist then MacdBullCont else MacdBearCont)"

definition classify_macd :: "grade_env \<Rightarrow> pyval \<Rightarrow> pyval \<Rightarrow> pyfloat \<Rightarrow> macd_state result" where
  "classify_macd G values previous approach =
     bindr (fld G values ''macd_dif'') (\<lambda>dif.
     bindr (fld G values ''macd_dea'') (\<lambda>dea.
     bindr (fld G values ''macd_hist'') (\<lambda>hist.
       case (dif, dea, hist) of
         (Some x, Some y, Some h) \<Rightarrow>
           bindr (fld G previous ''macd_hist'') (\<lambda>prev_hist.
           bindr (fld G previous ''macd_dif'') (\<lambda>prev_dif.
           bindr (fld G previous ''macd_dea'') (\<lambda>prev_dea.
             Inr \<lparr> mc_kind = macd_kind_of prev_hist prev_dif prev_dea x y h approach, mc_above = (0 < x),
                    mc_dif = Some (py_round 4 x), mc_dea = Some (py_round 4 y) \<rparr>)))
       | _ \<Rightarrow> Inr \<lparr> mc_kind = MacdUnknown, mc_above = False, mc_dif = dif, mc_dea = dea \<rparr>)))"

section \<open>KDJ, RSI and TD\<close>

datatype kdj_kind = KdjUnknown | KdjDeath | KdjOverbought | KdjHigh | KdjLow | KdjHealthy

text \<open>\<open>kd_death\<close> is \<^verbatim>\<open>kdj.get("death")\<close>: missing when the state is unknown.\<close>

record kdj_state =
  kd_kind :: kdj_kind
  kd_j :: "rat option"
  kd_k :: "rat option"
  kd_d :: "rat option"
  kd_death :: "bool option"

definition cfg_at :: "grade_env \<Rightarrow> pyval \<Rightarrow> string \<Rightarrow> pyfloat result" where
  "cfg_at G cfg key = bindr (pindex cfg key) (float_of G)"

definition kdj_level :: "grade_env \<Rightarrow> pyval \<Rightarrow> rat \<Rightarrow> kdj_kind result" where
  "kdj_level G cfg j =
     bindr (cfg_at G cfg ''j_overbought'') (\<lambda>ob. if pf_le ob (Fin j) then Inr KdjOverbought
     else bindr (cfg_at G cfg ''j_high'') (\<lambda>hi. if pf_le hi (Fin j) then Inr KdjHigh
     else bindr (cfg_at G cfg ''j_low'') (\<lambda>lo. Inr (if pf_le (Fin j) lo then KdjLow else KdjHealthy))))"

definition kdj_cross :: "rat option \<Rightarrow> rat option \<Rightarrow> rat \<Rightarrow> rat \<Rightarrow> bool" where
  "kdj_cross prev_k prev_d k d \<longleftrightarrow> k < d \<and> (case (prev_k, prev_d) of (Some a, Some b) \<Rightarrow> b \<le> a | _ \<Rightarrow> True)"

definition classify_kdj :: "grade_env \<Rightarrow> pyval \<Rightarrow> pyval \<Rightarrow> pyval \<Rightarrow> kdj_state result" where
  "classify_kdj G values previous cfg =
     bindr (fld G values ''kdj_j'') (\<lambda>j.
     bindr (fld G values ''kdj_k'') (\<lambda>k.
     bindr (fld G values ''kdj_d'') (\<lambda>d.
       case (j, k, d) of
         (Some x, Some y, Some z) \<Rightarrow>
           bindr (fld G previous ''kdj_k'') (\<lambda>prev_k.
           bindr (fld G previous ''kdj_d'') (\<lambda>prev_d.
           bindr (if kdj_cross prev_k prev_d y z then Inr KdjDeath else kdj_level G cfg x) (\<lambda>kind.
             Inr \<lparr> kd_kind = kind, kd_j = Some (py_round 1 x), kd_k = Some (py_round 1 y), kd_d = Some (py_round 1 z),
                    kd_death = Some (kdj_cross prev_k prev_d y z) \<rparr>)))
       | _ \<Rightarrow> Inr \<lparr> kd_kind = KdjUnknown, kd_j = j, kd_k = k, kd_d = d, kd_death = None \<rparr>)))"

datatype rsi_label = RsiMissing | RsiOverbought | RsiStrong | RsiOversold | RsiWeak

definition classify_rsi :: "grade_env \<Rightarrow> rat option \<Rightarrow> pyval \<Rightarrow> (rat option \<times> rsi_label) result" where
  "classify_rsi G rsi cfg = (case rsi of None \<Rightarrow> Inr (None, RsiMissing)
     | Some r \<Rightarrow>
        bindr (float_of G (pget_default ''rsi_overbought'' (PInt 70) cfg)) (\<lambda>ob.
        if pf_le ob (Fin r) then Inr (Some (py_round 1 r), RsiOverbought)
        else bindr (float_of G (pget_default ''rsi_strong'' (PInt 50) cfg)) (\<lambda>sg.
        if pf_le sg (Fin r) then Inr (Some (py_round 1 r), RsiStrong)
        else bindr (float_of G (pget_default ''rsi_oversold'' (pget_default ''rsi_weak'' (PInt 30) cfg) cfg)) (\<lambda>os.
          Inr (Some (py_round 1 r), if pf_le (Fin r) os then RsiOversold else RsiWeak)))))"

datatype td_kind = TdBuy int | TdSell int | TdNone

definition positive_count :: "grade_env \<Rightarrow> pyval \<Rightarrow> int option result" where
  "positive_count G v = (if truthy v then bindr (py_int G v) (\<lambda>n. Inr (if 0 < n then Some n else None)) else Inr None)"

definition classify_td :: "grade_env \<Rightarrow> pyval \<Rightarrow> td_kind result" where
  "classify_td G values =
     bindr (positive_count G (pget ''td_buy_setup'' values)) (\<lambda>buy. case buy of Some n \<Rightarrow> Inr (TdBuy n)
     | None \<Rightarrow> bindr (positive_count G (pget ''td_sell_setup'' values)) (\<lambda>sell. Inr (case sell of Some n \<Rightarrow> TdSell n | None \<Rightarrow> TdNone)))"

section \<open>Grades\<close>

text \<open>The five grades in the order of \<^verbatim>\<open>GRADE_ORDER\<close>, and the data anomaly.\<close>

datatype grade = AddPosition | Enter | Probe | Watch | Reduce | DataAnomaly

definition grade_order :: "grade list" where
  "grade_order = [AddPosition, Enter, Probe, Watch, Reduce]"

text \<open>\<^verbatim>\<open>stall\<close>: volume without a rise.\<close>

definition stalled :: "grade_env \<Rightarrow> rat option \<Rightarrow> volume_state \<Rightarrow> pyval \<Rightarrow> bool result" where
  "stalled G pct volume cfg = (if v_kind volume \<noteq> VolExpand then Inr False
     else case pct of None \<Rightarrow> Inr True | Some p \<Rightarrow> bindr (cfg_at G cfg ''stall_return'') (\<lambda>s. Inr (pf_le (Fin p) s)))"

definition below_cap_grade :: "rat option \<Rightarrow> volume_state \<Rightarrow> ma_state \<Rightarrow> macd_state \<Rightarrow> grade" where
  "below_cap_grade pct volume ma macd =
     (if opt_holds (\<lambda>p. 0 < p) pct \<and> v_kind volume = VolExpand \<and> ma_kind_of ma = MaBull then AddPosition
      else if ma_kind_of ma = MaBull \<or> mc_kind macd \<in> {MacdGold, MacdApproachGold, MacdBullCont} then Enter
      else Probe)"

definition assign_grade ::
  "grade_env \<Rightarrow> rat option \<Rightarrow> volume_state \<Rightarrow> ma_state \<Rightarrow> macd_state \<Rightarrow> kdj_state \<Rightarrow> pyval \<Rightarrow> grade result" where
  "assign_grade G pct volume ma macd kdj cfg = (case kd_j kdj of
       None \<Rightarrow> Inr DataAnomaly
     | Some j \<Rightarrow>
        (if ma_kind_of ma = MaUnknown \<or> mc_kind macd = MacdUnknown \<or> v_kind volume = VolUnknown then Inr DataAnomaly
         else bindr (stalled G pct volume cfg) (\<lambda>stall.
           if kd_death kdj = Some True \<or> mc_kind macd \<in> {MacdDeath, MacdApproachDeath} then Inr Reduce
           else if kd_kind kdj \<in> {KdjOverbought, KdjHigh} \<or> stall then Inr Watch
           else bindr (cfg_at G cfg ''j_add_cap'') (\<lambda>cap.
             Inr (if pf_less (Fin j) cap then below_cap_grade pct volume ma macd else Watch)))))"

datatype trend = TrendUp | TrendDown | TrendFlat

record graded_row =
  g_volume :: volume_state
  g_ma :: ma_state
  g_macd :: macd_state
  g_kdj :: kdj_state
  g_rsi :: "rat option \<times> rsi_label"
  g_td :: td_kind
  g_grade :: grade
  g_vs_yesterday :: "trend option"
  g_return_5d :: "rat option"
  g_return_1d :: "rat option"

definition trend_of :: "rat \<Rightarrow> rat \<Rightarrow> trend" where
  "trend_of x y = (if y < x then TrendUp else if x < y then TrendDown else TrendFlat)"

definition vs_yesterday :: "grade_env \<Rightarrow> pyval \<Rightarrow> rat option \<Rightarrow> trend option result" where
  "vs_yesterday G previous pct = (case pct of None \<Rightarrow> Inr None
     | Some p \<Rightarrow> bindr (fld G previous ''return_1d'') (\<lambda>prev. Inr (Some (trend_of p (case prev of None \<Rightarrow> 0 | Some q \<Rightarrow> q)))))"

definition lit :: "rat \<Rightarrow> pyval" where
  "lit r = PFloat (Fin (round64 r))"

definition kdj_cfg :: "pyval \<Rightarrow> pyval" where
  "kdj_cfg cfg = PDict [(''j_overbought'', pget_default ''j_overbought'' (PInt 100) cfg),
     (''j_high'', pget_default ''j_high'' (PInt 90) cfg), (''j_low'', pget_default ''j_low'' (PInt 20) cfg)]"

definition rsi_cfg :: "pyval \<Rightarrow> pyval" where
  "rsi_cfg cfg = PDict [(''rsi_overbought'', pget_default ''rsi_overbought'' (PInt 70) cfg),
     (''rsi_strong'', pget_default ''rsi_strong'' (PInt 50) cfg),
     (''rsi_oversold'', pget_default ''rsi_oversold'' (pget_default ''rsi_weak'' (PInt 30) cfg) cfg)]"

definition grade_cfg :: "pyval \<Rightarrow> pyval" where
  "grade_cfg cfg = PDict [(''j_add_cap'', pget_default ''j_add_cap'' (PInt 90) cfg),
     (''stall_return'', pget_default ''stall_return'' (lit (2 / 1000)) cfg)]"

definition classify_row :: "grade_env \<Rightarrow> pyval \<Rightarrow> rat option \<Rightarrow> pyval \<Rightarrow> pyval \<Rightarrow> graded_row result" where
  "classify_row G values pct previous cfg =
     bindr (fld G values ''volume_ratio'') (\<lambda>ratio.
     bindr (float_of G (pget_default ''volume_expand'' (lit (135 / 100)) cfg)) (\<lambda>expand.
     bindr (float_of G (pget_default ''volume_contract'' (lit (85 / 100)) cfg)) (\<lambda>contract.
     bindr (classify_ma G values) (\<lambda>ma.
     bindr (float_of G (pget_default ''macd_approach_hist'' (lit (8 / 10000)) cfg)) (\<lambda>approach.
     bindr (classify_macd G values previous approach) (\<lambda>macd.
     bindr (classify_kdj G values previous (kdj_cfg cfg)) (\<lambda>kdj.
     bindr (fld G values ''rsi14'') (\<lambda>rsi14.
     bindr (classify_rsi G rsi14 (rsi_cfg cfg)) (\<lambda>rsi.
     bindr (classify_td G values) (\<lambda>td.
     bindr (vs_yesterday G previous pct) (\<lambda>vs.
     bindr (assign_grade G pct (classify_volume ratio expand contract) ma macd kdj (grade_cfg cfg)) (\<lambda>grade.
     bindr (fld G values ''return_5d'') (\<lambda>r5.
     bindr (case pct of None \<Rightarrow> fld G values ''return_1d'' | Some p \<Rightarrow> Inr (Some p)) (\<lambda>r1.
       Inr \<lparr> g_volume = classify_volume ratio expand contract, g_ma = ma, g_macd = macd, g_kdj = kdj, g_rsi = rsi, g_td = td,
              g_grade = grade, g_vs_yesterday = vs, g_return_5d = r5, g_return_1d = r1 \<rparr>))))))))))))))"

definition quote_percent_points_to_ratio :: "grade_env \<Rightarrow> pyval \<Rightarrow> rat option result" where
  "quote_percent_points_to_ratio G v = bindr (finite_or_none G v) (\<lambda>n. Inr (map_option (\<lambda>r. py_round 12 (round64 (r / 100))) n))"

section \<open>Display shapes\<close>

definition default_thresholds :: "(string \<times> pyval) list" where
  "default_thresholds = [(''j_add_cap'', PInt 90), (''j_overbought'', PInt 100), (''j_high'', PInt 90), (''j_low'', PInt 20),
     (''volume_expand'', lit (115 / 100)), (''volume_contract'', lit (9 / 10)), (''stall_return'', lit (2 / 1000)),
     (''rsi_overbought'', PInt 70), (''rsi_strong'', PInt 50), (''rsi_weak'', PInt 30), (''rsi_oversold'', PInt 30),
     (''macd_approach_hist'', lit (8 / 10000))]"

definition thresholds_from_strategy :: "pyval \<Rightarrow> (string \<times> pyval) list" where
  "thresholds_from_strategy strategy = (case pget ''signal_grade'' strategy of
       PDict grades \<Rightarrow> fold (\<lambda>(k, v) m. if map_of m k \<noteq> None then dict_set k v m else m) grades default_thresholds
     | _ \<Rightarrow> default_thresholds)"

record ma_view =
  mv_kind :: ma_kind
  mv_color :: string
  mv_dirs :: "(nat \<times> arrow_dir) list"
  mv_vals :: string
  mv_bullish :: bool

definition ma_state_view :: "grade_env \<Rightarrow> pyval \<Rightarrow> ma_view result" where
  "ma_state_view G values = bindr (classify_ma G values) (\<lambda>s. Inr (
     if ma_kind_of s = MaUnknown
     then \<lparr> mv_kind = MaUnknown, mv_color = ''#f39c12'', mv_dirs = [], mv_vals = [], mv_bullish = False \<rparr>
     else \<lparr> mv_kind = ma_kind_of s,
            mv_color = (case ma_kind_of s of MaBull \<Rightarrow> ''#2ecc71'' | MaBear \<Rightarrow> ''#e74c3c'' | _ \<Rightarrow> ''#f39c12''),
            mv_dirs = ma_arrows s, mv_vals = ma_text s, mv_bullish = (ma_kind_of s = MaBull) \<rparr>))"

record kdj_view =
  kv_kind :: kdj_kind
  kv_label :: string
  kv_cls :: string
  kv_vals :: string

fun kdj_cls :: "kdj_kind \<Rightarrow> string" where
  "kdj_cls KdjOverbought = ''kdj-hot''"
| "kdj_cls KdjHigh = ''kdj-warn''"
| "kdj_cls KdjDeath = ''kdj-hot''"
| "kdj_cls KdjLow = ''kdj-low''"
| "kdj_cls KdjHealthy = ''kdj-ok''"
| "kdj_cls KdjUnknown = ''dk-vf''"

definition kdj_state_view :: "grade_env \<Rightarrow> pyval \<Rightarrow> pyval \<Rightarrow> pyval \<Rightarrow> kdj_view result" where
  "kdj_state_view G values previous cfg = bindr (classify_kdj G values previous cfg) (\<lambda>s. Inr (
     case (kd_j s, kd_k s, kd_d s) of
       (Some j, Some k, Some d) \<Rightarrow>
         (if kd_kind s = KdjUnknown then \<lparr> kv_kind = KdjUnknown, kv_label = [], kv_cls = ''dk-vf'', kv_vals = [] \<rparr>
          else \<lparr> kv_kind = kd_kind s, kv_label = ''J='' @ fmt_fixed 1 j, kv_cls = kdj_cls (kd_kind s),
                 kv_vals = ''K='' @ fmt_fixed 1 k @ '' D='' @ fmt_fixed 1 d \<rparr>)
     | _ \<Rightarrow> \<lparr> kv_kind = KdjUnknown, kv_label = [], kv_cls = ''dk-vf'', kv_vals = [] \<rparr>))"

definition rsi_state_view :: "grade_env \<Rightarrow> pyval \<Rightarrow> pyval \<Rightarrow> (rat option \<times> rsi_label) result" where
  "rsi_state_view G values cfg = bindr (fld G values ''rsi14'') (\<lambda>r. classify_rsi G r cfg)"

fun volume_cls :: "volume_kind \<Rightarrow> string" where
  "volume_cls VolExpand = ''vol-expand''"
| "volume_cls VolContract = ''vol-contract''"
| "volume_cls VolFlat = ''vol-flat''"
| "volume_cls VolUnknown = ''dk-vf''"

text \<open>The kind stands for the Chinese word before the ratio; without a ratio the text is a dash.\<close>

definition volume_state_view :: "grade_env \<Rightarrow> pyval \<Rightarrow> pyval \<Rightarrow> (volume_kind \<times> string option \<times> string) result" where
  "volume_state_view G values cfg =
     bindr (fld G values ''volume_ratio'') (\<lambda>ratio.
     bindr (float_of G (pget_default ''volume_expand'' (lit (115 / 100)) cfg)) (\<lambda>expand.
     bindr (float_of G (pget_default ''volume_contract'' (lit (9 / 10)) cfg)) (\<lambda>contract.
     let s = classify_volume ratio expand contract
     in Inr (v_kind s, map_option (fmt_fixed 2) (v_ratio s), volume_cls (v_kind s)))))"

record td_view =
  tv_label :: "string option"
  tv_kind :: td_kind
  tv_countdown :: int
  tv_exhausted :: bool

text \<open>\<open>tv_exhausted\<close>: the texts of a finished setup, from the ninth count on.\<close>

definition td_state_view :: "grade_env \<Rightarrow> pyval \<Rightarrow> td_view result" where
  "td_state_view G values = bindr (classify_td G values) (\<lambda>s. Inr (case s of
       TdNone \<Rightarrow> \<lparr> tv_label = None, tv_kind = TdNone, tv_countdown = 0, tv_exhausted = False \<rparr>
     | TdBuy n \<Rightarrow> \<lparr> tv_label = Some (''TD'' @ show_int n), tv_kind = s, tv_countdown = n, tv_exhausted = (9 \<le> n) \<rparr>
     | TdSell n \<Rightarrow> \<lparr> tv_label = Some (''TD'' @ show_int n), tv_kind = s, tv_countdown = n, tv_exhausted = (9 \<le> n) \<rparr>))"

end
