(* ===== verification/Grade_Props.thy ===== *)
theory Grade_Props
  imports Signal_Grade
begin

text \<open>
  What a research grade says about the indicators behind it, that every row of readable numbers gets
  one, and what the grade does with an incomplete KDJ reading.
\<close>

section \<open>Reading fields\<close>

text \<open>
  When reading a field does not raise. A number field raises only for an integer beyond the range of
  floats; a TD count also for an infinity, a NaN, a text that is no integer and a non-empty list or dict.
\<close>

definition readable :: "pyval \<Rightarrow> bool" where
  "readable values \<longleftrightarrow> (\<forall>key n. pget key values = PInt n \<longrightarrow> (\<exists>f. float_of_int n = Inr f))"

definition count_like :: "grade_env \<Rightarrow> pyval \<Rightarrow> bool" where
  "count_like G v \<longleftrightarrow> (case v of PFloat f \<Rightarrow> (\<exists>r. f = Fin r) | PStr s \<Rightarrow> s = [] \<or> ge_int G s \<noteq> None
     | PList xs \<Rightarrow> xs = [] | PDict d \<Rightarrow> d = [] | _ \<Rightarrow> True)"

text \<open>Every threshold of the configuration that is set reads as a float.\<close>

definition threshold_keys :: "string list" where
  "threshold_keys = [''volume_expand'', ''volume_contract'', ''macd_approach_hist'', ''j_overbought'', ''j_high'', ''j_low'',
     ''rsi_overbought'', ''rsi_strong'', ''rsi_oversold'', ''rsi_weak'', ''j_add_cap'', ''stall_return'']"

definition thresholds_readable :: "grade_env \<Rightarrow> pyval \<Rightarrow> bool" where
  "thresholds_readable G cfg \<longleftrightarrow> (\<forall>key \<in> set threshold_keys. phas key cfg \<longrightarrow> (\<exists>f. float_of G (pget key cfg) = Inr f))"

lemma readableE:
  assumes "readable values"
  obtains x where "fld G values key = Inr x"
proof -
  have "\<exists>y. py_float (ge_text G) (pget key values) = Inr y"
    using assms by (cases "pget key values") (auto simp: readable_def py_float_def simp del: pget.simps)
  then show ?thesis using that by (auto simp: fld_def finite_or_none_def simp del: pget.simps)
qed

lemma count_likeE:
  assumes "count_like G v"
  obtains x where "positive_count G v = Inr x"
proof -
  have "\<exists>x. positive_count G v = Inr x"
    using assms by (cases v) (auto simp: count_like_def positive_count_def py_int_def split: option.splits)
  then show ?thesis using that by blast
qed

lemma float_of_simps [simp]:
  "float_of G (PFloat f) = Inr f"
  by (simp add: float_of_def py_float_def)

lemma default_ints: "float_of_int 100 = Inr (Fin 100)" "float_of_int 90 = Inr (Fin 90)" "float_of_int 70 = Inr (Fin 70)"
    "float_of_int 50 = Inr (Fin 50)" "float_of_int 30 = Inr (Fin 30)" "float_of_int 20 = Inr (Fin 20)"
  by code_simp+

lemma default_floats [simp]:
  "float_of G (PInt 100) = Inr (Fin 100)" "float_of G (PInt 90) = Inr (Fin 90)" "float_of G (PInt 70) = Inr (Fin 70)"
  "float_of G (PInt 50) = Inr (Fin 50)" "float_of G (PInt 30) = Inr (Fin 30)" "float_of G (PInt 20) = Inr (Fin 20)"
  by (simp_all add: float_of_def py_float_def default_ints)

lemma default_lit [simp]: "float_of G (lit r) = Inr (Fin (round64 r))" by (simp add: lit_def)

lemma threshold_total:
  assumes "thresholds_readable G cfg" and "key \<in> set threshold_keys" and "float_of G dflt = Inr d"
  shows "\<exists>f. float_of G (pget_default key dflt cfg) = Inr f"
  using assms by (auto simp: thresholds_readable_def pget_default_def simp del: pget.simps phas.simps)

lemma kdj_cfg_at: "key \<in> {''j_overbought'', ''j_high'', ''j_low''} \<Longrightarrow> cfg_at G (kdj_cfg cfg) key
    = float_of G (pget_default key (PInt (if key = ''j_overbought'' then 100 else if key = ''j_high'' then 90 else 20)) cfg)"
  by (auto simp: cfg_at_def kdj_cfg_def pindex_def)

lemma grade_cfg_at:
  "cfg_at G (grade_cfg cfg) ''j_add_cap'' = float_of G (pget_default ''j_add_cap'' (PInt 90) cfg)"
  "cfg_at G (grade_cfg cfg) ''stall_return'' = float_of G (pget_default ''stall_return'' (lit (2 / 1000)) cfg)"
  by (simp_all add: cfg_at_def grade_cfg_def pindex_def)

section \<open>Every readable row is classified\<close>

lemma classify_ma_total: "readable values \<Longrightarrow> \<exists>m. classify_ma G values = Inr m"
proof -
  assume r: "readable values"
  obtain a b c d e where "fld G values ''ma5'' = Inr a" "fld G values ''ma10'' = Inr b" "fld G values ''ma20'' = Inr c"
    "fld G values ''ma30'' = Inr d" "fld G values ''close'' = Inr e" using r by (metis readableE)
  then show ?thesis by (cases a; cases b; cases c; cases d) (simp_all add: classify_ma_def)
qed

lemma classify_macd_total: "readable values \<Longrightarrow> readable previous \<Longrightarrow> \<exists>m. classify_macd G values previous ap = Inr m"
proof -
  assume r: "readable values" "readable previous"
  obtain a b c where v: "fld G values ''macd_dif'' = Inr a" "fld G values ''macd_dea'' = Inr b" "fld G values ''macd_hist'' = Inr c"
    using r(1) by (metis readableE)
  obtain d e f where "fld G previous ''macd_dif'' = Inr d" "fld G previous ''macd_dea'' = Inr e" "fld G previous ''macd_hist'' = Inr f"
    using r(2) by (metis readableE)
  with v show ?thesis by (cases a; cases b; cases c) (simp_all add: classify_macd_def)
qed

lemma kdj_level_total:
  assumes "thresholds_readable G cfg"
  shows "\<exists>k. kdj_level G (kdj_cfg cfg) j = Inr k"
proof -
  note t = threshold_total [OF assms]
  obtain a b c where "float_of G (pget_default ''j_overbought'' (PInt 100) cfg) = Inr a"
    "float_of G (pget_default ''j_high'' (PInt 90) cfg) = Inr b" "float_of G (pget_default ''j_low'' (PInt 20) cfg) = Inr c"
    using t [of "''j_overbought''" "PInt 100"] t [of "''j_high''" "PInt 90"] t [of "''j_low''" "PInt 20"]
    by (auto simp: threshold_keys_def)
  then show ?thesis by (simp add: kdj_level_def kdj_cfg_at)
qed

lemma classify_kdj_total:
  assumes "readable values" "readable previous" "thresholds_readable G cfg"
  shows "\<exists>k. classify_kdj G values previous (kdj_cfg cfg) = Inr k"
proof -
  obtain a b c where v: "fld G values ''kdj_j'' = Inr a" "fld G values ''kdj_k'' = Inr b" "fld G values ''kdj_d'' = Inr c"
    using assms(1) by (metis readableE)
  obtain d e where p: "fld G previous ''kdj_k'' = Inr d" "fld G previous ''kdj_d'' = Inr e" using assms(2) by (metis readableE)
  from v p kdj_level_total [OF assms(3)] show ?thesis
    by (cases a; cases b; cases c) (auto simp: classify_kdj_def)
qed

lemma classify_rsi_total:
  assumes "thresholds_readable G cfg"
  shows "\<exists>x. classify_rsi G r (rsi_cfg cfg) = Inr x"
proof (cases r)
  case (Some x)
  note t = threshold_total [OF assms]
  obtain w where w: "float_of G (pget_default ''rsi_weak'' (PInt 30) cfg) = Inr w"
    using t [of "''rsi_weak''" "PInt 30"] by (auto simp: threshold_keys_def)
  obtain a b c where "float_of G (pget_default ''rsi_overbought'' (PInt 70) cfg) = Inr a"
    "float_of G (pget_default ''rsi_strong'' (PInt 50) cfg) = Inr b"
    "float_of G (pget_default ''rsi_oversold'' (pget_default ''rsi_weak'' (PInt 30) cfg) cfg) = Inr c"
    using t [of "''rsi_overbought''" "PInt 70"] t [of "''rsi_strong''" "PInt 50"] t [OF _ w, of "''rsi_oversold''"]
    by (auto simp: threshold_keys_def)
  then show ?thesis by (simp add: Some classify_rsi_def rsi_cfg_def pget_default_def [of _ _ "PDict _"])
qed (simp add: classify_rsi_def)

lemma classify_td_total:
  assumes "count_like G (pget ''td_buy_setup'' values)" "count_like G (pget ''td_sell_setup'' values)"
  shows "\<exists>x. classify_td G values = Inr x"
proof -
  obtain b c where "positive_count G (pget ''td_buy_setup'' values) = Inr b" "positive_count G (pget ''td_sell_setup'' values) = Inr c"
    using assms by (metis count_likeE)
  then show ?thesis by (cases b) (simp_all add: classify_td_def)
qed

lemma stalled_total: "thresholds_readable G cfg \<Longrightarrow> \<exists>b. stalled G pct v (grade_cfg cfg) = Inr b"
  using threshold_total [of G cfg "''stall_return''" "lit (2 / 1000)"]
  by (cases pct) (auto simp: stalled_def grade_cfg_at threshold_keys_def)

definition core_missing :: "volume_state \<Rightarrow> ma_state \<Rightarrow> macd_state \<Rightarrow> kdj_state \<Rightarrow> bool" where
  "core_missing v m c k \<longleftrightarrow> kd_j k = None \<or> ma_kind_of m = MaUnknown \<or> mc_kind c = MacdUnknown \<or> v_kind v = VolUnknown"

text \<open>The ways a grade is reached.\<close>

lemma assign_grade_cases:
  assumes "assign_grade G pct v m c k cfg = Inr g"
  obtains (missing) "core_missing v m c k" "g = DataAnomaly"
  | (bearish) "\<not> core_missing v m c k" "kd_death k = Some True \<or> mc_kind c \<in> {MacdDeath, MacdApproachDeath}" "g = Reduce"
  | (hot) "\<not> core_missing v m c k" "g = Watch"
  | (capped) j cap where "\<not> core_missing v m c k" "kd_death k \<noteq> Some True" "mc_kind c \<notin> {MacdDeath, MacdApproachDeath}"
      "kd_kind k \<notin> {KdjOverbought, KdjHigh}" "stalled G pct v cfg = Inr False" "kd_j k = Some j" "cfg_at G cfg ''j_add_cap'' = Inr cap"
      "pf_less (Fin j) cap" "g = below_cap_grade pct v m c"
proof (cases "core_missing v m c k")
  case True
  with assms missing show ?thesis by (auto simp: assign_grade_def core_missing_def split: option.splits)
next
  case False
  then obtain j where j: "kd_j k = Some j" by (auto simp: core_missing_def)
  have known: "\<not> (ma_kind_of m = MaUnknown \<or> mc_kind c = MacdUnknown \<or> v_kind v = VolUnknown)"
    using False by (simp add: core_missing_def)
  from assms False j obtain stall where stall: "stalled G pct v cfg = Inr stall"
    by (auto simp: assign_grade_def core_missing_def)
  consider (b) "kd_death k = Some True \<or> mc_kind c \<in> {MacdDeath, MacdApproachDeath}"
    | (h) "\<not> (kd_death k = Some True \<or> mc_kind c \<in> {MacdDeath, MacdApproachDeath})" "kd_kind k \<in> {KdjOverbought, KdjHigh} \<or> stall"
    | (r) "\<not> (kd_death k = Some True \<or> mc_kind c \<in> {MacdDeath, MacdApproachDeath})" "\<not> (kd_kind k \<in> {KdjOverbought, KdjHigh} \<or> stall)"
    by blast
  then show ?thesis
  proof cases
    case b
    with assms False j stall have "g = Reduce" unfolding assign_grade_def core_missing_def by simp
    with False b show ?thesis by (rule bearish)
  next
    case h
    with assms False j stall have "g = Watch" unfolding assign_grade_def core_missing_def by (simp add: if_not_P [OF h(1)])
    with False show ?thesis by (rule hot)
  next
    case r
    have "bindr (cfg_at G cfg ''j_add_cap'') (\<lambda>cap. Inr (if pf_less (Fin j) cap then below_cap_grade pct v m c else Watch)) = Inr g"
      using assms unfolding assign_grade_def j option.case if_not_P [OF known] stall bindr_simps if_not_P [OF r(1)] if_not_P [OF r(2)] .
    then obtain cap where "cfg_at G cfg ''j_add_cap'' = Inr cap" "g = (if pf_less (Fin j) cap then below_cap_grade pct v m c else Watch)" by auto
    with r False j stall hot capped show ?thesis by (cases "pf_less (Fin j) cap") auto
  qed
qed

lemma assign_grade_total:
  assumes "thresholds_readable G cfg"
  shows "\<exists>x. assign_grade G pct v m c k (grade_cfg cfg) = Inr x"
proof -
  obtain b where b: "stalled G pct v (grade_cfg cfg) = Inr b" using stalled_total [OF assms] by blast
  obtain cap where cap: "float_of G (pget_default ''j_add_cap'' (PInt 90) cfg) = Inr cap"
    using threshold_total [OF assms, of "''j_add_cap''" "PInt 90"] by (auto simp: threshold_keys_def)
  have "\<not> isl (assign_grade G pct v m c k (grade_cfg cfg))" by (cases "kd_j k") (simp_all add: assign_grade_def b grade_cfg_at cap)
  then show ?thesis by (cases "assign_grade G pct v m c k (grade_cfg cfg)") auto
qed

text \<open>When the data anomaly is assigned.\<close>

lemma anomaly_iff:
  assumes "assign_grade G pct v m c k cfg = Inr g"
  shows "g = DataAnomaly \<longleftrightarrow> core_missing v m c k"
  using assms by (cases rule: assign_grade_cases) (auto simp: below_cap_grade_def)

section \<open>States and the fields they are made of\<close>

text \<open>The fields without which a row is an anomaly; K and D of the KDJ are not among them.\<close>

definition core_fields :: "string list" where
  "core_fields = [''volume_ratio'', ''ma5'', ''ma10'', ''ma20'', ''ma30'', ''macd_dif'', ''macd_dea'', ''macd_hist'', ''kdj_j'']"

lemma ma_known_kind:
  "ma_kind_of (ma_known close m5 m10 m20 m30) \<noteq> MaUnknown"
  "ma_kind_of (ma_known close m5 m10 m20 m30) = MaBull \<longleftrightarrow> m30 < m20 \<and> m20 < m10 \<and> m10 < m5"
  by (auto simp: ma_known_def)

lemma classify_ma_fields:
  assumes "classify_ma G values = Inr m"
  obtains a b c d where "fld G values ''ma5'' = Inr a" "fld G values ''ma10'' = Inr b" "fld G values ''ma20'' = Inr c"
    "fld G values ''ma30'' = Inr d" "ma_kind_of m = MaUnknown \<longleftrightarrow> a = None \<or> b = None \<or> c = None \<or> d = None"
    "ma_kind_of m = MaBull \<longleftrightarrow> (\<exists>x y z w. a = Some x \<and> b = Some y \<and> c = Some z \<and> d = Some w \<and> w < z \<and> z < y \<and> y < x)"
proof -
  from assms obtain a b c d where f: "fld G values ''ma5'' = Inr a" "fld G values ''ma10'' = Inr b" "fld G values ''ma20'' = Inr c"
    "fld G values ''ma30'' = Inr d" by (auto simp: classify_ma_def)
  with assms show ?thesis
    by (intro that [OF f]; cases a; cases b; cases c; cases d) (auto simp: classify_ma_def ma_known_kind)
qed

lemma macd_kind_known: "macd_kind_of ph pd pe x y h ap \<noteq> MacdUnknown"
  by (simp add: macd_kind_of_def Let_def)

lemma macd_kind_crossed: "crossed_down pd pe x y \<Longrightarrow> macd_kind_of ph pd pe x y h ap = MacdDeath"
  by (simp add: macd_kind_of_def Let_def)

lemma macd_kind_shrinking:
  "macd_kind_of (Some p) pd pe x y h ap \<notin> {MacdDeath, MacdApproachDeath} \<Longrightarrow> 0 < h \<Longrightarrow> h < p
    \<Longrightarrow> \<exists>q r. pd = Some q \<and> pe = Some r \<and> q \<le> r \<and> y < x"
  by (auto simp: macd_kind_of_def Let_def opt_holds_def crossed_up_def split: if_splits option.splits)

lemma classify_macd_fields:
  assumes "classify_macd G values previous ap = Inr m"
  obtains a b c where "fld G values ''macd_dif'' = Inr a" "fld G values ''macd_dea'' = Inr b" "fld G values ''macd_hist'' = Inr c"
    "mc_kind m = MacdUnknown \<longleftrightarrow> a = None \<or> b = None \<or> c = None"
    "\<And>x y p q. a = Some x \<Longrightarrow> b = Some y \<Longrightarrow> c \<noteq> None \<Longrightarrow> fld G previous ''macd_dif'' = Inr (Some p)
       \<Longrightarrow> fld G previous ''macd_dea'' = Inr (Some q) \<Longrightarrow> q \<le> p \<Longrightarrow> x < y \<Longrightarrow> mc_kind m = MacdDeath"
proof -
  from assms obtain a b c where f: "fld G values ''macd_dif'' = Inr a" "fld G values ''macd_dea'' = Inr b" "fld G values ''macd_hist'' = Inr c"
    by (auto simp: classify_macd_def)
  with assms show ?thesis
    by (intro that [OF f]; cases a; cases b; cases c)
      (auto simp: classify_macd_def macd_kind_known crossed_down_def intro!: macd_kind_crossed)
qed

lemma shrinking_histogram:
  assumes "classify_macd G values previous ap = Inr m" and "mc_kind m \<notin> {MacdDeath, MacdApproachDeath}"
    and "fld G values ''macd_dif'' = Inr (Some x)" "fld G values ''macd_dea'' = Inr (Some y)"
    and "fld G values ''macd_hist'' = Inr (Some h)" "fld G previous ''macd_hist'' = Inr (Some p)" "0 < h" "h < p"
  shows "\<exists>q r. fld G previous ''macd_dif'' = Inr (Some q) \<and> fld G previous ''macd_dea'' = Inr (Some r) \<and> q \<le> r \<and> y < x"
proof -
  from assms(1,3-6) obtain pd pe where pd: "fld G previous ''macd_dif'' = Inr pd" "fld G previous ''macd_dea'' = Inr pe"
    and m: "mc_kind m = macd_kind_of (Some p) pd pe x y h ap" by (auto simp: classify_macd_def)
  from macd_kind_shrinking [OF assms(2) [unfolded m] assms(7,8)] pd show ?thesis by auto
qed

lemma classify_kdj_fields:
  assumes "classify_kdj G values previous cfg = Inr s"
  obtains j k d where "fld G values ''kdj_j'' = Inr j" "fld G values ''kdj_k'' = Inr k" "fld G values ''kdj_d'' = Inr d"
    "kd_j s = None \<longleftrightarrow> j = None"
    "\<And>x y p q. j \<noteq> None \<Longrightarrow> k = Some x \<Longrightarrow> d = Some y \<Longrightarrow> fld G previous ''kdj_k'' = Inr p
       \<Longrightarrow> fld G previous ''kdj_d'' = Inr q \<Longrightarrow> kd_death s = Some (kdj_cross p q x y)"
proof -
  from assms obtain j k d where f: "fld G values ''kdj_j'' = Inr j" "fld G values ''kdj_k'' = Inr k" "fld G values ''kdj_d'' = Inr d"
    by (auto simp: classify_kdj_def)
  with assms show ?thesis
    by (intro that [OF f]; cases j; cases k; cases d) (auto simp: classify_kdj_def)
qed

text \<open>With K and D known, a J at or above the overheated levels is reported.\<close>

lemma kdj_level_below:
  assumes "kdj_level G (kdj_cfg cfg) j = Inr k" and "k \<notin> {KdjOverbought, KdjHigh}"
  shows "\<exists>ob hi. float_of G (pget_default ''j_overbought'' (PInt 100) cfg) = Inr ob
    \<and> float_of G (pget_default ''j_high'' (PInt 90) cfg) = Inr hi \<and> \<not> pf_le ob (Fin j) \<and> \<not> pf_le hi (Fin j)"
  using assms by (auto simp: kdj_level_def kdj_cfg_at split: if_splits)

lemma overheated_reported:
  assumes "classify_kdj G values previous (kdj_cfg cfg) = Inr s" and "kd_death s \<noteq> Some True" "kd_kind s \<notin> {KdjOverbought, KdjHigh}"
    and "fld G values ''kdj_j'' = Inr (Some j)" "fld G values ''kdj_k'' = Inr (Some k)" "fld G values ''kdj_d'' = Inr (Some d)"
  shows "\<exists>ob hi. float_of G (pget_default ''j_overbought'' (PInt 100) cfg) = Inr ob
    \<and> float_of G (pget_default ''j_high'' (PInt 90) cfg) = Inr hi \<and> \<not> pf_le ob (Fin j) \<and> \<not> pf_le hi (Fin j)"
proof -
  from assms(1,2,4-6) have "kdj_level G (kdj_cfg cfg) j = Inr (kd_kind s)" by (auto simp: classify_kdj_def split: if_splits)
  then show ?thesis using assms(3) by (rule kdj_level_below)
qed

lemma expanding_volume:
  "v_kind (classify_volume ratio ex con) = VolExpand \<longleftrightarrow> (\<exists>r. ratio = Some r \<and> pf_le ex (Fin r))"
  by (auto simp: classify_volume_def split: option.splits)

lemma core_missing_fields:
  assumes "fld G values ''volume_ratio'' = Inr ratio" "classify_ma G values = Inr m" "classify_macd G values previous ap = Inr c"
    and "classify_kdj G values previous kcfg = Inr k"
  shows "core_missing (classify_volume ratio ex con) m c k \<longleftrightarrow> (\<exists>key \<in> set core_fields. fld G values key = Inr None)"
    and "key \<in> set core_fields \<Longrightarrow> \<exists>x. fld G values key = Inr x"
proof -
  obtain a1 a2 a3 a4 where a: "fld G values ''ma5'' = Inr a1" "fld G values ''ma10'' = Inr a2" "fld G values ''ma20'' = Inr a3"
    "fld G values ''ma30'' = Inr a4" "ma_kind_of m = MaUnknown \<longleftrightarrow> a1 = None \<or> a2 = None \<or> a3 = None \<or> a4 = None"
    by (rule classify_ma_fields [OF assms(2)]) (rule that)
  obtain b1 b2 b3 where b: "fld G values ''macd_dif'' = Inr b1" "fld G values ''macd_dea'' = Inr b2" "fld G values ''macd_hist'' = Inr b3"
    "mc_kind c = MacdUnknown \<longleftrightarrow> b1 = None \<or> b2 = None \<or> b3 = None"
    by (rule classify_macd_fields [OF assms(3)]) (rule that)
  obtain j where j: "fld G values ''kdj_j'' = Inr j" "kd_j k = None \<longleftrightarrow> j = None"
    by (rule classify_kdj_fields [OF assms(4)]) (rule that)
  have v: "v_kind (classify_volume ratio ex con) = VolUnknown \<longleftrightarrow> ratio = None" by (simp add: classify_volume_def split: option.split)
  show "core_missing (classify_volume ratio ex con) m c k \<longleftrightarrow> (\<exists>key \<in> set core_fields. fld G values key = Inr None)"
    unfolding core_missing_def core_fields_def v a(5) b(4) j(2) by (auto simp: assms(1) a(1-4) b(1-3) j(1))
  show "\<exists>x. fld G values key = Inr x" if "key \<in> set core_fields"
    using that by (auto simp: core_fields_def assms(1) a(1-4) b(1-3) j(1))
qed

lemma classify_row_parts:
  assumes "classify_row G values pct previous cfg = Inr row"
  obtains ratio ex con ap where "fld G values ''volume_ratio'' = Inr ratio" "g_volume row = classify_volume ratio ex con"
    "float_of G (pget_default ''volume_expand'' (lit (135 / 100)) cfg) = Inr ex"
    "classify_ma G values = Inr (g_ma row)" "classify_macd G values previous ap = Inr (g_macd row)"
    "classify_kdj G values previous (kdj_cfg cfg) = Inr (g_kdj row)"
    "assign_grade G pct (g_volume row) (g_ma row) (g_macd row) (g_kdj row) (grade_cfg cfg) = Inr (g_grade row)"
  using assms by (auto simp: classify_row_def)

text \<open>A death cross that the fields show is one that the states report.\<close>

lemma no_death_cross:
  "classify_kdj G values previous kcfg = Inr s \<Longrightarrow> \<exists>j. fld G values ''kdj_j'' = Inr (Some j)
    \<Longrightarrow> \<exists>k d p q. fld G values ''kdj_k'' = Inr (Some k) \<and> fld G values ''kdj_d'' = Inr (Some d) \<and> k < d
          \<and> fld G previous ''kdj_k'' = Inr (Some p) \<and> fld G previous ''kdj_d'' = Inr (Some q) \<and> q \<le> p
    \<Longrightarrow> kd_death s = Some True"
  "classify_macd G values previous ap = Inr c \<Longrightarrow> \<exists>h. fld G values ''macd_hist'' = Inr (Some h)
    \<Longrightarrow> \<exists>x y p q. fld G values ''macd_dif'' = Inr (Some x) \<and> fld G values ''macd_dea'' = Inr (Some y) \<and> x < y
          \<and> fld G previous ''macd_dif'' = Inr (Some p) \<and> fld G previous ''macd_dea'' = Inr (Some q) \<and> q \<le> p
    \<Longrightarrow> mc_kind c = MacdDeath"
  by (auto simp: kdj_cross_def elim!: classify_kdj_fields classify_macd_fields)

lemma bull_order:
  "classify_ma G values = Inr m \<Longrightarrow> ma_kind_of m = MaBull \<Longrightarrow> \<exists>m5 m10 m20 m30. fld G values ''ma5'' = Inr (Some m5)
    \<and> fld G values ''ma10'' = Inr (Some m10) \<and> fld G values ''ma20'' = Inr (Some m20) \<and> fld G values ''ma30'' = Inr (Some m30)
    \<and> m30 < m20 \<and> m20 < m10 \<and> m10 < m5"
  by (auto elim: classify_ma_fields)

section \<open>Properties\<close>

text \<open>C38: every readable row is classified. When no number field of the row or of the day before is an integer
  beyond the range of floats, the two TD counts read as integers and every threshold that is set reads as a
  float, classify_row returns a row, whatever fields are missing; and it is a data anomaly exactly when the
  volume ratio, one of the four moving averages, one of the three MACD values or J has no finite value.\<close>

theorem readable_rows_are_graded:
  assumes "readable values" and "readable previous" and "thresholds_readable G cfg"
    and "count_like G (pget ''td_buy_setup'' values)" and "count_like G (pget ''td_sell_setup'' values)"
  shows "\<exists>row. classify_row G values pct previous cfg = Inr row
    \<and> (g_grade row = DataAnomaly \<longleftrightarrow> (\<exists>key \<in> set core_fields. fld G values key = Inr None))"
proof -
  note t = threshold_total [OF assms(3)]
  obtain ratio rsi14 r5 r1 where f: "fld G values ''volume_ratio'' = Inr ratio" "fld G values ''rsi14'' = Inr rsi14"
    "fld G values ''return_5d'' = Inr r5" "fld G values ''return_1d'' = Inr r1" using assms(1) by (metis readableE)
  obtain y where y: "fld G previous ''return_1d'' = Inr y" using assms(2) by (metis readableE)
  obtain ex con ap where e: "float_of G (pget_default ''volume_expand'' (lit (135 / 100)) cfg) = Inr ex"
    "float_of G (pget_default ''volume_contract'' (lit (85 / 100)) cfg) = Inr con"
    "float_of G (pget_default ''macd_approach_hist'' (lit (8 / 10000)) cfg) = Inr ap"
    using t [OF _ default_lit, of "''volume_expand''"] t [OF _ default_lit, of "''volume_contract''"]
      t [OF _ default_lit, of "''macd_approach_hist''"] by (fastforce simp: threshold_keys_def)
  obtain ma macd kdj rsi td where c: "classify_ma G values = Inr ma" "classify_macd G values previous ap = Inr macd"
    "classify_kdj G values previous (kdj_cfg cfg) = Inr kdj" "classify_rsi G rsi14 (rsi_cfg cfg) = Inr rsi"
    "classify_td G values = Inr td"
    using classify_ma_total classify_macd_total classify_kdj_total classify_rsi_total classify_td_total assms by metis
  let ?v = "classify_volume ratio ex con"
  obtain g where g: "assign_grade G pct ?v ma macd kdj (grade_cfg cfg) = Inr g" using assign_grade_total [OF assms(3)] by blast
  obtain vs where vs: "vs_yesterday G previous pct = Inr vs" using y by (cases pct) (auto simp: vs_yesterday_def)
  obtain r where r: "(case pct of None \<Rightarrow> fld G values ''return_1d'' | Some p \<Rightarrow> Inr (Some p)) = Inr r" using f(4) by (cases pct) auto
  have "classify_row G values pct previous cfg = Inr \<lparr> g_volume = ?v, g_ma = ma, g_macd = macd, g_kdj = kdj, g_rsi = rsi,
      g_td = td, g_grade = g, g_vs_yesterday = vs, g_return_5d = r5, g_return_1d = r \<rparr>"
    unfolding classify_row_def using f e c g vs r by simp
  with anomaly_iff [OF g] core_missing_fields(1) [OF f(1) c(1-3)] show ?thesis by simp
qed

text \<open>C37: what a favourable grade promises, in the fields of the row. A row graded for adding, entering or
  probing has a finite volume ratio, the four moving averages, the three MACD values and J (the code does
  not ask for K and D); its J, as rounded for display, is below the configured cap; since the day before
  neither K fell below D nor DIF below DEA; with K and D known, J is below both overheated levels; a positive
  MACD bar that shrinks comes with DIF just risen above DEA; and a volume ratio from the expansion
  threshold on comes with a return above the configured stall. Adding also needs a positive return, such a
  volume ratio and averages in bull order.\<close>

theorem favourable_grades_are_earned:
  assumes "classify_row G values pct previous cfg = Inr row" and "g_grade row \<in> {AddPosition, Enter, Probe}"
  shows "(\<forall>key \<in> set core_fields. \<exists>x. fld G values key = Inr (Some x))
    \<and> (\<exists>j cap. kd_j (g_kdj row) = Some j \<and> float_of G (pget_default ''j_add_cap'' (PInt 90) cfg) = Inr cap \<and> pf_less (Fin j) cap)
    \<and> \<not> (\<exists>k d p q. fld G values ''kdj_k'' = Inr (Some k) \<and> fld G values ''kdj_d'' = Inr (Some d) \<and> k < d
          \<and> fld G previous ''kdj_k'' = Inr (Some p) \<and> fld G previous ''kdj_d'' = Inr (Some q) \<and> q \<le> p)
    \<and> \<not> (\<exists>x y p q. fld G values ''macd_dif'' = Inr (Some x) \<and> fld G values ''macd_dea'' = Inr (Some y) \<and> x < y
          \<and> fld G previous ''macd_dif'' = Inr (Some p) \<and> fld G previous ''macd_dea'' = Inr (Some q) \<and> q \<le> p)
    \<and> mc_kind (g_macd row) \<notin> {MacdDeath, MacdApproachDeath} \<and> kd_kind (g_kdj row) \<notin> {KdjOverbought, KdjHigh}
    \<and> (\<forall>j k d. fld G values ''kdj_j'' = Inr (Some j) \<and> fld G values ''kdj_k'' = Inr (Some k) \<and> fld G values ''kdj_d'' = Inr (Some d)
         \<longrightarrow> (\<exists>ob hi. float_of G (pget_default ''j_overbought'' (PInt 100) cfg) = Inr ob
               \<and> float_of G (pget_default ''j_high'' (PInt 90) cfg) = Inr hi \<and> \<not> pf_le ob (Fin j) \<and> \<not> pf_le hi (Fin j)))
    \<and> (\<forall>x y h p. fld G values ''macd_dif'' = Inr (Some x) \<and> fld G values ''macd_dea'' = Inr (Some y)
         \<and> fld G values ''macd_hist'' = Inr (Some h) \<and> fld G previous ''macd_hist'' = Inr (Some p) \<and> 0 < h \<and> h < p
         \<longrightarrow> (\<exists>q r. fld G previous ''macd_dif'' = Inr (Some q) \<and> fld G previous ''macd_dea'' = Inr (Some r) \<and> q \<le> r \<and> y < x))
    \<and> (\<exists>ratio ex. fld G values ''volume_ratio'' = Inr (Some ratio)
         \<and> float_of G (pget_default ''volume_expand'' (lit (135 / 100)) cfg) = Inr ex
         \<and> (pf_le ex (Fin ratio) \<longrightarrow> (\<exists>p s. pct = Some p
              \<and> float_of G (pget_default ''stall_return'' (lit (2 / 1000)) cfg) = Inr s \<and> \<not> pf_le (Fin p) s))
         \<and> (g_grade row = AddPosition \<longrightarrow> pf_le ex (Fin ratio) \<and> (\<exists>p > 0. pct = Some p)))
    \<and> (g_grade row = AddPosition \<longrightarrow> (\<exists>m5 m10 m20 m30. fld G values ''ma5'' = Inr (Some m5) \<and> fld G values ''ma10'' = Inr (Some m10)
          \<and> fld G values ''ma20'' = Inr (Some m20) \<and> fld G values ''ma30'' = Inr (Some m30) \<and> m30 < m20 \<and> m20 < m10 \<and> m10 < m5))"
    (is "?core \<and> ?cap \<and> \<not> ?kdj \<and> \<not> ?macd \<and> ?kinds \<and> ?hot \<and> ?levels \<and> ?shrink \<and> ?volume \<and> ?bull")
proof -
  obtain ratio ex con ap where r: "fld G values ''volume_ratio'' = Inr ratio" "g_volume row = classify_volume ratio ex con"
    "float_of G (pget_default ''volume_expand'' (lit (135 / 100)) cfg) = Inr ex"
    "classify_ma G values = Inr (g_ma row)" "classify_macd G values previous ap = Inr (g_macd row)"
    "classify_kdj G values previous (kdj_cfg cfg) = Inr (g_kdj row)"
    "assign_grade G pct (g_volume row) (g_ma row) (g_macd row) (g_kdj row) (grade_cfg cfg) = Inr (g_grade row)"
    by (rule classify_row_parts [OF assms(1)])
  from r(7) assms(2) have g: "\<not> core_missing (g_volume row) (g_ma row) (g_macd row) (g_kdj row)" "kd_death (g_kdj row) \<noteq> Some True"
    ?kinds ?hot "stalled G pct (g_volume row) (grade_cfg cfg) = Inr False"
    "g_grade row = below_cap_grade pct (g_volume row) (g_ma row) (g_macd row)" ?cap
    by (cases rule: assign_grade_cases; force simp: grade_cfg_at)+
  have core: ?core
  proof
    fix key assume k: "key \<in> set core_fields"
    with g(1) core_missing_fields(1) [OF r(1,4-6)] r(2) have "fld G values key \<noteq> Inr None" by auto
    with core_missing_fields(2) [OF r(1,4-6) k] show "\<exists>x. fld G values key = Inr (Some x)" by (metis not_None_eq)
  qed
  from core have j: "\<exists>j. fld G values ''kdj_j'' = Inr (Some j)" and h: "\<exists>h. fld G values ''macd_hist'' = Inr (Some h)"
    and v: "\<exists>v. fld G values ''volume_ratio'' = Inr (Some v)" by (simp_all add: core_fields_def)
  from v r(1) obtain x where x: "ratio = Some x" by auto
  have kdj: "\<not> ?kdj" using no_death_cross(1) [OF r(6) j] g(2) by blast
  have macd: "\<not> ?macd" using no_death_cross(2) [OF r(5) h] g(3) by blast
  have levels: ?levels using overheated_reported [OF r(6) g(2,4)] by blast
  have shrink: ?shrink using shrinking_histogram [OF r(5) g(3)] by blast
  have "pf_le ex (Fin x) \<longrightarrow> (\<exists>p s. pct = Some p \<and> float_of G (pget_default ''stall_return'' (lit (2 / 1000)) cfg) = Inr s \<and> \<not> pf_le (Fin p) s)"
    using g(5) by (auto simp: stalled_def grade_cfg_at r(2) expanding_volume x split: option.splits)
  moreover have "g_grade row = AddPosition \<longrightarrow> pf_le ex (Fin x) \<and> (\<exists>p > 0. pct = Some p)"
    using g(6) by (auto simp: below_cap_grade_def opt_holds_def r(2) expanding_volume x split: if_splits option.splits)
  ultimately have volume: ?volume using r(1,3) x by blast
  have bull: ?bull using g(6) bull_order [OF r(4)] by (auto simp: below_cap_grade_def split: if_splits)
  from core g(7) kdj macd g(3,4) levels shrink volume bull show ?thesis by (intro conjI)
qed

text \<open>
  A KDJ reading without K and D is an unknown state, yet its J alone lets the row be graded for adding.
\<close>

definition plain_env :: grade_env where
  "plain_env = \<lparr> ge_text = \<lparr> te_str = (\<lambda>_. []), te_float = (\<lambda>_. None) \<rparr>, ge_int = (\<lambda>_. None) \<rparr>"

definition half_kdj_values :: pyval where
  "half_kdj_values = PDict [(''volume_ratio'', PFloat (Fin 2)), (''ma5'', PFloat (Fin 4)), (''ma10'', PFloat (Fin 3)),
     (''ma20'', PFloat (Fin 2)), (''ma30'', PFloat (Fin 1)), (''macd_dif'', PFloat (Fin 2)), (''macd_dea'', PFloat (Fin 1)),
     (''macd_hist'', PFloat (Fin 1)), (''kdj_j'', PFloat (Fin 50))]"

definition graded_view :: "graded_row result \<Rightarrow> (kdj_kind \<times> grade) option" where
  "graded_view r = (case r of Inl _ \<Rightarrow> None | Inr row \<Rightarrow> Some (kd_kind (g_kdj row), g_grade row))"

lemma incomplete_kdj_is_graded:
  "graded_view (classify_row plain_env half_kdj_values (Some (1 / 64)) PNone (PDict [])) = Some (KdjUnknown, AddPosition)"
  by code_simp

lemma plain_readable: "readable half_kdj_values" "readable PNone"
    "count_like plain_env (pget ''td_buy_setup'' half_kdj_values)" "count_like plain_env (pget ''td_sell_setup'' half_kdj_values)"
  by (simp_all add: readable_def half_kdj_values_def count_like_def)

definition strict_cfg :: pyval where
  "strict_cfg = PDict [(''j_add_cap'', PFloat (Fin 60)), (''volume_expand'', PFloat (Fin 2))]"

lemma strict_cfg_readable: "thresholds_readable plain_env strict_cfg"
  by (auto simp: thresholds_readable_def threshold_keys_def strict_cfg_def)

theorem readable_rows_are_graded_witness:
  "\<exists>row. classify_row plain_env half_kdj_values None PNone strict_cfg = Inr row \<and> g_grade row \<noteq> DataAnomaly"
proof -
  have "\<not> (\<exists>key \<in> set core_fields. fld plain_env half_kdj_values key = Inr None)"
    by (simp add: core_fields_def fld_def finite_or_none_def py_float_def half_kdj_values_def)
  with readable_rows_are_graded [OF plain_readable(1,2) strict_cfg_readable plain_readable(3,4), of None] show ?thesis by blast
qed

theorem favourable_grades_are_earned_witness:
  "\<exists>row. classify_row plain_env half_kdj_values (Some (1 / 64)) PNone strict_cfg = Inr row \<and> g_grade row = AddPosition
     \<and> mc_kind (g_macd row) \<noteq> MacdDeath \<and> (\<exists>j. kd_j (g_kdj row) = Some j \<and> pf_less (Fin j) (Fin 60))"
proof -
  have run: "graded_view (classify_row plain_env half_kdj_values (Some (1 / 64)) PNone strict_cfg) = Some (KdjUnknown, AddPosition)"
    by code_simp
  then obtain row where row: "classify_row plain_env half_kdj_values (Some (1 / 64)) PNone strict_cfg = Inr row"
    "g_grade row = AddPosition" by (auto simp: graded_view_def split: sum.splits)
  have "float_of plain_env (pget_default ''j_add_cap'' (PInt 90) strict_cfg) = Inr (Fin 60)" by (simp add: pget_default_def strict_cfg_def)
  with favourable_grades_are_earned [OF row(1)] row show ?thesis by auto
qed

text \<open>
  The display view and the graded row have different default thresholds for the volume ratio: without a
  configuration, a ratio of 1.25 is shown as expanding and graded as flat.
\<close>

lemma default_volume_differs:
  "(case volume_state_view plain_env (PDict [(''volume_ratio'', PFloat (Fin (5 / 4)))]) (PDict []) of Inl _ \<Rightarrow> VolUnknown | Inr (kind, _) \<Rightarrow> kind) = VolExpand
   \<and> (case classify_row plain_env (PDict [(''volume_ratio'', PFloat (Fin (5 / 4)))]) None PNone (PDict []) of
        Inl _ \<Rightarrow> VolUnknown | Inr row \<Rightarrow> v_kind (g_volume row)) = VolFlat"
  by code_simp

end
