(* ===== verification/Task_Outcome.thy ===== *)
theory Task_Outcome
  imports Py_Values
begin

text \<open>
  Terminal outcomes of tasks, \<^verbatim>\<open>app/services/task_outcome.py\<close>: counters, coverage and the
  normalisation that can lower what a producer claims and never raises it. A result is the dict a
  task returns, with its nested \<^verbatim>\<open>steps\<close> and \<^verbatim>\<open>input\<close>.
\<close>

section \<open>Counters\<close>

definition bad_counter :: "'a result" where
  "bad_counter = Inl (ValueError ''invalid_result_counter'')"

text \<open>\<^verbatim>\<open>math.isfinite\<close> of an int converts it to a float first.\<close>

fun count :: "pyval \<Rightarrow> int result" where
  "count PNone = Inr 0"
| "count (PList xs) = Inr (int (length xs))"
| "count (PDict d) = Inr (int (length d))"
| "count (PInt n) = bindr (float_of_int n) (\<lambda>_. if n < 0 then bad_counter else Inr n)"
| "count (PFloat (Fin r)) = (if r < 0 \<or> of_int \<lfloor>r\<rfloor> \<noteq> r then bad_counter else Inr \<lfloor>r\<rfloor>)"
| "count _ = bad_counter"

definition is_number :: "pyval \<Rightarrow> bool" where
  "is_number v = (case v of PBool _ \<Rightarrow> True | PInt _ \<Rightarrow> True | PFloat _ \<Rightarrow> True | _ \<Rightarrow> False)"

definition error_keys :: "string list" where
  "error_keys = [''failures'', ''failed_steps'', ''missing'', ''skipped'', ''errors'', ''error'', ''missing_codes'', ''degraded'', ''price_only'']"

definition written_keys :: "string list" where
  "written_keys = [''created'', ''updated'', ''inserted'', ''unchanged'']"

fun max_of :: "int list \<Rightarrow> int" where
  "max_of [] = 0"
| "max_of [x] = x"
| "max_of (x # y # zs) = max x (max_of (y # zs))"

section \<open>Coverage\<close>

text \<open>The text of a status.\<close>

definition succeeded :: pyval where "succeeded = PStr ''succeeded''"

definition coverage_counts :: "pyval \<Rightarrow> pyval \<Rightarrow> (int \<times> int) result" where
  "coverage_counts requested completed =
     raise_if (\<not> is_number requested \<or> \<not> is_number completed) (ValueError ''invalid_result_counter'')
     (bindr (count requested) (\<lambda>r. bindr (count completed) (\<lambda>c.
        raise_if (r < c) (ValueError ''completion_exceeds_requested'') (Inr (r, c)))))"

definition coverage_status :: "int \<Rightarrow> int \<Rightarrow> int \<Rightarrow> string" where
  "coverage_status stale r c =
     (if stale \<noteq> 0 then ''partial'' else if r = 0 then ''partial'' else if c = 0 then ''failed''
      else if c = r then ''succeeded'' else ''partial'')"

definition coverage_outcome :: "pyval \<Rightarrow> pyval \<Rightarrow> (string \<times> pyval) list \<Rightarrow> (string \<times> pyval) list result" where
  "coverage_outcome requested completed metadata = (case coverage_counts requested completed of
       Inl _ \<Rightarrow> Inr (dict_update [(''requested'', PInt 0), (''completed'', PInt 0), (''coverage_complete'', PBool False),
                  (''status'', PStr ''failed''), (''reason'', PStr ''invalid_coverage_counters'')] metadata)
     | Inr (r, c) \<Rightarrow> bindr (count (case map_of metadata ''stale_count'' of None \<Rightarrow> PInt 0 | Some v \<Rightarrow> v)) (\<lambda>stale.
         Inr (dict_update [(''requested'', PInt r), (''completed'', PInt c),
                (''coverage_complete'', PBool (r \<noteq> 0 \<and> c = r \<and> stale = 0)), (''status'', PStr (coverage_status stale r c))] metadata)))"

section \<open>Normalisation\<close>

definition missing_contract :: pyval where
  "missing_contract = PDict [(''status'', PStr ''failed''), (''coverage_complete'', PBool False), (''reason'', PStr ''missing_result_contract'')]"

definition invalid_counter :: "(string \<times> pyval) list \<Rightarrow> pyval" where
  "invalid_counter d = PDict (dict_update [(''status'', PStr ''failed''), (''coverage_complete'', PBool False),
     (''reason'', PStr ''invalid_result_counter'')] d)"

text \<open>The largest error counter and the largest proof of output among the result's own counters.\<close>

definition own_counts :: "(string \<times> pyval) list \<Rightarrow> (int \<times> int) result" where
  "own_counts d =
     bindr (mapr (\<lambda>k. count (pget k (PDict d))) error_keys) (\<lambda>es.
     bindr (mapr (\<lambda>k. count (pget k (PDict d))) written_keys) (\<lambda>ws.
     bindr (count (pget ''completed'' (PDict d))) (\<lambda>c.
     bindr (count (pget ''observed'' (PDict d))) (\<lambda>ob.
     Inr (max_of es, max (sum_list ws) (max c ob))))))"

definition with_steps :: "pyval list \<Rightarrow> int \<times> int \<Rightarrow> int \<times> int" where
  "with_steps states ec =
     (max (fst ec) (int (length (filter (\<lambda>s. s \<noteq> succeeded) states))),
      max (snd ec) (int (length (filter (\<lambda>s. s = succeeded) states))))"

text \<open>\<^verbatim>\<open>except (ValueError, TypeError, OverflowError)\<close>.\<close>

fun caught :: "py_error \<Rightarrow> bool" where
  "caught (ValueError _) = True"
| "caught (TypeError _) = True"
| "caught OverflowError = True"
| "caught _ = False"

text \<open>The derived status and the result so far, or the value of the early return.\<close>

definition derive :: "(string \<times> pyval) list \<Rightarrow> int \<Rightarrow> int \<Rightarrow> (pyval + pyval \<times> (string \<times> pyval) list) result" where
  "derive d errors successes =
     (let v = PDict d; explicit = pget ''status'' v
      in if phas ''requested'' v \<and> phas ''completed'' v
         then bindr (coverage_outcome (pget ''requested'' v) (pget ''completed'' v)
                [(''stale_count'', case map_of d ''stale_count'' of None \<Rightarrow> PInt 0 | Some s \<Rightarrow> s)]) (\<lambda>coverage.
           if truthy (pget ''reason'' (PDict coverage)) then Inr (Inl (PDict (dict_update coverage d)))
           else Inr (Inr (pget ''status'' (PDict coverage), d)))
         else if errors \<noteq> 0 then Inr (Inr (PStr (if successes \<noteq> 0 then ''partial'' else ''failed''), d))
         else if successes \<noteq> 0 then Inr (Inr (succeeded, d))
         else if explicit \<in> PStr ` {''succeeded'', ''partial'', ''failed'', ''skipped'', ''cancelled''} then Inr (Inr (explicit, d))
         else Inr (Inr (PStr ''failed'', if phas ''reason'' v then d else dict_set ''reason'' (PStr ''missing_terminal_status'') d)))"

definition lower_own :: "(string \<times> pyval) list \<Rightarrow> int \<Rightarrow> pyval \<Rightarrow> pyval" where
  "lower_own d errors derived =
     (if (pget ''coverage_complete'' (PDict d) = PBool False \<or> errors \<noteq> 0 \<or> pget ''status'' (PDict d) = PStr ''partial'')
         \<and> derived = succeeded then PStr ''partial'' else derived)"

definition finish_outcome :: "pyval \<Rightarrow> (string \<times> pyval) list \<Rightarrow> pyval" where
  "finish_outcome derived d =
     (let d1 = dict_set ''status'' derived d
      in PDict (if derived \<noteq> succeeded then dict_set ''coverage_complete'' (PBool False) d1 else d1))"

definition closing :: "pyval \<Rightarrow> bool" where
  "closing explicit \<longleftrightarrow> explicit \<in> PStr ` {''failed'', ''cancelled'', ''skipped''}"

lemma size_map_of: "map_of d k = Some v \<Longrightarrow> size v < size (PDict d)"
proof -
  assume "map_of d k = Some v"
  from size_list_estimation' [OF map_of_SomeD [OF this], of "size v" "size_prod (\<lambda>_. 0) size"] show ?thesis by simp
qed

function normalize_outcome :: "pyval \<Rightarrow> pyval result" where
  "normalize_outcome v = (case v of
     PDict d \<Rightarrow>
       if d = [] then Inr missing_contract
       else let explicit = pget ''status'' v
       in raise_if (is_list explicit \<or> is_dict explicit) (TypeError ''unhashable type'')
          (if closing explicit then Inr (PDict (dict_set ''coverage_complete'' (PBool False) d))
           else case bindr (own_counts d) (\<lambda>ec. case map_of d ''steps'' of
                    Some (PDict steps) \<Rightarrow>
                      bindr (mapr (\<lambda>x. bindr (normalize_outcome (snd x)) (\<lambda>r. Inr (pget ''status'' r))) steps) (\<lambda>states.
                      Inr (with_steps states ec))
                  | _ \<Rightarrow> Inr ec) of
             Inl e \<Rightarrow> if caught e then Inr (invalid_counter d) else Inl e
           | Inr ec \<Rightarrow> bindr (derive d (fst ec) (snd ec)) (\<lambda>dr. case dr of
               Inl final \<Rightarrow> Inr final
             | Inr (derived, d1) \<Rightarrow>
                 bindr (case map_of d ''input'' of
                     Some (PDict n) \<Rightarrow> bindr (normalize_outcome (PDict n)) (\<lambda>r. Inr (pget ''status'' r \<noteq> succeeded))
                   | _ \<Rightarrow> Inr False) (\<lambda>bad.
                 let own = lower_own d (fst ec) derived
                 in Inr (finish_outcome (if bad \<and> own = succeeded then PStr ''partial'' else own) d1))))
   | _ \<Rightarrow> Inr missing_contract)"
  by pat_completeness auto

termination
proof (relation "measure size")
  show "wf (measure (size :: pyval \<Rightarrow> nat))" by simp
next
  fix v d explicit ec y steps x
  assume "v = PDict d" "map_of d ''steps'' = Some y" "y = PDict steps" "x \<in> set steps"
  moreover from this have "size (snd x) < size (PDict steps)"
    using size_list_estimation' [of x steps "size (snd x)" "size_prod (\<lambda>_. 0) size"] by (cases x) simp
  ultimately show "(snd x, v) \<in> measure size" using size_map_of [of d "''steps''" y] by simp
qed (auto dest: size_map_of)

declare normalize_outcome.simps [simp del]

end
