(* ===== verification/Outcome_Props.thy ===== *)
theory Outcome_Props
  imports Task_Outcome
begin

text \<open>What a succeeded outcome proves about the result a task returned.\<close>

section \<open>Counters\<close>








section \<open>Coverage\<close>


section \<open>One normalisation\<close>














text \<open>Every other invalid counter ends as failed; an invalid \<^verbatim>\<open>stale_count\<close> is only counted outside the
  handler and escapes as an exception.\<close>

lemma bad_stale_count_raises:
  "normalize_outcome (PDict [(''requested'', PInt 1), (''completed'', PInt 1), (''stale_count'', PInt (- 1))])
     = Inl (ValueError ''invalid_result_counter'')"
  "normalize_outcome (PDict [(''requested'', PInt 1), (''completed'', PInt 1), (''errors'', PInt (- 1))])
     = Inr (invalid_counter [(''requested'', PInt 1), (''completed'', PInt 1), (''errors'', PInt (- 1))])"
  by (code_simp, code_simp)

end
