(* ===== verification/Local_Reconcile.thy ===== *)
theory Local_Reconcile
  imports Display_Reader Event_Execution
begin

text \<open>
  The reconciliation after the close, \<^verbatim>\<open>app/workspace/local_reconcile.py\<close>: every package of the
  session against its stored receipt, and the realised returns of its universe from settled bars.

  A directory is the list of its files. \<^verbatim>\<open>json.load\<close> with and without the hook that refuses repeated
  keys, and the built-in \<^verbatim>\<open>sum\<close> over floats, are arguments. The database is the list of its
  instruments and the list of its daily bars. Shanghai time is UTC+8.
\<close>

record recon_env =
  rc_env :: py_env
  rc_unique :: "string \<Rightarrow> pyval option"
  rc_plain :: "string \<Rightarrow> pyval option"
  rc_sum :: "pyfloat list \<Rightarrow> pyfloat"

section \<open>Delivery\<close>

datatype delivery_state = Unreadable | ReceiptMissing | Matched | ReceiptMismatch

record delivery_item =
  di_sequence :: int
  di_file :: string
  di_bundle_id :: "string option"
  di_universe_size :: "int option"
  di_received_at :: "pyval option"
  di_state :: delivery_state

text \<open>\<^verbatim>\<open>int(text)\<close> of a text without underscores, in ASCII.\<close>

definition int_digits :: "string \<Rightarrow> int option" where
  "int_digits s = (if all_digits s \<and> int (length s) \<le> 4300 then Some (digits_val s) else None)"

definition int_text :: "string \<Rightarrow> int option" where
  "int_text s = (case strip s of
       c # cs \<Rightarrow> if c = CHR ''-'' then map_option uminus (int_digits cs)
                 else if c = CHR ''+'' then int_digits cs else int_digits (c # cs)
     | [] \<Rightarrow> None)"

definition is_outbox_bundle :: "string \<Rightarrow> bool" where
  "is_outbox_bundle name \<longleftrightarrow> starts_with ''bundle_'' name \<and> ends_with ''.json'' name \<and> 12 \<le> length name
     \<and> \<not> ends_with ''.receipt.json'' name"

definition stem :: "string \<Rightarrow> string" where
  "stem name = take (length name - 5) name"

text \<open>\<^verbatim>\<open>int(path.stem.split("_")[1])\<close>.\<close>

definition name_sequence :: "string \<Rightarrow> int option" where
  "name_sequence name = int_text (takeWhile (\<lambda>c. c \<noteq> CHR ''_'') (drop 7 (stem name)))"

text \<open>
  A sequence is a time in milliseconds; None stands for the exceptions outside the years 1 to 9999.
  Division by 1000 in floats cannot move a whole millisecond over midnight.
\<close>

definition session_of_sequence :: "int \<Rightarrow> int option" where
  "session_of_sequence sequence =
     (let u = sequence * 1000
      in if day_number 1 1 1 * day_us \<le> u \<and> u + shanghai_offset < (day_number 9999 12 31 + 1) * day_us
         then Some (local_date u) else None)"

definition read_manifest :: "recon_env \<Rightarrow> int \<Rightarrow> string \<Rightarrow> pyval result" where
  "read_manifest C sequence text = (case rc_unique C text of
       None \<Rightarrow> Inl (ValueError ''invalid JSON'')
     | Some v \<Rightarrow> bindr (pindex v ''manifest'') (\<lambda>m.
         raise_if (\<not> is_dict m \<or> pget ''sequence'' m \<noteq> PInt sequence)
           (ValueError ''bundle filename/manifest sequence mismatch'') (Inr m)))"

definition check_receipt :: "recon_env \<Rightarrow> pyval \<Rightarrow> string \<Rightarrow> pyval result" where
  "check_receipt C manifest text = (case rc_unique C text of
       None \<Rightarrow> Inl (ValueError ''invalid JSON'')
     | Some r \<Rightarrow> raise_if (pget ''contract_version'' manifest \<noteq> PStr ''local-display-v2'') (ValueError ''v2 delivery evidence required'')
         (validate_receipt (rc_env C) r manifest ''local-display-v2''))"

text \<open>One package; every exception of its two reads is among those the code catches.\<close>

definition delivery_of :: "recon_env \<Rightarrow> (string \<times> string) list \<Rightarrow> int \<Rightarrow> string \<times> string \<Rightarrow> delivery_item" where
  "delivery_of C outbox sequence nt =
     (let entry = \<lparr> di_sequence = sequence, di_file = fst nt, di_bundle_id = None, di_universe_size = None,
                     di_received_at = None, di_state = Unreadable \<rparr>
      in case bindr (read_manifest C sequence (snd nt)) (\<lambda>m. bindr (digest (rc_env C) m) (\<lambda>i. Inr (m, i))) of
           Inl _ \<Rightarrow> entry
         | Inr (m, i) \<Rightarrow>
            (case py_len (por (pget ''universe'' m) (PList [])) of
               Inl _ \<Rightarrow> entry\<lparr> di_bundle_id := Some i \<rparr>
             | Inr n \<Rightarrow>
                (let e = entry\<lparr> di_bundle_id := Some i, di_universe_size := Some n \<rparr>
                 in case map_of outbox (stem (fst nt) @ ''.receipt.json'') of
                      None \<Rightarrow> e\<lparr> di_state := ReceiptMissing \<rparr>
                    | Some text \<Rightarrow> (case check_receipt C m text of
                        Inl _ \<Rightarrow> e\<lparr> di_state := ReceiptMismatch, di_received_at := Some PNone \<rparr>
                      | Inr r \<Rightarrow> e\<lparr> di_state := Matched, di_received_at := Some (pget ''received_at'' r) \<rparr>))))"

definition session_item :: "recon_env \<Rightarrow> (string \<times> string) list \<Rightarrow> int \<Rightarrow> string \<times> string \<Rightarrow> delivery_item option" where
  "session_item C outbox session nt = (case name_sequence (fst nt) of None \<Rightarrow> None
     | Some sequence \<Rightarrow> if session_of_sequence sequence = Some session then Some (delivery_of C outbox sequence nt) else None)"

text \<open>\<^verbatim>\<open>max(..., key=..., default=None)\<close>: the first of the largest.\<close>

fun latest_item :: "delivery_item list \<Rightarrow> delivery_item option" where
  "latest_item [] = None"
| "latest_item (x # xs) = (case latest_item xs of None \<Rightarrow> Some x
     | Some y \<Rightarrow> Some (if di_sequence x < di_sequence y then y else x))"

record delivery_report =
  dr_items :: "delivery_item list"
  dr_counts :: "(delivery_state \<times> int) list"
  dr_latest :: "delivery_item option"

definition count_state :: "delivery_item \<Rightarrow> (delivery_state \<times> int) list \<Rightarrow> (delivery_state \<times> int) list" where
  "count_state i c = dict_set (di_state i) ((case map_of c (di_state i) of None \<Rightarrow> 0 | Some n \<Rightarrow> n) + 1) c"

definition reconcile_delivery :: "recon_env \<Rightarrow> (string \<times> string) list \<Rightarrow> int \<Rightarrow> delivery_report" where
  "reconcile_delivery C outbox session =
     (let its = List.map_filter (session_item C outbox session) (sort_key fst (filter (\<lambda>nt. is_outbox_bundle (fst nt)) outbox))
      in \<lparr> dr_items = its, dr_counts = fold count_state its [], dr_latest = latest_item (filter (\<lambda>i. di_state i = Matched) its) \<rparr>)"

section \<open>Realised outcomes\<close>

record bar_row =
  br_instrument :: int
  br_adjust :: string
  br_day :: int
  br_close :: "pyfloat option"
  br_source :: string
  br_fetched_at :: "dtime option"
  br_quality_hash :: string

record recon_db =
  rd_instruments :: "(string \<times> int) list"
  rd_bars :: "bar_row list"

text \<open>A missing text column is the empty text, which the code treats the same.\<close>

datatype horizon_outcome = UnknownOutcome string | PendingOutcome | Matured int pyfloat

datatype outcome_row =
    NoInstrument (outcome_code: pyval)
  | Observation (outcome_code: pyval) (outcome_t1: horizon_outcome) (outcome_t5: horizon_outcome)

text \<open>The next five sessions within forty days, and whether every day up to them was verified.\<close>

fun next_sessions :: "calendar_service \<Rightarrow> nat \<Rightarrow> int \<Rightarrow> int list \<Rightarrow> int list \<times> bool" where
  "next_sessions S 0 day found = (found, True)"
| "next_sessions S (Suc n) day found =
     (let d = decision S (day + 1)
      in if \<not> d_verified d then (found, False)
         else let found' = (if d_trade_day d then found @ [day + 1] else found)
         in if length found' = 5 then (found', True) else next_sessions S n (day + 1) found')"

fun utc_instant :: "dtime \<Rightarrow> int" where
  "utc_instant (Naive u) = u"
| "utc_instant (Aware u) = u"

definition settled_bar :: "int \<Rightarrow> bar_row \<Rightarrow> bool" where
  "settled_bar as_of b \<longleftrightarrow> br_source b \<noteq> [] \<and> \<not> is_infix ''mock'' (lower (br_source b))
     \<and> (case br_close b of Some (Fin r) \<Rightarrow> 0 < r | _ \<Rightarrow> False)
     \<and> (case br_fetched_at b of None \<Rightarrow> False
        | Some f \<Rightarrow> utc_instant f \<le> as_of \<and> shanghai_instant (br_day b) settlement_cutoff \<le> utc_instant f)"

definition price_proof :: "pyval \<Rightarrow> bar_row list \<Rightarrow> bool" where
  "price_proof proof bars \<longleftrightarrow> is_dict proof \<and> pget ''adjust'' proof = PStr ''qfq'' \<and> pget ''settlement_status'' proof = PStr ''settled''
     \<and> (case pget ''price_basis_id'' proof of PStr s \<Rightarrow> strip s \<noteq> [] | _ \<Rightarrow> False)
     \<and> truthy (pget ''evidence_ref'' proof)
     \<and> (case pget ''quality_hashes'' proof of
          PList hs \<Rightarrow> list_all (\<lambda>b. br_quality_hash b \<noteq> [] \<and> PStr (br_quality_hash b) \<in> set hs) bars
        | _ \<Rightarrow> False)"

text \<open>The last row of a day is the one the dict keeps.\<close>

definition bar_of_day :: "int \<Rightarrow> bar_row list \<Rightarrow> bar_row option" where
  "bar_of_day day bars = List.find (\<lambda>b. br_day b = day) (rev bars)"

definition close_of :: "bar_row \<Rightarrow> pyfloat" where
  "close_of b = (case br_close b of Some f \<Rightarrow> f | None \<Rightarrow> NaN)"

definition matured :: "int \<Rightarrow> int \<Rightarrow> pyval \<Rightarrow> int \<Rightarrow> bar_row list \<Rightarrow> horizon_outcome result" where
  "matured as_of base proof target bars = (case (bar_of_day base bars, bar_of_day target bars) of
       (Some b, Some t) \<Rightarrow>
         if list_all (settled_bar as_of) bars \<and> price_proof proof bars
         then bindr (pf_div (close_of t) (close_of b)) (\<lambda>q. Inr (Matured target (pf_round 6 (pf_sub q (Fin 1)))))
         else Inr (UnknownOutcome ''settled_comparable_price_evidence_missing'')
     | _ \<Rightarrow> Inr (UnknownOutcome ''settled_comparable_price_evidence_missing''))"

definition horizon_bars :: "recon_db \<Rightarrow> int \<Rightarrow> int \<Rightarrow> int \<Rightarrow> bar_row list" where
  "horizon_bars D inst base target =
     filter (\<lambda>b. br_instrument b = inst \<and> br_adjust b = ''qfq'' \<and> br_day b \<in> {base, target}) (rd_bars D)"

definition horizon_outcome_of ::
  "recon_db \<Rightarrow> int \<Rightarrow> int \<Rightarrow> pyval \<Rightarrow> int \<Rightarrow> bool \<Rightarrow> int list \<Rightarrow> nat \<Rightarrow> horizon_outcome result" where
  "horizon_outcome_of D as_of inst proof base known found horizon =
     (if \<not> known \<or> length found < horizon then Inr (UnknownOutcome ''calendar_unverified'')
      else let target = found ! (horizon - 1)
      in if local_date as_of < target \<or> (target = local_date as_of \<and> local_time as_of < settlement_cutoff) then Inr PendingOutcome
         else matured as_of base proof target (horizon_bars D inst base target))"

definition code_outcome ::
  "recon_db \<Rightarrow> calendar_service \<Rightarrow> int \<Rightarrow> (string \<times> pyval) list \<Rightarrow> int \<Rightarrow> pyval \<Rightarrow> outcome_row result" where
  "code_outcome D S as_of evidence base code = (case code of
       PStr c \<Rightarrow> (case map_of (rd_instruments D) c of
           None \<Rightarrow> Inr (NoInstrument code)
         | Some inst \<Rightarrow>
            (case next_sessions S 40 base [] of (found, whole) \<Rightarrow>
              let known = (whole \<and> d_verified (decision S base) \<and> d_trade_day (decision S base));
                  proof = por (pget c (PDict evidence)) (PDict [])
              in bindr (horizon_outcome_of D as_of inst proof base known found 1) (\<lambda>t1.
                 bindr (horizon_outcome_of D as_of inst proof base known found 5) (\<lambda>t5.
                 Inr (Observation code t1 t5)))))
     | _ \<Rightarrow> Inr (NoInstrument code))"

definition realised_outcomes ::
  "recon_db \<Rightarrow> calendar_service \<Rightarrow> dtime \<Rightarrow> (string \<times> pyval) list \<Rightarrow> pyval list \<Rightarrow> int \<Rightarrow> outcome_row list result" where
  "realised_outcomes D S as_of evidence universe base = (case as_of of
       Naive _ \<Rightarrow> Inl (ValueError ''outcome cutoff requires timezone'')
     | Aware u \<Rightarrow> mapr (code_outcome D S u evidence base) universe)"

section \<open>The report\<close>

record horizon_summary =
  hs_matured :: int
  hs_pending :: int
  hs_unknown :: int
  hs_mean :: "pyfloat option"
  hs_positive :: "pyfloat option"

fun returns_of :: "horizon_outcome list \<Rightarrow> pyfloat list" where
  "returns_of [] = []"
| "returns_of (Matured _ r # os) = r # returns_of os"
| "returns_of (_ # os) = returns_of os"

fun is_unknown :: "horizon_outcome \<Rightarrow> bool" where
  "is_unknown (UnknownOutcome _) = True"
| "is_unknown _ = False"

definition horizon_summary_of :: "recon_env \<Rightarrow> horizon_outcome list \<Rightarrow> horizon_summary result" where
  "horizon_summary_of C os =
     (let values = returns_of os; n = pf_of_int (int (length values))
      in bindr (if values = [] then Inr (None, None)
                else bindr (pf_div (rc_sum C values) n) (\<lambda>mean.
                  bindr (pf_div (pf_of_int (int (length (filter (\<lambda>v. pf_less (Fin 0) v) values)))) n) (\<lambda>share.
                  Inr (Some (pf_round 6 mean), Some (pf_round 4 share))))) (\<lambda>ms.
         Inr \<lparr> hs_matured = int (length values), hs_pending = int (length (filter (\<lambda>x. x = PendingOutcome) os)),
               hs_unknown = int (length (filter is_unknown os)), hs_mean = fst ms, hs_positive = snd ms \<rparr>))"

definition observed_rows :: "outcome_row list \<Rightarrow> outcome_row list" where
  "observed_rows rows = filter (\<lambda>r. case r of Observation _ _ _ \<Rightarrow> True | _ \<Rightarrow> False) rows"

definition summary_of :: "recon_env \<Rightarrow> outcome_row list \<Rightarrow> (horizon_summary \<times> horizon_summary) result" where
  "summary_of C rows =
     bindr (horizon_summary_of C (map outcome_t1 (observed_rows rows))) (\<lambda>a.
     bindr (horizon_summary_of C (map outcome_t5 (observed_rows rows))) (\<lambda>b. Inr (a, b)))"

record recon_report =
  rp_session :: int
  rp_generated_at :: dtime
  rp_delivery :: delivery_report
  rp_outcomes :: "(int \<times> (horizon_summary \<times> horizon_summary) \<times> outcome_row list) list"

text \<open>The universe of the latest proven package; a universe that cannot be iterated raises.\<close>

definition latest_universe :: "recon_env \<Rightarrow> (string \<times> string) list \<Rightarrow> delivery_report \<Rightarrow> pyval list result" where
  "latest_universe C outbox R = (case dr_latest R of None \<Rightarrow> Inr []
     | Some i \<Rightarrow> (case map_of outbox (di_file i) of None \<Rightarrow> Inr []
         | Some text \<Rightarrow> (case rc_plain C text of None \<Rightarrow> Inr []
             | Some v \<Rightarrow> (case bindr (pindex v ''manifest'') (\<lambda>m. bindr (pindex m ''universe'') py_iter) of
                 Inl (KeyError _) \<Rightarrow> Inr []
               | r \<Rightarrow> r))))"

text \<open>
  \<^verbatim>\<open>run_reconcile\<close> with a database or without; the report is returned and is what is written under
  \<^verbatim>\<open>receipts/reconcile\<close>. No price evidence is passed on.
\<close>

definition run_reconcile ::
  "recon_env \<Rightarrow> calendar_service \<Rightarrow> (string \<times> string) list \<Rightarrow> int \<Rightarrow> recon_db option \<Rightarrow> int list \<Rightarrow> dtime \<Rightarrow> recon_report result" where
  "run_reconcile C S outbox session db bases as_of =
     (let delivery = reconcile_delivery C outbox session
      in bindr (latest_universe C outbox delivery) (\<lambda>universe.
         bindr (case db of None \<Rightarrow> Inr []
            | Some D \<Rightarrow> if universe = [] then Inr []
                else mapr (\<lambda>base. bindr (realised_outcomes D S as_of [] universe base) (\<lambda>rows.
                  bindr (summary_of C rows) (\<lambda>s. Inr (base, s, rows)))) (if bases = [] then [session] else bases)) (\<lambda>outs.
         Inr \<lparr> rp_session = session, rp_generated_at = as_of, rp_delivery = delivery, rp_outcomes = outs \<rparr>)))"

text \<open>The days with bars up to the session, the last ones in order.\<close>

definition recent_base_days :: "recon_db \<Rightarrow> int \<Rightarrow> nat \<Rightarrow> int list" where
  "recent_base_days D session n =
     sort (take n (rev (sort (remdups (map br_day (filter (\<lambda>b. br_day b \<le> session) (rd_bars D)))))))"

end
