(* ===== verification/Reconcile_Props.thy ===== *)
theory Reconcile_Props
  imports Local_Reconcile
begin

text \<open>What a reconciliation report may be trusted with: its matches and its matured returns.\<close>

section \<open>Delivery\<close>

text \<open>\<^verbatim>\<open>bundle_<sequence>[_...].json\<close>: the sequence is the number up to the next underscore.\<close>

definition bundle_name :: "string \<Rightarrow> string \<Rightarrow> int \<Rightarrow> bool" where
  "bundle_name name base n \<longleftrightarrow> name = base @ ''.json'' \<and> (\<exists>s rest. base = ''bundle_'' @ s @ rest
     \<and> CHR ''_'' \<notin> set s \<and> (rest = [] \<or> hd rest = CHR ''_'') \<and> int_text s = Some n)"

lemma bundle_nameI:
  assumes "is_outbox_bundle name" and "name_sequence name = Some n"
  shows "bundle_name name (stem name) n"
proof -
  have len: "12 \<le> length name" and pre: "take 7 name = ''bundle_''" and suf: "drop (length name - 5) name = ''.json''"
    using assms(1) by (simp_all add: is_outbox_bundle_def starts_with_def ends_with_def numeral_eq_Suc)
  from suf have "name = stem name @ ''.json''" by (metis append_take_drop_id stem_def)
  moreover have "take 7 (stem name) = ''bundle_''" using len pre by (simp add: stem_def min_def)
  then have "stem name = ''bundle_'' @ drop 7 (stem name)" by (metis append_take_drop_id)
  then have "stem name = ''bundle_'' @ takeWhile (\<lambda>c. c \<noteq> CHR ''_'') (drop 7 (stem name))
      @ dropWhile (\<lambda>c. c \<noteq> CHR ''_'') (drop 7 (stem name))" by simp
  moreover have "CHR ''_'' \<notin> set (takeWhile (\<lambda>c. c \<noteq> CHR ''_'') (drop 7 (stem name)))"
    by (auto dest: set_takeWhileD)
  moreover have "xs = [] \<or> hd xs = CHR ''_''" if "xs = dropWhile (\<lambda>c. c \<noteq> CHR ''_'') (drop 7 (stem name))" for xs
    using that hd_dropWhile by blast
  ultimately show ?thesis using assms(2) unfolding bundle_name_def name_sequence_def by blast
qed

definition proven :: "recon_env \<Rightarrow> (string \<times> string) list \<Rightarrow> delivery_item \<Rightarrow> bool" where
  "proven C outbox i \<longleftrightarrow> (\<exists>base text rtext b r bid.
     bundle_name (di_file i) base (di_sequence i)
     \<and> (di_file i, text) \<in> set outbox \<and> rc_unique C text = Some b
     \<and> pget ''contract_version'' (pget ''manifest'' b) = PStr ''local-display-v2''
     \<and> pget ''sequence'' (pget ''manifest'' b) = PInt (di_sequence i)
     \<and> digest (rc_env C) (pget ''manifest'' b) = Inr bid \<and> di_bundle_id i = Some bid
     \<and> map_of outbox (base @ ''.receipt.json'') = Some rtext \<and> rc_unique C rtext = Some r
     \<and> pget ''bundle_id'' r = PStr bid \<and> pget ''manifest_hash'' r = PStr bid \<and> pget ''sequence'' r = PInt (di_sequence i)
     \<and> di_received_at i = Some (pget ''received_at'' r))"

lemma read_manifestD:
  assumes "read_manifest C sequence text = Inr m"
  obtains b where "rc_unique C text = Some b" "pget ''manifest'' b = m" "pget ''sequence'' m = PInt sequence"
proof -
  from assms obtain b where b: "rc_unique C text = Some b" "pindex b ''manifest'' = Inr m" "pget ''sequence'' m = PInt sequence"
    by (auto simp: read_manifest_def split: option.splits)
  moreover from b(2) have "pget ''manifest'' b = m" by (auto simp: pindex_def split: pyval.splits option.splits)
  ultimately show ?thesis using that by blast
qed

lemma check_receiptD:
  assumes "check_receipt C m text = Inr r" "digest (rc_env C) m = Inr bid" "pget ''sequence'' m = PInt n"
  shows "rc_unique C text = Some r" "pget ''contract_version'' m = PStr ''local-display-v2''" "pget ''bundle_id'' r = PStr bid"
    "pget ''manifest_hash'' r = PStr bid" "pget ''sequence'' r = PInt n"
proof -
  from assms(1) obtain r0 where r0: "rc_unique C text = Some r0" "pget ''contract_version'' m = PStr ''local-display-v2''"
    and v: "validate_receipt (rc_env C) r0 m ''local-display-v2'' = Inr r"
    by (auto simp: check_receipt_def split: option.splits)
  have r: "r = r0" by (rule validate_receipt_returns [OF v])
  with r0 show "rc_unique C text = Some r" "pget ''contract_version'' m = PStr ''local-display-v2''" by simp_all
  from v [unfolded r] obtain b' where b': "digest (rc_env C) m = Inr b'" "pget ''bundle_id'' r0 = PStr b'"
    and w: "validate_receipt_v2 (rc_env C) r0 m b' = Inr ()" by (rule validate_receiptD)
  from b'(1) assms(2) have "b' = bid" by simp
  with b'(2) validate_receipt_v2D(1,3) [OF w] assms(3) r show "pget ''bundle_id'' r = PStr bid"
    "pget ''manifest_hash'' r = PStr bid" "pget ''sequence'' r = PInt n" by auto
qed

lemma matched_item_proven:
  assumes "nt \<in> set outbox" "is_outbox_bundle (fst nt)" "name_sequence (fst nt) = Some n"
    and matched: "di_state (delivery_of C outbox n nt) = Matched"
  shows "proven C outbox (delivery_of C outbox n nt)"
proof -
  let ?i = "delivery_of C outbox n nt"
  from matched obtain m bid where m: "read_manifest C n (snd nt) = Inr m" and d: "digest (rc_env C) m = Inr bid"
    by (auto simp: delivery_of_def Let_def split: sum.splits option.splits)
  with matched obtain k tx r where k: "py_len (por (pget ''universe'' m) (PList [])) = Inr k"
    and t: "map_of outbox (stem (fst nt) @ ''.receipt.json'') = Some tx" and c: "check_receipt C m tx = Inr r"
    by (auto simp: delivery_of_def Let_def split: sum.splits option.splits)
  have i: "?i = \<lparr> di_sequence = n, di_file = fst nt, di_bundle_id = Some bid, di_universe_size = Some k,
      di_received_at = Some (pget ''received_at'' r), di_state = Matched \<rparr>"
    by (simp add: delivery_of_def Let_def m d k t c)
  obtain b where b: "rc_unique C (snd nt) = Some b" "pget ''manifest'' b = m" "pget ''sequence'' m = PInt n"
    by (rule read_manifestD [OF m])
  note ch = check_receiptD [OF c d b(3)]
  have "(fst nt, snd nt) \<in> set outbox" "bundle_name (fst nt) (stem (fst nt)) n" using assms bundle_nameI by simp_all
  then show ?thesis unfolding proven_def i
    by (intro exI [of _ "stem (fst nt)"] exI [of _ "snd nt"] exI [of _ tx] exI [of _ b] exI [of _ r] exI [of _ bid]) (use b d t ch in \<open>simp del: pget.simps\<close>)
qed

lemma latest_item_max:
  "x \<in> set xs \<Longrightarrow> \<exists>y. latest_item xs = Some y \<and> y \<in> set xs \<and> di_sequence x \<le> di_sequence y"
proof (induction xs)
  case (Cons z xs)
  show ?case
  proof (cases "xs = []")
    case False
    then obtain w where "w \<in> set xs" by (cases xs) auto
    then have "latest_item xs \<noteq> None" by (cases xs) (auto split: option.splits)
    then obtain y where y: "latest_item xs = Some y" by blast
    have "y \<in> set xs" using y by (induction xs arbitrary: y) (auto split: option.splits if_splits)
    then show ?thesis using Cons y by (auto split: if_splits)
  qed (use Cons.prems in simp)
qed simp

text \<open>C17: a package reported as matched is in the outbox under a name bundle_<sequence>, belongs to that
  sequence's session, carries the sequence of its name and the display contract, and has a stored receipt that names its manifest's digest twice
  and repeats its sequence; the latest match of the report is itself proven and none is later.\<close>

theorem matched_delivery_is_proven:
  assumes "i \<in> set (dr_items (reconcile_delivery C outbox session))" and "di_state i = Matched"
  shows "proven C outbox i \<and> session_of_sequence (di_sequence i) = Some session
     \<and> (\<exists>l. dr_latest (reconcile_delivery C outbox session) = Some l \<and> proven C outbox l \<and> di_sequence i \<le> di_sequence l)"
proof -
  let ?its = "dr_items (reconcile_delivery C outbox session)"
  have ok: "proven C outbox j \<and> session_of_sequence (di_sequence j) = Some session"
    if "j \<in> set ?its" "di_state j = Matched" for j
  proof -
    from that(1) obtain nt where nt: "nt \<in> set outbox" "is_outbox_bundle (fst nt)" "session_item C outbox session nt = Some j"
      by (auto simp: reconcile_delivery_def Let_def List.map_filter_def)
    then obtain n where n: "session_of_sequence n = Some session" "j = delivery_of C outbox n nt" "name_sequence (fst nt) = Some n"
      by (auto simp: session_item_def split: option.splits if_splits)
    moreover have "di_sequence j = n" unfolding n(2) by (auto simp: delivery_of_def Let_def split: sum.splits option.splits)
    ultimately show ?thesis using matched_item_proven [OF nt(1,2) n(3)] that(2) by simp
  qed
  from latest_item_max [of i "filter (\<lambda>i. di_state i = Matched) ?its"] assms obtain l where
    "latest_item (filter (\<lambda>i. di_state i = Matched) ?its) = Some l" "l \<in> set ?its" "di_state l = Matched" "di_sequence i \<le> di_sequence l"
    by auto
  with ok assms show ?thesis by (auto simp: reconcile_delivery_def Let_def)
qed

section \<open>Outcomes\<close>

text \<open>The loop collects the verified trading days after its start, in order and without a gap.\<close>

definition session_run :: "calendar_service \<Rightarrow> int \<Rightarrow> int \<Rightarrow> int list" where
  "session_run S day e = filter (\<lambda>d. d_trade_day (decision S d)) [day + 1 .. e]"

lemma session_run_step: "day \<le> e \<Longrightarrow> session_run S day (e + 1) = session_run S day e @ (if d_trade_day (decision S (e + 1)) then [e + 1] else [])"
  unfolding session_run_def by (subst upto_rec2) auto

lemma next_sessions_run:
  assumes "next_sessions S n e (session_run S day e) = (out, whole)" "day \<le> e" "\<forall>d. day < d \<and> d \<le> e \<longrightarrow> d_verified (decision S d)"
  shows "\<exists>e'. day \<le> e' \<and> out = session_run S day e' \<and> (\<forall>d. day < d \<and> d \<le> e' \<longrightarrow> d_verified (decision S d))"
  using assms
proof (induction n arbitrary: e)
  case (Suc n)
  show ?case
  proof (cases "d_verified (decision S (e + 1))")
    case False
    with Suc.prems show ?thesis by auto
  next
    case True
    have v: "\<forall>d. day < d \<and> d \<le> e + 1 \<longrightarrow> d_verified (decision S d)"
    proof (intro allI impI)
      fix d assume "day < d \<and> d \<le> e + 1"
      then show "d_verified (decision S d)" using True Suc.prems(3) by (cases "d = e + 1") auto
    qed
    have f: "(if d_trade_day (decision S (e + 1)) then session_run S day e @ [e + 1] else session_run S day e) = session_run S day (e + 1)"
      using session_run_step [OF Suc.prems(2)] by simp
    from Suc.prems(1) True have "(if length (session_run S day (e + 1)) = 5 then (session_run S day (e + 1), True)
        else next_sessions S n (e + 1) (session_run S day (e + 1))) = (out, whole)"
      by (simp add: Let_def f)
    then show ?thesis using Suc.IH [of "e + 1"] v Suc.prems(2) by (auto split: if_splits intro: exI [of _ "e + 1"])
  qed
qed auto

lemma run_nth:
  assumes "k < length (session_run S day e)"
  shows "card {d. day < d \<and> d \<le> session_run S day e ! k \<and> d_trade_day (decision S d)} = Suc k"
    "day < session_run S day e ! k" "session_run S day e ! k \<le> e" "d_trade_day (decision S (session_run S day e ! k))"
proof -
  let ?r = "session_run S day e"
  have strict: "sorted_wrt (<) ?r" unfolding session_run_def by (intro sorted_wrt_filter) simp
  have mem: "set ?r = {d. day < d \<and> d \<le> e \<and> d_trade_day (decision S d)}" by (auto simp: session_run_def)
  have kth: "?r ! k \<in> set ?r" using assms by simp
  with mem show "day < ?r ! k" "?r ! k \<le> e" "d_trade_day (decision S (?r ! k))" by auto
  have "{d. day < d \<and> d \<le> ?r ! k \<and> d_trade_day (decision S d)} = set (take (Suc k) ?r)" (is "?A = ?B")
  proof (intro set_eqI iffI)
    fix d assume "d \<in> ?A"
    with kth mem have "d \<in> set ?r" "d \<le> ?r ! k" by auto
    then obtain j where j: "j < length ?r" "?r ! j = d" by (auto simp: in_set_conv_nth)
    have "j \<le> k"
    proof (rule ccontr)
      assume "\<not> j \<le> k"
      then have "?r ! k < ?r ! j" using strict j(1) by (simp add: sorted_wrt_nth_less)
      with j(2) \<open>d \<le> ?r ! k\<close> show False by simp
    qed
    with j show "d \<in> ?B" by (auto simp: in_set_conv_nth intro!: exI [of _ j])
  next
    fix d assume "d \<in> ?B"
    then obtain j where j: "j \<le> k" "?r ! j = d" by (auto simp: in_set_conv_nth less_Suc_eq_le)
    then have "d \<le> ?r ! k" using strict assms by (cases "j = k") (auto dest: sorted_wrt_nth_less [of _ ?r j k])
    moreover have "d \<in> set ?r" using j assms by auto
    ultimately show "d \<in> ?A" using mem by auto
  qed
  moreover have "distinct ?r" unfolding session_run_def by simp
  ultimately show "card ?A = Suc k" using assms by (simp add: distinct_card)
qed

text \<open>What a matured return rests on: two settled bars of the instrument and evidence that they compare.\<close>

definition settled_evidence :: "recon_db \<Rightarrow> int \<Rightarrow> int \<Rightarrow> pyval \<Rightarrow> int \<Rightarrow> int \<Rightarrow> pyfloat \<Rightarrow> bool" where
  "settled_evidence D as_of inst proof base target ret \<longleftrightarrow>
     (\<exists>b t q. {b, t} \<subseteq> set (rd_bars D) \<and> br_instrument b = inst \<and> br_instrument t = inst
        \<and> br_adjust b = ''qfq'' \<and> br_adjust t = ''qfq'' \<and> br_day b = base \<and> br_day t = target
        \<and> settled_bar as_of b \<and> settled_bar as_of t \<and> price_proof proof [b, t]
        \<and> pf_div (close_of t) (close_of b) = Inr q \<and> ret = pf_round 6 (pf_sub q (Fin 1)))"

lemma bar_of_dayD: "bar_of_day d bars = Some b \<Longrightarrow> b \<in> set bars \<and> br_day b = d"
  unfolding bar_of_day_def by (auto simp: find_Some_iff) (metis in_set_conv_nth length_rev nth_mem set_rev)

lemma price_proof_subset: "price_proof proof bars \<Longrightarrow> set xs \<subseteq> set bars \<Longrightarrow> price_proof proof xs"
  by (cases "pget ''quality_hashes'' proof") (auto simp: price_proof_def list_all_iff simp del: pget.simps)

lemma matured_evidence:
  assumes "matured as_of base proof target (horizon_bars D inst base target) = Inr (Matured day ret)"
  shows "day = target \<and> settled_evidence D as_of inst proof base target ret"
proof -
  let ?bars = "horizon_bars D inst base target"
  from assms obtain b t where b: "bar_of_day base ?bars = Some b" and t: "bar_of_day target ?bars = Some t"
    by (auto simp: matured_def split: option.splits)
  with assms obtain q where *: "list_all (settled_bar as_of) ?bars" "price_proof proof ?bars"
    "pf_div (close_of t) (close_of b) = Inr q" "day = target" "ret = pf_round 6 (pf_sub q (Fin 1))"
    by (auto simp: matured_def split: if_splits)
  have in_bars: "b \<in> set ?bars" "t \<in> set ?bars" "br_day b = base" "br_day t = target"
    using bar_of_dayD [OF b] bar_of_dayD [OF t] by simp_all
  have "price_proof proof [b, t]" by (rule price_proof_subset [OF *(2)]) (use in_bars in simp)
  moreover have "settled_bar as_of b" "settled_bar as_of t" using *(1) in_bars by (simp_all add: list_all_iff)
  ultimately have "settled_evidence D as_of inst proof base target ret" unfolding settled_evidence_def
    by (intro exI [of _ b] exI [of _ t] exI [of _ q]) (use * in_bars in \<open>simp add: horizon_bars_def\<close>)
  with *(4) show ?thesis by simp
qed

text \<open>The day a horizon matures on, and that it has settled by the read.\<close>

definition horizon_day :: "calendar_service \<Rightarrow> int \<Rightarrow> int \<Rightarrow> nat \<Rightarrow> int \<Rightarrow> bool" where
  "horizon_day S as_of base h day \<longleftrightarrow> base < day \<and> d_trade_day (decision S day)
     \<and> (\<forall>d. base \<le> d \<and> d \<le> day \<longrightarrow> d_verified (decision S d))
     \<and> card {d. base < d \<and> d \<le> day \<and> d_trade_day (decision S d)} = h
     \<and> shanghai_instant day settlement_cutoff \<le> as_of"

lemma settled_by:
  assumes "\<not> (local_date u < day \<or> (day = local_date u \<and> local_time u < settlement_cutoff))"
  shows "shanghai_instant day settlement_cutoff \<le> u"
proof -
  have u: "u = local_date u * day_us + local_time u - shanghai_offset" using local_split [of u] by (simp add: shanghai_instant_def)
  have lt: "0 \<le> local_time u" by (rule local_time_range)
  have "settlement_cutoff < day_us" by (simp add: settlement_cutoff_def)
  moreover have "day < local_date u \<or> (day = local_date u \<and> settlement_cutoff \<le> local_time u)" using assms by auto
  ultimately have "day * day_us + settlement_cutoff \<le> local_date u * day_us + local_time u"
    using lt by (elim disjE) linarith+
  with u show ?thesis unfolding shanghai_instant_def by linarith
qed

lemma horizon_matured:
  assumes o: "horizon_outcome_of D u inst proof base (whole \<and> d_verified (decision S base) \<and> b) found h = Inr (Matured day ret)"
    and run: "next_sessions S 40 base [] = (found, whole)" and h: "0 < h"
  shows "horizon_day S u base h day \<and> settled_evidence D u inst proof base day ret"
proof -
  let ?t = "found ! (h - 1)"
  have len: "h - 1 < length found" and v: "d_verified (decision S base)"
    and set_by: "\<not> (local_date u < ?t \<or> (?t = local_date u \<and> local_time u < settlement_cutoff))"
    and m: "matured u base proof ?t (horizon_bars D inst base ?t) = Inr (Matured day ret)"
    using o h by (auto simp: horizon_outcome_of_def Let_def split: if_splits)
  note ev = matured_evidence [OF m]
  have "next_sessions S 40 base (session_run S base base) = (found, whole)" using run by (simp add: session_run_def)
  moreover have "\<forall>d. base < d \<and> d \<le> base \<longrightarrow> d_verified (decision S d)" using leD by blast
  ultimately obtain e where
    e: "found = session_run S base e" "\<forall>d. base < d \<and> d \<le> e \<longrightarrow> d_verified (decision S d)"
    using next_sessions_run [of S 40 base base found whole] by blast
  note r = run_nth [of "h - 1" S base e, folded e(1), OF len]
  have "d_verified (decision S d)" if "base \<le> d" "d \<le> ?t" for d
    using v e(2) r(3) that by (cases "d = base") auto
  with r ev settled_by [OF set_by] h show ?thesis by (simp add: horizon_day_def)
qed

text \<open>C18: a return is reported as matured only on the horizon's own day: exactly that many trading days
  after the base day, with every day in between verified by the exchange calendar and its settlement
  cutoff passed; it is computed from two bars of the instrument on these days, fetched after their own
  settlement, from a real source, with positive prices and evidence that both compare.\<close>

theorem matured_outcomes_are_settled:
  assumes "realised_outcomes D S as_of evidence universe base = Inr rows"
    and "Observation code t1 t5 \<in> set rows" and "(h, Matured day ret) \<in> {(1, t1), (5, t5)}"
  shows "\<exists>u c inst. as_of = Aware u \<and> code = PStr c \<and> map_of (rd_instruments D) c = Some inst
     \<and> horizon_day S u base h day
     \<and> settled_evidence D u inst (por (pget c (PDict evidence)) (PDict [])) base day ret"
proof -
  from assms(1) obtain u where u: "as_of = Aware u" "mapr (code_outcome D S u evidence base) universe = Inr rows"
    by (cases as_of) (auto simp: realised_outcomes_def)
  then have "list_all2 (\<lambda>x y. code_outcome D S u evidence base x = Inr y) universe rows" by (simp add: mapr_Inr_iff)
  from list_all2_right [OF this assms(2)] obtain v where v: "code_outcome D S u evidence base v = Inr (Observation code t1 t5)" by blast
  obtain found whole where run: "next_sessions S 40 base [] = (found, whole)" by fastforce
  from v obtain c where c: "v = PStr c" by (cases v) (auto simp: code_outcome_def)
  let ?p = "por (pget c (PDict evidence)) (PDict [])"
  let ?k = "whole \<and> d_verified (decision S base) \<and> d_trade_day (decision S base)"
  from v c obtain inst where i: "map_of (rd_instruments D) c = Some inst" by (cases "map_of (rd_instruments D) c") (auto simp: code_outcome_def)
  with v have "code = PStr c" "horizon_outcome_of D u inst ?p base ?k found 1 = Inr t1" "horizon_outcome_of D u inst ?p base ?k found 5 = Inr t5"
    by (auto simp: code_outcome_def c i run Let_def simp del: pget.simps)
  with assms(3) horizon_matured [OF _ run] u(1) i show ?thesis by auto
qed

text \<open>The report itself passes no price evidence on, so none of its horizons ever matures.\<close>

lemma no_proof: "\<not> price_proof (por (pget c (PDict [])) (PDict [])) bars"
  by (simp add: price_proof_def por_def)

lemma unproven_never_matures:
  assumes "code_outcome D S u [] base code = Inr (Observation c t1 t5)"
  shows "t1 \<noteq> Matured day ret" "t5 \<noteq> Matured day ret"
proof -
  have none: "matured as_of base (por (pget k (PDict [])) (PDict [])) target bars \<noteq> Inr (Matured day ret)" for k as_of target bars
    using no_proof [of k bars] unfolding matured_def by (auto split: option.splits if_splits)
  from assms obtain inst k found known where
    "horizon_outcome_of D u inst (por (pget k (PDict [])) (PDict [])) base known found 1 = Inr t1"
    "horizon_outcome_of D u inst (por (pget k (PDict [])) (PDict [])) base known found 5 = Inr t5"
    by (auto simp: code_outcome_def Let_def simp del: pget.simps split: pyval.splits option.splits prod.splits)
  with none show "t1 \<noteq> Matured day ret" "t5 \<noteq> Matured day ret"
    unfolding horizon_outcome_of_def Let_def by (metis horizon_outcome.distinct(3,5) sum.inject(2))+
qed

lemma report_never_matures:
  assumes "run_reconcile C S outbox session db bases as_of = Inr R" "(base, s, rows) \<in> set (rp_outcomes R)"
    "Observation code t1 t5 \<in> set rows"
  shows "Matured day ret \<notin> {t1, t5}"
proof -
  from assms(1,2) obtain D universe where rows: "realised_outcomes D S as_of [] universe base = Inr rows"
    by (auto simp: run_reconcile_def Let_def mapr_Inr_iff split: option.splits if_splits dest!: list_all2_right)
  then obtain u where "list_all2 (\<lambda>x y. code_outcome D S u [] base x = Inr y) universe rows"
    by (cases as_of) (auto simp: realised_outcomes_def mapr_Inr_iff)
  from list_all2_right [OF this assms(3)] show ?thesis by (auto dest: unproven_never_matures)
qed

section \<open>Witnesses\<close>

definition report_manifest :: pyval where
  "report_manifest = PDict [(''contract_version'', PStr ''local-display-v2''), (''sequence'', PInt 7), (''universe'', PList [PStr ''510300.SH''])]"

definition sample_recon :: recon_env where
  "sample_recon = \<lparr> rc_env = sample_env,
     rc_unique = (\<lambda>t. if t = ''b'' then Some (PDict [(''manifest'', report_manifest)])
        else Some (PDict [(''bundle_id'', PStr sample_hash), (''manifest_hash'', PStr sample_hash), (''status'', PStr ''accepted''),
               (''sequence'', PInt 7), (''received_at'', PStr ''T1'')])),
     rc_plain = (\<lambda>t. None), rc_sum = (\<lambda>_. Fin 0) \<rparr>"

definition sample_outbox :: "(string \<times> string) list" where
  "sample_outbox = [(''bundle_7.json'', ''b''), (''bundle_7.receipt.json'', ''r'')]"

definition sample_item :: delivery_item where
  "sample_item = hd (dr_items (reconcile_delivery sample_recon sample_outbox 0))"

theorem matched_delivery_is_proven_witness:
  "proven sample_recon sample_outbox sample_item \<and> session_of_sequence (di_sequence sample_item) = Some 0"
proof -
  have "dr_items (reconcile_delivery sample_recon sample_outbox 0) \<noteq> []" "di_state sample_item = Matched" by code_simp+
  then show ?thesis using matched_delivery_is_proven [of sample_item sample_recon sample_outbox 0]
    by (simp add: sample_item_def del: session_of_sequence_def)
qed

definition sample_bar :: "int \<Rightarrow> rat \<Rightarrow> bar_row" where
  "sample_bar day close = \<lparr> br_instrument = 1, br_adjust = ''qfq'', br_day = day, br_close = Some (Fin close), br_source = ''exchange'',
     br_fetched_at = Some (Aware (shanghai_instant day (hhmm 15 30))), br_quality_hash = ''q'' \<rparr>"

definition sample_db :: recon_db where
  "sample_db = \<lparr> rd_instruments = [(''510300.SH'', 1)], rd_bars = [sample_bar 20000 1, sample_bar 20003 2] \<rparr>"

definition sample_evidence :: "(string \<times> pyval) list" where
  "sample_evidence = [(''510300.SH'', PDict [(''adjust'', PStr ''qfq''), (''settlement_status'', PStr ''settled''), (''price_basis_id'', PStr ''p''),
     (''evidence_ref'', PStr ''e''), (''quality_hashes'', PList [PStr ''q''])])]"

theorem matured_outcomes_are_settled_witness:
  "realised_outcomes sample_db sample_calendar (clock_at 16 0) sample_evidence [PStr ''510300.SH''] 20000
     = Inr [Observation (PStr ''510300.SH'') PendingOutcome PendingOutcome]
   \<and> (\<exists>u. horizon_day sample_calendar u 20000 1 20003)"
proof -
  let ?u = "shanghai_instant 20003 (hhmm 16 0)"
  have "realised_outcomes sample_db sample_calendar (clock_at 16 0) sample_evidence [PStr ''510300.SH''] 20000
     = Inr [Observation (PStr ''510300.SH'') PendingOutcome PendingOutcome]" by code_simp
  moreover have run: "realised_outcomes sample_db sample_calendar (Aware ?u) sample_evidence [PStr ''510300.SH''] 20000
     = Inr [Observation (PStr ''510300.SH'') (Matured 20003 (Fin 1)) PendingOutcome]" by code_simp
  obtain v where "Aware ?u = Aware v" "horizon_day sample_calendar v 20000 1 20003"
    using matured_outcomes_are_settled [OF run list.set_intros(1) insertI1] by blast
  then have "horizon_day sample_calendar ?u 20000 1 20003" by blast
  ultimately show ?thesis by blast
qed

end
