(* ===== verification/Local_Stability.thy ===== *)
theory Local_Stability
  imports Job_Ledger Local_Reconcile Shadow_Store
begin

text \<open>
  The acceptance of a day of operation, \<^verbatim>\<open>app/workspace/local_stability.py\<close>: captures of the cloud tables
  and of the running services before and after the session, the delivery of every slot as the ledger
  tells it, the report of a session, its storage, and the summary over sessions.

  Captures, ledgers and reports are JSON values; ASCII digits are the digits, and texts or whole numbers
  are what the code compares for equality between two values it reads. A stored report is the value its
  file decodes to, or None where the file is no JSON; identities in it hold no NaN. \<^verbatim>\<open>date.fromisoformat\<close> is an argument.
\<close>

section \<open>Values\<close>

datatype check_state = CheckPass | CheckFail | CheckUnknown | CheckPartial

definition unhashable :: "pyval \<Rightarrow> bool" where
  "unhashable v \<longleftrightarrow> is_list v \<or> is_dict v"

text \<open>\<^verbatim>\<open>all(...)\<close> and \<^verbatim>\<open>any(...)\<close> of a generator stop at the first answer.\<close>

fun all_res :: "('a \<Rightarrow> bool result) \<Rightarrow> 'a list \<Rightarrow> bool result" where
  "all_res f [] = Inr True"
| "all_res f (x # xs) = bindr (f x) (\<lambda>b. if b then all_res f xs else Inr False)"

fun any_res :: "('a \<Rightarrow> bool result) \<Rightarrow> 'a list \<Rightarrow> bool result" where
  "any_res f [] = Inr False"
| "any_res f (x # xs) = bindr (f x) (\<lambda>b. if b then Inr True else any_res f xs)"

fun filter_res :: "('a \<Rightarrow> bool result) \<Rightarrow> 'a list \<Rightarrow> 'a list result" where
  "filter_res f [] = Inr []"
| "filter_res f (x # xs) = bindr (f x) (\<lambda>b. bindr (filter_res f xs) (\<lambda>ys. Inr (if b then x # ys else ys)))"

definition sha256_value :: "pyval \<Rightarrow> bool" where
  "sha256_value v = (case v of PStr s \<Rightarrow> hex_string 64 s | _ \<Rightarrow> False)"

definition replace_z :: "string \<Rightarrow> string" where
  "replace_z s = concat (map (\<lambda>c. if c = CHR ''Z'' then ''+00:00'' else [c]) s)"

definition stability_time :: "py_env \<Rightarrow> pyval \<Rightarrow> int result" where
  "stability_time E v = (case v of
       PStr s \<Rightarrow> (case fromisoformat E (replace_z s) of
           None \<Rightarrow> Inl (ValueError ''invalid_timestamp'')
         | Some (Naive _) \<Rightarrow> Inl (ValueError ''timestamp requires timezone'')
         | Some (Aware u) \<Rightarrow> Inr u)
     | _ \<Rightarrow> Inl (ValueError ''missing timestamp''))"

text \<open>\<^verbatim>\<open>a < b\<close> of two numbers; an int and a float compare exactly.\<close>

fun num_val :: "pyval \<Rightarrow> pyfloat option" where
  "num_val (PInt n) = Some (Fin (of_int n))"
| "num_val (PBool b) = Some (Fin (if b then 1 else 0))"
| "num_val (PFloat f) = Some f"
| "num_val _ = None"

definition num_less :: "pyval \<Rightarrow> pyval \<Rightarrow> bool result" where
  "num_less a b = (case (num_val a, num_val b) of (Some x, Some y) \<Rightarrow> Inr (pf_less x y)
     | _ \<Rightarrow> Inl (TypeError ''not supported between instances''))"

section \<open>Cloud tables\<close>

definition research_tables :: "string list" where
  "research_tables = [''daily_bars'', ''quote_snapshots'', ''indicator_snapshots'', ''forecast_snapshots'', ''sector_snapshots'',
     ''support_resistance_snapshots'', ''market_context_snapshots'', ''market_bars'', ''decision_board_snapshots'',
     ''signal_snapshots'', ''chan_research_observations'', ''chan_structure_revisions'', ''chan_observed_transitions'',
     ''chan_research_stream_heads'']"

definition soak_metrics :: "string list" where
  "soak_metrics = [''exact_count'', ''n_tup_ins'', ''n_tup_upd'', ''n_tup_del'', ''heap_bytes'', ''total_bytes'']"

text \<open>\<^verbatim>\<open>str(oid)\<close> when it is all digits.\<close>

definition oid_text :: "pyval \<Rightarrow> string option" where
  "oid_text v = (case v of PInt n \<Rightarrow> if 0 \<le> n then Some (show_int n) else None
     | PStr s \<Rightarrow> if all_digits s then Some s else None | _ \<Rightarrow> None)"

definition capture_identity :: "py_env \<Rightarrow> pyval \<Rightarrow> unit result" where
  "capture_identity E v =
     bindr (stability_time E (pget ''captured_at'' v)) (\<lambda>_.
     bindr (stability_time E (pget ''server_start'' v)) (\<lambda>_.
     raise_if (\<not> phas ''stats_reset'' v) (ValueError ''stats_reset_identity_missing'')
     (bindr (if pget ''stats_reset'' v = PNone then Inr 0 else stability_time E (pget ''stats_reset'' v)) (\<lambda>_.
      raise_if (case oid_text (pget ''database_oid'' v) of None \<Rightarrow> True | Some s \<Rightarrow> digits_val s \<le> 0)
        (ValueError ''database_identity_missing'')
      (raise_if (case pget ''schema_heads'' v of PList hs \<Rightarrow> hs = [] \<or> \<not> list_all (\<lambda>h. is_str h \<and> truthy h) hs | _ \<Rightarrow> True)
        (ValueError ''schema_identity_missing'') (Inr ()))))))"

definition metrics_ok :: "pyval \<Rightarrow> bool" where
  "metrics_ok row \<longleftrightarrow> list_all (\<lambda>k. case pget k row of PInt n \<Rightarrow> 0 \<le> n | _ \<Rightarrow> False) soak_metrics"

definition cloud_tables :: "py_env \<Rightarrow> pyval \<Rightarrow> pyval list result" where
  "cloud_tables E v =
     raise_if (\<not> is_dict v) (AttributeError ''get'')
     (raise_if (pget ''transaction_read_only'' v \<noteq> PStr ''on'' \<or> pget ''transaction_isolation'' v \<noteq> PStr ''repeatable read'')
       (ValueError ''read_only_repeatable_read_required'')
     (bindr (capture_identity E v) (\<lambda>_. case pget ''tables'' v of
          PList ts \<Rightarrow>
            (let names = map (pget ''table_name'') (filter is_dict ts)
             in raise_if (length ts \<noteq> length research_tables) (ValueError ''exact_14_tables_required'')
                (raise_if (length names \<noteq> length ts) (ValueError ''missing_or_duplicate_table'')
                (raise_if (list_ex unhashable names) (TypeError ''unhashable type'')
                (raise_if (set names \<noteq> PStr ` set research_tables) (ValueError ''missing_or_duplicate_table'')
                (raise_if (\<not> list_all metrics_ok ts) (ValueError ''metric_missing_or_invalid'') (Inr ts))))))
        | _ \<Rightarrow> Inl (ValueError ''exact_14_tables_required''))))"

definition metric_of :: "pyval list \<Rightarrow> string \<Rightarrow> string \<Rightarrow> int" where
  "metric_of ts table metric = (case List.find (\<lambda>r. pget ''table_name'' r = PStr table) ts of
       None \<Rightarrow> 0 | Some r \<Rightarrow> as_int (pget metric r))"

type_synonym metric_deltas = "(string \<times> (string \<times> int) list) list"

definition deltas_of :: "pyval list \<Rightarrow> pyval list \<Rightarrow> metric_deltas" where
  "deltas_of left right =
     map (\<lambda>t. (t, map (\<lambda>m. (m, metric_of right t m - metric_of left t m)) soak_metrics)) research_tables"

datatype cloud_check =
    CloudUnknown py_error
  | CloudDecreased metric_deltas
  | CloudCompared check_state metric_deltas pyval pyval

definition same_database :: "pyval \<Rightarrow> pyval \<Rightarrow> bool" where
  "same_database before after \<longleftrightarrow> oid_text (pget ''database_oid'' before) = oid_text (pget ''database_oid'' after)
     \<and> list_all (\<lambda>k. pget k before = pget k after) [''server_start'', ''stats_reset'', ''schema_heads'']"

definition cloud_pair :: "py_env \<Rightarrow> pyval \<Rightarrow> pyval \<Rightarrow> (pyval list \<times> pyval list) result" where
  "cloud_pair E before after =
     bindr (cloud_tables E before) (\<lambda>left. bindr (cloud_tables E after) (\<lambda>right.
     bindr (stability_time E (pget ''captured_at'' after)) (\<lambda>ta. bindr (stability_time E (pget ''captured_at'' before)) (\<lambda>tb.
     raise_if (ta \<le> tb) (ValueError ''non_monotonic_capture_time'')
     (raise_if (\<not> same_database before after) (ValueError ''database_or_stats_identity_changed'') (Inr (left, right)))))))"

definition compare_cloud_captures :: "py_env \<Rightarrow> pyval \<Rightarrow> pyval \<Rightarrow> cloud_check" where
  "compare_cloud_captures E before after = (case cloud_pair E before after of
       Inl e \<Rightarrow> CloudUnknown e
     | Inr (left, right) \<Rightarrow>
        (let deltas = deltas_of left right
         in if list_ex (\<lambda>(_, ms). list_ex (\<lambda>(m, n). m \<in> {''n_tup_ins'', ''n_tup_upd'', ''n_tup_del''} \<and> n < 0) ms) deltas
            then CloudDecreased deltas
            else CloudCompared (if list_ex (\<lambda>(_, ms). list_ex (\<lambda>(_, n). n \<noteq> 0) ms) deltas then CheckFail else CheckPass)
                   deltas (pget ''captured_at'' before) (pget ''captured_at'' after)))"

fun cloud_state :: "cloud_check \<Rightarrow> check_state" where
  "cloud_state (CloudCompared s _ _ _) = s"
| "cloud_state _ = CheckUnknown"

section \<open>Running services\<close>

datatype runtime_check = RuntimePass | RuntimeFail string | RuntimeUnknown py_error

definition runtime_roles :: "string list" where
  "runtime_roles = [''api'', ''worker'', ''scheduler'']"

definition service_keys :: "string list" where
  "service_keys = [''image_id'', ''state'', ''health'', ''restart_count'', ''oom_killed'', ''started_at'', ''scheduler_enabled'',
     ''workspace_research_source'']"

definition service_healthy :: "string \<Rightarrow> pyval \<Rightarrow> pyval \<Rightarrow> bool" where
  "service_healthy img role s \<longleftrightarrow> pget ''image_id'' s = PStr img \<and> pget ''state'' s = PStr ''running''
     \<and> pget ''health'' s = PStr (if role = PStr ''scheduler'' then ''disabled'' else ''healthy'')
     \<and> pget ''restart_count'' s = PInt 0 \<and> pget ''oom_killed'' s = PBool False \<and> pget ''scheduler_enabled'' s = PBool False
     \<and> pget ''workspace_research_source'' s = PStr ''local_bundle''"

text \<open>None when the service passes, else the reason of the early return.\<close>

definition service_verdict :: "py_env \<Rightarrow> string \<Rightarrow> pyval \<times> pyval \<Rightarrow> string option result" where
  "service_verdict E img rs =
     raise_if (\<not> list_all (\<lambda>k. phas k (snd rs)) service_keys) (ValueError ''runtime_metric_missing'')
     (bindr (stability_time E (pget ''started_at'' (snd rs))) (\<lambda>_.
      Inr (if service_healthy img (fst rs) (snd rs) then None else Some ''unhealthy_or_changed_runtime'')))"

fun services_verdict :: "py_env \<Rightarrow> string \<Rightarrow> (pyval \<times> pyval) list \<Rightarrow> string option result" where
  "services_verdict E img [] = Inr None"
| "services_verdict E img (rs # rest) =
     bindr (service_verdict E img rs) (\<lambda>v. if v = None then services_verdict E img rest else Inr v)"

definition add_role :: "pyval \<Rightarrow> (pyval \<times> pyval) list \<Rightarrow> (pyval \<times> pyval) list result" where
  "add_role service d = bindr (pindex service ''role'') (\<lambda>role.
     raise_if (unhashable role) (TypeError ''unhashable type'') (Inr (dict_set role service d)))"

definition roles_of :: "pyval \<Rightarrow> (pyval \<times> pyval) list result" where
  "roles_of capture = bindr (getd ''services'' PNone capture) (\<lambda>s. case s of
       PList xs \<Rightarrow> raise_if (length xs \<noteq> 3) (ValueError ''three_runtime_roles_required'')
         (bindr (foldr_result add_role xs []) (\<lambda>d.
          raise_if (set (map fst d) \<noteq> PStr ` set runtime_roles) (ValueError ''missing_runtime_role'') (Inr d)))
     | _ \<Rightarrow> Inl (ValueError ''three_runtime_roles_required''))"

definition capture_verdict :: "py_env \<Rightarrow> string \<Rightarrow> string \<Rightarrow> pyval \<Rightarrow> (string + (pyval \<times> pyval) list) result" where
  "capture_verdict E source_sha img capture = bindr (roles_of capture) (\<lambda>roles.
     if pget ''source_sha'' capture \<noteq> PStr source_sha then Inr (Inl ''runtime_source_mismatch'')
     else bindr (services_verdict E img roles) (\<lambda>v. Inr (case v of None \<Rightarrow> Inr roles | Some r \<Rightarrow> Inl r)))"

definition started_at_of :: "(pyval \<times> pyval) list \<Rightarrow> pyval \<Rightarrow> pyval" where
  "started_at_of roles role = (case map_of roles role of None \<Rightarrow> PNone | Some s \<Rightarrow> pget ''started_at'' s)"

definition runtime_pair :: "py_env \<Rightarrow> pyval \<Rightarrow> pyval \<Rightarrow> string \<Rightarrow> string \<Rightarrow> string option result" where
  "runtime_pair E before after source_sha img =
     bindr (pindex after ''captured_at'') (\<lambda>a. bindr (stability_time E a) (\<lambda>ta.
     bindr (pindex before ''captured_at'') (\<lambda>b. bindr (stability_time E b) (\<lambda>tb.
     raise_if (ta \<le> tb) (ValueError ''non_monotonic_runtime_capture'')
     (bindr (capture_verdict E source_sha img before) (\<lambda>v. case v of Inl r \<Rightarrow> Inr (Some r)
        | Inr left \<Rightarrow> bindr (capture_verdict E source_sha img after) (\<lambda>w. case w of Inl r \<Rightarrow> Inr (Some r)
            | Inr right \<Rightarrow> raise_if (list_ex (\<lambda>(role, s). pget ''started_at'' s \<noteq> started_at_of right role) left)
                (ValueError ''runtime_restart_boundary'') (Inr None))))))))"

definition runtime_check_of :: "py_env \<Rightarrow> pyval \<Rightarrow> pyval \<Rightarrow> string \<Rightarrow> string \<Rightarrow> runtime_check" where
  "runtime_check_of E before after source_sha img = (case runtime_pair E before after source_sha img of
       Inl e \<Rightarrow> RuntimeUnknown e | Inr None \<Rightarrow> RuntimePass | Inr (Some r) \<Rightarrow> RuntimeFail r)"

fun runtime_state :: "runtime_check \<Rightarrow> check_state" where
  "runtime_state RuntimePass = CheckPass"
| "runtime_state (RuntimeFail _) = CheckFail"
| "runtime_state (RuntimeUnknown _) = CheckUnknown"

section \<open>The jobs of a delivered attempt\<close>

definition soak_slots :: "string list" where
  "soak_slots = [''11:40'', ''13:55'', ''14:20'', ''14:30'', ''14:45'', ''14:50'', ''14:55'', ''15:00'', ''15:15'', ''16:10'', ''16:40'', ''17:40'']"

definition full_slots :: "string list" where
  "full_slots = [''13:55'', ''15:15'', ''16:10'', ''16:40'', ''17:40'']"

definition default_deadlines :: "(string \<times> int) list" where
  "default_deadlines = map (\<lambda>s. (s, if s = ''11:40'' \<or> s \<in> set full_slots then 600 else 120)) soak_slots"

definition fast_stages :: "string list" where
  "fast_stages = [''refresh_quotes'', ''refresh_signals'', ''refresh_decision_board'']"

definition full_stages :: "string list" where
  "full_stages = fast_stages @ [''refresh_bars'', ''refresh_indicators'', ''refresh_forecasts'']"

definition optional_stages :: "string list" where
  "optional_stages = [''refresh_market_context'', ''refresh_sector_snapshots'']"

definition lineage_hash_fields :: "string list" where
  "lineage_hash_fields = [''execution_hash'', ''config_file_hash'', ''base_input_hash'', ''quote_batch_hash'']"

definition identity_fields :: "string list" where
  "identity_fields = [''execution_hash'', ''config_file_hash'']"

datatype execution = ExecPass string "string list" | ExecFail string | ExecUnknown string

definition job_name :: "pyval \<Rightarrow> string" where
  "job_name j = as_text (pget ''job_name'' j)"

definition named_jobs :: "string \<Rightarrow> pyval list \<Rightarrow> pyval list" where
  "named_jobs n js = filter (\<lambda>j. pget ''job_name'' j = PStr n) js"

text \<open>\<^verbatim>\<open>upload(?:_[1-9][0-9]*)?\<close>\<close>

definition is_upload :: "string \<Rightarrow> bool" where
  "is_upload s \<longleftrightarrow> s = ''upload'' \<or> (starts_with ''upload_'' s
     \<and> (case drop 7 s of [] \<Rightarrow> False | c # cs \<Rightarrow> is_digit c \<and> c \<noteq> CHR ''0'' \<and> list_all is_digit cs))"

definition is_run_id :: "pyval \<Rightarrow> bool" where
  "is_run_id v = (case v of PStr s \<Rightarrow> s \<noteq> [] \<and> length s \<le> 100
       \<and> list_all (\<lambda>c. is_lower c \<or> is_upper c \<or> is_digit c \<or> c \<in> {CHR ''_'', CHR ''-''}) s | _ \<Rightarrow> False)"

text \<open>The lineage of the manifest against the recorded context; None goes on.\<close>

definition lineage_check :: "string \<Rightarrow> pyval \<Rightarrow> pyval \<Rightarrow> execution option result" where
  "lineage_check slot details lineage =
     (if \<not> same_keys (lineage_hash_fields @ [''mode'', ''contract_version'']) lineage
         \<or> pget ''contract_version'' lineage \<noteq> PStr ''local-execution-lineage-v1''
         \<or> \<not> list_all (\<lambda>k. sha256_value (pget k lineage)) lineage_hash_fields
      then Inr (Some (ExecUnknown ''execution_lineage_incomplete''))
      else let mode = pget ''mode'' lineage
      in raise_if (unhashable mode) (TypeError ''unhashable type'')
         (if mode \<notin> {PStr ''full'', PStr ''fast''} \<or> pget ''execution_mode'' details \<noteq> mode
             \<or> \<not> list_all (\<lambda>k. pget k details = pget k lineage) lineage_hash_fields
             \<or> (slot \<in> set full_slots \<and> mode \<noteq> PStr ''full'')
          then Inr (Some (ExecFail ''execution_mode_or_hash_mismatch'')) else Inr None))"

definition succeeded_optional :: "pyval \<Rightarrow> bool" where
  "succeeded_optional j \<longleftrightarrow> pget ''required'' j = PBool False \<and> pget ''status'' j = PStr ''succeeded''"

definition identity_check :: "pyval \<Rightarrow> pyval list \<Rightarrow> execution option" where
  "identity_check lineage js = (case named_jobs ''execution_identity'' js of
       [i] \<Rightarrow>
         (let d = pget ''details'' i
          in if \<not> succeeded_optional i \<or> \<not> is_dict d \<or> \<not> same_keys identity_fields d
                \<or> \<not> list_all (\<lambda>k. sha256_value (pget k d)) identity_fields
             then Some (ExecUnknown ''execution_identity_unverified'')
             else if \<not> list_all (\<lambda>k. pget k d = pget k lineage) identity_fields then Some (ExecFail ''execution_identity_hash_mismatch'')
             else None)
     | _ \<Rightarrow> Some (ExecUnknown ''execution_identity_missing''))"

definition expected_stages :: "string \<Rightarrow> string list" where
  "expected_stages mode = (if mode = ''full'' then full_stages else fast_stages)"

definition allowed_jobs :: "string \<Rightarrow> string list" where
  "allowed_jobs mode = expected_stages mode @ [''execution_contract'', ''execution_identity''] @ (if mode = ''full'' then optional_stages else [])"

definition stages_check :: "string \<Rightarrow> pyval list \<Rightarrow> execution" where
  "stages_check mode js =
     (let stages = filter (\<lambda>j. job_name j \<in> set full_stages) js; names = map job_name stages;
          ids = map (pget ''run_id'') stages
      in if set names \<noteq> set (expected_stages mode) \<or> length names \<noteq> length (expected_stages mode)
            \<or> \<not> list_all (\<lambda>j. pget ''required'' j = PBool True) stages
         then ExecFail ''required_stage_set_missing_or_duplicate''
         else if list_ex (\<lambda>j. job_name j \<notin> set (allowed_jobs mode) \<and> \<not> is_upload (job_name j)) js
         then ExecFail ''unexpected_execution_stage''
         else if list_ex (\<lambda>j. job_name j \<in> set optional_stages \<and> pget ''required'' j \<noteq> PBool False) js
         then ExecFail ''optional_stage_marked_required''
         else if \<not> list_all is_run_id ids then ExecUnknown ''stage_task_run_identity_missing''
         else if \<not> distinct ids then ExecFail ''stage_task_run_identity_reused''
         else if \<not> list_ex (\<lambda>j. is_upload (job_name j) \<and> pget ''status'' j = PStr ''succeeded'') js
         then ExecUnknown ''successful_upload_job_missing''
         else if list_ex (\<lambda>j. pget ''status'' j = PStr ''running'') js then ExecUnknown ''unfinished_job_after_delivery''
         else ExecPass mode (map as_text ids))"

text \<open>The rows are dicts here: the caller has read a key of each of them.\<close>

definition execution_contract :: "string \<Rightarrow> pyval \<Rightarrow> pyval list \<Rightarrow> execution result" where
  "execution_contract slot attempt js =
     (let names = map (pget ''job_name'') js; manifest = pget ''manifest'' attempt
      in if \<not> list_all is_str names \<or> \<not> distinct names then Inr (ExecFail ''duplicate_or_invalid_job_name'')
         else case named_jobs ''execution_contract'' js of
           [context_job] \<Rightarrow>
             if \<not> is_dict manifest then Inr (ExecUnknown ''execution_context_or_manifest_missing'')
             else let details = pget ''details'' context_job; lineage = pget ''execution_lineage'' manifest
             in if \<not> succeeded_optional context_job \<or> \<not> is_dict details \<or> \<not> is_dict lineage
                then Inr (ExecUnknown ''execution_context_unverified'')
                else bindr (lineage_check slot details lineage) (\<lambda>r. case r of Some x \<Rightarrow> Inr x
                     | None \<Rightarrow> Inr (case identity_check lineage js of Some x \<Rightarrow> x
                         | None \<Rightarrow> stages_check (as_text (pget ''mode'' lineage)) js))
         | _ \<Rightarrow> Inr (ExecUnknown ''execution_context_or_manifest_missing''))"

section \<open>Delivery of the slots\<close>

datatype slot_state = SlotPass | SlotFail | SlotUnknown | SlotMissing | SlotPending

record slot_evidence =
  se_latency :: int
  se_deadline :: int
  se_receipt :: bool
  se_identity :: bool
  se_monotonic :: bool
  se_window :: bool
  se_raw_coverage :: bool
  se_coverage :: bool
  se_closed :: int
  se_daily :: int
  se_bundle :: pyval
  se_failed :: int
  se_phases :: "pyval list"

text \<open>The label of the input follows from the two counts.\<close>

definition input_qualification :: "slot_evidence \<Rightarrow> string" where
  "input_qualification v = (if 0 < se_daily v then ''settled_daily_research''
     else if 0 < se_closed v then ''closed_non_realtime_research'' else ''source_quality_not_promoted'')"

record slot_result =
  sr_slot :: string
  sr_state :: slot_state
  sr_attempts :: int
  sr_ledger_state :: "pyval option"
  sr_execution :: "execution option"
  sr_evidence :: "slot_evidence option"

text \<open>What the loop carries over: the run ids and packages seen, and the last sequence.\<close>

record progress =
  pg_runs :: "string list"
  pg_bundles :: "pyval list"
  pg_sequence :: pyval

record expected =
  ex_session :: int
  ex_source_sha :: string
  ex_config_hash :: string
  ex_scope_hash :: string
  ex_deadlines :: "(string \<times> int) list"

text \<open>\<^verbatim>\<open>[x for x in rows if x.get(key) == v]\<close>.\<close>

definition rows_where :: "string \<Rightarrow> pyval \<Rightarrow> pyval \<Rightarrow> pyval list result" where
  "rows_where key v rows = bindr (py_iter rows) (\<lambda>xs.
     raise_if (\<not> list_all is_dict xs) (AttributeError ''get'') (Inr (filter (\<lambda>x. pget key x = v) xs)))"

definition finish_key :: "pyval \<Rightarrow> pyval" where
  "finish_key x = por (pget ''finished_at'' x) (PStr '''')"

definition key_less :: "pyval \<Rightarrow> pyval \<Rightarrow> bool result" where
  "key_less a b = (case (a, b) of (PStr s, PStr t) \<Rightarrow> Inr (s < t) | _ \<Rightarrow> num_less a b)"

text \<open>\<^verbatim>\<open>min(rows, key=...)\<close>: the first of the least; two lists as keys do not occur.\<close>

fun first_finished :: "pyval \<Rightarrow> pyval list \<Rightarrow> pyval result" where
  "first_finished best [] = Inr best"
| "first_finished best (x # xs) =
     bindr (key_less (finish_key x) (finish_key best)) (\<lambda>b. first_finished (if b then x else best) xs)"

definition slot_times :: "py_env \<Rightarrow> expected \<Rightarrow> string \<Rightarrow> pyval \<Rightarrow> pyval \<Rightarrow> (int \<times> int \<times> int) result" where
  "slot_times E X slot candidate rcpt =
     bindr (getd ''received_at'' PNone rcpt) (\<lambda>r. bindr (stability_time E r) (\<lambda>accepted.
     bindr (stability_time E (pget ''finished_at'' candidate)) (\<lambda>finished. bindr (parse_time slot) (\<lambda>t.
     Inr (accepted, finished, shanghai_instant (ex_session X) t)))))"

definition receipt_matches :: "py_env \<Rightarrow> pyval \<Rightarrow> pyval \<Rightarrow> bool result" where
  "receipt_matches E candidate rcpt =
     (let status = pget ''status'' rcpt; manifest = pget ''manifest'' candidate; bundle_id = pget ''bundle_id'' candidate
      in raise_if (unhashable status) (TypeError ''unhashable type'')
         (if status \<notin> {PStr ''accepted'', PStr ''already_accepted''} \<or> \<not> sha256_value bundle_id then Inr False
          else bindr (digest E manifest) (\<lambda>d. Inr (PStr d = bundle_id \<and> pget ''bundle_id'' rcpt = bundle_id
            \<and> pget ''manifest_hash'' rcpt = bundle_id
            \<and> (case pget ''sequence'' candidate of
                 PInt n \<Rightarrow> 0 < n \<and> pget ''sequence'' rcpt = PInt n \<and> pget ''sequence'' manifest = PInt n
               | _ \<Rightarrow> False)))))"

definition identity_matches :: "py_env \<Rightarrow> expected \<Rightarrow> pyval \<Rightarrow> bool result" where
  "identity_matches E X candidate =
     (let manifest = pget ''manifest'' candidate
      in if pget ''code_sha'' candidate = PStr (ex_source_sha X) \<and> pget ''config_hash'' candidate = PStr (ex_config_hash X)
            \<and> pget ''scope_hash'' candidate = PStr (ex_scope_hash X) \<and> pget ''contract_version'' manifest = PStr ''local-display-v2''
            \<and> pget ''code_sha'' manifest = PStr (ex_source_sha X) \<and> pget ''config_hash'' manifest = PStr (ex_config_hash X)
         then (case pget ''universe'' manifest of
             PList codes \<Rightarrow> if codes \<noteq> [] \<and> list_all is_str codes \<and> distinct codes
               then bindr (digest E (PList (map PStr (sort (map as_text codes))))) (\<lambda>d. Inr (d = ex_scope_hash X))
               else Inr False
           | _ \<Rightarrow> Inr False)
         else Inr False)"

definition follows_last :: "progress \<Rightarrow> pyval \<Rightarrow> string list \<Rightarrow> bool result" where
  "follows_last P candidate runs =
     bindr (pindex candidate ''sequence'') (\<lambda>s. bindr (num_less (pg_sequence P) s) (\<lambda>later.
     if \<not> later then Inr False
     else bindr (pindex candidate ''bundle_id'') (\<lambda>i. raise_if (unhashable i) (TypeError ''unhashable type'')
       (Inr (i \<notin> set (pg_bundles P) \<and> set runs \<inter> set (pg_runs P) = {})))))"

definition remember :: "progress \<Rightarrow> pyval \<Rightarrow> string list \<Rightarrow> progress \<times> unit result" where
  "remember P candidate runs =
     (let P1 = P\<lparr> pg_sequence := pget ''sequence'' candidate \<rparr>
      in case bindr (pindex candidate ''bundle_id'') (\<lambda>i. raise_if (unhashable i) (TypeError ''unhashable type'') (Inr i)) of
           Inl e \<Rightarrow> (P1, Inl e)
         | Inr i \<Rightarrow> (P1\<lparr> pg_bundles := i # pg_bundles P, pg_runs := runs @ pg_runs P \<rparr>, Inr ()))"

text \<open>Whether the input was made in the slot and accepted before it expired.\<close>

definition window_valid :: "py_env \<Rightarrow> pyval \<Rightarrow> int \<Rightarrow> int \<Rightarrow> int \<Rightarrow> bool result" where
  "window_valid E manifest accepted finished planned =
     bindr (stability_time E (pget ''generated_at'' manifest)) (\<lambda>g.
     if planned \<le> g \<and> g \<le> finished
     then bindr (stability_time E (pget ''expires_at'' manifest)) (\<lambda>x. Inr (accepted < x)) else Inr False)"

section \<open>Coverage of the required jobs\<close>

definition late_slots :: "string list" where
  "late_slots = [''16:10'', ''16:40'', ''17:40'']"

definition status_lower :: "pyval \<Rightarrow> string" where
  "status_lower j = (case pget ''status'' j of PStr s \<Rightarrow> lower s | _ \<Rightarrow> [])"

definition job_details :: "pyval \<Rightarrow> pyval" where
  "job_details j = pget_default ''details'' (PDict []) j"

definition coverage_of :: "pyval \<Rightarrow> pyval result" where
  "coverage_of j = getd ''coverage_complete'' PNone (job_details j)"

definition late_quotes :: "string \<Rightarrow> pyval \<Rightarrow> bool" where
  "late_quotes slot j \<longleftrightarrow> pget ''job_name'' j = PStr ''refresh_quotes'' \<and> slot \<in> set late_slots \<and> status_lower j = ''partial''"

definition closed_research :: "string \<Rightarrow> pyval \<Rightarrow> bool result" where
  "closed_research slot j = (if late_quotes slot j
     then bindr (coverage_of j) (\<lambda>c. Inr (c = PBool False \<and> pget ''accepted_closed_session'' (job_details j) = PBool True))
     else Inr False)"

definition observed_daily :: "expected \<Rightarrow> pyval \<Rightarrow> pyval \<Rightarrow> pyval \<Rightarrow> bool" where
  "observed_daily X manifest details observed \<longleftrightarrow>
     pget ''contract_version'' observed = PStr ''settled-daily-research-input-v1''
     \<and> pget ''basis'' observed = PStr ''settled_daily_bars'' \<and> pget ''is_realtime'' observed = PBool False
     \<and> pget ''scope_hash'' observed = PStr (ex_scope_hash X) \<and> pget ''source_session'' observed = PStr (iso_day (ex_session X))
     \<and> pget ''daily_input_hash'' observed = pget ''settled_daily_input_hash'' details
     \<and> pget ''quote_batch_hash'' observed = pget ''settled_daily_quote_hash'' details
     \<and> pget ''quote_batch_hash'' observed = pget ''quote_batch_hash'' (pget ''execution_lineage'' manifest)"

definition settled_daily_research :: "expected \<Rightarrow> string \<Rightarrow> pyval \<Rightarrow> pyval \<Rightarrow> bool result" where
  "settled_daily_research X slot manifest j = (if late_quotes slot j
     then bindr (coverage_of j) (\<lambda>c.
       let details = job_details j
       in if c = PBool False \<and> pget ''accepted_settled_daily'' details = PBool True
             \<and> pget ''accepted_closed_session'' details = PBool False \<and> pget ''input_basis'' details = PStr ''settled_daily_bars''
          then let observed = por (pget ''input_observation'' manifest) (PDict [])
               in raise_if (\<not> is_dict observed) (AttributeError ''get'') (Inr (observed_daily X manifest details observed))
          else Inr False)
     else Inr False)"

definition job_covered :: "expected \<Rightarrow> string \<Rightarrow> pyval \<Rightarrow> pyval \<Rightarrow> bool result" where
  "job_covered X slot manifest j = bindr (coverage_of j) (\<lambda>c.
     if c = PBool True \<and> status_lower j = ''succeeded'' then Inr True
     else bindr (closed_research slot j) (\<lambda>b. if b then Inr True else settled_daily_research X slot manifest j))"

definition required_jobs :: "pyval list \<Rightarrow> pyval list" where
  "required_jobs js = filter (\<lambda>j. pget ''required'' j = PBool True
     \<and> \<not> (job_name j = ''upload'' \<or> starts_with ''upload_'' (job_name j))) js"

text \<open>Timings of the diagnostics, for the reader of the report only.\<close>

definition phase_row :: "pyval \<Rightarrow> pyval list result" where
  "phase_row x =
     (let details = pget ''details'' x; phase = pget ''phase'' x; status = pget ''status'' x;
          d = pget ''duration_seconds'' details; n = pget ''observations'' details
      in raise_if (unhashable phase) (TypeError ''unhashable type'')
         (if phase \<notin> PStr ` set diagnostic_phases then Inr []
          else raise_if (unhashable status) (TypeError ''unhashable type'')
            (if status \<notin> {PStr ''succeeded'', PStr ''failed''} \<or> \<not> is_dict details then Inr []
             else bindr (case d of PInt i \<Rightarrow> float_of_int i | PFloat f \<Rightarrow> Inr f | _ \<Rightarrow> Inr NaN) (\<lambda>f.
               if \<not> pf_isfinite f \<or> pf_less f (Fin 0) \<or> \<not> (case n of PInt k \<Rightarrow> 1 \<le> k | _ \<Rightarrow> False) then Inr []
               else Inr [PDict [(''phase'', phase), (''status'', status), (''duration_seconds'', PFloat (pf_round 3 f)),
                      (''observations'', n), (''error_type'', pget ''error_type'' details), (''reason'', pget ''reason'' details)]]))))"

definition phases_of :: "pyval list \<Rightarrow> pyval list result" where
  "phases_of xs = bindr (mapr phase_row xs) (\<lambda>rs. Inr (sort_key (\<lambda>r. as_text (pget ''phase'' r)) (concat rs)))"

section \<open>One slot, and all of them\<close>

definition evidence_of ::
  "py_env \<Rightarrow> expected \<Rightarrow> string \<Rightarrow> pyval \<Rightarrow> pyval list \<Rightarrow> pyval list \<Rightarrow> int \<times> int \<times> int \<Rightarrow> bool \<Rightarrow> bool \<Rightarrow> bool \<Rightarrow> slot_evidence result" where
  "evidence_of E X slot candidate js diags tms receipt_ok identity_ok monotonic =
     (case tms of (accepted, finished, planned) \<Rightarrow>
      let manifest = pget ''manifest'' candidate; required = required_jobs js
      in bindr (window_valid E manifest accepted finished planned) (\<lambda>window.
         bindr (filter_res (settled_daily_research X slot manifest) required) (\<lambda>daily.
         bindr (filter_res (closed_research slot) required) (\<lambda>closed.
         bindr (if required = [] then Inr False else all_res (\<lambda>j. bindr (coverage_of j) (\<lambda>c. Inr (c = PBool True))) required) (\<lambda>raw.
         bindr (if required = [] then Inr False else all_res (job_covered X slot manifest) required) (\<lambda>coverage.
         case map_of (ex_deadlines X) slot of None \<Rightarrow> Inl (KeyError slot)
         | Some deadline \<Rightarrow> bindr (phases_of diags) (\<lambda>phases.
             Inr \<lparr> se_latency = max accepted finished - planned, se_deadline = deadline, se_receipt = receipt_ok,
                   se_identity = identity_ok, se_monotonic = monotonic, se_window = window, se_raw_coverage = raw,
                   se_coverage = coverage, se_closed = int (length closed), se_daily = int (length daily),
                   se_bundle = pget ''bundle_id'' candidate,
                   se_failed = int (length (filter (\<lambda>j. status_lower j \<in> {''failed'', ''interrupted''}) js)),
                   se_phases = phases \<rparr>)))))))"

definition evidence_holds :: "slot_evidence \<Rightarrow> bool" where
  "evidence_holds v \<longleftrightarrow> se_receipt v \<and> se_identity v \<and> se_coverage v \<and> se_monotonic v \<and> se_window v"

definition on_time :: "int \<Rightarrow> int \<Rightarrow> slot_evidence \<Rightarrow> bool" where
  "on_time accepted planned v \<longleftrightarrow> planned \<le> accepted \<and> 0 \<le> se_latency v \<and> se_latency v \<le> se_deadline v * second_us"

text \<open>A required job without a boolean coverage leaves the slot unknown.\<close>

definition unproven_coverage :: "pyval list \<Rightarrow> bool" where
  "unproven_coverage required \<longleftrightarrow> required = []
     \<or> any_res (\<lambda>j. bindr (coverage_of j) (\<lambda>c. Inr (case c of PBool _ \<Rightarrow> False | _ \<Rightarrow> True))) required \<noteq> Inr False"

definition slot_verdict :: "pyval list \<Rightarrow> int \<Rightarrow> int \<Rightarrow> slot_evidence \<Rightarrow> slot_state" where
  "slot_verdict required accepted planned v = (if unproven_coverage required then SlotUnknown
     else if evidence_holds v \<and> on_time accepted planned v then SlotPass else SlotFail)"

definition judge_slot ::
  "py_env \<Rightarrow> expected \<Rightarrow> string \<Rightarrow> pyval \<Rightarrow> pyval list \<Rightarrow> pyval list \<Rightarrow> string list \<Rightarrow> progress
     \<Rightarrow> progress \<times> (slot_state \<times> slot_evidence) result" where
  "judge_slot E X slot candidate js diags runs P =
     (let rcpt = por (pget ''receipt'' candidate) (PDict [])
      in case bindr (slot_times E X slot candidate rcpt) (\<lambda>tms. bindr (receipt_matches E candidate rcpt) (\<lambda>receipt_ok.
              bindr (identity_matches E X candidate) (\<lambda>identity_ok. bindr (follows_last P candidate runs) (\<lambda>monotonic.
              Inr (tms, receipt_ok, identity_ok, monotonic))))) of
           Inl e \<Rightarrow> (P, Inl e)
         | Inr (tms, receipt_ok, identity_ok, monotonic) \<Rightarrow>
            (case remember P candidate runs of
               (P1, Inl e) \<Rightarrow> (P1, Inl e)
             | (P1, Inr _) \<Rightarrow> (P1, bindr (evidence_of E X slot candidate js diags tms receipt_ok identity_ok monotonic) (\<lambda>v.
                 Inr (slot_verdict (required_jobs js) (fst tms) (snd (snd tms)) v, v)))))"

text \<open>\<^verbatim>\<open>except (ValueError, TypeError, KeyError, AttributeError)\<close>.\<close>

fun stability_caught :: "py_error \<Rightarrow> bool" where
  "stability_caught (ValueError _) = True"
| "stability_caught (TypeError _) = True"
| "stability_caught (KeyError _) = True"
| "stability_caught (AttributeError _) = True"
| "stability_caught _ = False"

definition delivered_slot ::
  "py_env \<Rightarrow> expected \<Rightarrow> string \<Rightarrow> pyval \<Rightarrow> pyval list \<Rightarrow> pyval list \<Rightarrow> progress \<Rightarrow> slot_result \<Rightarrow> (progress \<times> slot_result) result" where
  "delivered_slot E X slot candidate js diags P r = (case execution_contract slot candidate js of
       Inl e \<Rightarrow> Inr (P, r\<lparr> sr_state := SlotUnknown \<rparr>)
     | Inr (ExecFail x) \<Rightarrow> Inr (P, r\<lparr> sr_state := SlotFail, sr_execution := Some (ExecFail x) \<rparr>)
     | Inr (ExecUnknown x) \<Rightarrow> Inr (P, r\<lparr> sr_state := SlotUnknown, sr_execution := Some (ExecUnknown x) \<rparr>)
     | Inr (ExecPass mode runs) \<Rightarrow>
        (let r1 = r\<lparr> sr_execution := Some (ExecPass mode runs) \<rparr>
         in case judge_slot E X slot candidate js diags runs P of
              (P1, Inl e) \<Rightarrow> if stability_caught e then Inr (P1, r1\<lparr> sr_state := SlotUnknown \<rparr>) else Inl e
            | (P1, Inr (s, v)) \<Rightarrow> Inr (P1, r1\<lparr> sr_state := s, sr_evidence := Some v \<rparr>)))"

definition ledger_rows :: "string \<Rightarrow> string \<Rightarrow> pyval \<Rightarrow> pyval \<Rightarrow> pyval list result" where
  "ledger_rows table key v ledger = rows_where key v (pget_default table (PList []) ledger)"

text \<open>A slot with one row in the ledger.\<close>

definition found_slot ::
  "py_env \<Rightarrow> expected \<Rightarrow> pyval \<Rightarrow> string \<Rightarrow> pyval \<Rightarrow> pyval list \<Rightarrow> progress \<Rightarrow> slot_result \<Rightarrow> (progress \<times> slot_result) result" where
  "found_slot E X ledger slot row candidates P r =
     (let r1 = r\<lparr> sr_state := SlotPending, sr_ledger_state := Some (pget ''status'' row) \<rparr>
      in if pget ''status'' row \<noteq> PStr ''DELIVERED'' then Inr (P, r1)
         else case filter (\<lambda>a. pget ''status'' a = PStr ''DELIVERED'') candidates of
           [] \<Rightarrow> Inr (P, r1)
         | d # ds \<Rightarrow> bindr (first_finished d ds) (\<lambda>candidate.
             bindr (ledger_rows ''jobs'' ''attempt_id'' (pget ''attempt_id'' candidate) ledger) (\<lambda>js.
             bindr (ledger_rows ''diagnostics'' ''attempt_id'' (pget ''attempt_id'' candidate) ledger) (\<lambda>diags.
             delivered_slot E X slot candidate js diags P r1))))"

definition soak_slot_row :: "py_env \<Rightarrow> expected \<Rightarrow> pyval \<Rightarrow> string \<Rightarrow> progress \<Rightarrow> (progress \<times> slot_result) result" where
  "soak_slot_row E X ledger slot P =
     (let slot_id = PStr (iso_day (ex_session X) @ '' '' @ slot)
      in bindr (ledger_rows ''slots'' ''slot_id'' slot_id ledger) (\<lambda>found.
         bindr (ledger_rows ''attempts'' ''slot_id'' slot_id ledger) (\<lambda>candidates.
         let r = \<lparr> sr_slot = slot, sr_state = SlotMissing, sr_attempts = int (length candidates), sr_ledger_state = None,
                   sr_execution = None, sr_evidence = None \<rparr>
         in case found of [row] \<Rightarrow> found_slot E X ledger slot row candidates P r | _ \<Rightarrow> Inr (P, r))))"

fun slot_rows :: "py_env \<Rightarrow> expected \<Rightarrow> pyval \<Rightarrow> progress \<Rightarrow> string list \<Rightarrow> slot_result list result" where
  "slot_rows E X ledger P [] = Inr []"
| "slot_rows E X ledger P (slot # rest) =
     bindr (soak_slot_row E X ledger slot P) (\<lambda>(P1, r). bindr (slot_rows E X ledger P1 rest) (\<lambda>rs. Inr (r # rs)))"

definition start_progress :: progress where
  "start_progress = \<lparr> pg_runs = [], pg_bundles = [], pg_sequence = PInt 0 \<rparr>"

definition slots_state :: "slot_result list \<Rightarrow> check_state" where
  "slots_state rs = (if list_ex (\<lambda>r. sr_state r = SlotFail) rs then CheckFail
     else if list_ex (\<lambda>r. sr_state r = SlotUnknown) rs then CheckUnknown
     else if list_all (\<lambda>r. sr_state r = SlotPass) rs then CheckPass else CheckPartial)"

record delivery_check =
  dc_state :: check_state
  dc_slots :: "slot_result list"

definition delivery_check_of ::
  "py_env \<Rightarrow> int \<Rightarrow> pyval \<Rightarrow> string \<Rightarrow> string \<Rightarrow> string option \<Rightarrow> (string \<times> int) list \<Rightarrow> delivery_check result" where
  "delivery_check_of E session ledger source_sha cfg scope_opt deadlines =
     bindr (getd ''ledger_version'' PNone ledger) (\<lambda>version. case scope_opt of
       Some scope \<Rightarrow>
         if version \<noteq> PStr ''local-job-ledger-v1.1'' \<or> \<not> hex_string 64 scope
         then Inr \<lparr> dc_state = CheckUnknown, dc_slots = [] \<rparr>
         else bindr (slot_rows E \<lparr> ex_session = session, ex_source_sha = source_sha, ex_config_hash = cfg,
                                   ex_scope_hash = scope, ex_deadlines = deadlines \<rparr> ledger start_progress soak_slots) (\<lambda>rs.
              Inr \<lparr> dc_state = slots_state rs, dc_slots = rs \<rparr>)
     | None \<Rightarrow> Inr \<lparr> dc_state = CheckUnknown, dc_slots = [] \<rparr>)"

section \<open>The report of a session\<close>

record soak_captures =
  sc_ledger :: pyval
  sc_cloud_before :: pyval
  sc_cloud_after :: pyval
  sc_runtime_before :: pyval
  sc_runtime_after :: pyval

record soak_identity =
  si_source_sha :: string
  si_config_hash :: string
  si_image_id :: string
  si_scope_hash :: "string option"

record soak_checks =
  sk_cloud :: cloud_check
  sk_runtime :: runtime_check
  sk_delivery :: delivery_check
  sk_window :: bool

record soak_report =
  sp_session :: int
  sp_generated_at :: int
  sp_state :: check_state
  sp_calendar :: day_decision
  sp_identity :: soak_identity
  sp_checks :: "soak_checks option"

definition exact_identity :: "soak_identity \<Rightarrow> bool" where
  "exact_identity I \<longleftrightarrow> hex_string 40 (si_source_sha I) \<and> hex_string 64 (si_config_hash I)
     \<and> starts_with ''sha256:'' (si_image_id I) \<and> hex_string 64 (drop 7 (si_image_id I))
     \<and> (case si_scope_hash I of None \<Rightarrow> True | Some h \<Rightarrow> hex_string 64 h)"

definition deadlines_ok :: "(string \<times> int) list \<Rightarrow> bool" where
  "deadlines_ok ds \<longleftrightarrow> set (map fst ds) = set soak_slots \<and> list_all (\<lambda>(_, n). 0 < n) ds"

definition capture_time :: "py_env \<Rightarrow> pyval \<Rightarrow> int result" where
  "capture_time E v = bindr (pindex v ''captured_at'') (stability_time E)"

text \<open>The captures enclose the session, on its day, and nothing is later than the cutoff.\<close>

definition window_ok :: "py_env \<Rightarrow> int \<Rightarrow> soak_captures \<Rightarrow> int \<Rightarrow> bool" where
  "window_ok E session C as_of =
     (case mapr (capture_time E) [sc_cloud_before C, sc_runtime_before C, sc_cloud_after C, sc_runtime_after C] of
        Inr [cb, rb, ca, ra] \<Rightarrow> list_all (\<lambda>t. local_date t = session \<and> t \<le> as_of) [cb, rb, ca, ra]
          \<and> list_all (\<lambda>t. t \<le> shanghai_instant session (hhmm 13 55)) [cb, rb]
          \<and> list_all (\<lambda>t. shanghai_instant session (hhmm 16 30) \<le> t) [ca, ra]
      | _ \<Rightarrow> False)"

definition check_states :: "soak_checks \<Rightarrow> check_state list" where
  "check_states K = [cloud_state (sk_cloud K), runtime_state (sk_runtime K), dc_state (sk_delivery K),
     if sk_window K then CheckPass else CheckPartial]"

definition joint_state :: "check_state list \<Rightarrow> check_state" where
  "joint_state ss = (if CheckFail \<in> set ss then CheckFail else if CheckUnknown \<in> set ss then CheckUnknown
     else if list_all (\<lambda>s. s = CheckPass) ss then CheckPass else CheckPartial)"

definition session_checks ::
  "py_env \<Rightarrow> int \<Rightarrow> soak_captures \<Rightarrow> soak_identity \<Rightarrow> (string \<times> int) list \<Rightarrow> int \<Rightarrow> soak_checks result" where
  "session_checks E session C I deadlines as_of =
     bindr (delivery_check_of E session (sc_ledger C) (si_source_sha I) (si_config_hash I) (si_scope_hash I) deadlines) (\<lambda>D.
     Inr \<lparr> sk_cloud = compare_cloud_captures E (sc_cloud_before C) (sc_cloud_after C),
           sk_runtime = runtime_check_of E (sc_runtime_before C) (sc_runtime_after C) (si_source_sha I) (si_image_id I),
           sk_delivery = D, sk_window = window_ok E session C as_of \<rparr>)"

definition assess_session ::
  "py_env \<Rightarrow> calendar_service \<Rightarrow> int \<Rightarrow> soak_captures \<Rightarrow> soak_identity \<Rightarrow> (string \<times> int) list option \<Rightarrow> dtime \<Rightarrow> soak_report result" where
  "assess_session E S session C I deadlines as_of =
     raise_if (\<not> exact_identity I) (ValueError ''exact source/config/image/scope identities required'')
     (raise_if (case deadlines of None \<Rightarrow> False | Some ds \<Rightarrow> \<not> deadlines_ok ds) (ValueError ''positive deadline for every slot required'')
     (case as_of of Naive _ \<Rightarrow> Inl (ValueError ''observation cutoff requires timezone'')
      | Aware now \<Rightarrow>
         (let day_of = decision S session;
              blank_report = \<lparr> sp_session = session, sp_generated_at = now, sp_state = CheckUnknown, sp_calendar = day_of,
                        sp_identity = I, sp_checks = None \<rparr>
          in if \<not> d_actionable day_of then Inr blank_report
             else bindr (session_checks E session C I (case deadlines of None \<Rightarrow> default_deadlines | Some ds \<Rightarrow> ds) now) (\<lambda>K.
               Inr (blank_report\<lparr> sp_checks := Some K, sp_state := joint_state (check_states K) \<rparr>)))))"

section \<open>Stored reports and the summary\<close>

type_synonym report_dir = "(string \<times> pyval option) list"

definition report_version :: pyval where "report_version = PStr ''local-stability-v2''"

text \<open>\<^verbatim>\<open>write_json_atomic\<close> refuses a value that is no JSON and then leaves the directory as it was.\<close>

definition write_report :: "py_env \<Rightarrow> string \<Rightarrow> pyval \<Rightarrow> report_dir \<Rightarrow> report_dir result" where
  "write_report E name report dir = bindr (json_dumps E report) (\<lambda>_. Inr (dict_set name (Some report) dir))"

text \<open>The end of \<^verbatim>\<open>record_stability\<close>, for the name of the file of the day.\<close>

definition store_report :: "py_env \<Rightarrow> string \<Rightarrow> pyval \<Rightarrow> report_dir \<Rightarrow> report_dir result" where
  "store_report E name report dir = (case map_of dir name of
       None \<Rightarrow> write_report E name report dir
     | Some None \<Rightarrow> Inl (ValueError ''invalid JSON'')
     | Some (Some previous) \<Rightarrow> bindr (getd ''state'' PNone previous) (\<lambda>state.
         raise_if (state = PStr ''FAIL'') (ValueError ''existing failed session retained'')
         (if state = PStr ''PASS'' \<and> pget ''state'' report \<noteq> PStr ''FAIL'' then Inr dir
          else write_report E name report dir)))"

definition record_stability ::
  "py_env \<Rightarrow> (string \<Rightarrow> int option) \<Rightarrow> pyval \<Rightarrow> report_dir \<Rightarrow> report_dir result" where
  "record_stability E date_of report dir = bindr (pindex report ''session'') (\<lambda>s. case s of
       PStr text_s \<Rightarrow> (case date_of text_s of
           None \<Rightarrow> Inl (ValueError ''Invalid isoformat string'')
         | Some d \<Rightarrow>
            raise_if (pget ''report_version'' report \<noteq> report_version) (ValueError ''unsupported stability report'')
              (store_report E (iso_day d) report dir))
     | _ \<Rightarrow> Inl (TypeError ''fromisoformat: argument must be str''))"

definition add_report :: "pyval \<Rightarrow> (string \<times> pyval) list \<Rightarrow> (string \<times> pyval) list result" where
  "add_report item d = bindr (getd ''report_version'' PNone item) (\<lambda>v.
     if v \<noteq> report_version then Inr d
     else bindr (pindex item ''session'') (\<lambda>s. case s of PStr t \<Rightarrow> Inr (dict_set t item d)
       | _ \<Rightarrow> Inl (TypeError ''session is not a text'')))"

definition by_day :: "pyval list \<Rightarrow> (string \<times> pyval) list result" where
  "by_day reports = foldr_result add_report reports []"

definition eligible :: "pyval \<Rightarrow> bool result" where
  "eligible item = (if pget ''state'' item = PStr ''PASS''
     then (let calendar = pget_default ''calendar'' (PDict []) item
           in bindr (getd ''verified'' PNone calendar) (\<lambda>v. Inr (v = PBool True \<and> pget ''is_trade_day'' calendar = PBool True)))
     else Inr False)"

record stability_summary =
  ss_state :: check_state
  ss_days :: "string list"
  ss_sessions :: "(string \<times> pyval) list"

definition summarize_stability :: "py_env \<Rightarrow> pyval list \<Rightarrow> stability_summary result" where
  "summarize_stability E reports = bindr (by_day reports) (\<lambda>days.
     bindr (filter_res (\<lambda>(_, item). eligible item) days) (\<lambda>passing.
     bindr (mapr (\<lambda>(_, item). bindr (pindex item ''identity'') (json_dumps E)) passing) (\<lambda>ids.
     Inr \<lparr> ss_state = (if list_ex (\<lambda>(_, item). pget ''state'' item = PStr ''FAIL'') days then CheckFail
                       else if 2 \<le> length passing \<and> length (remdups ids) = 1 then CheckPass else CheckPartial),
           ss_days = sort (map fst passing),
           ss_sessions = map (\<lambda>(k, item). (k, pget ''state'' item)) (sort_key fst days) \<rparr>)))"

definition summarize_files :: "py_env \<Rightarrow> report_dir \<Rightarrow> stability_summary result" where
  "summarize_files E dir = bindr (mapr (\<lambda>(_, v). case v of None \<Rightarrow> Inl (ValueError ''invalid JSON'') | Some r \<Rightarrow> Inr r) (sort_key fst dir))
     (summarize_stability E)"

end
