(* ===== verification/Stability_Props.thy ===== *)
theory Stability_Props
  imports Local_Stability
begin

text \<open>
  What an accepted day proves: every accepted slot has a delivery whose receipt, manifest, identity, jobs
  and times agree; accepted slots never share a package or a run; equal counters are what passes for no
  growth; and a failed day stays failed in the stored reports.
\<close>

section \<open>Accepted slots\<close>

lemma first_finished_mem: "first_finished b xs = Inr c \<Longrightarrow> c \<in> set (b # xs)"
  by (induction xs arbitrary: b) (fastforce split: if_splits)+

lemma rows_where_Inr: "rows_where k v rows = Inr xs \<Longrightarrow> x \<in> set xs \<Longrightarrow>
    pget k x = v \<and> is_dict x \<and> (\<exists>ys. py_iter rows = Inr ys \<and> x \<in> set ys)"
  by (auto simp: rows_where_def list_all_iff)

lemma slot_rows_mem:
  "slot_rows E X L P ss = Inr rs \<Longrightarrow> r \<in> set rs \<Longrightarrow> \<exists>s \<in> set ss. \<exists>P0 P1. soak_slot_row E X L s P0 = Inr (P1, r)"
  by (induction ss arbitrary: P rs) (auto, blast+)

text \<open>A slot is left as it is, or goes through its one row of the ledger.\<close>

lemma soak_slot_row_cases:
  assumes "soak_slot_row E X L slot P = Inr (P1, r)"
  obtains "P1 = P" "sr_state r = SlotMissing"
  | as row r0 where "ledger_rows ''attempts'' ''slot_id'' (PStr (iso_day (ex_session X) @ '' '' @ slot)) L = Inr as"
      "found_slot E X L slot row as P r0 = Inr (P1, r)" "sr_slot r0 = slot"
proof -
  from assms obtain found as r0 where as: "ledger_rows ''attempts'' ''slot_id'' (PStr (iso_day (ex_session X) @ '' '' @ slot)) L = Inr as"
    and found: "(case found of [row] \<Rightarrow> found_slot E X L slot row as P r0 | _ \<Rightarrow> Inr (P, r0)) = Inr (P1, r)"
    and r0: "sr_slot r0 = slot" "sr_state r0 = SlotMissing"
    unfolding soak_slot_row_def Let_def by fastforce
  then show thesis using that by (cases found; cases "tl found") auto
qed

text \<open>The one way a slot passes.\<close>

lemma soak_slot_row_pass:
  assumes "soak_slot_row E X L slot P = Inr (P1, r)" "sr_state r = SlotPass"
  obtains as a js diags mode runs v where
    "ledger_rows ''attempts'' ''slot_id'' (PStr (iso_day (ex_session X) @ '' '' @ slot)) L = Inr as" "a \<in> set as"
    "pget ''status'' a = PStr ''DELIVERED''" "ledger_rows ''jobs'' ''attempt_id'' (pget ''attempt_id'' a) L = Inr js"
    "execution_contract slot a js = Inr (ExecPass mode runs)" "judge_slot E X slot a js diags runs P = (P1, Inr (SlotPass, v))"
    "sr_slot r = slot" "sr_execution r = Some (ExecPass mode runs)" "sr_evidence r = Some v"
proof -
  obtain as row r0 where as: "ledger_rows ''attempts'' ''slot_id'' (PStr (iso_day (ex_session X) @ '' '' @ slot)) L = Inr as"
    and "found_slot E X L slot row as P r0 = Inr (P1, r)" and r0: "sr_slot r0 = slot"
    by (rule soak_slot_row_cases [OF assms(1)]) (use assms(2) in simp, blast)
  then obtain d ds a js diags r1 where
    d: "filter (\<lambda>a. pget ''status'' a = PStr ''DELIVERED'') as = d # ds" "first_finished d ds = Inr a"
    and js: "ledger_rows ''jobs'' ''attempt_id'' (pget ''attempt_id'' a) L = Inr js"
    and del: "delivered_slot E X slot a js diags P r1 = Inr (P1, r)" "sr_slot r1 = slot"
    using assms(2) r0 by (auto simp: found_slot_def Let_def split: list.splits if_splits)
  have "a \<in> set (filter (\<lambda>a. pget ''status'' a = PStr ''DELIVERED'') as)"
    unfolding d(1) by (rule first_finished_mem [OF d(2)])
  then have a: "a \<in> set as" "pget ''status'' a = PStr ''DELIVERED''" by auto
  from del assms(2) obtain mode runs v where
    "execution_contract slot a js = Inr (ExecPass mode runs)" "judge_slot E X slot a js diags runs P = (P1, Inr (SlotPass, v))"
    "sr_execution r = Some (ExecPass mode runs)" "sr_evidence r = Some v" "sr_slot r = slot"
    by (auto simp: delivered_slot_def Let_def split: sum.splits execution.splits prod.splits if_splits)
  with as a js that show thesis by blast
qed

lemma evidence_of_fields:
  assumes "evidence_of E X slot a js diags (accepted, finished, planned) ro io mo = Inr v"
  shows "window_valid E (pget ''manifest'' a) accepted finished planned = Inr (se_window v)"
    and "se_latency v = max accepted finished - planned" "map_of (ex_deadlines X) slot = Some (se_deadline v)"
    and "se_receipt v = ro" "se_identity v = io" "se_monotonic v = mo" "se_bundle v = pget ''bundle_id'' a"
    and "se_coverage v \<Longrightarrow> required_jobs js \<noteq> [] \<and> all_res (job_covered X slot (pget ''manifest'' a)) (required_jobs js) = Inr True"
  using assms by (auto simp: evidence_of_def Let_def split: option.splits if_splits)

text \<open>What a passing verdict rests on.\<close>

lemma judge_slot_pass:
  assumes "judge_slot E X slot a js diags runs P = (P1, Inr (SlotPass, v))"
  obtains accepted finished planned where
    "slot_times E X slot a (por (pget ''receipt'' a) (PDict [])) = Inr (accepted, finished, planned)"
    "receipt_matches E a (por (pget ''receipt'' a) (PDict [])) = Inr True" "identity_matches E X a = Inr True"
    "follows_last P a runs = Inr True" "remember P a runs = (P1, Inr ())"
    "window_valid E (pget ''manifest'' a) accepted finished planned = Inr True"
    "required_jobs js \<noteq> []" "all_res (job_covered X slot (pget ''manifest'' a)) (required_jobs js) = Inr True"
    "planned \<le> accepted" "map_of (ex_deadlines X) slot = Some (se_deadline v)"
    "max accepted finished \<le> planned + se_deadline v * second_us" "se_bundle v = pget ''bundle_id'' a"
proof -
  from assms obtain accepted finished planned ro io mo where
    t: "slot_times E X slot a (por (pget ''receipt'' a) (PDict [])) = Inr (accepted, finished, planned)"
    "receipt_matches E a (por (pget ''receipt'' a) (PDict [])) = Inr ro" "identity_matches E X a = Inr io"
    "follows_last P a runs = Inr mo" "remember P a runs = (P1, Inr ())"
    and e: "evidence_of E X slot a js diags (accepted, finished, planned) ro io mo = Inr v"
    and s: "slot_verdict (required_jobs js) accepted planned v = SlotPass"
    by (auto simp: judge_slot_def Let_def split: sum.splits prod.splits)
  from s have p: "evidence_holds v" "on_time accepted planned v" by (auto simp: slot_verdict_def split: if_splits)
  note f = evidence_of_fields [OF e]
  from p f have "ro" "io" "mo" "se_window v" "se_coverage v" by (auto simp: evidence_holds_def)
  moreover have "planned \<le> accepted" "max accepted finished \<le> planned + se_deadline v * second_us"
    using p(2) f(2) by (auto simp: on_time_def)
  ultimately show thesis using that t f by simp
qed

lemma is_run_id_text: "is_run_id v \<Longrightarrow> v = PStr (as_text v)"
  by (cases v) (simp_all add: is_run_id_def)

lemma stages_check_pass:
  assumes "stages_check mode js = ExecPass m runs"
  shows "m = mode" "set (map job_name (filter (\<lambda>j. job_name j \<in> set full_stages) js)) = set (expected_stages mode)"
    and "\<And>j. j \<in> set js \<Longrightarrow> pget ''status'' j \<noteq> PStr ''running''" and "distinct runs"
    and "\<exists>j \<in> set js. is_upload (job_name j) \<and> pget ''status'' j = PStr ''succeeded''"
proof -
  let ?ids = "map (pget ''run_id'') (filter (\<lambda>j. job_name j \<in> set full_stages) js)"
  from assms show "m = mode" "set (map job_name (filter (\<lambda>j. job_name j \<in> set full_stages) js)) = set (expected_stages mode)"
    "\<And>j. j \<in> set js \<Longrightarrow> pget ''status'' j \<noteq> PStr ''running''"
    "\<exists>j \<in> set js. is_upload (job_name j) \<and> pget ''status'' j = PStr ''succeeded''"
    by (auto simp: stages_check_def Let_def list_ex_iff split: if_splits)
  from assms have ids: "runs = map as_text ?ids" "distinct ?ids" "list_all is_run_id ?ids"
    by (auto simp: stages_check_def Let_def split: if_splits)
  have "inj_on as_text (set ?ids)"
    using ids(3) unfolding inj_on_def list_all_iff by (metis is_run_id_text)
  then show "distinct runs" unfolding ids(1) using ids(2) distinct_map [of as_text ?ids] by blast
qed

lemma lineage_check_None:
  assumes "lineage_check slot details lineage = Inr None"
  shows "pget ''mode'' lineage \<in> {PStr ''full'', PStr ''fast''}"
    and "slot \<in> set full_slots \<Longrightarrow> pget ''mode'' lineage = PStr ''full''"
  using assms by (auto simp: lineage_check_def Let_def split: if_splits)

lemma execution_contract_pass:
  assumes "execution_contract slot a js = Inr (ExecPass mode runs)"
  shows "stages_check mode js = ExecPass mode runs" and "is_dict (pget ''manifest'' a)"
    and "slot \<in> set full_slots \<Longrightarrow> mode = ''full''" and "mode \<in> {''full'', ''fast''}"
proof -
  let ?lineage = "pget ''execution_lineage'' (pget ''manifest'' a)"
  from assms obtain c where "named_jobs ''execution_contract'' js = [c]"
    by (auto simp: execution_contract_def Let_def split: list.splits if_splits)
  with assms have m: "is_dict (pget ''manifest'' a)"
    and l: "bindr (lineage_check slot (pget ''details'' c) ?lineage) (\<lambda>r. case r of Some x \<Rightarrow> Inr x
                     | None \<Rightarrow> Inr (case identity_check ?lineage js of Some x \<Rightarrow> x
                         | None \<Rightarrow> stages_check (as_text (pget ''mode'' ?lineage)) js)) = Inr (ExecPass mode runs)"
    by (simp_all add: execution_contract_def Let_def split: if_splits)
  then obtain r where r: "lineage_check slot (pget ''details'' c) ?lineage = Inr r"
    "(case r of Some x \<Rightarrow> Inr x | None \<Rightarrow> Inr (case identity_check ?lineage js of Some x \<Rightarrow> x
        | None \<Rightarrow> stages_check (as_text (pget ''mode'' ?lineage)) js)) = (Inr (ExecPass mode runs) :: execution result)"
    by auto
  have "r = None" using r by (auto simp: lineage_check_def Let_def split: if_splits option.splits)
  with r have n: "lineage_check slot (pget ''details'' c) ?lineage = Inr None"
    and "(case identity_check ?lineage js of Some x \<Rightarrow> x | None \<Rightarrow> stages_check (as_text (pget ''mode'' ?lineage)) js) = ExecPass mode runs"
    by simp_all
  then have s: "stages_check (as_text (pget ''mode'' ?lineage)) js = ExecPass mode runs"
    by (auto simp: identity_check_def Let_def split: option.splits list.splits if_splits)
  note mode = stages_check_pass(1) [OF s]
  show "stages_check mode js = ExecPass mode runs" "is_dict (pget ''manifest'' a)" using s mode m by auto
  show "slot \<in> set full_slots \<Longrightarrow> mode = ''full''" using lineage_check_None(2) [OF n] mode by simp
  show "mode \<in> {''full'', ''fast''}" using lineage_check_None(1) [OF n] mode by auto
qed

lemma receipt_matches_True:
  assumes "receipt_matches E a rcpt = Inr True"
  obtains b n where "pget ''bundle_id'' a = PStr b" "hex_string 64 b" "digest E (pget ''manifest'' a) = Inr b"
    "pget ''bundle_id'' rcpt = PStr b" "pget ''manifest_hash'' rcpt = PStr b" "0 < n" "pget ''sequence'' a = PInt n"
    "pget ''sequence'' rcpt = PInt n" "pget ''sequence'' (pget ''manifest'' a) = PInt n"
  using assms by (auto simp: receipt_matches_def Let_def sha256_value_def split: if_splits pyval.splits)

lemma identity_matches_True:
  assumes "identity_matches E X a = Inr True"
  shows "pget ''code_sha'' a = PStr (ex_source_sha X)" "pget ''config_hash'' a = PStr (ex_config_hash X)"
    "pget ''scope_hash'' a = PStr (ex_scope_hash X)" "pget ''code_sha'' (pget ''manifest'' a) = PStr (ex_source_sha X)"
    "pget ''config_hash'' (pget ''manifest'' a) = PStr (ex_config_hash X)"
  using assms by (auto simp: identity_matches_def Let_def split: if_splits)

lemma window_valid_True:
  assumes "window_valid E m accepted finished planned = Inr True"
  obtains g x where "stability_time E (pget ''generated_at'' m) = Inr g" "planned \<le> g" "g \<le> finished"
    "stability_time E (pget ''expires_at'' m) = Inr x" "accepted < x"
  using assms by (auto simp: window_valid_def split: if_splits)

lemma stability_time_None [simp]: "stability_time E PNone \<noteq> Inr t"
  by (simp add: stability_time_def)

lemma slot_times_Inr:
  assumes "slot_times E X slot a rcpt = Inr (accepted, finished, planned)"
  shows "stability_time E (pget ''received_at'' rcpt) = Inr accepted" "stability_time E (pget ''finished_at'' a) = Inr finished"
    "\<exists>t. parse_time slot = Inr t \<and> planned = shanghai_instant (ex_session X) t"
  using assms by (auto simp: slot_times_def getd_def pget_default_def split: if_splits)

lemma ledger_rows_mem:
  assumes "ledger_rows table k v L = Inr xs" "x \<in> set xs"
  shows "pget k x = v" and "\<exists>ys. pget table L = PList ys \<and> x \<in> set ys"
proof -
  from rows_where_Inr [OF assms(1) [unfolded ledger_rows_def] assms(2)] obtain ys where
    x: "pget k x = v" "is_dict x" and ys: "py_iter (pget_default table (PList []) L) = Inr ys" "x \<in> set ys" by blast
  from x show "pget k x = v" by simp
  from ys x(2) show "\<exists>ys. pget table L = PList ys \<and> x \<in> set ys"
    by (cases L; cases "pget_default table (PList []) L") (auto simp: pget_default_def split: option.splits if_splits)
qed

lemma delivery_rows:
  assumes "delivery_check_of E session L sha cfg scope_opt deadlines = Inr D" "dc_slots D \<noteq> [] \<or> dc_state D = CheckPass"
  obtains scope where "scope_opt = Some scope" "hex_string 64 scope"
    "slot_rows E \<lparr> ex_session = session, ex_source_sha = sha, ex_config_hash = cfg, ex_scope_hash = scope,
        ex_deadlines = deadlines \<rparr> L start_progress soak_slots = Inr (dc_slots D)" "dc_state D = slots_state (dc_slots D)"
proof (cases scope_opt)
  case None
  with assms show ?thesis by (auto simp: delivery_check_of_def)
next
  case (Some scope)
  with assms that show ?thesis by (auto simp: delivery_check_of_def split: if_splits)
qed

text \<open>
  What an accepted slot is meant to prove, over the rows of the ledger: the receipt and the attempt name
  the digest of the manifest and one positive sequence, everything carries the expected identities, the
  delivery falls between the planned time and the deadline, and the stages of the mode were run.
\<close>

definition receipt_proof :: "py_env \<Rightarrow> pyval \<Rightarrow> bool" where
  "receipt_proof E a \<longleftrightarrow> (\<exists>b n. digest E (pget ''manifest'' a) = Inr b \<and> pget ''bundle_id'' a = PStr b
     \<and> pget ''bundle_id'' (pget ''receipt'' a) = PStr b \<and> pget ''manifest_hash'' (pget ''receipt'' a) = PStr b
     \<and> 0 < n \<and> list_all (\<lambda>d. pget ''sequence'' d = PInt n) [a, pget ''receipt'' a, pget ''manifest'' a])"

definition timely :: "py_env \<Rightarrow> int \<Rightarrow> (string \<times> int) list \<Rightarrow> string \<Rightarrow> pyval \<Rightarrow> bool" where
  "timely E session deadlines slot a \<longleftrightarrow> (\<exists>t planned limit accepted finished g x.
     parse_time slot = Inr t \<and> planned = shanghai_instant session t \<and> map_of deadlines slot = Some limit
     \<and> stability_time E (pget ''received_at'' (pget ''receipt'' a)) = Inr accepted
     \<and> stability_time E (pget ''finished_at'' a) = Inr finished
     \<and> stability_time E (pget ''generated_at'' (pget ''manifest'' a)) = Inr g
     \<and> stability_time E (pget ''expires_at'' (pget ''manifest'' a)) = Inr x
     \<and> planned \<le> g \<and> g \<le> finished \<and> planned \<le> accepted \<and> accepted < x
     \<and> accepted \<le> planned + limit * second_us \<and> finished \<le> planned + limit * second_us)"

definition stages_run :: "pyval \<Rightarrow> string \<Rightarrow> pyval \<Rightarrow> bool" where
  "stages_run ledger slot a \<longleftrightarrow> (\<exists>js mode. ledger_rows ''jobs'' ''attempt_id'' (pget ''attempt_id'' a) ledger = Inr js
     \<and> (slot \<in> set full_slots \<longrightarrow> mode = ''full'')
     \<and> set (map job_name (filter (\<lambda>j. job_name j \<in> set full_stages) js)) = set (expected_stages mode)
     \<and> list_all (\<lambda>j. pget ''status'' j \<noteq> PStr ''running'') js
     \<and> list_ex (\<lambda>j. is_upload (job_name j) \<and> pget ''status'' j = PStr ''succeeded'') js)"

definition identities_hold :: "string \<Rightarrow> string \<Rightarrow> string option \<Rightarrow> pyval \<Rightarrow> bool" where
  "identities_hold sha cfg scope_opt a \<longleftrightarrow> pget ''code_sha'' a = PStr sha \<and> pget ''config_hash'' a = PStr cfg
     \<and> map_option PStr scope_opt = Some (pget ''scope_hash'' a)
     \<and> pget ''code_sha'' (pget ''manifest'' a) = PStr sha \<and> pget ''config_hash'' (pget ''manifest'' a) = PStr cfg"

text \<open>C19: a slot of a session passes only when the ledger has a delivered attempt of that slot whose
  manifest, receipt and sequence agree, made by the expected source and configuration within its
  deadline, with all stages of its mode run and an upload that succeeded.\<close>

theorem passed_slot_is_proven:
  assumes "delivery_check_of E session ledger sha cfg scope_opt deadlines = Inr D"
    and "r \<in> set (dc_slots D)" and "sr_state r = SlotPass"
  shows "\<exists>as a. pget ''attempts'' ledger = PList as \<and> a \<in> set as
     \<and> pget ''slot_id'' a = PStr (iso_day session @ '' '' @ sr_slot r) \<and> pget ''status'' a = PStr ''DELIVERED''
     \<and> receipt_proof E a \<and> identities_hold sha cfg scope_opt a \<and> timely E session deadlines (sr_slot r) a
     \<and> stages_run ledger (sr_slot r) a"
proof -
  from assms(2) have "dc_slots D \<noteq> []" by auto
  with delivery_rows [OF assms(1)] obtain scope where sc: "scope_opt = Some scope"
    and rows: "slot_rows E \<lparr> ex_session = session, ex_source_sha = sha, ex_config_hash = cfg, ex_scope_hash = scope,
        ex_deadlines = deadlines \<rparr> ledger start_progress soak_slots = Inr (dc_slots D)" by metis
  define X where "X = \<lparr> ex_session = session, ex_source_sha = sha, ex_config_hash = cfg, ex_scope_hash = scope, ex_deadlines = deadlines \<rparr>"
  from slot_rows_mem [OF rows assms(2), folded X_def] obtain slot P0 P1 where row: "soak_slot_row E X ledger slot P0 = Inr (P1, r)" by blast
  obtain as a js diags mode runs v where
    as: "ledger_rows ''attempts'' ''slot_id'' (PStr (iso_day (ex_session X) @ '' '' @ slot)) ledger = Inr as" "a \<in> set as"
    and a: "pget ''status'' a = PStr ''DELIVERED''" and js: "ledger_rows ''jobs'' ''attempt_id'' (pget ''attempt_id'' a) ledger = Inr js"
    and ex: "execution_contract slot a js = Inr (ExecPass mode runs)"
    and judge: "judge_slot E X slot a js diags runs P0 = (P1, Inr (SlotPass, v))" and slot: "sr_slot r = slot"
    by (rule soak_slot_row_pass [OF row assms(3)])
  obtain accepted finished planned where
    t: "slot_times E X slot a (por (pget ''receipt'' a) (PDict [])) = Inr (accepted, finished, planned)"
    and ro: "receipt_matches E a (por (pget ''receipt'' a) (PDict [])) = Inr True" and io: "identity_matches E X a = Inr True"
    and w: "window_valid E (pget ''manifest'' a) accepted finished planned = Inr True"
    and pl: "planned \<le> accepted" and dl: "map_of (ex_deadlines X) slot = Some (se_deadline v)"
    and mx: "max accepted finished \<le> planned + se_deadline v * second_us"
    by (rule judge_slot_pass [OF judge])
  obtain b n where r1: "pget ''bundle_id'' a = PStr b" "digest E (pget ''manifest'' a) = Inr b"
    "pget ''bundle_id'' (por (pget ''receipt'' a) (PDict [])) = PStr b" "pget ''manifest_hash'' (por (pget ''receipt'' a) (PDict [])) = PStr b"
    "0 < n" "pget ''sequence'' a = PInt n" "pget ''sequence'' (por (pget ''receipt'' a) (PDict [])) = PInt n"
    "pget ''sequence'' (pget ''manifest'' a) = PInt n" by (rule receipt_matches_True [OF ro])
  have por: "por (pget ''receipt'' a) (PDict []) = pget ''receipt'' a" using r1(3) by (auto simp: por_def split: if_splits)
  have "receipt_proof E a" using r1 unfolding receipt_proof_def por by auto
  moreover have "identities_hold sha cfg scope_opt a"
    using identity_matches_True [OF io] by (simp add: identities_hold_def sc X_def)
  moreover obtain g x where "stability_time E (pget ''generated_at'' (pget ''manifest'' a)) = Inr g" "planned \<le> g" "g \<le> finished"
    "stability_time E (pget ''expires_at'' (pget ''manifest'' a)) = Inr x" "accepted < x" by (rule window_valid_True [OF w])
  then have "timely E session deadlines slot a"
    using slot_times_Inr [OF t] pl dl mx unfolding timely_def por by (auto simp: X_def)
  moreover have "stages_run ledger slot a"
    using js execution_contract_pass(1,3) [OF ex] stages_check_pass(2,3,5) [OF execution_contract_pass(1) [OF ex]]
    unfolding stages_run_def by (auto simp: list_all_iff list_ex_iff)
  ultimately show ?thesis using ledger_rows_mem [OF as] a by (auto simp: slot X_def)
qed

section \<open>Deliveries advance\<close>

definition runs_of :: "slot_result \<Rightarrow> string list" where
  "runs_of r = (case sr_execution r of Some (ExecPass _ runs) \<Rightarrow> runs | _ \<Rightarrow> [])"

definition bundle_of :: "slot_result \<Rightarrow> pyval" where
  "bundle_of r = (case sr_evidence r of None \<Rightarrow> PNone | Some v \<Rightarrow> se_bundle v)"

definition passing :: "slot_result list \<Rightarrow> slot_result list" where
  "passing rs = filter (\<lambda>r. sr_state r = SlotPass) rs"

definition grows :: "progress \<Rightarrow> progress \<Rightarrow> bool" where
  "grows P P1 \<longleftrightarrow> set (pg_bundles P) \<subseteq> set (pg_bundles P1) \<and> set (pg_runs P) \<subseteq> set (pg_runs P1)"

lemma grows_refl [simp]: "grows P P"
  by (simp add: grows_def)

lemma remember_grows: "remember P a runs = (P1, x) \<Longrightarrow> grows P P1"
  by (auto simp: remember_def Let_def grows_def split: sum.splits)

lemma judge_slot_grows: "judge_slot E X slot a js diags runs P = (P1, x) \<Longrightarrow> grows P P1"
  by (auto simp: judge_slot_def Let_def split: sum.splits prod.splits dest: remember_grows)

lemma delivered_slot_grows: "delivered_slot E X slot a js diags P r = Inr (P1, r') \<Longrightarrow> grows P P1"
  by (auto simp: delivered_slot_def Let_def split: sum.splits execution.splits prod.splits if_splits dest: judge_slot_grows)

lemma soak_slot_row_grows: "soak_slot_row E X L slot P = Inr (P1, r) \<Longrightarrow> grows P P1"
  by (elim soak_slot_row_cases) (auto simp: found_slot_def Let_def split: list.splits if_splits dest: delivered_slot_grows)

lemma soak_slot_row_fresh:
  assumes "soak_slot_row E X L slot P = Inr (P1, r)" "sr_state r = SlotPass"
  shows "bundle_of r \<notin> set (pg_bundles P)" "bundle_of r \<in> set (pg_bundles P1)"
    "set (runs_of r) \<inter> set (pg_runs P) = {}" "set (runs_of r) \<subseteq> set (pg_runs P1)" "distinct (runs_of r)"
proof -
  obtain as a js diags mode runs v where ex: "execution_contract slot a js = Inr (ExecPass mode runs)"
    and judge: "judge_slot E X slot a js diags runs P = (P1, Inr (SlotPass, v))"
    and r: "sr_execution r = Some (ExecPass mode runs)" "sr_evidence r = Some v" by (rule soak_slot_row_pass [OF assms])
  have f: "follows_last P a runs = Inr True" and m: "remember P a runs = (P1, Inr ())" and b: "se_bundle v = pget ''bundle_id'' a"
    by (rule judge_slot_pass [OF judge]; assumption)+
  from f obtain i where i: "pindex a ''bundle_id'' = Inr i" "i \<notin> set (pg_bundles P)" "set runs \<inter> set (pg_runs P) = {}"
    by (auto simp: follows_last_def split: if_splits)
  have "i = pget ''bundle_id'' a" using i(1) by (cases a) (auto simp: pindex_def split: option.splits)
  moreover have "i \<in> set (pg_bundles P1)" "set runs \<subseteq> set (pg_runs P1)"
    using m i(1) by (auto simp: remember_def Let_def split: sum.splits)
  ultimately show "bundle_of r \<notin> set (pg_bundles P)" "bundle_of r \<in> set (pg_bundles P1)"
    "set (runs_of r) \<inter> set (pg_runs P) = {}" "set (runs_of r) \<subseteq> set (pg_runs P1)" "distinct (runs_of r)"
    using i stages_check_pass(4) [OF execution_contract_pass(1) [OF ex]] by (simp_all add: bundle_of_def runs_of_def r b)
qed

lemma slot_rows_fresh:
  assumes "slot_rows E X L P ss = Inr rs"
  shows "distinct (map bundle_of (passing rs)) \<and> bundle_of ` set (passing rs) \<inter> set (pg_bundles P) = {}
     \<and> distinct (concat (map runs_of (passing rs))) \<and> set (concat (map runs_of (passing rs))) \<inter> set (pg_runs P) = {}"
  using assms
proof (induction ss arbitrary: P rs)
  case (Cons s ss)
  then obtain P1 r qs where r: "soak_slot_row E X L s P = Inr (P1, r)" and qs: "slot_rows E X L P1 ss = Inr qs" "rs = r # qs" by auto
  note IH = Cons.IH [OF qs(1)] and g = soak_slot_row_grows [OF r]
  show ?case
  proof (cases "sr_state r = SlotPass")
    case False
    then show ?thesis using IH g by (auto simp: qs(2) passing_def grows_def)
  next
    case True
    show ?thesis using soak_slot_row_fresh [OF r True] IH g by (auto simp: qs(2) passing_def grows_def True)
  qed
qed (auto simp: passing_def)

text \<open>C33: two accepted slots of a session never share a package, and no run of a stage counts for two of
  them or twice for one.\<close>

theorem accepted_slots_are_distinct:
  assumes "delivery_check_of E session ledger sha cfg scope_opt deadlines = Inr D"
  shows "distinct (map bundle_of (passing (dc_slots D))) \<and> distinct (concat (map runs_of (passing (dc_slots D))))"
proof (cases "dc_slots D = []")
  case False
  with delivery_rows [OF assms] show ?thesis using slot_rows_fresh by metis
qed (simp add: passing_def)

section \<open>A day with one delivered slot\<close>

definition soak_env :: py_env where
  "soak_env = sample_env\<lparr> fromisoformat := (\<lambda>s. if s = ''T1'' then Some (Aware (shanghai_instant 20000 (hhmm 15 0)))
     else if s = ''T2'' then Some (Aware (shanghai_instant 20000 (hhmm 17 0))) else None) \<rparr>"

definition soak_hashes :: "string list \<Rightarrow> (string \<times> pyval) list" where
  "soak_hashes ks = map (\<lambda>k. (k, PStr sample_hash)) ks"

definition soak_manifest :: pyval where
  "soak_manifest = PDict [(''contract_version'', PStr ''local-display-v2''), (''code_sha'', PStr ''c''), (''config_hash'', PStr ''d''),
     (''universe'', PList [PStr ''510300.SH'']), (''sequence'', PInt 7), (''generated_at'', PStr ''T1''), (''expires_at'', PStr ''T2''),
     (''execution_lineage'', PDict (soak_hashes lineage_hash_fields
        @ [(''mode'', PStr ''fast''), (''contract_version'', PStr ''local-execution-lineage-v1'')]))]"

definition soak_job :: "string \<Rightarrow> bool \<Rightarrow> pyval \<Rightarrow> pyval" where
  "soak_job name required details = PDict [(''attempt_id'', PStr ''a''), (''job_name'', PStr name), (''required'', PBool required),
     (''status'', PStr ''succeeded''), (''run_id'', PStr name), (''details'', details)]"

definition soak_ledger :: pyval where
  "soak_ledger = PDict [(''ledger_version'', PStr ''local-job-ledger-v1.1''),
     (''slots'', PList [PDict [(''slot_id'', PStr ''2024-10-04 15:00''), (''status'', PStr ''DELIVERED'')]]),
     (''attempts'', PList [PDict [(''slot_id'', PStr ''2024-10-04 15:00''), (''attempt_id'', PStr ''a''), (''status'', PStr ''DELIVERED''),
        (''finished_at'', PStr ''T1''), (''bundle_id'', PStr sample_hash), (''sequence'', PInt 7), (''code_sha'', PStr ''c''),
        (''config_hash'', PStr ''d''), (''scope_hash'', PStr sample_hash), (''manifest'', soak_manifest),
        (''receipt'', PDict [(''status'', PStr ''accepted''), (''received_at'', PStr ''T1''), (''bundle_id'', PStr sample_hash),
           (''manifest_hash'', PStr sample_hash), (''sequence'', PInt 7)])]]),
     (''jobs'', PList (map (\<lambda>n. soak_job n True (PDict [(''coverage_complete'', PBool True)])) fast_stages
        @ [soak_job ''execution_contract'' False (PDict ((''execution_mode'', PStr ''fast'') # soak_hashes lineage_hash_fields)),
           soak_job ''execution_identity'' False (PDict (soak_hashes identity_fields)), soak_job ''upload'' False (PDict [])]))]"

definition soak_expected :: expected where
  "soak_expected = \<lparr> ex_session = 20000, ex_source_sha = ''c'', ex_config_hash = ''d'', ex_scope_hash = sample_hash,
     ex_deadlines = default_deadlines \<rparr>"

definition soak_slot :: "(progress \<times> slot_result) result" where
  "soak_slot = soak_slot_row soak_env soak_expected soak_ledger ''15:00'' start_progress"

lemma soak_slot_passes: "(case soak_slot of Inl _ \<Rightarrow> False | Inr (P, r) \<Rightarrow> sr_state r = SlotPass)"
  by code_simp

lemma soak_day: "iso_day 20000 = ''2024-10-04''"
  by code_simp

lemma soak_slot_missing:
  "slot \<noteq> ''15:00'' \<Longrightarrow> \<exists>r. soak_slot_row soak_env soak_expected soak_ledger slot P = Inr (P, r) \<and> sr_state r = SlotMissing"
  by (simp add: soak_slot_row_def ledger_rows_def rows_where_def pget_default_def soak_ledger_def soak_expected_def soak_day)

lemma soak_skip:
  assumes "''15:00'' \<notin> set ss" and "slot_rows soak_env soak_expected soak_ledger P rest = Inr rs"
  shows "\<exists>qs. slot_rows soak_env soak_expected soak_ledger P (ss @ rest) = Inr (qs @ rs) \<and> passing qs = []"
  using assms(1)
proof (induction ss)
  case Nil
  show ?case using assms(2) by (auto simp: passing_def)
next
  case (Cons s ss)
  then obtain qs where "slot_rows soak_env soak_expected soak_ledger P (ss @ rest) = Inr (qs @ rs)" "passing qs = []" by auto
  moreover obtain r where "soak_slot_row soak_env soak_expected soak_ledger s P = Inr (P, r)" "sr_state r = SlotMissing"
    using soak_slot_missing [of s P] Cons.prems by auto
  ultimately show ?case by (auto simp: passing_def intro!: exI [of _ "r # qs"])
qed

lemma soak_delivery:
  obtains D r where "delivery_check_of soak_env 20000 soak_ledger ''c'' ''d'' (Some sample_hash) default_deadlines = Inr D"
    "passing (dc_slots D) = [r]" "r \<in> set (dc_slots D)" "sr_slot r = ''15:00''" "sr_state r = SlotPass"
proof -
  obtain P r where r: "soak_slot_row soak_env soak_expected soak_ledger ''15:00'' start_progress = Inr (P, r)" "sr_state r = SlotPass"
    using soak_slot_passes by (auto simp: soak_slot_def split: sum.splits)
  have slots: "soak_slots = take 7 soak_slots @ ''15:00'' # drop 8 soak_slots" by (simp add: soak_slots_def)
  have later: "''15:00'' \<notin> set (drop 8 soak_slots)" "''15:00'' \<notin> set (take 7 soak_slots)" by (simp_all add: soak_slots_def)
  obtain qs where "slot_rows soak_env soak_expected soak_ledger P (drop 8 soak_slots) = Inr qs" "passing qs = []"
    using soak_skip [OF later(1), of P "[]" "[]"] by auto
  then have "slot_rows soak_env soak_expected soak_ledger start_progress (''15:00'' # drop 8 soak_slots) = Inr (r # qs)"
    using r by simp
  from soak_skip [OF later(2) this] \<open>passing qs = []\<close> obtain ps where
    rows: "slot_rows soak_env soak_expected soak_ledger start_progress soak_slots = Inr (ps @ r # qs)" "passing (ps @ r # qs) = [r]"
    using r(2) slots by (auto simp: passing_def)
  have "getd ''ledger_version'' PNone soak_ledger = Inr (PStr ''local-job-ledger-v1.1'')"
    by (simp add: getd_def pget_default_def soak_ledger_def)
  moreover have "hex_string 64 sample_hash" by code_simp
  ultimately have "delivery_check_of soak_env 20000 soak_ledger ''c'' ''d'' (Some sample_hash) default_deadlines
      = Inr \<lparr> dc_state = slots_state (ps @ r # qs), dc_slots = ps @ r # qs \<rparr>"
    using rows(1) by (simp add: delivery_check_of_def soak_expected_def)
  then show thesis
    by (rule that) (use rows(2) r(2) soak_slot_row_pass [OF r] in auto)
qed

theorem passed_slot_is_proven_witness:
  "\<exists>as a. pget ''attempts'' soak_ledger = PList as \<and> a \<in> set as \<and> pget ''slot_id'' a = PStr ''2024-10-04 15:00''
     \<and> receipt_proof soak_env a \<and> identities_hold ''c'' ''d'' (Some sample_hash) a
     \<and> timely soak_env 20000 default_deadlines ''15:00'' a \<and> stages_run soak_ledger ''15:00'' a"
proof -
  obtain D r where D: "delivery_check_of soak_env 20000 soak_ledger ''c'' ''d'' (Some sample_hash) default_deadlines = Inr D"
    and r: "r \<in> set (dc_slots D)" "sr_slot r = ''15:00''" "sr_state r = SlotPass" by (rule soak_delivery)
  show ?thesis using passed_slot_is_proven [OF D r(1,3)] r(2) soak_day by auto
qed

theorem accepted_slots_are_distinct_witness:
  "\<exists>D. delivery_check_of soak_env 20000 soak_ledger ''c'' ''d'' (Some sample_hash) default_deadlines = Inr D
     \<and> length (passing (dc_slots D)) = 1 \<and> distinct (map bundle_of (passing (dc_slots D)))"
proof -
  obtain D r where D: "delivery_check_of soak_env 20000 soak_ledger ''c'' ''d'' (Some sample_hash) default_deadlines = Inr D"
    and "passing (dc_slots D) = [r]" by (rule soak_delivery)
  then show ?thesis using accepted_slots_are_distinct [OF D] by auto
qed

section \<open>Accepted sessions\<close>

lemma list_ex_deltas:
  "list_ex (\<lambda>(_, ms). list_ex (\<lambda>(_, n). n \<noteq> 0) ms) (deltas_of left right)
     \<longleftrightarrow> (\<exists>t \<in> set research_tables. \<exists>m \<in> set soak_metrics. metric_of left t m \<noteq> metric_of right t m)"
  unfolding deltas_of_def list_ex_iff by force

text \<open>Passing is exactly equality of every counter of every table.\<close>

lemma zero_growth_exact:
  assumes "compare_cloud_captures E before after = CloudCompared s deltas b a"
  obtains left right where "cloud_tables E before = Inr left" "cloud_tables E after = Inr right" "same_database before after"
    "s = CheckPass \<longleftrightarrow> (\<forall>t \<in> set research_tables. \<forall>m \<in> set soak_metrics. metric_of left t m = metric_of right t m)"
proof -
  from assms obtain left right where p: "cloud_pair E before after = Inr (left, right)"
    by (auto simp: compare_cloud_captures_def split: sum.splits)
  with assms have "s = (if list_ex (\<lambda>(_, ms). list_ex (\<lambda>(_, n). n \<noteq> 0) ms) (deltas_of left right) then CheckFail else CheckPass)"
    by (simp add: compare_cloud_captures_def Let_def split: if_splits)
  then have "s = CheckPass \<longleftrightarrow> (\<forall>t \<in> set research_tables. \<forall>m \<in> set soak_metrics. metric_of left t m = metric_of right t m)"
    unfolding list_ex_deltas by auto
  moreover from p have "cloud_tables E before = Inr left" "cloud_tables E after = Inr right" "same_database before after"
    by (auto simp: cloud_pair_def)
  ultimately show thesis using that by blast
qed

lemma joint_state_pass: "joint_state ss = CheckPass \<longleftrightarrow> (\<forall>s \<in> set ss. s = CheckPass)"
  by (auto simp: joint_state_def list_all_iff)

lemma slots_state_pass: "slots_state rs = CheckPass \<longleftrightarrow> (\<forall>r \<in> set rs. sr_state r = SlotPass)"
  by (auto simp: slots_state_def list_all_iff list_ex_iff)

lemma slot_rows_length: "slot_rows E X L P ss = Inr rs \<Longrightarrow> length rs = length ss"
  by (induction ss arbitrary: P rs) auto

lemma delivery_pass:
  assumes "delivery_check_of E session L sha cfg scope_opt deadlines = Inr D" "dc_state D = CheckPass"
  shows "length (dc_slots D) = length soak_slots" "\<forall>r \<in> set (dc_slots D). sr_state r = SlotPass"
proof -
  obtain X where "slot_rows E X L start_progress soak_slots = Inr (dc_slots D)" "dc_state D = slots_state (dc_slots D)"
    by (rule delivery_rows [OF assms(1)]) (use assms(2) in simp, blast)
  with assms(2) show "length (dc_slots D) = length soak_slots" "\<forall>r \<in> set (dc_slots D). sr_state r = SlotPass"
    by (auto simp: slots_state_pass dest: slot_rows_length)
qed

text \<open>A session passes only on a confirmed trading day, with every slot passed, equal counters and
  unchanged services.\<close>

lemma passed_session:
  assumes "assess_session E S session C I deadlines as_of = Inr R" "sp_state R = CheckPass"
  obtains K d b a where "sp_checks R = Some K" "d_verified (decision S session)" "d_trade_day (decision S session)"
    "compare_cloud_captures E (sc_cloud_before C) (sc_cloud_after C) = CloudCompared CheckPass d b a"
    "sk_runtime K = RuntimePass" "sk_window K" "length (dc_slots (sk_delivery K)) = length soak_slots"
    "\<forall>r \<in> set (dc_slots (sk_delivery K)). sr_state r = SlotPass"
proof -
  from assms obtain now K where K: "session_checks E session C I (case deadlines of None \<Rightarrow> default_deadlines | Some ds \<Rightarrow> ds) now = Inr K"
    and R: "sp_checks R = Some K" "joint_state (check_states K) = CheckPass" and d: "d_actionable (decision S session)"
    by (auto simp: assess_session_def Let_def split: dtime.splits if_splits)
  from K obtain D where D: "delivery_check_of E session (sc_ledger C) (si_source_sha I) (si_config_hash I) (si_scope_hash I)
      (case deadlines of None \<Rightarrow> default_deadlines | Some ds \<Rightarrow> ds) = Inr D"
    and k: "sk_delivery K = D" "sk_cloud K = compare_cloud_captures E (sc_cloud_before C) (sc_cloud_after C)"
    by (auto simp: session_checks_def)
  from R(2) have p: "cloud_state (sk_cloud K) = CheckPass" "runtime_state (sk_runtime K) = CheckPass" "dc_state D = CheckPass" "sk_window K"
    by (auto simp: joint_state_pass check_states_def k(1) split: if_splits)
  obtain deltas b a where "sk_cloud K = CloudCompared CheckPass deltas b a" using p(1) by (cases "sk_cloud K") auto
  moreover have "sk_runtime K = RuntimePass" using p(2) by (cases "sk_runtime K") auto
  ultimately show thesis using that R(1) d p(4) delivery_pass [OF D p(3)] by (auto simp: d_actionable_def k)
qed

section \<open>Stored reports\<close>

inductive report_step :: "py_env \<Rightarrow> (string \<Rightarrow> int option) \<Rightarrow> report_dir \<Rightarrow> report_dir \<Rightarrow> bool" for E date_of where
  recorded: "record_stability E date_of report dir = Inr dir' \<Longrightarrow> report_step E date_of dir dir'"

inductive_cases report_stepE: "report_step E date_of dir dir'"

lemma getd_PNone: "getd k PNone v = Inr x \<Longrightarrow> x = pget k v"
  by (cases v) (auto simp: getd_def pget_default_def split: if_splits option.splits)

lemma store_report_cases:
  assumes "store_report E day report dir = Inr dir'"
  obtains "dir' = dir" | "dir' = dict_set day (Some report) dir" "map_of dir day = None"
  | prev where "dir' = dict_set day (Some report) dir" "map_of dir day = Some (Some prev)" "pget ''state'' prev \<noteq> PStr ''FAIL''"
      "pget ''state'' prev = PStr ''PASS'' \<Longrightarrow> pget ''state'' report = PStr ''FAIL''"
proof (cases "map_of dir day")
  case None
  with assms that show ?thesis by (auto simp: store_report_def write_report_def)
next
  case (Some v)
  with assms obtain prev where v: "v = Some prev" by (cases v) (auto simp: store_report_def)
  from assms Some v that show ?thesis
    by (auto simp: store_report_def write_report_def dest!: getd_PNone split: if_splits)
qed

text \<open>One recording leaves a failed day alone and replaces a passed day by a failed one at most.\<close>

lemma record_keeps:
  assumes "record_stability E date_of report dir = Inr dir'" "map_of dir name = Some (Some prev)"
  shows "(pget ''state'' prev = PStr ''FAIL'' \<longrightarrow> map_of dir' name = Some (Some prev))
    \<and> (pget ''state'' prev = PStr ''PASS'' \<longrightarrow> map_of dir' name = Some (Some prev)
      \<or> (\<exists>r. map_of dir' name = Some (Some r) \<and> pget ''state'' r = PStr ''FAIL''))"
proof -
  from assms(1) obtain v where v: "pindex report ''session'' = Inr v" by (auto simp: record_stability_def)
  with assms(1) obtain t where "v = PStr t" by (cases v) (auto simp: record_stability_def)
  with v obtain d where "store_report E (iso_day d) report dir = Inr dir'"
    using assms(1) by (cases "date_of t") (auto simp: record_stability_def)
  then show ?thesis by (cases rule: store_report_cases) (use assms(2) in \<open>auto simp: map_of_dict_set\<close>)
qed

text \<open>C24: whatever reports are recorded, in any order, a day stored as failed keeps its report for ever,
  and a day stored as passed keeps its report or becomes failed.\<close>

theorem stored_verdicts_stand:
  assumes "(report_step E date_of)\<^sup>*\<^sup>* dir dir'" and "map_of dir name = Some (Some prev)"
  shows "(pget ''state'' prev = PStr ''FAIL'' \<longrightarrow> map_of dir' name = Some (Some prev))
     \<and> (pget ''state'' prev = PStr ''PASS'' \<longrightarrow> map_of dir' name = Some (Some prev)
          \<or> (\<exists>r. map_of dir' name = Some (Some r) \<and> pget ''state'' r = PStr ''FAIL''))"
  using assms
proof (induction rule: rtranclp_induct)
  case base
  then show ?case by simp
next
  case (step d1 d2)
  from step.hyps(2) obtain report where "record_stability E date_of report d1 = Inr d2" by (rule report_stepE)
  then show ?case using step.IH [OF step.prems] record_keeps by blast
qed

definition day_report :: "string \<Rightarrow> pyval" where
  "day_report state = PDict [(''session'', PStr ''d''), (''report_version'', report_version), (''state'', PStr state)]"

theorem stored_verdicts_stand_witness:
  "\<exists>dir. report_step soak_env (\<lambda>_. Some 20000) [(''2024-10-04'', Some (day_report ''PASS''))] dir
     \<and> (\<exists>r. map_of dir ''2024-10-04'' = Some (Some r) \<and> pget ''state'' r = PStr ''FAIL'')"
proof -
  let ?dir = "[(''2024-10-04'', Some (day_report ''PASS''))]" and ?dir1 = "[(''2024-10-04'', Some (day_report ''FAIL''))]"
  have "\<exists>t. json_dumps soak_env (day_report ''FAIL'') = Inr t" by (simp add: day_report_def report_version_def)
  then have "record_stability soak_env (\<lambda>_. Some 20000) (day_report ''FAIL'') ?dir = Inr ?dir1"
    by (auto simp: record_stability_def store_report_def write_report_def day_report_def pindex_def getd_def pget_default_def soak_day)
  then have s: "report_step soak_env (\<lambda>_. Some 20000) ?dir ?dir1" by (rule recorded)
  have p: "map_of ?dir ''2024-10-04'' = Some (Some (day_report ''PASS''))" by simp
  have "pget ''state'' (day_report ''PASS'') = PStr ''PASS''" "day_report ''FAIL'' \<noteq> day_report ''PASS''" by (simp_all add: day_report_def)
  with stored_verdicts_stand [OF r_into_rtranclp [of "report_step soak_env (\<lambda>_. Some 20000)", OF s] p]
  have "\<exists>r. map_of ?dir1 ''2024-10-04'' = Some (Some r) \<and> pget ''state'' r = PStr ''FAIL''" by auto
  with s show ?thesis by blast
qed

section \<open>The summary\<close>

lemma filter_res_Inr: "filter_res f xs = Inr ys \<Longrightarrow> ys = filter (\<lambda>x. f x = Inr True) xs"
  by (induction xs arbitrary: ys) auto

lemma add_report_distinct:
  assumes "add_report item d = Inr d'" "distinct (map fst d)"
  shows "distinct (map fst d')"
proof (cases "pindex item ''session''")
  case (Inl e)
  with assms show ?thesis by (auto simp: add_report_def split: if_splits)
next
  case (Inr s)
  with assms show ?thesis by (cases s) (auto simp: add_report_def distinct_dict_set split: if_splits)
qed

lemma by_day_distinct: "by_day reports = Inr days \<Longrightarrow> distinct (map fst days)"
  unfolding by_day_def
  by (rule foldr_result_invariant [where P = "\<lambda>d. distinct (map fst d)"]) (auto intro: add_report_distinct)

text \<open>The summary passes only on two different passed days and when no day failed.\<close>

lemma summary_pass:
  assumes "summarize_stability E reports = Inr Z" "ss_state Z = CheckPass"
  shows "2 \<le> length (ss_days Z)" "distinct (ss_days Z)" "\<forall>(d, v) \<in> set (ss_sessions Z). v \<noteq> PStr ''FAIL''"
proof -
  let ?key = "\<lambda>(_, item). bindr (pindex item ''identity'') (json_dumps E)"
  obtain days where d: "by_day reports = Inr days" using assms(1) by (cases "by_day reports") (auto simp: summarize_stability_def)
  obtain passing_days where p: "filter_res (\<lambda>(_, item). eligible item) days = Inr passing_days"
    using assms(1) d by (cases "filter_res (\<lambda>(_, item). eligible item) days") (simp_all add: summarize_stability_def)
  obtain ids where "mapr ?key passing_days = Inr ids"
    using assms(1) d p by (cases "mapr ?key passing_days") (simp_all add: summarize_stability_def)
  with assms(1) d p have Z: "Z = \<lparr> ss_state = (if list_ex (\<lambda>(_, item). pget ''state'' item = PStr ''FAIL'') days then CheckFail
                       else if 2 \<le> length passing_days \<and> length (remdups ids) = 1 then CheckPass else CheckPartial),
           ss_days = sort (map fst passing_days),
           ss_sessions = map (\<lambda>(k, item). (k, pget ''state'' item)) (sort_key fst days) \<rparr>"
    by (simp add: summarize_stability_def)
  from Z assms(2) have s: "\<not> list_ex (\<lambda>(_, item). pget ''state'' item = PStr ''FAIL'') days" "2 \<le> length passing_days"
    by (auto split: if_splits)
  show "2 \<le> length (ss_days Z)" using s by (simp add: Z)
  show "distinct (ss_days Z)" using filter_res_Inr [OF p] by_day_distinct [OF d] by (simp add: Z distinct_map_filter)
  show "\<forall>(d, v) \<in> set (ss_sessions Z). v \<noteq> PStr ''FAIL''" using s(1) by (auto simp: Z list_ex_iff)
qed

end
