(* ===== verification/Identity_Registry.thy ===== *)
theory Identity_Registry
  imports Display_Reader
begin

text \<open>
  The approved producer identities of \<^verbatim>\<open>app/workspace/bundle_identity.py\<close> and the forecast horizons
  of \<^verbatim>\<open>app/utils/horizons.py\<close>: two configurations that are checked in full before they are used.
  \<^verbatim>\<open>date.fromisoformat\<close> and \<^verbatim>\<open>int()\<close> of a configured value are arguments; a day is its number.
\<close>

section \<open>Identities\<close>

type_synonym date_parser = "string \<Rightarrow> int option"

definition registry_version :: pyval where
  "registry_version = PStr ''bundle-producer-identities-v1''"

definition hex_text :: "nat \<Rightarrow> pyval \<Rightarrow> bool" where
  "hex_text n v = (case v of PStr s \<Rightarrow> hex_string n s | _ \<Rightarrow> False)"

definition approval_day :: "date_parser \<Rightarrow> pyval \<Rightarrow> int result" where
  "approval_day P v = (case v of
       PStr s \<Rightarrow> (case P s of Some d \<Rightarrow> Inr d | None \<Rightarrow> Inl (ValueError ''invalid approval date''))
     | _ \<Rightarrow> Inl (ValueError ''invalid approval date''))"

definition superseded_ok :: "pyval \<Rightarrow> unit result" where
  "superseded_ok entry = bindr (py_iter (por (pget ''superseded'' entry) (PList []))) (\<lambda>priors.
     raise_if (\<not> list_all (\<lambda>p. is_dict p \<and> hex_text 40 (pget ''code_sha'' p)) priors) (ValueError ''invalid superseded identity'') (Inr ()))"

text \<open>The loop over the entries, with the pairs seen and the day of the one before.\<close>

fun check_entries :: "date_parser \<Rightarrow> (pyval \<times> pyval) list \<Rightarrow> int option \<Rightarrow> pyval list \<Rightarrow> unit result" where
  "check_entries P seen previous [] = Inr ()"
| "check_entries P seen previous (entry # rest) =
     raise_if (\<not> is_dict entry) (ValueError ''invalid identity entry'')
     (let code_sha = pget ''code_sha'' entry; config_hash = pget ''config_hash'' entry
      in raise_if (\<not> hex_text 40 code_sha) (ValueError ''invalid producer code_sha'')
         (raise_if (\<not> hex_text 64 config_hash) (ValueError ''invalid producer config_hash'')
         (bindr (approval_day P (pget ''approved_at'' entry)) (\<lambda>approved.
          raise_if (case previous of None \<Rightarrow> False | Some p \<Rightarrow> approved < p)
            (ValueError ''registry identities must be ordered by approval date'')
          (raise_if ((code_sha, config_hash) \<in> set seen) (ValueError ''duplicate producer identity'')
          (bindr (superseded_ok entry) (\<lambda>_.
           check_entries P ((code_sha, config_hash) # seen) (Some approved) rest)))))))"

definition validate_registry :: "date_parser \<Rightarrow> pyval \<Rightarrow> pyval list result" where
  "validate_registry P data =
     raise_if (\<not> is_dict data \<or> pget ''registry_version'' data \<noteq> registry_version) (ValueError ''invalid bundle identity registry version'')
     (case pget ''identities'' data of
        PList es \<Rightarrow> raise_if (es = []) (ValueError ''registry requires at least one approved identity'')
          (bindr (check_entries P [] None es) (\<lambda>_. Inr es))
      | _ \<Rightarrow> Inl (ValueError ''registry requires at least one approved identity''))"

text \<open>\<^verbatim>\<open>load_identities(path)\<close>: the file's text has been read, \<open>loads\<close> is \<^verbatim>\<open>json.loads\<close>.\<close>

definition load_identities :: "date_parser \<Rightarrow> (string \<Rightarrow> pyval option) \<Rightarrow> string \<Rightarrow> pyval list result" where
  "load_identities P loads raw = (case loads raw of
       None \<Rightarrow> Inl (ValueError ''invalid JSON'') | Some data \<Rightarrow> validate_registry P data)"

definition approved_identity ::
  "date_parser \<Rightarrow> (string \<Rightarrow> pyval option) \<Rightarrow> string \<Rightarrow> string \<Rightarrow> string \<Rightarrow> pyval option result" where
  "approved_identity P loads raw code_sha config_hash = bindr (load_identities P loads raw) (\<lambda>es.
     Inr (List.find (\<lambda>e. pget ''code_sha'' e = PStr code_sha \<and> pget ''config_hash'' e = PStr config_hash) es))"

definition current_identity :: "date_parser \<Rightarrow> (string \<Rightarrow> pyval option) \<Rightarrow> string \<Rightarrow> pyval result" where
  "current_identity P loads raw = bindr (load_identities P loads raw) (\<lambda>es. Inr (last es))"

definition check_expected_identity ::
  "date_parser \<Rightarrow> (string \<Rightarrow> pyval option) \<Rightarrow> string \<Rightarrow> string \<Rightarrow> string \<Rightarrow> pyval result" where
  "check_expected_identity P loads raw code_sha config_hash =
     bindr (approved_identity P loads raw code_sha config_hash) (\<lambda>entry.
     Inr (PDict [(''status'', PStr (if (case entry of None \<Rightarrow> False | Some e \<Rightarrow> truthy e) then ''approved'' else ''unregistered'')),
       (''code_sha'', PStr code_sha), (''config_hash'', PStr config_hash),
       (''approved_at'', case entry of Some e \<Rightarrow> if truthy e then pget ''approved_at'' e else PNone | None \<Rightarrow> PNone)]))"

text \<open>What a valid registry guarantees: distinct identities, in the order of their approval.\<close>

definition identity_pair :: "pyval \<Rightarrow> pyval \<times> pyval" where
  "identity_pair e = (pget ''code_sha'' e, pget ''config_hash'' e)"

definition approved_on :: "date_parser \<Rightarrow> pyval \<Rightarrow> int" where
  "approved_on P e = (case approval_day P (pget ''approved_at'' e) of Inr d \<Rightarrow> d | Inl _ \<Rightarrow> 0)"

lemma check_entries_ok:
  assumes "check_entries P seen previous es = Inr ()"
  shows "distinct (map identity_pair es) \<and> set (map identity_pair es) \<inter> set seen = {} \<and> sorted (map (approved_on P) es)
     \<and> (\<forall>e \<in> set es. is_dict e \<and> hex_text 40 (pget ''code_sha'' e) \<and> hex_text 64 (pget ''config_hash'' e))
     \<and> (case previous of None \<Rightarrow> True | Some p \<Rightarrow> \<forall>e \<in> set es. p \<le> approved_on P e)"
  using assms
proof (induction P seen previous es rule: check_entries.induct)
  case (2 P seen previous entry rest)
  let ?pair = "(pget ''code_sha'' entry, pget ''config_hash'' entry)"
  from "2.prems" obtain d where d: "approval_day P (pget ''approved_at'' entry) = Inr d"
    and c: "is_dict entry" "hex_text 40 (pget ''code_sha'' entry)" "hex_text 64 (pget ''config_hash'' entry)"
      "\<not> (case previous of None \<Rightarrow> False | Some p \<Rightarrow> d < p)" "?pair \<notin> set seen"
    and sup: "superseded_ok entry = Inr ()" and rest: "check_entries P (?pair # seen) (Some d) rest = Inr ()"
    by (auto simp: Let_def simp del: pget.simps)
  note ih = "2.IH" [OF refl refl d sup rest]
  have "approved_on P entry = d" by (simp add: approved_on_def d)
  with c ih show ?case by (auto simp: identity_pair_def split: option.splits)
qed (auto split: option.splits)

lemma registry_ordered:
  assumes "validate_registry P data = Inr es"
  shows "es \<noteq> []" "distinct (map identity_pair es)" "sorted (map (approved_on P) es)" "\<And>e. e \<in> set es \<Longrightarrow> is_dict e \<and> truthy e"
proof -
  from assms obtain xs where x: "pget ''identities'' data = PList xs" by (auto simp: validate_registry_def split: pyval.splits)
  with assms have e: "es \<noteq> []" "check_entries P [] None es = Inr ()" by (auto simp: validate_registry_def)
  note ok = check_entries_ok [OF e(2)]
  show "es \<noteq> []" "distinct (map identity_pair es)" "sorted (map (approved_on P) es)" using e(1) ok by simp_all
  fix x assume "x \<in> set es"
  with ok have "is_dict x" "hex_text 40 (pget ''code_sha'' x)" by blast+
  then show "is_dict x \<and> truthy x" by (cases x) (auto simp: hex_text_def split: option.splits)
qed

text \<open>The deploy gate approves exactly the registered pairs, and names the approval of the one entry that has the pair.\<close>

lemma expected_identity_exact:
  assumes "load_identities P loads raw = Inr es"
  shows "\<exists>r. check_expected_identity P loads raw sha h = Inr r
     \<and> (pget ''status'' r = PStr ''approved'' \<longleftrightarrow> (PStr sha, PStr h) \<in> set (map identity_pair es))
     \<and> (\<forall>e \<in> set es. identity_pair e = (PStr sha, PStr h) \<longrightarrow> pget ''approved_at'' r = pget ''approved_at'' e)"
proof -
  from assms obtain data where "validate_registry P data = Inr es" by (auto simp: load_identities_def split: option.splits)
  note reg = registry_ordered [OF this]
  let ?Q = "\<lambda>e. pget ''code_sha'' e = PStr sha \<and> pget ''config_hash'' e = PStr h"
  have Q: "?Q e \<longleftrightarrow> identity_pair e = (PStr sha, PStr h)" for e by (simp add: identity_pair_def)
  show ?thesis
  proof (cases "List.find ?Q es")
    case None
    then have "\<forall>e \<in> set es. identity_pair e \<noteq> (PStr sha, PStr h)" using Q by (auto simp: find_None_iff)
    then have "(PStr sha, PStr h) \<notin> set (map identity_pair es)" by auto
    with None \<open>\<forall>e \<in> set es. _ e\<close> show ?thesis by (simp add: check_expected_identity_def approved_identity_def assms)
  next
    case (Some e)
    then have e: "e \<in> set es" "identity_pair e = (PStr sha, PStr h)" using Q by (auto simp: find_Some_iff)
    have one: "x = e" if "x \<in> set es" "identity_pair x = (PStr sha, PStr h)" for x
      by (rule inj_onD [of identity_pair "set es"]) (use reg(2) e that in \<open>simp_all add: distinct_map\<close>)
    have "(PStr sha, PStr h) \<in> set (map identity_pair es)" using e by force
    with Some reg(4) [OF e(1)] one show ?thesis
      by (auto simp: check_expected_identity_def approved_identity_def assms simp del: pget.simps) auto
  qed
qed

section \<open>Horizons\<close>

text \<open>\<^verbatim>\<open>normalize_horizons\<close>: the first of each value stays where it is; \<open>to_int\<close> is \<^verbatim>\<open>int()\<close>.\<close>

fun keep_new :: "(pyval \<Rightarrow> int result) \<Rightarrow> int list \<Rightarrow> pyval list \<Rightarrow> int list result" where
  "keep_new to_int out [] = Inr out"
| "keep_new to_int out (raw # rest) = bindr (to_int raw) (\<lambda>n.
     raise_if (n \<le> 0) (ValueError ''prediction horizons must be positive'')
       (keep_new to_int (if n \<in> set out then out else out @ [n]) rest))"

definition normalize_horizons :: "(pyval \<Rightarrow> int result) \<Rightarrow> pyval \<Rightarrow> int list result" where
  "normalize_horizons to_int values =
     bindr (if values = PNone then Inr (map PInt research_horizons) else py_iter values) (\<lambda>source.
     bindr (keep_new to_int [] source) (\<lambda>out.
     raise_if (out = []) (ValueError ''at least one prediction horizon is required'') (Inr out)))"

definition section_horizons :: "(pyval \<Rightarrow> int result) \<Rightarrow> pyval \<Rightarrow> string \<Rightarrow> int list result" where
  "section_horizons to_int strategy name = bindr (getd name (PDict []) strategy) (\<lambda>config.
     normalize_horizons to_int (if is_dict config then pget ''horizons'' config else PNone))"

definition aligned_research_horizons :: "(pyval \<Rightarrow> int result) \<Rightarrow> pyval \<Rightarrow> int list result" where
  "aligned_research_horizons to_int strategy =
     bindr (section_horizons to_int strategy ''forecast'') (\<lambda>forecast.
     bindr (section_horizons to_int strategy ''factor_analysis'') (\<lambda>factors.
     raise_if (forecast \<noteq> factors) (ValueError ''forecast.horizons and factor_analysis.horizons must match'') (Inr forecast)))"

lemma keep_new_ok:
  assumes "keep_new to_int out raws = Inr hs" "distinct out" "\<forall>n \<in> set out. 0 < n"
  shows "distinct hs \<and> (\<forall>n \<in> set hs. 0 < n) \<and> (\<exists>more. hs = out @ more)"
  using assms
proof (induction to_int out raws rule: keep_new.induct)
  case (2 to_int out raw rest)
  then obtain n where n: "to_int raw = Inr n" "0 < n" "keep_new to_int (if n \<in> set out then out else out @ [n]) rest = Inr hs"
    by (auto simp: not_le)
  have "distinct hs \<and> (\<forall>m \<in> set hs. 0 < m) \<and> (\<exists>more. hs = (if n \<in> set out then out else out @ [n]) @ more)"
    by (rule "2.IH" [OF n(1,3)]) (use n(2) "2.prems"(2,3) in \<open>simp_all split: if_splits\<close>)
  then show ?case by (cases "n \<in> set out") auto
qed simp

text \<open>Aligned horizons are non-empty, distinct and positive, and the same in both sections.\<close>

lemma normalize_horizons_ok:
  assumes "normalize_horizons to_int values = Inr hs"
  shows "hs \<noteq> [] \<and> distinct hs \<and> (\<forall>n \<in> set hs. 0 < n)"
proof -
  from assms obtain source where "keep_new to_int [] source = Inr hs" "hs \<noteq> []"
    unfolding normalize_horizons_def bindr_eq_Inr raise_if_simps by blast
  with keep_new_ok [of to_int "[]" source hs] show ?thesis by simp
qed

lemma aligned_horizons_ok:
  assumes "aligned_research_horizons to_int strategy = Inr hs"
  shows "section_horizons to_int strategy ''forecast'' = Inr hs" "section_horizons to_int strategy ''factor_analysis'' = Inr hs"
    "hs \<noteq> [] \<and> distinct hs \<and> (\<forall>n \<in> set hs. 0 < n)"
proof -
  show f: "section_horizons to_int strategy ''forecast'' = Inr hs" and "section_horizons to_int strategy ''factor_analysis'' = Inr hs"
    using assms unfolding aligned_research_horizons_def bindr_eq_Inr raise_if_simps by auto
  from f obtain v where "normalize_horizons to_int v = Inr hs" unfolding section_horizons_def bindr_eq_Inr by blast
  then show "hs \<noteq> [] \<and> distinct hs \<and> (\<forall>n \<in> set hs. 0 < n)" by (rule normalize_horizons_ok)
qed

end
