(* ===== verification/Spec2Isabelle.thy ===== *)
theory Spec2Isabelle
  imports Ledger_Props Chunk_Props Time_Split Chart_Tools Exec_Props Reader_Props Shadow_Props Grade_Props Outcome_Props Reconcile_Props Stability_Props Identity_Registry
begin

text \<open>
  \<^bold>\<open>What is verified.\<close> The repository is a research workbench for Chinese exchange-traded funds. A local
  machine computes boards, details and charts on a schedule, keeps a durable ledger of its runs, projects
  the results to public packages and uploads them in chunks; a server stages the chunks, publishes the
  assembled packages as immutable generations and serves pages from them; an evening job reconciles what
  was sent with the receipts. This development models that path from the schedule to the page, together
  with the pure engines behind the content: time splits, chart geometry, setup counts, indicator grades
  and the constrained replay of orders. Paths below are under \<^verbatim>\<open>src/backend/app/\<close>.

  \<^bold>\<open>How the parts interact.\<close> \<^verbatim>\<open>workspace/local_schedule.py\<close> and \<^verbatim>\<open>refresh_policy.py\<close> say which slot is due;
  \<^verbatim>\<open>local_job_ledger.py\<close> plans and claims it, records jobs, exports and receipts, and hands out uploads to
  repeat; \<^verbatim>\<open>shadow_projection.py\<close> and \<^verbatim>\<open>local_display_contract.py\<close> make and check the package;
  \<^verbatim>\<open>shadow_client.py\<close> and \<^verbatim>\<open>shadow_chunks.py\<close> carry it over under the lock and the disk budget of
  \<^verbatim>\<open>sync_domain.py\<close>; \<^verbatim>\<open>local_display_read.py\<close> stores and reads it, for the identity that
  \<^verbatim>\<open>bundle_identity.py\<close> approves; \<^verbatim>\<open>local_reconcile.py\<close> compares outbox and receipts.

  \<^bold>\<open>Foundations.\<close>
  \<^item> \<open>Py_Prelude\<close>: errors as a sum type with its monad, tables as lists of rows, dicts as association lists,
    and the locale \<open>invariant_system\<close> (a start predicate, a step relation and an invariant), in which
    reachability and induction over runs are proved once. The ledger, the chunk store and the run lock
    interpret it.
  \<^item> \<open>Py_Values\<close>: IEEE double precision by exact rationals with one rounding, dynamically typed JSON values,
    texts as their UTF-8 bytes (case folding and stripping are ASCII), canonical JSON and digests of
    \<^verbatim>\<open>shadow_bundle.py\<close>.

  \<^bold>\<open>Schedule and calendar.\<close> \<open>Market_Time\<close> has the Shanghai clock, \<^verbatim>\<open>services/trading_calendar_service.py\<close>,
  the settled session of \<^verbatim>\<open>services/settlement.py\<close>, refresh cadences and slots; \<open>Market_Props\<close> proves when
  a slot is due and what the effective trade date is.

  \<^bold>\<open>Job ledger.\<close> \<open>Job_Ledger\<close> has one record per table of \<^verbatim>\<open>local_job_ledger.py\<close> and one definition per
  method, with the queries as list functions. \<open>Ledger_Inv\<close>, \<open>Ledger_Steps\<close> and \<open>Ledger_Slots\<close> prove the
  invariant over the step relation \<open>ledger_step\<close>; \<open>Ledger_Props\<close> has the properties: the invariant, the
  state machine every attempt follows, bound deliveries, closed slots, claimable plans, valid replays,
  exhausted uploads, recovery and the bound on attempts.

  \<^bold>\<open>Contract and projection.\<close> \<open>Display_Contract\<close> validates manifests, bundles, charts and receipts and projects
  charts; \<open>Display_Props\<close> proves the privacy scan exact, accepted bundles public, causal and equal to their
  manifest, and projected charts public.

  \<^bold>\<open>Transport.\<close> \<open>Sync_Domain\<close> has the run lock, the writer lock and the budget; \<open>Shadow_Chunks\<close> splitting,
  staging, collection, assembly and commit; \<open>Chunk_Inv\<close> and \<open>Chunk_Props\<close> the staging invariant, the upload
  round trip, idempotent commits and write-once chunks.

  \<^bold>\<open>Generations and pages.\<close> \<open>Display_Store\<close> is \<^verbatim>\<open>LocalDisplayStore\<close> with pointers, acceptance history,
  eviction, rollback and the cache; \<open>Store_Props\<close> proves that an accepted publication is read back as
  published, that a failed one is invisible, and that the cache changes nothing. \<open>Display_Reader\<close> is
  \<^verbatim>\<open>LocalDisplayReader\<close>; \<open>Reader_Props\<close> states what the reader needs of its source as the locale
  \<open>verified_source\<close>, provides it by the store, and proves that served pages are public, that real-time
  quotes are fresh and of the running identity, and that no stored generation makes a page raise.
  \<open>Shadow_Store\<close> is the first bundle contract of \<^verbatim>\<open>shadow_bundle.py\<close> with its store; \<open>Shadow_Props\<close> proves
  that its collector, whatever it removes, leaves the generations both pointers name as they were read.
  \<open>Identity_Registry\<close> has the approved producers and the forecast horizons of \<^verbatim>\<open>utils/horizons.py\<close>.

  \<^bold>\<open>Reconciliation and outcomes.\<close> \<open>Local_Reconcile\<close> and \<open>Reconcile_Props\<close>: a match is proven by its receipt,
  a matured return lies exactly its horizon after the base day and rests on settled bars.
  \<open>Local_Stability\<close> and \<open>Stability_Props\<close>: \<^verbatim>\<open>local_stability.py\<close>, the acceptance of a session, where a
  passed slot is proven by its delivery, accepted slots are distinct, passing captures have equal
  counters, and a failed day stays failed. \<open>Task_Outcome\<close>
  and \<open>Outcome_Props\<close>: \<^verbatim>\<open>services/task_outcome.py\<close>, where no task succeeds by default.

  \<^bold>\<open>Engines.\<close> \<open>Time_Split\<close> (\<^verbatim>\<open>utils/time_split.py\<close>, purge and embargo), \<open>Chan_Structure\<close>
  (\<^verbatim>\<open>utils/chan_structure.py\<close>), \<open>Chart_Tools\<close> (\<^verbatim>\<open>utils/td_sequential.py\<close>, \<^verbatim>\<open>utils/prior_range.py\<close>),
  \<open>Event_Execution\<close> and \<open>Exec_Props\<close> (\<^verbatim>\<open>services/constrained_event_execution.py\<close>, lots that settle a day
  later), \<open>Signal_Grade\<close> and \<open>Grade_Props\<close> (\<^verbatim>\<open>utils/indicator_state.py\<close> and the grade of
  \<^verbatim>\<open>services/signal_grade_service.py\<close>).

  \<^bold>\<open>Termination, bounds and fuel.\<close> Every definition is total. Loops over lists are structural; the segment
  loops, the affordable-lot loop, decimal printing and the nested normalisation have measures. The
  calendar searches keep the source's own bounds (30 and 40 days), the locks the source's own retry
  counts, so no fuel is added that the code does not have.

  \<^bold>\<open>Parameters.\<close> Arguments of the definitions stand for what is not repository code: SHA-256, gzip,
  \<^verbatim>\<open>json.loads\<close>, \<^verbatim>\<open>float.__repr__\<close>, number parsing, \<^verbatim>\<open>datetime.fromisoformat\<close> and \<^verbatim>\<open>date.fromisoformat\<close>, the built-in
  \<^verbatim>\<open>sum\<close> over floats, pandas' coercion and sorting, the exchange calendar, which file writes fail and
  which lock tries are refused. Properties that rely on their behaviour name it as a hypothesis, for
  example that a digest has 64 hexadecimal digits or that the parser reads back what was written, and
  have a witness with a concrete instance.

  \<^bold>\<open>Conventions.\<close> Instants are microseconds since 1970 in UTC and Shanghai is UTC+8, as since 1991. A clock
  is read once per chunk call. The order of keys in a dict is kept but never observed. Labels in Chinese
  are constructors or their UTF-8 bytes. An int that meets a float in the execution engine is converted
  with saturation.

  \<^bold>\<open>Not modelled.\<close> Market data providers, HTTP routes, authentication, language models, mail, optical
  recognition and archives: they are clients of outside services. Database entities and migrations:
  declarations without logic. Indicator formulas, forecasts, factor studies and portfolio optimisation:
  vectorised pandas, numpy and scikit-learn code whose meaning is that of the libraries. Local compute,
  the read model and the decision board: assembly of queries around the parts modelled here. Of modelled
  files: failing file writes in the store of \<^verbatim>\<open>shadow_bundle.py\<close>, failing removals during an eviction and
  the bytes of the lock files in the disk budget, the transport in \<^verbatim>\<open>shadow_client.py\<close>, the MACD cell of
  the indicator views, the queries of \<^verbatim>\<open>settlement.py\<close> and \<^verbatim>\<open>signal_grade_service.py\<close>, and the fixed labels of the execution summary.
\<close>

end
